(* ===== verification/Mdm_Prelude.thy ===== *)
theory Mdm_Prelude
  imports Main "HOL-Library.Word" "HOL-Library.List_Lexorder" "HOL-Library.Char_ord"
    "HOL-Library.Product_Lexorder" "HOL-Library.Option_ord" "HOL-Library.Sublist"
begin

text \<open>
  The shared layer of the development: what every component uses of the Rust language and its
  standard library.

  \<^item> Results. A fallible operation returns \<open>('e, 'a) result\<close>, the sum of a fault and a value.
    A fault is either an error value of the operation (\<open>Fail e\<close>) or a panic (\<open>Panic\<close>):
    \<^verbatim>\<open>unreachable!\<close>, \<^verbatim>\<open>expect\<close>, a failing index or an arithmetic overflow. The question mark
    operator is \<open>bind_res\<close>, a \<^verbatim>\<open>for\<close> loop whose body may return early is \<open>fold_res\<close>.
  \<^item> Integers. \<open>u64\<close>, \<open>usize\<close> (the 64-bit targets) and \<open>i64\<close> as \<open>nat\<close> or \<open>int\<close> with their checked
    and saturating operations written out.
  \<^item> Text. A \<^verbatim>\<open>String\<close> is the list of its UTF-8 bytes (so \<^verbatim>\<open>len\<close> is \<open>length\<close> and the order of
    strings is the lexicographic order of bytes); \<open>str_chars\<close> decodes it for the character tests.
  \<^item> Ordered collections. \<^verbatim>\<open>BTreeMap\<close> and \<^verbatim>\<open>BTreeSet\<close> are strictly sorted lists, so that the
    iteration order of the code is the order of the list. The locale \<open>keyed_store\<close> is the
    interface a client of such a map relies on.
\<close>

named_theorems res_simps \<open>equations of the result combinators\<close>
named_theorems no_panic_intros \<open>rules for the absence of panics\<close>

section \<open>Results\<close>

datatype 'e fault = Fail 'e | Panic

type_synonym ('e, 'a) result = "'e fault + 'a"

definition bind_res :: "('e, 'a) result \<Rightarrow> ('a \<Rightarrow> ('e, 'b) result) \<Rightarrow> ('e, 'b) result" where
  "bind_res m f = (case m of Inl e \<Rightarrow> Inl e | Inr a \<Rightarrow> f a)"

definition ensure :: "bool \<Rightarrow> 'e \<Rightarrow> ('e, unit) result" where
  "ensure b e = (if b then Inr () else Inl (Fail e))"

text \<open>\<^verbatim>\<open>ok_or\<close>.\<close>

definition ok_or :: "'e \<Rightarrow> 'a option \<Rightarrow> ('e, 'a) result" where
  "ok_or e x = (case x of None \<Rightarrow> Inl (Fail e) | Some a \<Rightarrow> Inr a)"

text \<open>A value whose absence is a panic: \<^verbatim>\<open>expect\<close>, an index, an \<^verbatim>\<open>unreachable!\<close> arm.\<close>

definition or_panic :: "'a option \<Rightarrow> ('e, 'a) result" where
  "or_panic x = (case x of None \<Rightarrow> Inl Panic | Some a \<Rightarrow> Inr a)"

fun fold_res :: "('x \<Rightarrow> 's \<Rightarrow> ('e, 's) result) \<Rightarrow> 'x list \<Rightarrow> 's \<Rightarrow> ('e, 's) result" where
  "fold_res f [] s = Inr s"
| "fold_res f (x # xs) s = bind_res (f x s) (fold_res f xs)"

definition no_panic :: "('e, 'a) result \<Rightarrow> bool" where
  "no_panic m \<longleftrightarrow> m \<noteq> Inl Panic"

definition is_ok :: "('e, 'a) result \<Rightarrow> bool" where
  "is_ok m \<longleftrightarrow> (case m of Inl _ \<Rightarrow> False | Inr _ \<Rightarrow> True)"

lemma bind_res_simps [simp, res_simps]:
  "bind_res (Inl e) f = Inl e" "bind_res (Inr a) f = f a"
  by (simp_all add: bind_res_def)

lemma bind_res_cong [fundef_cong]:
  "m = m' \<Longrightarrow> (\<And>a. m' = Inr a \<Longrightarrow> f a = f' a) \<Longrightarrow> bind_res m f = bind_res m' f'"
  by (cases m') simp_all

lemma bind_res_Inr_conv [simp]:
  "bind_res m f = Inr b \<longleftrightarrow> (\<exists>a. m = Inr a \<and> f a = Inr b)"
  by (cases m) auto

lemma bind_res_Inl_conv:
  "bind_res m f = Inl e \<longleftrightarrow> m = Inl e \<or> (\<exists>a. m = Inr a \<and> f a = Inl e)"
  by (cases m) auto

lemma bind_res_assoc: "bind_res (bind_res m f) g = bind_res m (\<lambda>x. bind_res (f x) g)"
  by (cases m) simp_all

lemma ensure_simps [simp, res_simps]:
  "ensure True e = Inr ()" "ensure False e = Inl (Fail e)"
  "ensure b e = Inr u \<longleftrightarrow> b" "ensure b e = Inl x \<longleftrightarrow> \<not> b \<and> x = Fail e"
  by (auto simp: ensure_def)

lemma ok_or_simps [simp, res_simps]:
  "ok_or e None = Inl (Fail e)" "ok_or e (Some a) = Inr a"
  "ok_or e x = Inr b \<longleftrightarrow> x = Some b" "ok_or e x = Inl y \<longleftrightarrow> x = None \<and> y = Fail e"
  by (auto simp: ok_or_def split: option.splits)

lemma or_panic_simps [simp, res_simps]:
  "or_panic None = Inl Panic" "or_panic (Some a) = Inr a"
  "or_panic x = Inr b \<longleftrightarrow> x = Some b" "or_panic x = Inl y \<longleftrightarrow> x = None \<and> y = Panic"
  by (auto simp: or_panic_def split: option.splits)

lemma is_ok_simps [simp]: "is_ok (Inr a)" "\<not> is_ok (Inl e)"
  by (simp_all add: is_ok_def)

lemma is_ok_conv: "is_ok m \<longleftrightarrow> (\<exists>a. m = Inr a)"
  by (cases m) auto

subsection \<open>Absence of panics\<close>

lemma no_panic_simps [simp]:
  "no_panic (Inr a)" "no_panic (Inl (Fail e))" "\<not> no_panic (Inl Panic)"
  by (simp_all add: no_panic_def)

lemma no_panic_ensure [simp, no_panic_intros]: "no_panic (ensure b e)"
  by (simp add: ensure_def)

lemma no_panic_ok_or [simp, no_panic_intros]: "no_panic (ok_or e x)"
  by (simp add: ok_or_def split: option.splits)

lemma no_panic_bind [no_panic_intros]:
  "no_panic m \<Longrightarrow> (\<And>a. m = Inr a \<Longrightarrow> no_panic (f a)) \<Longrightarrow> no_panic (bind_res m f)"
  by (cases m) (auto simp: no_panic_def)

lemma no_panic_if [no_panic_intros]:
  "(b \<Longrightarrow> no_panic m) \<Longrightarrow> (\<not> b \<Longrightarrow> no_panic n) \<Longrightarrow> no_panic (if b then m else n)"
  by simp

subsection \<open>Loops with early return\<close>

lemma fold_res_cong [fundef_cong]:
  "xs = ys \<Longrightarrow> s = t \<Longrightarrow> (\<And>x u. x \<in> set ys \<Longrightarrow> f x u = g x u) \<Longrightarrow> fold_res f xs s = fold_res g ys t"
proof (induction ys arbitrary: xs s t)
  case Nil
  then show ?case by simp
next
  case (Cons y ys)
  then have "fold_res f ys = fold_res g ys" by (intro ext) simp
  with Cons.prems show ?case by simp
qed

lemma fold_res_append:
  "fold_res f (xs @ ys) s = bind_res (fold_res f xs s) (fold_res f ys)"
  by (induction xs arbitrary: s) (simp_all add: bind_res_assoc cong: bind_res_cong)

lemma fold_res_invariant:
  assumes "fold_res f xs s = Inr t" "P s"
    and "\<And>x u v. x \<in> set xs \<Longrightarrow> P u \<Longrightarrow> f x u = Inr v \<Longrightarrow> P v"
  shows "P t"
  using assms
proof (induction xs arbitrary: s)
  case Nil
  then show ?case by simp
next
  case (Cons x xs)
  from Cons.prems(1) obtain u where u: "f x s = Inr u" "fold_res f xs u = Inr t" by auto
  have "P u" by (rule Cons.prems(3) [OF _ Cons.prems(2) u(1)]) simp
  with u(2) show ?case by (rule Cons.IH) (rule Cons.prems(3), auto)
qed

lemma fold_res_each:
  assumes "fold_res f xs s = Inr t" "x \<in> set xs"
  obtains u v where "f x u = Inr v"
  using assms by (induction xs arbitrary: s) auto

lemma fold_res_no_panic:
  assumes "\<And>x u. x \<in> set xs \<Longrightarrow> P u \<Longrightarrow> no_panic (f x u)"
    and "\<And>x u v. x \<in> set xs \<Longrightarrow> P u \<Longrightarrow> f x u = Inr v \<Longrightarrow> P v" and "P s"
  shows "no_panic (fold_res f xs s)"
  using assms
proof (induction xs arbitrary: s)
  case Nil
  then show ?case by simp
next
  case (Cons x xs)
  have "no_panic (f x s)" using Cons.prems(1,3) by simp
  moreover have "no_panic (fold_res f xs v)" if fx: "f x s = Inr v" for v
  proof (rule Cons.IH)
    show "P v" by (rule Cons.prems(2) [OF _ Cons.prems(3) fx]) simp
  qed (rule Cons.prems(1,2); auto)+
  ultimately show ?case by (simp add: no_panic_bind)
qed

lemma fold_res_no_panic_simple [no_panic_intros]:
  "(\<And>x u. x \<in> set xs \<Longrightarrow> no_panic (f x u)) \<Longrightarrow> no_panic (fold_res f xs s)"
  by (rule fold_res_no_panic [where P = "\<lambda>_. True"]) auto

text \<open>A loop simulates another when each round does.\<close>

lemma fold_res_sim:
  assumes "fold_res f xs t = Inr t'" "R s t"
    and "\<And>x s t t'. x \<in> set xs \<Longrightarrow> R s t \<Longrightarrow> f x t = Inr t' \<Longrightarrow> \<exists>s'. g x s = Inr s' \<and> R s' t'"
  shows "\<exists>s'. fold_res g xs s = Inr s' \<and> R s' t'"
  using assms
proof (induction xs arbitrary: s t)
  case Nil
  then show ?case by auto
next
  case (Cons x xs)
  from Cons.prems(1) obtain u where u: "f x t = Inr u" "fold_res f xs u = Inr t'" by auto
  from Cons.prems(3) [OF _ Cons.prems(2) u(1)] obtain v where v: "g x s = Inr v" "R v u" by auto
  have "\<exists>s'. fold_res g xs v = Inr s' \<and> R s' t'"
    by (rule Cons.IH [OF u(2) v(2)]) (rule Cons.prems(3), auto)
  with v show ?case by auto
qed

text \<open>\<^verbatim>\<open>map(f).collect::<Result<_>>()?\<close>: the first error, or all results.\<close>

fun map_res :: "('a \<Rightarrow> ('e, 'b) result) \<Rightarrow> 'a list \<Rightarrow> ('e, 'b list) result" where
  "map_res f [] = Inr []"
| "map_res f (x # xs) = bind_res (f x) (\<lambda>y. bind_res (map_res f xs) (\<lambda>ys. Inr (y # ys)))"

lemma map_res_cong [fundef_cong]:
  "xs = ys \<Longrightarrow> (\<And>x. x \<in> set ys \<Longrightarrow> f x = g x) \<Longrightarrow> map_res f xs = map_res g ys"
  by (induction ys arbitrary: xs) simp_all

lemma map_res_Inr: "map_res f xs = Inr ys \<longleftrightarrow> list_all2 (\<lambda>x y. f x = Inr y) xs ys"
  by (induction xs arbitrary: ys) (auto simp: list_all2_Cons1)

lemma map_res_all:
  "map_res f xs = Inr ys \<Longrightarrow> (\<And>x y. x \<in> set xs \<Longrightarrow> f x = Inr y \<Longrightarrow> P y) \<Longrightarrow> list_all P ys \<and> length ys = length xs"
  by (induction xs arbitrary: ys) fastforce+

lemma map_res_total: "(\<And>x. x \<in> set xs \<Longrightarrow> f x = Inr (g x)) \<Longrightarrow> map_res f xs = Inr (map g xs)"
  by (induction xs) simp_all

lemma map_res_no_panic [no_panic_intros]: "(\<And>x. x \<in> set xs \<Longrightarrow> no_panic (f x)) \<Longrightarrow> no_panic (map_res f xs)"
  by (induction xs) (auto intro!: no_panic_bind)

section \<open>Machine integers\<close>

definition u64_max :: nat where "u64_max = 18446744073709551615"
definition i64_max :: int where "i64_max = 9223372036854775807"
definition i64_min :: int where "i64_min = - 9223372036854775808"

definition in_i64 :: "int \<Rightarrow> bool" where
  "in_i64 x \<longleftrightarrow> i64_min \<le> x \<and> x \<le> i64_max"

definition checked_add_u64 :: "nat \<Rightarrow> nat \<Rightarrow> nat option" where
  "checked_add_u64 a b = (if a + b \<le> u64_max then Some (a + b) else None)"

definition checked_mul_u64 :: "nat \<Rightarrow> nat \<Rightarrow> nat option" where
  "checked_mul_u64 a b = (if a * b \<le> u64_max then Some (a * b) else None)"

definition saturating_add_u64 :: "nat \<Rightarrow> nat \<Rightarrow> nat" where
  "saturating_add_u64 a b = min (a + b) u64_max"

definition checked_i64 :: "int \<Rightarrow> int option" where
  "checked_i64 x = (if in_i64 x then Some x else None)"

definition saturating_sub_i64 :: "int \<Rightarrow> int \<Rightarrow> int" where
  "saturating_sub_i64 a b = max i64_min (min i64_max (a - b))"

lemma checked_i64_Some [simp]: "checked_i64 x = Some y \<longleftrightarrow> y = x \<and> in_i64 x"
  by (auto simp: checked_i64_def)

lemma checked_i64_None [simp]: "checked_i64 x = None \<longleftrightarrow> \<not> in_i64 x"
  by (auto simp: checked_i64_def)

text \<open>A UUID as the 128-bit value of its 16 octets in network order, and the tenant identity, whose
  \<^verbatim>\<open>octets()\<close> the components compare and hash. The unsigned order of the value is the lexicographic
  order of the octets. A \<^verbatim>\<open>Timepoint\<close> is its Unix second.\<close>

type_synonym uuid = "128 word"
type_synonym tenant_id = "128 word"
type_synonym timepoint = int

definition uuid_is_nil :: "uuid \<Rightarrow> bool" where
  "uuid_is_nil u \<longleftrightarrow> u = 0"

section \<open>Text\<close>

text \<open>Unicode scalar values of a UTF-8 byte sequence. A Rust string is valid UTF-8; a truncated
  last sequence, which no string has, decodes to nothing.\<close>

fun utf8_decode :: "nat list \<Rightarrow> nat list" where
  "utf8_decode [] = []"
| "utf8_decode (a # bs) =
    (if a < 128 then a # utf8_decode bs
     else if a < 224 then
       (case bs of b # r \<Rightarrow> ((a - 192) * 64 + (b - 128)) # utf8_decode r | _ \<Rightarrow> [])
     else if a < 240 then
       (case bs of b # c # r \<Rightarrow> ((a - 224) * 4096 + (b - 128) * 64 + (c - 128)) # utf8_decode r
        | _ \<Rightarrow> [])
     else
       (case bs of b # c # d # r \<Rightarrow>
          ((a - 240) * 262144 + (b - 128) * 4096 + (c - 128) * 64 + (d - 128)) # utf8_decode r
        | _ \<Rightarrow> []))"

definition str_chars :: "string \<Rightarrow> nat list" where
  "str_chars s = utf8_decode (map of_char s)"

text \<open>\<^verbatim>\<open>char::is_control\<close>: the general category Cc.\<close>

definition char_is_control :: "nat \<Rightarrow> bool" where
  "char_is_control c \<longleftrightarrow> c < 32 \<or> (127 \<le> c \<and> c < 160)"

text \<open>\<^verbatim>\<open>char::is_whitespace\<close>: the property White_Space, which \<^verbatim>\<open>str::trim\<close> removes.\<close>

definition char_is_whitespace :: "nat \<Rightarrow> bool" where
  "char_is_whitespace c \<longleftrightarrow> (9 \<le> c \<and> c \<le> 13) \<or> c = 32 \<or> c = 133 \<or> c = 160 \<or> c = 5760
     \<or> (8192 \<le> c \<and> c \<le> 8202) \<or> c = 8232 \<or> c = 8233 \<or> c = 8239 \<or> c = 8287 \<or> c = 12288"

definition is_blank :: "string \<Rightarrow> bool" where
  "is_blank s \<longleftrightarrow> list_all char_is_whitespace (str_chars s)"

definition has_control :: "string \<Rightarrow> bool" where
  "has_control s \<longleftrightarrow> list_ex char_is_control (str_chars s)"

text \<open>\<^verbatim>\<open>s.trim() == s\<close>: no white space at either end.\<close>

definition is_trimmed :: "string \<Rightarrow> bool" where
  "is_trimmed s \<longleftrightarrow> (let cs = str_chars s in
     cs = [] \<or> (\<not> char_is_whitespace (hd cs) \<and> \<not> char_is_whitespace (last cs)))"

definition is_ascii_digit :: "char \<Rightarrow> bool" where
  "is_ascii_digit c \<longleftrightarrow> (48::nat) \<le> of_char c \<and> of_char c \<le> (57::nat)"

definition is_ascii_alpha :: "char \<Rightarrow> bool" where
  "is_ascii_alpha c \<longleftrightarrow> ((65::nat) \<le> of_char c \<and> of_char c \<le> (90::nat))
     \<or> ((97::nat) \<le> of_char c \<and> of_char c \<le> (122::nat))"

definition is_ascii_alphanumeric :: "char \<Rightarrow> bool" where
  "is_ascii_alphanumeric c \<longleftrightarrow> is_ascii_digit c \<or> is_ascii_alpha c"

text \<open>\<^verbatim>\<open>str::contains\<close> of a string pattern and \<^verbatim>\<open>str::split\<close> at an ASCII character.\<close>

fun str_contains :: "string \<Rightarrow> string \<Rightarrow> bool" where
  "str_contains [] p = (p = [])"
| "str_contains (c # s) p = (prefix p (c # s) \<or> str_contains s p)"

fun str_split :: "char \<Rightarrow> string \<Rightarrow> string list" where
  "str_split d [] = [[]]"
| "str_split d (c # s) =
    (if c = d then [] # str_split d s
     else (case str_split d s of [] \<Rightarrow> [[c]] | w # ws \<Rightarrow> (c # w) # ws))"

lemma str_contains_sublist: "str_contains s p \<longleftrightarrow> sublist p s"
  by (induction s) (auto simp: sublist_Cons_right)

lemma str_split_not_Nil [simp]: "str_split d s \<noteq> []"
  by (induction s) (auto split: list.splits)

text \<open>Splitting loses nothing: joining the parts with the separator gives the string back.\<close>

fun str_join :: "char \<Rightarrow> string list \<Rightarrow> string" where
  "str_join d [] = []"
| "str_join d [w] = w"
| "str_join d (w # ws) = w @ d # str_join d ws"

lemma str_join_Cons: "ws \<noteq> [] \<Longrightarrow> str_join d (w # ws) = w @ d # str_join d ws"
  by (cases ws) simp_all

lemma str_join_split: "str_join d (str_split d s) = s"
proof (induction s)
  case Nil
  then show ?case by simp
next
  case (Cons c s)
  obtain w ws where "str_split d s = w # ws" by (cases "str_split d s") auto
  with Cons show ?case by (cases ws) (auto simp: str_join_Cons)
qed

lemma str_split_no_sep: "w \<in> set (str_split d s) \<Longrightarrow> d \<notin> set w"
  by (induction s arbitrary: w) (auto split: list.splits if_splits)

section \<open>Ordered collections\<close>

type_synonym ('k, 'v) btree_map = "('k \<times> 'v) list"
type_synonym 'k btree_set = "'k list"

definition bs_wf :: "('k::linorder) btree_set \<Rightarrow> bool" where
  "bs_wf s \<longleftrightarrow> sorted_wrt (<) s"

definition bm_wf :: "('k::linorder, 'v) btree_map \<Rightarrow> bool" where
  "bm_wf m \<longleftrightarrow> bs_wf (map fst m)"

fun bs_insert :: "('k::linorder) \<Rightarrow> 'k btree_set \<Rightarrow> 'k btree_set" where
  "bs_insert x [] = [x]"
| "bs_insert x (y # ys) =
    (if x < y then x # y # ys else if x = y then y # ys else y # bs_insert x ys)"

definition bs_of_list :: "('k::linorder) list \<Rightarrow> 'k btree_set" where
  "bs_of_list xs = fold bs_insert xs []"

fun bm_insert :: "('k::linorder) \<Rightarrow> 'v \<Rightarrow> ('k, 'v) btree_map \<Rightarrow> ('k, 'v) btree_map" where
  "bm_insert k v [] = [(k, v)]"
| "bm_insert k v ((l, w) # m) =
    (if k < l then (k, v) # (l, w) # m
     else if k = l then (k, v) # m
     else (l, w) # bm_insert k v m)"

abbreviation bm_get :: "('k, 'v) btree_map \<Rightarrow> 'k \<Rightarrow> 'v option" where
  "bm_get m k \<equiv> map_of m k"

definition bm_keys :: "('k, 'v) btree_map \<Rightarrow> 'k btree_set" where
  "bm_keys m = map fst m"

definition bm_values :: "('k, 'v) btree_map \<Rightarrow> 'v list" where
  "bm_values m = map snd m"

text \<open>\<^verbatim>\<open>collect\<close> of an iterator of entries.\<close>

definition bm_of_list :: "('k::linorder \<times> 'v) list \<Rightarrow> ('k, 'v) btree_map" where
  "bm_of_list kvs = fold (\<lambda>(k, v). bm_insert k v) kvs []"

lemma bs_wf_Nil [simp]: "bs_wf []"
  by (simp add: bs_wf_def)

lemma bs_wf_Cons [simp]: "bs_wf (x # xs) \<longleftrightarrow> (\<forall>y \<in> set xs. x < y) \<and> bs_wf xs"
  by (simp add: bs_wf_def)

lemma set_bs_insert [simp]: "set (bs_insert x s) = insert x (set s)"
  by (induction s) auto

lemma bs_wf_insert [simp]: "bs_wf s \<Longrightarrow> bs_wf (bs_insert x s)"
  by (induction s) auto

lemma set_fold_bs_insert: "set (fold bs_insert xs s) = set xs \<union> set s"
  by (induction xs arbitrary: s) auto

lemma bs_wf_fold_insert: "bs_wf s \<Longrightarrow> bs_wf (fold bs_insert xs s)"
  by (induction xs arbitrary: s) auto

lemma set_bs_of_list [simp]: "set (bs_of_list xs) = set xs"
  by (simp add: bs_of_list_def set_fold_bs_insert)

lemma bs_wf_of_list [simp]: "bs_wf (bs_of_list xs)"
  by (simp add: bs_of_list_def bs_wf_fold_insert)

lemma bs_wf_distinct: "bs_wf s \<Longrightarrow> distinct s"
  by (simp add: bs_wf_def strict_sorted_iff)

lemma bs_wf_eqI: "bs_wf s \<Longrightarrow> bs_wf t \<Longrightarrow> set s = set t \<Longrightarrow> s = t"
  unfolding bs_wf_def by (metis strict_sorted_equal)

lemma bs_of_list_eq_iff: "bs_of_list xs = bs_of_list ys \<longleftrightarrow> set xs = set ys"
  by (metis bs_wf_eqI bs_wf_of_list set_bs_of_list)

lemma bs_of_list_id: "bs_wf s \<Longrightarrow> bs_of_list s = s"
  by (simp add: bs_wf_eqI)

lemma length_bs_of_list: "length (bs_of_list xs) = card (set xs)"
  by (metis bs_wf_distinct bs_wf_of_list distinct_card set_bs_of_list)

lemma bm_wf_Nil [simp]: "bm_wf []"
  by (simp add: bm_wf_def)

lemma bm_wf_Cons [simp]: "bm_wf ((k, v) # m) \<longleftrightarrow> (\<forall>l \<in> fst ` set m. k < l) \<and> bm_wf m"
  by (auto simp: bm_wf_def)

lemma keys_bm_insert: "fst ` set (bm_insert k v m) = insert k (fst ` set m)"
  by (induction k v m rule: bm_insert.induct) auto

lemma bm_wf_insert [simp]: "bm_wf m \<Longrightarrow> bm_wf (bm_insert k v m)"
  by (induction k v m rule: bm_insert.induct) (auto simp: keys_bm_insert)

lemma bm_get_insert [simp]: "bm_wf m \<Longrightarrow> bm_get (bm_insert k v m) l = ((bm_get m)(k \<mapsto> v)) l"
proof (induction m)
  case Nil
  then show ?case by simp
next
  case (Cons p m)
  obtain a b where p: "p = (a, b)" by (cases p)
  have "k \<notin> fst ` set m" if "k < a" using Cons.prems that p by force
  with Cons p show ?case by (auto simp: map_of_eq_None_iff)
qed

lemma bm_wf_distinct: "bm_wf m \<Longrightarrow> distinct (map fst m)"
  by (simp add: bm_wf_def bs_wf_distinct)

lemma bm_get_Some_iff: "bm_wf m \<Longrightarrow> bm_get m k = Some v \<longleftrightarrow> (k, v) \<in> set m"
  by (simp add: bm_wf_distinct)

lemma length_bm_keys: "bm_wf m \<Longrightarrow> length m = card (dom (bm_get m))"
  by (metis bm_wf_distinct distinct_card dom_map_of_conv_image_fst length_map set_map)

lemma bm_fold_insert:
  "bm_wf m \<Longrightarrow> bm_wf (fold (\<lambda>(k, v). bm_insert k v) kvs m) \<and>
    bm_get (fold (\<lambda>(k, v). bm_insert k v) kvs m) = bm_get m ++ map_of (rev kvs)"
proof (induction kvs arbitrary: m)
  case Nil
  then show ?case by simp
next
  case (Cons kv kvs)
  obtain k v where kv: "kv = (k, v)" by (cases kv)
  have "bm_get (bm_insert k v m) = (bm_get m)(k \<mapsto> v)" using Cons.prems by (simp add: fun_eq_iff)
  with Cons.IH [of "bm_insert k v m"] Cons.prems kv show ?case
    by (simp add: map_add_assoc [symmetric] map_add_upd_left del: fun_upd_apply)
qed

lemma bm_wf_of_list [simp]: "bm_wf (bm_of_list kvs)"
  by (simp add: bm_of_list_def bm_fold_insert)

lemma bm_insert_snoc: "\<forall>l \<in> fst ` set m. l < k \<Longrightarrow> bm_insert k v m = m @ [(k, v)]"
  by (induction m) auto

lemma bm_of_sorted: "bm_wf (m @ kvs) \<Longrightarrow> fold (\<lambda>(k, v). bm_insert k v) kvs m = m @ kvs"
proof (induction kvs arbitrary: m)
  case Nil
  then show ?case by simp
next
  case (Cons kv kvs)
  obtain k v where kv: "kv = (k, v)" by (cases kv)
  from Cons.prems have "\<forall>l \<in> fst ` set m. l < k" unfolding kv
    by (auto simp: bm_wf_def bs_wf_def sorted_wrt_append)
  with Cons.IH [of "m @ [(k, v)]"] Cons.prems kv show ?case by (simp add: bm_insert_snoc)
qed

lemma bm_map_values: "bm_wf m \<Longrightarrow> bm_wf (map (\<lambda>(k, v). (k, f v)) m)"
  by (simp add: bm_wf_def comp_def case_prod_beta)

lemma bm_get_of_list: "bm_get (bm_of_list kvs) = map_of (rev kvs)"
  by (simp add: bm_of_list_def bm_fold_insert)

subsection \<open>The interface of a keyed store\<close>

text \<open>
  A client that fills a map entry by entry and looks at the value the insertion displaced: the
  dictionary of a group rule, the sources of one device scope and the artifacts of a software
  release. \<open>put\<close> is \<^verbatim>\<open>BTreeMap::insert\<close>: the new map and the previous value.
\<close>

locale keyed_store =
  fixes nothing :: 'm
    and put :: "'k \<Rightarrow> 'v \<Rightarrow> 'm \<Rightarrow> 'm \<times> 'v option"
    and get :: "'m \<Rightarrow> 'k \<Rightarrow> 'v option"
    and invar :: "'m \<Rightarrow> bool"
  assumes nothing_invar: "invar nothing"
    and nothing_get: "get nothing k = None"
    and put_invar: "invar m \<Longrightarrow> invar (fst (put k v m))"
    and put_get: "invar m \<Longrightarrow> get (fst (put k v m)) = (get m)(k \<mapsto> v)"
    and put_old: "invar m \<Longrightarrow> snd (put k v m) = get m k"
begin

text \<open>Insert all entries, rejecting an entry whose displaced value \<open>old\<close> is refused by
  \<open>clash old v\<close>.\<close>

fun put_all :: "('v \<Rightarrow> 'v \<Rightarrow> bool) \<Rightarrow> ('k \<times> 'v) list \<Rightarrow> 'm \<Rightarrow> 'm option" where
  "put_all clash [] m = Some m"
| "put_all clash ((k, v) # kvs) m =
    (let (m', old) = put k v m in
     case old of None \<Rightarrow> put_all clash kvs m'
     | Some w \<Rightarrow> if clash w v then None else put_all clash kvs m')"

lemma put_all_Cons:
  "invar m \<Longrightarrow> put_all clash ((k, v) # kvs) m =
     (case get m k of None \<Rightarrow> put_all clash kvs (fst (put k v m))
      | Some w \<Rightarrow> if clash w v then None else put_all clash kvs (fst (put k v m)))"
  by (simp add: case_prod_beta put_old)

lemma put_all_invar: "invar m \<Longrightarrow> put_all clash kvs m = Some m' \<Longrightarrow> invar m'"
proof (induction kvs arbitrary: m)
  case Nil
  then show ?case by simp
next
  case (Cons kv kvs)
  obtain k v where kv: "kv = (k, v)" by (cases kv)
  have inv: "invar (fst (put k v m))" by (rule put_invar) (rule Cons.prems)
  have "put_all clash kvs (fst (put k v m)) = Some m'"
    using Cons.prems unfolding kv put_all_Cons [OF Cons.prems(1)]
    by (auto split: option.splits if_splits)
  with inv show ?case by (rule Cons.IH)
qed

text \<open>With agreement as the test, the loop succeeds exactly on entries that are a function of
  their key, and then the store is that function.\<close>

lemma put_all_agree:
  assumes "invar m"
  shows "put_all (\<lambda>w v. w \<noteq> v) kvs m \<noteq> None \<longleftrightarrow>
    (\<forall>(k, v) \<in> set kvs. \<forall>(l, w) \<in> set kvs. k = l \<longrightarrow> v = w) \<and>
    (\<forall>(k, v) \<in> set kvs. get m k = None \<or> get m k = Some v)"
  using assms
proof (induction kvs arbitrary: m)
  case Nil
  then show ?case by simp
next
  case (Cons kv kvs)
  obtain k v where kv: "kv = (k, v)" by (cases kv)
  have inv: "invar (fst (put k v m))" by (rule put_invar) (rule Cons.prems)
  have g: "get (fst (put k v m)) = (get m)(k \<mapsto> v)" by (rule put_get) (rule Cons.prems)
  show ?case
  proof (cases "get m k = None \<or> get m k = Some v")
    case True
    have "put_all (\<lambda>w v. w \<noteq> v) (kv # kvs) m = put_all (\<lambda>w v. w \<noteq> v) kvs (fst (put k v m))"
      using True unfolding kv put_all_Cons [OF Cons.prems] by (auto split: option.splits)
    then show ?thesis using Cons.IH [OF inv] True unfolding g kv
      by (auto split: if_splits)
  next
    case False
    then have "put_all (\<lambda>w v. w \<noteq> v) (kv # kvs) m = None"
      unfolding kv put_all_Cons [OF Cons.prems] by (auto split: option.splits)
    with False kv show ?thesis by auto
  qed
qed

text \<open>With every displaced value refused, the loop succeeds exactly on distinct keys.\<close>

lemma put_all_distinct:
  assumes "invar m"
  shows "put_all (\<lambda>w v. True) kvs m \<noteq> None \<longleftrightarrow>
    distinct (map fst kvs) \<and> (\<forall>k \<in> fst ` set kvs. get m k = None)"
  using assms
proof (induction kvs arbitrary: m)
  case Nil
  then show ?case by simp
next
  case (Cons kv kvs)
  obtain k v where kv: "kv = (k, v)" by (cases kv)
  have inv: "invar (fst (put k v m))" by (rule put_invar) (rule Cons.prems)
  have g: "get (fst (put k v m)) = (get m)(k \<mapsto> v)" by (rule put_get) (rule Cons.prems)
  show ?case
    using Cons.IH [OF inv] unfolding kv put_all_Cons [OF Cons.prems] g
    by (force split: option.splits)
qed

lemma put_all_get:
  assumes "invar m" "put_all clash kvs m = Some m'"
  shows "get m' = get m ++ map_of (rev kvs)"
  using assms
proof (induction kvs arbitrary: m)
  case Nil
  then show ?case by simp
next
  case (Cons kv kvs)
  obtain k v where kv: "kv = (k, v)" by (cases kv)
  have inv: "invar (fst (put k v m))" by (rule put_invar) (rule Cons.prems)
  have "put_all clash kvs (fst (put k v m)) = Some m'"
    using Cons.prems unfolding kv put_all_Cons [OF Cons.prems(1)]
    by (auto split: option.splits if_splits)
  from Cons.IH [OF inv this] show ?case
    by (simp add: kv put_get [OF Cons.prems(1)] map_add_assoc [symmetric] map_add_upd_left
        del: fun_upd_apply)
qed

end

definition bm_put :: "('k::linorder) \<Rightarrow> 'v \<Rightarrow> ('k, 'v) btree_map \<Rightarrow> ('k, 'v) btree_map \<times> 'v option" where
  "bm_put k v m = (bm_insert k v m, bm_get m k)"

interpretation bm: keyed_store "[]" bm_put "\<lambda>m k. bm_get m k" bm_wf
  by unfold_locales (auto simp: bm_put_def fun_eq_iff)

section \<open>Loops that reject repetitions\<close>

text \<open>
  A loop that checks every element and refuses one whose key it has met before, as the validation of
  artifacts, paths, dependencies, signatures and flags does. \<open>seen\<close> reads the keys met so far off the
  loop state. \<open>fresh_scan\<close> is what acceptance shows; \<open>unique_scan\<close> adds that nothing else is refused.
\<close>

locale fresh_scan =
  fixes step :: "'x \<Rightarrow> 's \<Rightarrow> ('e, 's) result"
    and good :: "'x \<Rightarrow> bool"
    and key :: "'x \<Rightarrow> 'k"
    and seen :: "'s \<Rightarrow> 'k set"
  assumes step_sound: "step x s = Inr t \<Longrightarrow> good x \<and> key x \<notin> seen s \<and> seen t = insert (key x) (seen s)"
begin

lemma scan_sound:
  "fold_res step xs s = Inr t \<Longrightarrow>
    list_all good xs \<and> distinct (map key xs) \<and> key ` set xs \<inter> seen s = {} \<and> seen t = key ` set xs \<union> seen s"
proof (induction xs arbitrary: s)
  case Nil
  then show ?case by simp
next
  case (Cons x xs)
  then obtain u where u: "step x s = Inr u" "fold_res step xs u = Inr t" by auto
  from step_sound [OF u(1)] Cons.IH [OF u(2)] show ?case by auto
qed

end

locale unique_scan = fresh_scan +
  assumes step_total: "good x \<Longrightarrow> key x \<notin> seen s \<Longrightarrow> \<exists>t. step x s = Inr t"
begin

lemma scan_total:
  "list_all good xs \<Longrightarrow> distinct (map key xs) \<Longrightarrow> key ` set xs \<inter> seen s = {} \<Longrightarrow> \<exists>t. fold_res step xs s = Inr t"
proof (induction xs arbitrary: s)
  case Nil
  then show ?case by simp
next
  case (Cons x xs)
  then obtain u where u: "step x s = Inr u" using step_total [of x s] by auto
  have "key ` set xs \<inter> seen u = {}" using step_sound [OF u] Cons.prems by auto
  with Cons u show ?case by simp
qed

text \<open>From nothing seen, the loop accepts exactly the good elements with distinct keys.\<close>

lemma scan_iff:
  "seen s = {} \<Longrightarrow> (\<exists>t. fold_res step xs s = Inr t) \<longleftrightarrow> list_all good xs \<and> distinct (map key xs)"
  using scan_sound [of xs s] scan_total [of xs s] by auto

end

end
