(* ===== verification/Three_Valued.thy ===== *)
theory Three_Valued
  imports Mdm_Prelude
begin

text \<open>
  The interface of a three-valued decision. Group rules, device scopes and compliance each have
  a decision type of their own with a confirmed yes, a confirmed no and an unknown; they all rely
  on the laws of strong Kleene logic. The locale \<open>three_valued\<close> states what such a type is and
  proves the laws once; each component interprets it on its own type.
\<close>

locale three_valued =
  fixes yes :: 'd and no :: 'd and unknown :: 'd
  assumes distinct: "yes \<noteq> no" "yes \<noteq> unknown" "no \<noteq> unknown"
    and exhaustive: "d = yes \<or> d = no \<or> d = unknown"
begin

definition conj3 :: "'d \<Rightarrow> 'd \<Rightarrow> 'd" where
  "conj3 a b = (if a = no \<or> b = no then no else if a = unknown \<or> b = unknown then unknown else yes)"

definition disj3 :: "'d \<Rightarrow> 'd \<Rightarrow> 'd" where
  "disj3 a b = (if a = yes \<or> b = yes then yes else if a = unknown \<or> b = unknown then unknown else no)"

definition neg3 :: "'d \<Rightarrow> 'd" where
  "neg3 a = (if a = yes then no else if a = no then yes else unknown)"

definition all3 :: "'d list \<Rightarrow> 'd" where
  "all3 ds = (if no \<in> set ds then no else if unknown \<in> set ds then unknown else yes)"

definition any3 :: "'d list \<Rightarrow> 'd" where
  "any3 ds = (if yes \<in> set ds then yes else if unknown \<in> set ds then unknown else no)"

text \<open>The information order: an unknown may become anything, a confirmed decision stays.\<close>

definition refines :: "'d \<Rightarrow> 'd \<Rightarrow> bool" where
  "refines a b \<longleftrightarrow> a = unknown \<or> a = b"

lemmas distinct_simps [simp] = distinct distinct [symmetric]

lemma conj3_commute: "conj3 a b = conj3 b a"
  by (auto simp: conj3_def)

lemma conj3_assoc: "conj3 (conj3 a b) c = conj3 a (conj3 b c)"
  by (auto simp: conj3_def)

lemma disj3_commute: "disj3 a b = disj3 b a"
  by (auto simp: disj3_def)

lemma disj3_assoc: "disj3 (disj3 a b) c = disj3 a (disj3 b c)"
  by (auto simp: disj3_def)

lemma de_morgan: "neg3 (conj3 a b) = disj3 (neg3 a) (neg3 b)"
  using exhaustive [of a] exhaustive [of b] by (auto simp: conj3_def disj3_def neg3_def)

lemma neg3_neg3: "neg3 (neg3 a) = a"
  using exhaustive [of a] by (auto simp: neg3_def)

lemma all3_yes_iff: "all3 ds = yes \<longleftrightarrow> (\<forall>d \<in> set ds. d = yes)"
  unfolding all3_def using exhaustive distinct by metis

lemma any3_no_iff: "any3 ds = no \<longleftrightarrow> (\<forall>d \<in> set ds. d = no)"
  unfolding any3_def using exhaustive distinct by metis

lemma all3_Cons: "all3 (d # ds) = conj3 d (all3 ds)"
  by (auto simp: all3_def conj3_def)

lemma any3_Cons: "any3 (d # ds) = disj3 d (any3 ds)"
  by (auto simp: any3_def disj3_def)

lemma foldl_disj3: "foldl disj3 a ds = disj3 a (any3 ds)"
proof (induction ds arbitrary: a)
  case Nil
  then show ?case using exhaustive [of a] by (auto simp: any3_def disj3_def)
next
  case (Cons d ds)
  then show ?case by (simp add: any3_Cons disj3_assoc)
qed

text \<open>The scan of a list of decisions for a decisive one, as a loop over an accumulator: an
  unknown is remembered unless the decisive value was seen, everything else keeps the result.\<close>

definition scan :: "'d \<Rightarrow> 'd \<Rightarrow> 'd \<Rightarrow> 'd" where
  "scan decisive value acc = (if value = decisive \<or> (value = unknown \<and> acc \<noteq> decisive) then value else acc)"

lemma scan_no: "fold (scan no) ds acc = conj3 acc (all3 ds)" if "acc = yes \<or> acc = no \<or> acc = unknown"
  using that
proof (induction ds arbitrary: acc)
  case Nil
  then show ?case by (auto simp: all3_def conj3_def)
next
  case (Cons d ds)
  have "conj3 (scan no d acc) (all3 ds) = conj3 acc (conj3 d (all3 ds))"
    using exhaustive [of d] Cons.prems by (auto simp: scan_def conj3_def)
  then show ?case using Cons.IH [OF exhaustive] by (simp add: all3_Cons)
qed

lemma scan_yes: "fold (scan yes) ds acc = disj3 acc (any3 ds)" if "acc = yes \<or> acc = no \<or> acc = unknown"
  using that
proof (induction ds arbitrary: acc)
  case Nil
  then show ?case by (auto simp: any3_def disj3_def)
next
  case (Cons d ds)
  have "disj3 (scan yes d acc) (any3 ds) = disj3 acc (disj3 d (any3 ds))"
    using exhaustive [of d] Cons.prems by (auto simp: scan_def disj3_def)
  then show ?case using Cons.IH [OF exhaustive] by (simp add: any3_Cons)
qed

lemma scan_all: "fold (scan no) ds yes = all3 ds"
  using exhaustive [of "all3 ds"] by (auto simp: scan_no conj3_def)

lemma scan_any: "fold (scan yes) ds no = any3 ds"
  using exhaustive [of "any3 ds"] by (auto simp: scan_yes disj3_def)

text \<open>All connectives are monotone in the information order, so a confirmed result never
  depends on how an unknown is later resolved.\<close>

lemma refines_refl [simp]: "refines a a"
  by (simp add: refines_def)

lemma refines_conj3: "refines a a' \<Longrightarrow> refines b b' \<Longrightarrow> refines (conj3 a b) (conj3 a' b')"
  using exhaustive [of a] exhaustive [of b] by (auto simp: refines_def conj3_def)

lemma refines_disj3: "refines a a' \<Longrightarrow> refines b b' \<Longrightarrow> refines (disj3 a b) (disj3 a' b')"
  using exhaustive [of a] exhaustive [of b] by (auto simp: refines_def disj3_def)

lemma refines_all3: "list_all2 refines ds es \<Longrightarrow> refines (all3 ds) (all3 es)"
  by (induction rule: list_all2_induct) (auto simp: all3_Cons refines_conj3)

lemma refines_any3: "list_all2 refines ds es \<Longrightarrow> refines (any3 ds) (any3 es)"
  by (induction rule: list_all2_induct) (auto simp: any3_Cons refines_disj3)

end

end
