(* ===== verification/Group_Limits.thy ===== *)
theory Group_Limits
  imports Mdm_Prelude
begin

text \<open>
  \<^verbatim>\<open>crates/group/src/lib.rs\<close>: the closed diagnostics of the group engine, its fixed budgets and
  the accumulating \<open>budget\<close> that one rule or one input batch shares. Lengths are \<^verbatim>\<open>usize\<close> values
  of a 64-bit target. An operation that fails returns its error and the budget is dropped with
  the batch, so the operations return the new budget in the successful case only.
\<close>

section \<open>Diagnostics and limits\<close>

datatype limit_kind =
    Depth | Nodes | Fields | SetItems | FactSetItems | FactStringBytes | StringBytes
  | InputVersionBytes | RuleBytes | Objects | BatchBytes | Items | Visits | Explanations

datatype group_error =
    InvalidIdentity | InvalidStructure | UnknownField | InvalidType | InvalidUnit
  | InvalidOperation | PermissionDenied | TenantMismatch | IncompleteSnapshot | VersionMismatch
  | ConflictingObject | LimitExceeded limit_kind

type_synonym 'a group_result = "(group_error, 'a) result"

definition limits_DEPTH :: nat where "limits_DEPTH = 16"
definition limits_NODES :: nat where "limits_NODES = 256"
definition limits_FIELDS :: nat where "limits_FIELDS = 128"
definition limits_SET_ITEMS :: nat where "limits_SET_ITEMS = 256"
definition limits_FACT_SET_ITEMS :: nat where "limits_FACT_SET_ITEMS = 100000"
definition limits_FACT_STRING_BYTES :: nat where "limits_FACT_STRING_BYTES = 65536"
definition limits_STRING_BYTES :: nat where "limits_STRING_BYTES = 4096"
definition limits_INPUT_VERSION_BYTES :: nat where "limits_INPUT_VERSION_BYTES = 100000"
definition limits_RULE_BYTES :: nat where "limits_RULE_BYTES = 64 * 1024"
definition limits_OBJECTS :: nat where "limits_OBJECTS = 1000"
definition limits_BATCH_BYTES :: nat where "limits_BATCH_BYTES = 16 * 1024 * 1024"
definition limits_ITEMS :: nat where "limits_ITEMS = 1000000"
definition limits_VISITS :: nat where "limits_VISITS = 1000000"
definition limits_EXPLANATIONS :: nat where "limits_EXPLANATIONS = 65536"

lemmas limits_defs =
  limits_DEPTH_def limits_NODES_def limits_FIELDS_def limits_SET_ITEMS_def
  limits_FACT_SET_ITEMS_def limits_FACT_STRING_BYTES_def limits_STRING_BYTES_def
  limits_INPUT_VERSION_BYTES_def limits_RULE_BYTES_def limits_OBJECTS_def limits_BATCH_BYTES_def
  limits_ITEMS_def limits_VISITS_def limits_EXPLANATIONS_def

fun limit_maximum :: "limit_kind \<Rightarrow> nat" where
  "limit_maximum Depth = limits_DEPTH"
| "limit_maximum Nodes = limits_NODES"
| "limit_maximum Fields = limits_FIELDS"
| "limit_maximum SetItems = limits_SET_ITEMS"
| "limit_maximum FactSetItems = limits_FACT_SET_ITEMS"
| "limit_maximum FactStringBytes = limits_FACT_STRING_BYTES"
| "limit_maximum StringBytes = limits_STRING_BYTES"
| "limit_maximum InputVersionBytes = limits_INPUT_VERSION_BYTES"
| "limit_maximum RuleBytes = limits_RULE_BYTES"
| "limit_maximum Objects = limits_OBJECTS"
| "limit_maximum BatchBytes = limits_BATCH_BYTES"
| "limit_maximum Items = limits_ITEMS"
| "limit_maximum Visits = limits_VISITS"
| "limit_maximum Explanations = limits_EXPLANATIONS"

definition limit_check :: "limit_kind \<Rightarrow> nat \<Rightarrow> unit group_result" where
  "limit_check k n = (if n > limit_maximum k then Inl (Fail (LimitExceeded k)) else Inr ())"

text \<open>\<^verbatim>\<open>LimitKind::add\<close>: the new total.\<close>

definition limit_add :: "limit_kind \<Rightarrow> nat \<Rightarrow> nat \<Rightarrow> nat group_result" where
  "limit_add k t n =
    bind_res (ok_or (LimitExceeded k) (checked_add_u64 t n)) (\<lambda>n'.
    bind_res (limit_check k n') (\<lambda>_. Inr n'))"

definition limit_product :: "limit_kind \<Rightarrow> nat \<Rightarrow> nat \<Rightarrow> unit group_result" where
  "limit_product k a b =
    bind_res (ok_or (LimitExceeded k) (checked_mul_u64 a b)) (limit_check k)"

section \<open>The shared budget\<close>

record budget =
  budget_bytes :: nat
  budget_byte_kind :: limit_kind
  budget_items :: nat

definition budget_new :: "limit_kind \<Rightarrow> budget" where
  "budget_new k = \<lparr>budget_bytes = 0, budget_byte_kind = k, budget_items = 0\<rparr>"

definition budget_take_items :: "nat \<Rightarrow> budget \<Rightarrow> budget group_result" where
  "budget_take_items n b =
    bind_res (limit_add Items (budget_items b) n) (\<lambda>t. Inr (b\<lparr>budget_items := t\<rparr>))"

definition budget_set :: "nat \<Rightarrow> budget \<Rightarrow> unit group_result" where
  "budget_set n b =
    (if budget_byte_kind b = RuleBytes then limit_check SetItems n else limit_check FactSetItems n)"

text \<open>\<^verbatim>\<open>self.byte_kind.add(&mut self.bytes, n)\<close>.\<close>

definition budget_add_bytes :: "nat \<Rightarrow> budget \<Rightarrow> budget group_result" where
  "budget_add_bytes n b =
    bind_res (limit_add (budget_byte_kind b) (budget_bytes b) n) (\<lambda>t. Inr (b\<lparr>budget_bytes := t\<rparr>))"

definition budget_scalar_text :: "string \<Rightarrow> budget \<Rightarrow> budget group_result" where
  "budget_scalar_text s b =
    bind_res
      (if budget_byte_kind b = RuleBytes then limit_check StringBytes (length s)
       else limit_check FactStringBytes (length s)) (\<lambda>_.
    budget_add_bytes (length s) b)"

definition budget_text :: "string \<Rightarrow> budget \<Rightarrow> budget group_result" where
  "budget_text s b =
    bind_res (limit_check StringBytes (length s)) (\<lambda>_. budget_add_bytes (length s) b)"

definition valid_identity :: "string \<Rightarrow> bool" where
  "valid_identity s \<longleftrightarrow> \<not> (is_blank s \<or> has_control s)"

definition budget_input_version :: "string \<Rightarrow> budget \<Rightarrow> budget group_result" where
  "budget_input_version s b =
    bind_res (limit_check InputVersionBytes (length s)) (\<lambda>_.
    bind_res (budget_add_bytes (length s) b) (\<lambda>b.
    if is_blank s \<or> has_control s then Inl (Fail InvalidIdentity) else Inr b))"

definition budget_identity :: "string \<Rightarrow> budget \<Rightarrow> budget group_result" where
  "budget_identity s b =
    bind_res (budget_text s b) (\<lambda>b.
    if is_blank s \<or> has_control s then Inl (Fail InvalidIdentity) else Inr b)"

section \<open>What the operations do\<close>

lemma limit_maximum_u64: "limit_maximum k \<le> u64_max"
  by (cases k) (simp_all add: limits_defs u64_max_def)

lemma limit_check_Inr [simp]: "limit_check k n = Inr u \<longleftrightarrow> n \<le> limit_maximum k"
  by (auto simp: limit_check_def)

lemma limit_add_eq:
  "limit_add k t n =
    (if t + n \<le> limit_maximum k then Inr (t + n) else Inl (Fail (LimitExceeded k)))"
  using limit_maximum_u64 [of k]
  by (auto simp: limit_add_def checked_add_u64_def limit_check_def)

lemma limit_product_eq:
  "limit_product k a b = (if a * b \<le> limit_maximum k then Inr () else Inl (Fail (LimitExceeded k)))"
  using limit_maximum_u64 [of k]
  by (auto simp: limit_product_def checked_mul_u64_def limit_check_def)

lemma no_panic_limits [simp, no_panic_intros]:
  "no_panic (limit_check k n)" "no_panic (limit_add k t n)" "no_panic (limit_product k a c)"
  by (simp_all add: limit_check_def limit_add_eq limit_product_eq)

lemma no_panic_budget [simp, no_panic_intros]:
  "no_panic (budget_take_items n b)" "no_panic (budget_set n b)" "no_panic (budget_add_bytes n b)"
  "no_panic (budget_scalar_text s b)" "no_panic (budget_text s b)"
  "no_panic (budget_input_version s b)" "no_panic (budget_identity s b)"
  by (auto simp: budget_take_items_def budget_set_def budget_add_bytes_def budget_scalar_text_def
      budget_text_def budget_input_version_def budget_identity_def intro!: no_panic_intros)

lemma budget_identity_Inr:
  "budget_identity s b = Inr b' \<longleftrightarrow>
    length s \<le> limits_STRING_BYTES \<and> valid_identity s \<and>
    budget_bytes b + length s \<le> limit_maximum (budget_byte_kind b) \<and>
    b' = b\<lparr>budget_bytes := budget_bytes b + length s\<rparr>"
  by (auto simp: budget_identity_def budget_text_def budget_add_bytes_def limit_add_eq
      valid_identity_def split: if_splits)

text \<open>A budget within its limits. Every operation keeps it there and keeps the kind.\<close>

definition budget_wf :: "budget \<Rightarrow> bool" where
  "budget_wf b \<longleftrightarrow> budget_bytes b \<le> limit_maximum (budget_byte_kind b) \<and> budget_items b \<le> limits_ITEMS"

lemma budget_wf_new [simp]: "budget_wf (budget_new k)"
  by (simp add: budget_wf_def budget_new_def)

subsection \<open>Running on less\<close>

text \<open>An operation on a budget is frugal when it also succeeds from any budget that has spent
  less, and ends having spent less. Then a batch that fits as a whole fits in parts.\<close>

definition budget_le :: "budget \<Rightarrow> budget \<Rightarrow> bool" where
  "budget_le a b \<longleftrightarrow> budget_byte_kind a = budget_byte_kind b \<and> budget_bytes a \<le> budget_bytes b
     \<and> budget_items a \<le> budget_items b"

definition frugal :: "(budget \<Rightarrow> budget group_result) \<Rightarrow> bool" where
  "frugal f \<longleftrightarrow> (\<forall>a b b'. budget_le a b \<longrightarrow> f b = Inr b' \<longrightarrow> (\<exists>a'. f a = Inr a' \<and> budget_le a' b' \<and> budget_le b b'))"

named_theorems frugal_intros \<open>rules for frugal budget operations\<close>

lemma budget_le_refl [simp]: "budget_le b b"
  by (simp add: budget_le_def)

lemma budget_le_trans: "budget_le a b \<Longrightarrow> budget_le b c \<Longrightarrow> budget_le a c"
  by (auto simp: budget_le_def)

lemma frugalI:
  "(\<And>a b b'. budget_le a b \<Longrightarrow> f b = Inr b' \<Longrightarrow> \<exists>a'. f a = Inr a' \<and> budget_le a' b' \<and> budget_le b b') \<Longrightarrow> frugal f"
  by (simp add: frugal_def)

lemma frugalD:
  assumes "frugal f" "budget_le a b" "f b = Inr b'"
  obtains a' where "f a = Inr a'" "budget_le a' b'" "budget_le b b'"
  using assms unfolding frugal_def by blast

lemma frugal_Inr [frugal_intros]: "frugal (\<lambda>b. Inr b)"
  by (rule frugalI) simp

lemma frugal_Inl [frugal_intros]: "frugal (\<lambda>b. Inl e)"
  by (rule frugalI) simp

lemma frugal_bind [frugal_intros]:
  assumes "frugal f" "frugal g"
  shows "frugal (\<lambda>b. bind_res (f b) g)"
proof (rule frugalI)
  fix a b b' assume "budget_le a b" "bind_res (f b) g = Inr b'"
  then obtain c where c: "budget_le a b" "f b = Inr c" "g c = Inr b'" by auto
  obtain a' where a': "f a = Inr a'" "budget_le a' c" "budget_le b c" by (rule frugalD [OF assms(1) c(1,2)])
  obtain a'' where a'': "g a' = Inr a''" "budget_le a'' b'" "budget_le c b'" by (rule frugalD [OF assms(2) a'(2) c(3)])
  have "budget_le b b'" by (rule budget_le_trans [OF a'(3) a''(3)])
  with a' a'' show "\<exists>a'. bind_res (f a) g = Inr a' \<and> budget_le a' b' \<and> budget_le b b'" by simp
qed

lemma frugal_bind_const [frugal_intros]:
  "(\<And>u. m = Inr u \<Longrightarrow> frugal (g u)) \<Longrightarrow> frugal (\<lambda>b. bind_res m (\<lambda>u. g u b))"
  by (cases m) (auto intro: frugal_Inl)

lemma frugal_if [frugal_intros]:
  "(P \<Longrightarrow> frugal f) \<Longrightarrow> (\<not> P \<Longrightarrow> frugal g) \<Longrightarrow> frugal (\<lambda>b. if P then f b else g b)"
  by (cases P) simp_all

lemma frugal_fold [frugal_intros]:
  "(\<And>x. x \<in> set xs \<Longrightarrow> frugal (f x)) \<Longrightarrow> frugal (fold_res f xs)"
proof (induction xs)
  case Nil
  then show ?case by (simp add: frugal_Inr)
next
  case (Cons x xs)
  then show ?case by (auto intro!: frugal_bind)
qed

lemma frugal_add_bytes [frugal_intros]: "frugal (budget_add_bytes n)"
  by (rule frugalI) (auto simp: budget_add_bytes_def limit_add_eq budget_le_def split: if_splits)

lemma frugal_take_items [frugal_intros]: "frugal (budget_take_items n)"
  by (rule frugalI) (auto simp: budget_take_items_def limit_add_eq budget_le_def split: if_splits)

lemma frugal_set [frugal_intros]:
  "frugal g \<Longrightarrow> frugal (\<lambda>b. bind_res (budget_set n b) (\<lambda>_. g b))"
proof (rule frugalI)
  fix a b b'
  assume g: "frugal g" and le: "budget_le a b" and r: "bind_res (budget_set n b) (\<lambda>_. g b) = Inr b'"
  from r have "budget_set n b = Inr ()" "g b = Inr b'" by auto
  moreover have "budget_set n a = budget_set n b" using le by (simp add: budget_set_def budget_le_def)
  ultimately show "\<exists>a'. bind_res (budget_set n a) (\<lambda>_. g a) = Inr a' \<and> budget_le a' b' \<and> budget_le b b'"
    using frugalD [OF g le] by fastforce
qed

lemma frugal_scalar_text [frugal_intros]: "frugal (budget_scalar_text s)"
  by (rule frugalI)
    (auto simp: budget_scalar_text_def budget_add_bytes_def limit_add_eq budget_le_def split: if_splits)

lemma frugal_text [frugal_intros]: "frugal (budget_text s)"
  unfolding budget_text_def by (intro frugal_intros)

lemma frugal_input_version [frugal_intros]: "frugal (budget_input_version s)"
  unfolding budget_input_version_def by (intro frugal_intros)

lemma frugal_identity [frugal_intros]: "frugal (budget_identity s)"
  unfolding budget_identity_def by (intro frugal_intros)

text \<open>A budget that has spent less than one within its limits is within them too.\<close>

lemma budget_wf_mono: "budget_wf b \<Longrightarrow> budget_le a b \<Longrightarrow> budget_wf a"
  by (auto simp: budget_wf_def budget_le_def)

end
