(* ===== verification/Group_Model.thy ===== *)
theory Group_Model
  imports Group_Limits Complex_Main
begin

text \<open>
  \<^verbatim>\<open>crates/group/src/model.rs\<close>, \<^verbatim>\<open>source.rs\<close> and the result types of \<^verbatim>\<open>evaluation.rs\<close>: the data of
  the group engine and the validation of values against a budget. A \<^verbatim>\<open>BTreeMap\<close> or \<^verbatim>\<open>BTreeSet\<close>
  field is a strictly sorted list. A finite \<^verbatim>\<open>NotNan<f64>\<close> is the rational it denotes: its equality
  and order are those of the numbers (and identify the two zeros).
\<close>

section \<open>Keys and scalars\<close>

datatype object_key = ObjectKey (key_tenant: tenant_id) (key_id: string)

instantiation object_key :: linorder
begin
definition less_eq_object_key :: "object_key \<Rightarrow> object_key \<Rightarrow> bool" where
  "less_eq_object_key a b \<longleftrightarrow> (key_tenant a, key_id a) \<le> (key_tenant b, key_id b)"
definition less_object_key :: "object_key \<Rightarrow> object_key \<Rightarrow> bool" where
  "less_object_key a b \<longleftrightarrow> (key_tenant a, key_id a) < (key_tenant b, key_id b)"
instance
proof
  fix x y z :: object_key
  show "x < y \<longleftrightarrow> x \<le> y \<and> \<not> y \<le> x"
    unfolding less_eq_object_key_def less_object_key_def by (rule less_le_not_le)
  show "x \<le> x" unfolding less_eq_object_key_def by (rule order_refl)
  show "x \<le> y \<Longrightarrow> y \<le> z \<Longrightarrow> x \<le> z"
    unfolding less_eq_object_key_def by (rule order_trans)
  show "x \<le> y \<Longrightarrow> y \<le> x \<Longrightarrow> x = y"
    unfolding less_eq_object_key_def by (cases x; cases y) (drule (1) antisym, simp)
  show "x \<le> y \<or> y \<le> x"
    unfolding less_eq_object_key_def by (rule linear)
qed
end

datatype scalar_type = TString | TBoolean | TInteger | TNumber | TTime

datatype field_type = ScalarField scalar_type | SetField scalar_type

datatype not_nan = NegInfinity | Finite rat | PosInfinity

fun not_nan_le :: "not_nan \<Rightarrow> not_nan \<Rightarrow> bool" where
  "not_nan_le NegInfinity _ = True"
| "not_nan_le (Finite a) NegInfinity = False"
| "not_nan_le (Finite a) (Finite b) = (a \<le> b)"
| "not_nan_le (Finite a) PosInfinity = True"
| "not_nan_le PosInfinity b = (b = PosInfinity)"

instantiation not_nan :: linorder
begin
definition less_eq_not_nan :: "not_nan \<Rightarrow> not_nan \<Rightarrow> bool" where
  "less_eq_not_nan = not_nan_le"
definition less_not_nan :: "not_nan \<Rightarrow> not_nan \<Rightarrow> bool" where
  "less_not_nan a b \<longleftrightarrow> a \<le> b \<and> \<not> b \<le> a"
instance
proof
  fix x y z :: not_nan
  show "x < y \<longleftrightarrow> x \<le> y \<and> \<not> y \<le> x" by (rule less_not_nan_def)
  show "x \<le> x" by (cases x) (simp_all add: less_eq_not_nan_def)
  show "x \<le> y \<Longrightarrow> y \<le> z \<Longrightarrow> x \<le> z" by (cases x; cases y; cases z) (simp_all add: less_eq_not_nan_def)
  show "x \<le> y \<Longrightarrow> y \<le> x \<Longrightarrow> x = y" by (cases x; cases y) (simp_all add: less_eq_not_nan_def)
  show "x \<le> y \<or> y \<le> x" by (cases x; cases y) (auto simp: less_eq_not_nan_def)
qed
end

datatype scalar =
    SString string | SBoolean bool | SInteger int | SNumber not_nan | STime timepoint

text \<open>The derived order: the variants in their order, then the payload.\<close>

fun scalar_rank :: "scalar \<Rightarrow> nat" where
  "scalar_rank (SString _) = 0"
| "scalar_rank (SBoolean _) = 1"
| "scalar_rank (SInteger _) = 2"
| "scalar_rank (SNumber _) = 3"
| "scalar_rank (STime _) = 4"

fun scalar_le :: "scalar \<Rightarrow> scalar \<Rightarrow> bool" where
  "scalar_le (SString a) (SString b) = (a \<le> b)"
| "scalar_le (SBoolean a) (SBoolean b) = (a \<le> b)"
| "scalar_le (SInteger a) (SInteger b) = (a \<le> b)"
| "scalar_le (SNumber a) (SNumber b) = (a \<le> b)"
| "scalar_le (STime a) (STime b) = (a \<le> b)"
| "scalar_le a b = (scalar_rank a < scalar_rank b)"

instantiation scalar :: linorder
begin
definition less_eq_scalar :: "scalar \<Rightarrow> scalar \<Rightarrow> bool" where
  "less_eq_scalar = scalar_le"
definition less_scalar :: "scalar \<Rightarrow> scalar \<Rightarrow> bool" where
  "less_scalar a b \<longleftrightarrow> a \<le> b \<and> \<not> b \<le> a"
instance
proof
  fix x y z :: scalar
  show "x < y \<longleftrightarrow> x \<le> y \<and> \<not> y \<le> x" by (rule less_scalar_def)
  show "x \<le> x" by (cases x) (simp_all add: less_eq_scalar_def)
  show "x \<le> y \<Longrightarrow> y \<le> z \<Longrightarrow> x \<le> z"
    by (cases x; cases y; cases z) (simp_all add: less_eq_scalar_def)
  show "x \<le> y \<Longrightarrow> y \<le> x \<Longrightarrow> x = y"
    by (cases x; cases y) (auto simp: less_eq_scalar_def)
  show "x \<le> y \<or> y \<le> x" by (cases x; cases y) (auto simp: less_eq_scalar_def)
qed
end

fun scalar_kind :: "scalar \<Rightarrow> scalar_type" where
  "scalar_kind (SString _) = TString"
| "scalar_kind (SBoolean _) = TBoolean"
| "scalar_kind (SInteger _) = TInteger"
| "scalar_kind (SNumber _) = TNumber"
| "scalar_kind (STime _) = TTime"

definition is_finite :: "not_nan \<Rightarrow> bool" where
  "is_finite n \<longleftrightarrow> (case n of Finite _ \<Rightarrow> True | _ \<Rightarrow> False)"

definition scalar_validate :: "scalar \<Rightarrow> budget \<Rightarrow> budget group_result" where
  "scalar_validate v b =
    (if (case v of SNumber n \<Rightarrow> \<not> is_finite n | _ \<Rightarrow> False) then Inl (Fail InvalidType)
     else case v of SString s \<Rightarrow> budget_scalar_text s b | _ \<Rightarrow> Inr b)"

datatype fact_value = Scalar scalar | ScalarSet scalar_type "scalar btree_set"

fun value_kind :: "fact_value \<Rightarrow> field_type" where
  "value_kind (Scalar v) = ScalarField (scalar_kind v)"
| "value_kind (ScalarSet element _) = SetField element"

fun value_validate :: "fact_value \<Rightarrow> budget \<Rightarrow> budget group_result" where
  "value_validate (Scalar v) b =
    bind_res (budget_take_items 1 b) (scalar_validate v)"
| "value_validate (ScalarSet element values) b =
    bind_res (budget_set (length values) b) (\<lambda>_.
    bind_res (budget_take_items (length values) b)
      (fold_res (\<lambda>v b.
        if scalar_kind v \<noteq> element then Inl (Fail InvalidType) else scalar_validate v b) values))"

section \<open>Operators, fields and predicates\<close>

datatype operator =
    Eq | Ne | In | NotIn | Lt | Le | Gt | Ge | Contains | NotContains | ContainsAny | ContainsAll
  | IsNull | IsNotNull

record field =
  field_key :: string
  field_kind :: field_type
  field_unit :: "string option"
  field_operations :: "operator list"
  field_nullable :: bool

record operand =
  operand_value :: fact_value
  operand_unit :: "string option"

record predicate =
  predicate_field :: string
  predicate_op :: operator
  predicate_operand :: "operand option"

section \<open>Facts and objects\<close>

datatype unknown_reason = NullValue | MissingFact | DeletedFact | UnsupportedFact | ConflictFact

datatype outcome = OMatch | ONoMatch | OUnknown unknown_reason

datatype decision = Match | NoMatch | Unknown

fun outcome_decision :: "outcome \<Rightarrow> decision" where
  "outcome_decision OMatch = Match"
| "outcome_decision ONoMatch = NoMatch"
| "outcome_decision (OUnknown _) = Unknown"

definition outcome_from_bool :: "bool \<Rightarrow> outcome" where
  "outcome_from_bool v = (if v then OMatch else ONoMatch)"

datatype fact_state =
    Known fact_value | Null | Deleted | Conflict | Missing | Unsupported | Denied

record fact =
  fact_state :: fact_state
  fact_source :: string
  fact_snapshot_id :: string
  fact_observed_at :: timepoint

type_synonym facts = "(string, fact) btree_map"
type_synonym memberships = "(string, outcome) btree_map"

datatype quantifier = QOne | QAny | QAll

record object_snapshot =
  snapshot_key :: object_key
  snapshot_memberships :: memberships
  snapshot_quantifier :: quantifier
  snapshot_complete :: bool
  snapshot_contexts :: "(string, facts) btree_map"

definition object_key_new :: "tenant_id \<Rightarrow> string \<Rightarrow> object_key group_result" where
  "object_key_new tenant id' =
    bind_res (budget_identity id' (budget_new BatchBytes)) (\<lambda>_. Inr (ObjectKey tenant id'))"

definition object_snapshot_single :: "object_key \<Rightarrow> facts \<Rightarrow> object_snapshot" where
  "object_snapshot_single key facts =
    \<lparr>snapshot_key = key, snapshot_memberships = [], snapshot_quantifier = QOne,
     snapshot_complete = True, snapshot_contexts = [(''default'', facts)]\<rparr>"

record page_input =
  page_tenant :: tenant_id
  page_id :: string
  page_version :: string
  page_dictionary_version :: string
  page_coverage :: "string btree_set"
  page_objects :: "object_snapshot list"
  page_after :: "object_key option"

section \<open>Results\<close>

record explanation =
  explanation_path :: "nat list"
  explanation_outcome :: outcome

record provenance =
  provenance_source :: string
  provenance_snapshot_id :: string
  provenance_observed_at :: timepoint

record context_evaluation =
  context_decision :: decision
  context_explanations :: "explanation list"
  context_provenance :: "(string, provenance) btree_map"

record object_evaluation =
  evaluation_key :: object_key
  evaluation_decision :: decision
  evaluation_contexts :: "(string, context_evaluation) btree_map"

record page_evaluation =
  result_coverage :: "string btree_set"
  result_tenant :: tenant_id
  result_rule_version :: string
  result_dictionary_version :: string
  result_snapshot_id :: string
  result_snapshot_version :: string
  result_as_of :: timepoint
  result_objects :: "object_evaluation list"

section \<open>Group sources\<close>

text \<open>\<^verbatim>\<open>source.rs\<close>. \<^verbatim>\<open>Uuid::parse_str\<close> is a function of the uuid crate and a parameter here.\<close>

definition group_id_parse :: "(string \<Rightarrow> uuid option) \<Rightarrow> string \<Rightarrow> uuid option" where
  "group_id_parse parse_str s =
    (case parse_str s of None \<Rightarrow> None | Some u \<Rightarrow> if uuid_is_nil u then None else Some u)"

datatype asset_context = Endpoint | AssociatedDevice

fun asset_context_as_str :: "asset_context \<Rightarrow> string" where
  "asset_context_as_str Endpoint = ''endpoint''"
| "asset_context_as_str AssociatedDevice = ''associated_device''"

record source_coordinates =
  coordinates_member_set :: "uuid option"
  coordinates_definition_version :: nat
  coordinates_member_version :: nat
  coordinates_authority_version :: nat
  coordinates_asset_context :: asset_context

record group_source =
  group_source_group :: uuid
  group_source_coordinates :: source_coordinates

section \<open>Validation of values\<close>

lemma no_panic_scalar_validate [simp, no_panic_intros]: "no_panic (scalar_validate v b)"
  by (auto simp: scalar_validate_def split: scalar.splits)

lemma no_panic_value_validate [simp, no_panic_intros]: "no_panic (value_validate v b)"
  by (cases v) (auto intro!: no_panic_intros)

lemma frugal_scalar_validate [frugal_intros]: "frugal (scalar_validate v)"
  unfolding scalar_validate_def
  by (rule frugal_if; cases v) (auto intro: frugal_intros)

lemma frugal_value_validate [frugal_intros]: "frugal (value_validate v)"
proof (cases v)
  case (Scalar s)
  then have "value_validate v = (\<lambda>b. bind_res (budget_take_items 1 b) (scalar_validate s))"
    by (intro ext) simp
  then show ?thesis by (simp only:) (intro frugal_intros)
next
  case (ScalarSet t vs)
  then have "value_validate v = (\<lambda>b. bind_res (budget_set (length vs) b) (\<lambda>_.
    bind_res (budget_take_items (length vs) b)
      (fold_res (\<lambda>v b.
        if scalar_kind v \<noteq> t then Inl (Fail InvalidType) else scalar_validate v b) vs)))"
    by (intro ext) simp
  then show ?thesis by (simp only:) (intro frugal_intros)
qed

text \<open>A value that passed validation is homogeneous and contains no infinite number.\<close>

definition value_ok :: "fact_value \<Rightarrow> bool" where
  "value_ok v \<longleftrightarrow> (case v of
      Scalar s \<Rightarrow> (\<forall>n. s = SNumber n \<longrightarrow> is_finite n)
    | ScalarSet t vs \<Rightarrow> \<forall>s \<in> set vs. scalar_kind s = t \<and> (\<forall>n. s = SNumber n \<longrightarrow> is_finite n))"

lemma scalar_validate_finite:
  "scalar_validate v b = Inr b' \<Longrightarrow> v = SNumber n \<Longrightarrow> is_finite n"
  by (simp add: scalar_validate_def split: if_splits)

lemma value_validate_ok: "value_validate v b = Inr b' \<Longrightarrow> value_ok v"
proof (cases v)
  case (Scalar s)
  then show "value_validate v b = Inr b' \<Longrightarrow> value_ok v"
    by (auto simp: value_ok_def dest: scalar_validate_finite)
next
  case (ScalarSet t vs)
  assume "value_validate v b = Inr b'"
  with ScalarSet obtain c where c: "fold_res (\<lambda>v b. if scalar_kind v \<noteq> t then Inl (Fail InvalidType)
      else scalar_validate v b) vs c = Inr b'"
    by auto
  have "scalar_kind s = t \<and> (\<forall>n. s = SNumber n \<longrightarrow> is_finite n)" if "s \<in> set vs" for s
    by (rule fold_res_each [OF c that]) (auto split: if_splits dest: scalar_validate_finite)
  with ScalarSet show ?thesis by (simp add: value_ok_def)
qed

end
