(* ===== verification/Group_Rule.thy ===== *)
theory Group_Rule
  imports Group_Model
begin

text \<open>
  \<^verbatim>\<open>crates/group/src/rule.rs\<close>: the bounded criteria tree with its cached node count and depth, its
  builders, and \<^verbatim>\<open>Rule::new\<close>, which checks a dictionary and a tree against each other. The theory
  shows that every tree the builders make has exact cached counts within the limits, and that an
  accepted rule is well formed (\<open>rule_wf\<close>): the types, units and operators of all its predicates
  agree with its dictionary, and \<^verbatim>\<open>required\<close> is exactly the set of fields it reads.
\<close>

section \<open>Criteria\<close>

datatype criteria = Criteria (criteria_node: node) (criteria_count: nat) (criteria_depth: nat)
and node =
    NPredicate predicate
  | NMembership string bool
  | NAnd "criteria list"
  | NOr "criteria list"

datatype criteria_view =
    VPredicate predicate | VMembership string bool | VAnd "criteria list" | VOr "criteria list"

fun criteria_as_view :: "criteria \<Rightarrow> criteria_view" where
  "criteria_as_view (Criteria (NPredicate p) _ _) = VPredicate p"
| "criteria_as_view (Criteria (NMembership g negated) _ _) = VMembership g negated"
| "criteria_as_view (Criteria (NAnd cs) _ _) = VAnd cs"
| "criteria_as_view (Criteria (NOr cs) _ _) = VOr cs"

definition criteria_membership :: "string \<Rightarrow> bool \<Rightarrow> criteria group_result" where
  "criteria_membership g negated =
    bind_res (budget_identity g (budget_new RuleBytes)) (\<lambda>_.
    Inr (Criteria (NMembership g negated) 1 1))"

definition unit_identity :: "string option \<Rightarrow> budget \<Rightarrow> budget group_result" where
  "unit_identity u b = (case u of None \<Rightarrow> Inr b | Some s \<Rightarrow> budget_identity s b)"

definition criteria_predicate :: "predicate \<Rightarrow> criteria group_result" where
  "criteria_predicate p =
    bind_res (budget_identity (predicate_field p) (budget_new RuleBytes)) (\<lambda>b.
    bind_res
      (case predicate_operand p of None \<Rightarrow> Inr b
       | Some x \<Rightarrow> bind_res (value_validate (operand_value x) b) (unit_identity (operand_unit x)))
    (\<lambda>_. Inr (Criteria (NPredicate p) 1 1)))"

definition criteria_group :: "criteria list \<Rightarrow> bool \<Rightarrow> criteria group_result" where
  "criteria_group children conj' =
    (if children = [] then Inl (Fail InvalidStructure)
     else
       bind_res (limit_check Nodes (length children)) (\<lambda>_.
       bind_res (fold_res (\<lambda>c n. limit_add Nodes n (criteria_count c)) children 1) (\<lambda>count.
       let depth = 1 + Max (set (map criteria_depth children)) in
       bind_res (limit_check Depth depth) (\<lambda>_.
       Inr (Criteria (if conj' then NAnd children else NOr children) count depth)))))"

definition criteria_and :: "criteria list \<Rightarrow> criteria group_result" where
  "criteria_and children = criteria_group children True"

definition criteria_or :: "criteria list \<Rightarrow> criteria group_result" where
  "criteria_or children = criteria_group children False"

section \<open>Rules\<close>

type_synonym dictionary = "(string, field) btree_map"

record rule =
  rule_tenant :: tenant_id
  rule_version :: string
  rule_dictionary_version :: string
  rule_fields :: dictionary
  rule_criteria :: criteria
  rule_required :: "string btree_set"

text \<open>\<^verbatim>\<open>Rule::predicate_at\<close>.\<close>

fun criteria_at :: "criteria \<Rightarrow> nat list \<Rightarrow> criteria option" where
  "criteria_at c [] = Some c"
| "criteria_at c (i # path) =
    (case criteria_node c of
       NAnd cs \<Rightarrow> if i < length cs then criteria_at (cs ! i) path else None
     | NOr cs \<Rightarrow> if i < length cs then criteria_at (cs ! i) path else None
     | _ \<Rightarrow> None)"

definition predicate_at :: "rule \<Rightarrow> nat list \<Rightarrow> predicate option" where
  "predicate_at r path =
    (case criteria_at (rule_criteria r) path of
       Some c \<Rightarrow> (case criteria_node c of NPredicate p \<Rightarrow> Some p | _ \<Rightarrow> None)
     | None \<Rightarrow> None)"

text \<open>\<^verbatim>\<open>Rule::groups\<close> and its inner \<^verbatim>\<open>collect\<close>.\<close>

fun groups_collect :: "criteria \<Rightarrow> string btree_set \<Rightarrow> string btree_set" where
  "groups_collect (Criteria (NMembership g _) _ _) out = bs_insert g out"
| "groups_collect (Criteria (NAnd cs) _ _) out = fold (\<lambda>c out. groups_collect c out) cs out"
| "groups_collect (Criteria (NOr cs) _ _) out = fold (\<lambda>c out. groups_collect c out) cs out"
| "groups_collect (Criteria (NPredicate _) _ _) out = out"

definition rule_groups :: "rule \<Rightarrow> string btree_set" where
  "rule_groups r = groups_collect (rule_criteria r) []"

fun is_scalar_kind :: "field_type \<Rightarrow> bool" where
  "is_scalar_kind (ScalarField _) = True"
| "is_scalar_kind (SetField _) = False"

fun allows :: "field \<Rightarrow> operator \<Rightarrow> bool" where
  "allows f op =
    (case op of
       IsNull \<Rightarrow> field_nullable f
     | IsNotNull \<Rightarrow> field_nullable f
     | Eq \<Rightarrow> is_scalar_kind (field_kind f)
     | Ne \<Rightarrow> is_scalar_kind (field_kind f)
     | In \<Rightarrow> is_scalar_kind (field_kind f)
     | NotIn \<Rightarrow> is_scalar_kind (field_kind f)
     | Lt \<Rightarrow> field_kind f \<in> {ScalarField TInteger, ScalarField TNumber, ScalarField TTime}
     | Le \<Rightarrow> field_kind f \<in> {ScalarField TInteger, ScalarField TNumber, ScalarField TTime}
     | Gt \<Rightarrow> field_kind f \<in> {ScalarField TInteger, ScalarField TNumber, ScalarField TTime}
     | Ge \<Rightarrow> field_kind f \<in> {ScalarField TInteger, ScalarField TNumber, ScalarField TTime}
     | Contains \<Rightarrow> field_kind f = ScalarField TString
     | NotContains \<Rightarrow> field_kind f = ScalarField TString
     | ContainsAny \<Rightarrow> \<not> is_scalar_kind (field_kind f)
     | ContainsAll \<Rightarrow> \<not> is_scalar_kind (field_kind f))"

text \<open>The type an operand must have.\<close>

fun expected_operand :: "operator \<Rightarrow> field_type \<Rightarrow> field_type" where
  "expected_operand op kind =
    (case (op, kind) of
       (In, ScalarField t) \<Rightarrow> SetField t
     | (NotIn, ScalarField t) \<Rightarrow> SetField t
     | _ \<Rightarrow> kind)"

definition validate_operand :: "field \<Rightarrow> operator \<Rightarrow> operand \<Rightarrow> budget \<Rightarrow> budget group_result" where
  "validate_operand f op x b =
    bind_res (value_validate (operand_value x) b) (\<lambda>b.
    bind_res (unit_identity (operand_unit x) b) (\<lambda>b.
    if operand_unit x \<noteq> field_unit f then Inl (Fail InvalidUnit)
    else if value_kind (operand_value x) \<noteq> expected_operand op (field_kind f)
      then Inl (Fail InvalidType)
    else Inr b))"

definition validate_predicate ::
  "dictionary \<Rightarrow> predicate \<Rightarrow> string btree_set \<times> budget \<Rightarrow> (string btree_set \<times> budget) group_result" where
  "validate_predicate dict p s =
    (let (required, b) = s; op = predicate_op p in
     bind_res (budget_identity (predicate_field p) b) (\<lambda>b.
     bind_res (ok_or UnknownField (bm_get dict (predicate_field p))) (\<lambda>f.
     let required = bs_insert (predicate_field p) required in
     if op \<notin> set (field_operations f) then Inl (Fail InvalidOperation)
     else if op = IsNull \<or> op = IsNotNull then
       (if predicate_operand p \<noteq> None then Inl (Fail InvalidOperation) else Inr (required, b))
     else
       bind_res (ok_or InvalidOperation (predicate_operand p)) (\<lambda>x.
       bind_res (validate_operand f op x b) (\<lambda>b. Inr (required, b))))))"

fun validate ::
  "dictionary \<Rightarrow> criteria \<Rightarrow> string btree_set \<times> budget \<Rightarrow> (string btree_set \<times> budget) group_result" where
  "validate dict (Criteria (NMembership g _) _ _) s =
    bind_res (budget_identity g (snd s)) (\<lambda>b. Inr (fst s, b))"
| "validate dict (Criteria (NAnd cs) _ _) s = fold_res (\<lambda>c s. validate dict c s) cs s"
| "validate dict (Criteria (NOr cs) _ _) s = fold_res (\<lambda>c s. validate dict c s) cs s"
| "validate dict (Criteria (NPredicate p) _ _) s = validate_predicate dict p s"

text \<open>One round of the dictionary loop of \<^verbatim>\<open>Rule::new\<close>.\<close>

definition add_field :: "field \<Rightarrow> dictionary \<times> budget \<Rightarrow> (dictionary \<times> budget) group_result" where
  "add_field f s =
    (let (dict, b) = s in
     bind_res (budget_identity (field_key f) b) (\<lambda>b.
     bind_res (unit_identity (field_unit f) b) (\<lambda>b.
     if field_operations f = [] \<or> list_ex (\<lambda>op. \<not> allows f op) (field_operations f)
       then Inl (Fail InvalidOperation)
     else
       (let (dict, old) = bm_put (field_key f) f dict in
        if old \<noteq> None then Inl (Fail InvalidStructure) else Inr (dict, b)))))"

definition rule_new ::
  "tenant_id \<Rightarrow> string \<Rightarrow> string \<Rightarrow> field list \<Rightarrow> criteria \<Rightarrow> rule group_result" where
  "rule_new tenant version dictionary_version fs criteria =
    bind_res (budget_identity version (budget_new RuleBytes)) (\<lambda>b.
    bind_res (budget_identity dictionary_version b) (\<lambda>b.
    bind_res (limit_check Fields (length fs)) (\<lambda>_.
    bind_res (fold_res add_field fs ([], b)) (\<lambda>(dictionary, b).
    bind_res (validate dictionary criteria ([], b)) (\<lambda>(required, b).
    Inr \<lparr>rule_tenant = tenant, rule_version = version,
         rule_dictionary_version = dictionary_version, rule_fields = dictionary,
         rule_criteria = criteria, rule_required = required\<rparr>)))))"

section \<open>The builders keep the cached counts exact\<close>

fun node_total :: "criteria \<Rightarrow> nat" where
  "node_total (Criteria (NAnd cs) _ _) = 1 + sum_list (map (\<lambda>c. node_total c) cs)"
| "node_total (Criteria (NOr cs) _ _) = 1 + sum_list (map (\<lambda>c. node_total c) cs)"
| "node_total (Criteria (NMembership _ _) _ _) = 1"
| "node_total (Criteria (NPredicate _) _ _) = 1"

fun tree_height :: "criteria \<Rightarrow> nat" where
  "tree_height (Criteria (NAnd cs) _ _) = 1 + Max (set (map (\<lambda>c. tree_height c) cs))"
| "tree_height (Criteria (NOr cs) _ _) = 1 + Max (set (map (\<lambda>c. tree_height c) cs))"
| "tree_height (Criteria (NMembership _ _) _ _) = 1"
| "tree_height (Criteria (NPredicate _) _ _) = 1"

text \<open>The dict of \<^verbatim>\<open>Criteria\<close> are private, so every tree is the result of the builders.\<close>

inductive built :: "criteria \<Rightarrow> bool" where
  built_membership: "criteria_membership g negated = Inr c \<Longrightarrow> built c"
| built_predicate: "criteria_predicate p = Inr c \<Longrightarrow> built c"
| built_group: "\<forall>c \<in> set children. built c \<Longrightarrow> criteria_group children conj' = Inr c \<Longrightarrow> built c"

lemma criteria_membership_Inr:
  "criteria_membership g negated = Inr c \<Longrightarrow> c = Criteria (NMembership g negated) 1 1"
  by (auto simp: criteria_membership_def)

lemma criteria_predicate_Inr: "criteria_predicate p = Inr c \<Longrightarrow> c = Criteria (NPredicate p) 1 1"
  by (auto simp: criteria_predicate_def)

lemma fold_limit_add:
  "fold_res (\<lambda>c n. limit_add Nodes n (criteria_count c)) cs n = Inr m \<Longrightarrow>
    m = n + sum_list (map criteria_count cs) \<and> (cs \<noteq> [] \<longrightarrow> m \<le> limits_NODES)"
  by (induction cs arbitrary: n) (force simp: limit_add_eq split: if_splits)+

lemma criteria_group_Inr:
  assumes "criteria_group children conj' = Inr c"
  shows "children \<noteq> []" "criteria_node c = (if conj' then NAnd children else NOr children)"
    "criteria_count c = 1 + sum_list (map criteria_count children)"
    "criteria_depth c = 1 + Max (set (map criteria_depth children))"
    "criteria_count c \<le> limits_NODES" "criteria_depth c \<le> limits_DEPTH"
proof -
  from assms show ne: "children \<noteq> []" by (auto simp: criteria_group_def split: if_splits)
  from assms ne obtain n where n: "fold_res (\<lambda>c n. limit_add Nodes n (criteria_count c)) children 1 = Inr n"
    and d: "1 + Max (set (map criteria_depth children)) \<le> limit_maximum Depth"
    and c: "c = Criteria (if conj' then NAnd children else NOr children) n
      (1 + Max (set (map criteria_depth children)))"
    by (auto simp: criteria_group_def Let_def)
  from fold_limit_add [OF n] ne have "n = 1 + sum_list (map criteria_count children)" "n \<le> limits_NODES"
    by auto
  with c d show "criteria_node c = (if conj' then NAnd children else NOr children)"
    "criteria_count c = 1 + sum_list (map criteria_count children)"
    "criteria_depth c = 1 + Max (set (map criteria_depth children))"
    "criteria_count c \<le> limits_NODES" "criteria_depth c \<le> limits_DEPTH"
    by simp_all
qed

lemma node_total_group: "criteria_node c \<in> {NAnd cs, NOr cs} \<Longrightarrow> node_total c = 1 + sum_list (map node_total cs)"
  by (cases c) auto

lemma tree_height_group: "criteria_node c \<in> {NAnd cs, NOr cs} \<Longrightarrow> tree_height c = 1 + Max (set (map tree_height cs))"
  by (cases c) auto

lemma built_exact:
  "built c \<Longrightarrow> criteria_count c = node_total c \<and> criteria_depth c = tree_height c \<and>
    criteria_count c \<le> limits_NODES \<and> criteria_depth c \<le> limits_DEPTH"
proof (induction rule: built.induct)
  case (built_membership g negated c)
  then show ?case by (auto dest!: criteria_membership_Inr simp: limits_defs)
next
  case (built_predicate p c)
  then show ?case by (auto dest!: criteria_predicate_Inr simp: limits_defs)
next
  case (built_group children conj' c)
  note g = criteria_group_Inr [OF built_group.hyps]
  have node: "criteria_node c \<in> {NAnd children, NOr children}" using g(2) by (auto split: if_splits)
  have "map criteria_count children = map node_total children"
    "map criteria_depth children = map tree_height children"
    using built_group.IH by auto
  then show ?case using g(3-6) by (simp only: node_total_group [OF node] tree_height_group [OF node])
qed

section \<open>An accepted rule is well formed\<close>

fun predicates_of :: "criteria \<Rightarrow> predicate list" where
  "predicates_of (Criteria (NAnd cs) _ _) = concat (map (\<lambda>c. predicates_of c) cs)"
| "predicates_of (Criteria (NOr cs) _ _) = concat (map (\<lambda>c. predicates_of c) cs)"
| "predicates_of (Criteria (NMembership _ _) _ _) = []"
| "predicates_of (Criteria (NPredicate p) _ _) = [p]"

fun groups_of :: "criteria \<Rightarrow> string list" where
  "groups_of (Criteria (NAnd cs) _ _) = concat (map (\<lambda>c. groups_of c) cs)"
| "groups_of (Criteria (NOr cs) _ _) = concat (map (\<lambda>c. groups_of c) cs)"
| "groups_of (Criteria (NMembership g _) _ _) = [g]"
| "groups_of (Criteria (NPredicate _) _ _) = []"

definition predicate_ok :: "dictionary \<Rightarrow> predicate \<Rightarrow> bool" where
  "predicate_ok dict p \<longleftrightarrow>
    (\<exists>f. bm_get dict (predicate_field p) = Some f \<and> predicate_op p \<in> set (field_operations f) \<and>
      (if predicate_op p \<in> {IsNull, IsNotNull} then predicate_operand p = None
       else \<exists>x. predicate_operand p = Some x \<and> operand_unit x = field_unit f \<and>
         value_ok (operand_value x) \<and>
         value_kind (operand_value x) = expected_operand (predicate_op p) (field_kind f)))"

definition dictionary_ok :: "dictionary \<Rightarrow> bool" where
  "dictionary_ok dict \<longleftrightarrow> bm_wf dict \<and>
    (\<forall>k f. bm_get dict k = Some f \<longrightarrow>
      field_key f = k \<and> field_operations f \<noteq> [] \<and> (\<forall>op \<in> set (field_operations f). allows f op))"

definition rule_wf :: "rule \<Rightarrow> bool" where
  "rule_wf r \<longleftrightarrow> dictionary_ok (rule_fields r) \<and>
    (\<forall>p \<in> set (predicates_of (rule_criteria r)). predicate_ok (rule_fields r) p) \<and>
    set (rule_required r) = predicate_field ` set (predicates_of (rule_criteria r)) \<and>
    bs_wf (rule_required r)"

lemma dictionary_ok_Nil [simp]: "dictionary_ok []"
  by (simp add: dictionary_ok_def)

lemma add_field_ok:
  assumes "add_field f (dict, b) = Inr (dict', b')" "dictionary_ok dict"
  shows "dictionary_ok dict'"
proof -
  from assms(1) have "field_operations f \<noteq> []" "\<forall>op \<in> set (field_operations f). allows f op"
    "bm_get dict (field_key f) = None" "dict' = bm_insert (field_key f) f dict"
    by (auto simp: add_field_def bm_put_def list_ex_iff split: if_splits)
  with assms(2) show ?thesis by (simp add: dictionary_ok_def)
qed

lemma fold_add_field_ok:
  assumes "fold_res add_field fs (dict, b) = Inr (dict', b')" "dictionary_ok dict"
  shows "dictionary_ok dict'"
proof -
  have "dictionary_ok (fst (dict', b'))"
    by (rule fold_res_invariant [where P = "\<lambda>s. dictionary_ok (fst s)", OF assms(1)])
      (use assms(2) add_field_ok in auto)
  then show ?thesis by simp
qed

lemma validate_predicate_ok:
  assumes "validate_predicate dict p (req, b) = Inr (req', b')"
  shows "predicate_ok dict p" "req' = bs_insert (predicate_field p) req"
  using assms
  by (auto simp: validate_predicate_def predicate_ok_def validate_operand_def Let_def
      split: if_splits dest!: value_validate_ok)

text \<open>The loop over the children of a group, given what each child's validation establishes.\<close>

lemma fold_validate_ok:
  assumes "fold_res (\<lambda>c s. validate dict c s) cs s = Inr s'"
    and "\<And>c s s'. c \<in> set cs \<Longrightarrow> validate dict c s = Inr s' \<Longrightarrow>
      (\<forall>p \<in> set (predicates_of c). predicate_ok dict p) \<and>
      set (fst s') = set (fst s) \<union> predicate_field ` set (predicates_of c) \<and>
      (bs_wf (fst s) \<longrightarrow> bs_wf (fst s'))"
  shows "(\<forall>p \<in> set (concat (map predicates_of cs)). predicate_ok dict p) \<and>
      set (fst s') = set (fst s) \<union> predicate_field ` set (concat (map predicates_of cs)) \<and>
      (bs_wf (fst s) \<longrightarrow> bs_wf (fst s'))"
  using assms
proof (induction cs arbitrary: s)
  case Nil
  then show ?case by simp
next
  case (Cons c cs)
  from Cons.prems(1) obtain u where u: "validate dict c s = Inr u"
    "fold_res (\<lambda>c s. validate dict c s) cs u = Inr s'" by auto
  have 1: "(\<forall>p \<in> set (predicates_of c). predicate_ok dict p) \<and>
      set (fst u) = set (fst s) \<union> predicate_field ` set (predicates_of c) \<and>
      (bs_wf (fst s) \<longrightarrow> bs_wf (fst u))"
    by (rule Cons.prems(2) [OF _ u(1)]) simp
  have 2: "(\<forall>p \<in> set (concat (map predicates_of cs)). predicate_ok dict p) \<and>
      set (fst s') = set (fst u) \<union> predicate_field ` set (concat (map predicates_of cs)) \<and>
      (bs_wf (fst u) \<longrightarrow> bs_wf (fst s'))"
    by (rule Cons.IH [OF u(2)]) (rule Cons.prems(2), auto)
  from 1 2 show ?case by auto
qed

lemma validate_ok:
  "validate dict c s = Inr s' \<Longrightarrow>
    (\<forall>p \<in> set (predicates_of c). predicate_ok dict p) \<and>
    set (fst s') = set (fst s) \<union> predicate_field ` set (predicates_of c) \<and>
    (bs_wf (fst s) \<longrightarrow> bs_wf (fst s'))"
proof (induction dict c s arbitrary: s' rule: validate.induct)
  case (1 dict g negated n d s)
  then show ?case by auto
next
  case (2 dict cs n d s)
  show ?case using fold_validate_ok [of dict cs s s'] "2.prems" "2.IH" by simp
next
  case (3 dict cs n d s)
  show ?case using fold_validate_ok [of dict cs s s'] "3.prems" "3.IH" by simp
next
  case (4 dict p n d s)
  then have "validate_predicate dict p (fst s, snd s) = Inr (fst s', snd s')" by simp
  from validate_predicate_ok [OF this] show ?case by simp
qed

lemma rule_new_Inr:
  assumes "rule_new tenant version dictionary_version fs criteria = Inr r"
  shows "rule_wf r" "rule_tenant r = tenant" "rule_criteria r = criteria"
    "rule_version r = version" "rule_dictionary_version r = dictionary_version"
proof -
  from assms obtain b dict b1 req b2 where
    d: "fold_res add_field fs ([], b) = Inr (dict, b1)"
    and v: "validate dict criteria ([], b1) = Inr (req, b2)"
    and r: "r = \<lparr>rule_tenant = tenant, rule_version = version,
         rule_dictionary_version = dictionary_version, rule_fields = dict,
         rule_criteria = criteria, rule_required = req\<rparr>"
    by (auto simp: rule_new_def)
  from fold_add_field_ok [OF d] validate_ok [OF v] r
  show "rule_wf r" by (simp add: rule_wf_def)
  from r show "rule_tenant r = tenant" "rule_criteria r = criteria"
    "rule_version r = version" "rule_dictionary_version r = dictionary_version" by simp_all
qed

text \<open>The dictionary loop is a client of the keyed store: it accepts exactly distinct keys.\<close>

lemma fold_add_field_keys:
  assumes "fold_res add_field fs (dict, b) = Inr (dict', b')"
  shows "bm.put_all (\<lambda>_ _. True) (map (\<lambda>f. (field_key f, f)) fs) dict = Some dict'"
  using assms
proof (induction fs arbitrary: dict b)
  case Nil
  then show ?case by simp
next
  case (Cons f fs)
  from Cons.prems obtain g c where g: "add_field f (dict, b) = Inr (g, c)"
    "fold_res add_field fs (g, c) = Inr (dict', b')" by auto
  from g(1) have "bm_put (field_key f) f dict = (g, None)"
    by (auto simp: add_field_def bm_put_def split: if_splits)
  with Cons.IH [OF g(2)] show ?case by simp
qed

lemma set_groups_collect: "set (groups_collect c out) = set out \<union> set (groups_of c)"
proof (induction c out rule: groups_collect.induct)
  case (2 cs n d out)
  then have "set (fold (\<lambda>c out. groups_collect c out) cs out) = set out \<union> set (concat (map groups_of cs))"
    by (induction cs arbitrary: out) auto
  then show ?case by simp
next
  case (3 cs n d out)
  then have "set (fold (\<lambda>c out. groups_collect c out) cs out) = set out \<union> set (concat (map groups_of cs))"
    by (induction cs arbitrary: out) auto
  then show ?case by simp
qed auto

lemma set_rule_groups: "set (rule_groups r) = set (groups_of (rule_criteria r))"
  by (simp add: rule_groups_def set_groups_collect)

end
