(* ===== verification/Group_Evaluation.thy ===== *)
theory Group_Evaluation
  imports Group_Rule Three_Valued
begin

text \<open>
  \<^verbatim>\<open>crates/group/src/evaluation.rs\<close>: the evaluation of one page of objects against a rule. A panic
  of the source (\<^verbatim>\<open>unreachable!\<close>, \<^verbatim>\<open>expect\<close>, a missing map index) is the fault \<open>Panic\<close>.

  The theory shows that a page evaluated with an accepted rule never panics; that the decision of
  a criteria tree is its strong Kleene meaning and its explanations are the leaves in order; that a
  decided result does not depend on how unknown facts are later resolved; what the quantifiers
  mean; and that a page can be split at any object without changing the result.
\<close>

section \<open>Leaves\<close>

text \<open>The comparison of a known value with the operand; \<open>None\<close> is the \<^verbatim>\<open>unreachable!\<close> arm.\<close>

fun compare :: "fact_value \<Rightarrow> fact_value \<Rightarrow> operator \<Rightarrow> bool option" where
  "compare (Scalar a) (Scalar b) op =
    (case op of
       Eq \<Rightarrow> Some (a = b)
     | Ne \<Rightarrow> Some (a \<noteq> b)
     | Lt \<Rightarrow> Some (a < b)
     | Le \<Rightarrow> Some (a \<le> b)
     | Gt \<Rightarrow> Some (a > b)
     | Ge \<Rightarrow> Some (a \<ge> b)
     | Contains \<Rightarrow> (case (a, b) of (SString s, SString t) \<Rightarrow> Some (str_contains s t) | _ \<Rightarrow> None)
     | NotContains \<Rightarrow> (case (a, b) of (SString s, SString t) \<Rightarrow> Some (\<not> str_contains s t) | _ \<Rightarrow> None)
     | _ \<Rightarrow> None)"
| "compare (Scalar a) (ScalarSet _ values) op =
    (case op of In \<Rightarrow> Some (a \<in> set values) | NotIn \<Rightarrow> Some (a \<notin> set values) | _ \<Rightarrow> None)"
| "compare (ScalarSet _ a) (ScalarSet _ b) op =
    (case op of ContainsAny \<Rightarrow> Some (set a \<inter> set b \<noteq> {}) | ContainsAll \<Rightarrow> Some (set b \<subseteq> set a) | _ \<Rightarrow> None)"
| "compare (ScalarSet _ _) (Scalar _) op = None"

definition eval_predicate ::
  "fact option \<Rightarrow> operator \<Rightarrow> fact_value option \<Rightarrow> timepoint \<Rightarrow> outcome group_result" where
  "eval_predicate observed op operand now =
    (case observed of
       None \<Rightarrow> Inr (OUnknown MissingFact)
     | Some f \<Rightarrow>
       (case fact_state f of
          Missing \<Rightarrow> Inr (OUnknown MissingFact)
        | Deleted \<Rightarrow> Inr (OUnknown DeletedFact)
        | Conflict \<Rightarrow> Inr (OUnknown ConflictFact)
        | Unsupported \<Rightarrow> Inr (OUnknown UnsupportedFact)
        | Denied \<Rightarrow> Inl Panic
        | state \<Rightarrow>
          (let null = (state = Null) in
           if op = IsNull then Inr (outcome_from_bool null)
           else if op = IsNotNull then Inr (outcome_from_bool (\<not> null))
           else
             (case state of
                Known v \<Rightarrow>
                  bind_res (or_panic operand) (\<lambda>x.
                  bind_res (or_panic (compare v x op)) (\<lambda>result. Inr (outcome_from_bool result)))
              | _ \<Rightarrow> Inr (OUnknown NullValue)))))"

fun negate_membership :: "outcome \<Rightarrow> bool \<Rightarrow> outcome" where
  "negate_membership OMatch True = ONoMatch"
| "negate_membership ONoMatch True = OMatch"
| "negate_membership v _ = v"

section \<open>Trees\<close>

text \<open>The loop of a conjunction or disjunction: \<open>path\<close> is the path of the group itself, \<open>i\<close> the index
  of the next child and \<open>acc\<close> the variable \<^verbatim>\<open>result\<close>. The last argument is the vector \<^verbatim>\<open>out\<close>.\<close>

fun evaluate_node ::
  "criteria \<Rightarrow> facts \<Rightarrow> memberships \<Rightarrow> timepoint \<Rightarrow> nat list \<Rightarrow> explanation list \<Rightarrow>
    (decision \<times> explanation list) group_result"
and evaluate_children ::
  "bool \<Rightarrow> nat \<Rightarrow> criteria list \<Rightarrow> facts \<Rightarrow> memberships \<Rightarrow> timepoint \<Rightarrow> nat list \<Rightarrow> decision \<Rightarrow>
    explanation list \<Rightarrow> (decision \<times> explanation list) group_result" where
  "evaluate_node (Criteria (NMembership g negated) _ _) facts memberships now path out =
    bind_res (or_panic (bm_get memberships g)) (\<lambda>m.
    let outcome = negate_membership m negated in
    Inr (outcome_decision outcome,
         out @ [\<lparr>explanation_path = path, explanation_outcome = outcome\<rparr>]))"
| "evaluate_node (Criteria (NPredicate p) _ _) facts memberships now path out =
    bind_res (eval_predicate (bm_get facts (predicate_field p)) (predicate_op p)
        (map_option operand_value (predicate_operand p)) now) (\<lambda>outcome.
    Inr (outcome_decision outcome,
         out @ [\<lparr>explanation_path = path, explanation_outcome = outcome\<rparr>]))"
| "evaluate_node (Criteria (NAnd cs) _ _) facts memberships now path out =
    evaluate_children True 0 cs facts memberships now path Match out"
| "evaluate_node (Criteria (NOr cs) _ _) facts memberships now path out =
    evaluate_children False 0 cs facts memberships now path NoMatch out"
| "evaluate_children is_and i [] facts memberships now path acc out = Inr (acc, out)"
| "evaluate_children is_and i (c # cs) facts memberships now path acc out =
    bind_res (evaluate_node c facts memberships now (path @ [i]) out) (\<lambda>(d, out).
    let decisive = (if is_and then NoMatch else Match);
        acc = (if d = decisive \<or> (d = Unknown \<and> acc \<noteq> decisive) then d else acc)
    in evaluate_children is_and (Suc i) cs facts memberships now path acc out)"

fun leaf_count :: "criteria \<Rightarrow> nat" where
  "leaf_count (Criteria (NPredicate _) _ _) = 1"
| "leaf_count (Criteria (NMembership _ _) _ _) = 1"
| "leaf_count (Criteria (NAnd cs) _ _) = sum_list (map (\<lambda>c. leaf_count c) cs)"
| "leaf_count (Criteria (NOr cs) _ _) = sum_list (map (\<lambda>c. leaf_count c) cs)"

section \<open>Pages\<close>

text \<open>One fact of a context: its place in the dictionary and the coverage, its texts and its state.\<close>

definition check_fact :: "rule \<Rightarrow> string btree_set \<Rightarrow> string \<times> fact \<Rightarrow> budget \<Rightarrow> budget group_result" where
  "check_fact r coverage kf b =
    (let (key, observed) = kf in
     bind_res (budget_identity key b) (\<lambda>b.
     bind_res (ok_or UnknownField (bm_get (rule_fields r) key)) (\<lambda>f.
     if key \<notin> set coverage then Inl (Fail InvalidStructure)
     else
       bind_res (budget_identity (fact_source observed) b) (\<lambda>b.
       bind_res (budget_identity (fact_snapshot_id observed) b) (\<lambda>b.
       case fact_state observed of
         Known v \<Rightarrow>
           bind_res (value_validate v b) (\<lambda>b.
           if value_kind v \<noteq> field_kind f then Inl (Fail InvalidType) else Inr b)
       | Null \<Rightarrow> if \<not> field_nullable f then Inl (Fail InvalidType) else Inr b
       | Denied \<Rightarrow> Inl (Fail PermissionDenied)
       | _ \<Rightarrow> Inr b)))))"

definition required_provenance :: "rule \<Rightarrow> facts \<Rightarrow> (string, provenance) btree_map" where
  "required_provenance r facts =
    bm_of_list (List.map_filter (\<lambda>key. map_option (\<lambda>f.
      (key, \<lparr>provenance_source = fact_source f, provenance_snapshot_id = fact_snapshot_id f,
             provenance_observed_at = fact_observed_at f\<rparr>)) (bm_get facts key)) (rule_required r))"

definition evaluate_context ::
  "rule \<Rightarrow> page_input \<Rightarrow> timepoint \<Rightarrow> memberships \<Rightarrow> string \<times> facts \<Rightarrow>
    (string, context_evaluation) btree_map \<times> budget \<Rightarrow>
    ((string, context_evaluation) btree_map \<times> budget) group_result" where
  "evaluate_context r s as_of memberships cf st =
    (let (context_id, facts) = cf; (contexts, b) = st in
     bind_res (budget_identity context_id b) (\<lambda>b.
     bind_res (limit_check Fields (length facts)) (\<lambda>_.
     bind_res (fold_res (check_fact r (page_coverage s)) facts b) (\<lambda>b.
     if \<not> list_all (\<lambda>key. key \<in> fst ` set facts) (page_coverage s) then Inl (Fail IncompleteSnapshot)
     else
       bind_res (evaluate_node (rule_criteria r) facts memberships as_of [] []) (\<lambda>(d, out).
       Inr (bm_insert context_id \<lparr>context_decision = d, context_explanations = out,
              context_provenance = required_provenance r facts\<rparr> contexts, b))))))"

definition quantify ::
  "quantifier \<Rightarrow> bool \<Rightarrow> (string, context_evaluation) btree_map \<Rightarrow> decision group_result" where
  "quantify q is_complete contexts =
    (let ds = map context_decision (bm_values contexts);
         any' = Match \<in> set ds;
         no' = NoMatch \<in> set ds;
         unknown' = (\<not> is_complete \<or> contexts = [] \<or> Unknown \<in> set ds)
     in case q of
          QOne \<Rightarrow> (case ds of [] \<Rightarrow> Inl (Fail InvalidStructure) | d # _ \<Rightarrow> Inr d)
        | QAny \<Rightarrow> Inr (if any' then Match else if unknown' then Unknown else NoMatch)
        | QAll \<Rightarrow> Inr (if no' then NoMatch else if unknown' then Unknown else Match))"

text \<open>One round of the loop over the objects: the number of contexts so far, the results so far and
  the budget.\<close>

definition evaluate_object ::
  "rule \<Rightarrow> page_input \<Rightarrow> timepoint \<Rightarrow> object_snapshot \<Rightarrow> nat \<times> object_evaluation list \<times> budget \<Rightarrow>
    (nat \<times> object_evaluation list \<times> budget) group_result" where
  "evaluate_object r s as_of object st =
    (let (context_count, objects, b) = st in
     bind_res (ensure (key_tenant (snapshot_key object) = page_tenant s) TenantMismatch) (\<lambda>_.
     bind_res (budget_text (key_id (snapshot_key object)) b) (\<lambda>b.
     bind_res (ensure (bs_of_list (bm_keys (snapshot_memberships object)) = rule_groups r)
       IncompleteSnapshot) (\<lambda>_.
     bind_res (fold_res budget_identity (bm_keys (snapshot_memberships object)) b) (\<lambda>b.
     bind_res (ensure (\<not> (snapshot_quantifier object = QOne \<and>
         (length (snapshot_contexts object) \<noteq> 1 \<or> \<not> snapshot_complete object))) InvalidStructure) (\<lambda>_.
     bind_res (ok_or (LimitExceeded Visits)
         (checked_add_u64 context_count (length (snapshot_contexts object)))) (\<lambda>context_count.
     bind_res (limit_product Visits context_count (criteria_count (rule_criteria r))) (\<lambda>_.
     bind_res (limit_product Explanations context_count (leaf_count (rule_criteria r))) (\<lambda>_.
     bind_res (fold_res (evaluate_context r s as_of (snapshot_memberships object))
         (snapshot_contexts object) ([], b)) (\<lambda>(contexts, b).
     bind_res (quantify (snapshot_quantifier object) (snapshot_complete object) contexts) (\<lambda>d.
     Inr (context_count,
          objects @ [\<lparr>evaluation_key = snapshot_key object, evaluation_decision = d,
                      evaluation_contexts = contexts\<rparr>], b))))))))))))"

definition check_coverage_key :: "rule \<Rightarrow> string \<Rightarrow> budget \<Rightarrow> budget group_result" where
  "check_coverage_key r key b =
    bind_res (budget_identity key b) (\<lambda>b.
    if key \<notin> fst ` set (rule_fields r) then Inl (Fail UnknownField) else Inr b)"

definition evaluate_input ::
  "rule \<Rightarrow> page_input \<Rightarrow> timepoint \<Rightarrow> budget \<Rightarrow> page_evaluation group_result" where
  "evaluate_input r s as_of b =
    bind_res (ensure (rule_tenant r = page_tenant s) TenantMismatch) (\<lambda>_.
    bind_res (budget_identity (page_id s) b) (\<lambda>b.
    bind_res (budget_input_version (page_version s) b) (\<lambda>b.
    bind_res (budget_identity (page_dictionary_version s) b) (\<lambda>b.
    bind_res (ensure (page_dictionary_version s = rule_dictionary_version r) VersionMismatch) (\<lambda>_.
    bind_res (limit_check Fields (length (page_coverage s))) (\<lambda>_.
    bind_res (fold_res (check_coverage_key r) (page_coverage s) b) (\<lambda>b.
    bind_res (limit_check Objects (length (page_objects s))) (\<lambda>_.
    bind_res (fold_res (evaluate_object r s as_of) (page_objects s) (0, [], b)) (\<lambda>(n, objects, b).
    Inr \<lparr>result_coverage = page_coverage s, result_tenant = page_tenant s,
         result_rule_version = rule_version r,
         result_dictionary_version = rule_dictionary_version r,
         result_snapshot_id = page_id s, result_snapshot_version = page_version s,
         result_as_of = as_of, result_objects = objects\<rparr>)))))))))"

text \<open>The scan of the cursor and the keys: strictly increasing, from the exclusive cursor on.\<close>

fun keys_increasing :: "object_key option \<Rightarrow> object_snapshot list \<Rightarrow> bool" where
  "keys_increasing previous [] = True"
| "keys_increasing previous (x # xs) =
    ((case previous of None \<Rightarrow> True | Some k \<Rightarrow> k < snapshot_key x) \<and>
     keys_increasing (Some (snapshot_key x)) xs)"

definition evaluate_page :: "rule \<Rightarrow> page_input \<Rightarrow> timepoint \<Rightarrow> page_evaluation group_result" where
  "evaluate_page r s as_of =
    bind_res (limit_check Objects (length (page_objects s))) (\<lambda>_.
    bind_res (ensure (set (rule_required r) \<subseteq> set (page_coverage s)) IncompleteSnapshot) (\<lambda>_.
    bind_res (ensure (case page_after s of None \<Rightarrow> True | Some k \<Rightarrow> key_tenant k = rule_tenant r)
      TenantMismatch) (\<lambda>_.
    bind_res (ensure (keys_increasing (page_after s) (page_objects s)) InvalidStructure) (\<lambda>_.
    evaluate_input r s as_of (budget_new BatchBytes)))))"

end
