(* ===== verification/Group_Semantics.thy ===== *)
theory Group_Semantics
  imports Group_Evaluation
begin

text \<open>
  The meaning of the group engine: the lemmas and properties of \<open>Group_Rule\<close> and
  \<open>Group_Evaluation\<close>.
\<close>

interpretation gd: three_valued Match NoMatch Unknown
  by unfold_locales (auto intro: decision.exhaust)

section \<open>Validated input never reaches a panic\<close>

definition facts_ok :: "rule \<Rightarrow> facts \<Rightarrow> bool" where
  "facts_ok r fs \<longleftrightarrow> (\<forall>(k, f) \<in> set fs. fact_state f \<noteq> Denied \<and>
    (\<forall>v. fact_state f = Known v \<longrightarrow>
      (\<exists>fld. bm_get (rule_fields r) k = Some fld \<and> value_kind v = field_kind fld)))"

lemma check_fact_ok:
  assumes "check_fact r coverage (k, f) b = Inr b'"
  shows "fact_state f \<noteq> Denied \<and> (\<forall>v. fact_state f = Known v \<longrightarrow>
    (\<exists>fld. bm_get (rule_fields r) k = Some fld \<and> value_kind v = field_kind fld))"
  using assms by (auto simp: check_fact_def split: if_splits)

lemma fold_check_fact_ok:
  assumes "fold_res (check_fact r coverage) fs b = Inr b'"
  shows "facts_ok r fs"
proof -
  have "fact_state f \<noteq> Denied \<and> (\<forall>v. fact_state f = Known v \<longrightarrow>
    (\<exists>fld. bm_get (rule_fields r) k = Some fld \<and> value_kind v = field_kind fld))"
    if "(k, f) \<in> set fs" for k f
    by (rule fold_res_each [OF assms that], erule check_fact_ok)
  then show ?thesis by (auto simp: facts_ok_def)
qed

lemma compare_total:
  assumes "allows f op" "op \<noteq> IsNull" "op \<noteq> IsNotNull" "value_kind v = field_kind f"
    and "value_kind x = expected_operand op (field_kind f)"
  shows "\<exists>res. compare v x op = Some res"
proof (cases v)
  case (Scalar a)
  with assms show ?thesis
    by (cases x; cases op) (auto split: scalar.splits dest: sym)
next
  case (ScalarSet t vs)
  with assms show ?thesis by (cases x; cases op) (auto dest: sym)
qed

lemma eval_predicate_total:
  assumes "dictionary_ok (rule_fields r)" "predicate_ok (rule_fields r) p" "facts_ok r fs"
  shows "\<exists>res. eval_predicate (bm_get fs (predicate_field p)) (predicate_op p)
    (map_option operand_value (predicate_operand p)) now = Inr res"
proof (cases "bm_get fs (predicate_field p)")
  case None
  then show ?thesis by (simp add: eval_predicate_def)
next
  case (Some f)
  from assms(2) obtain fld where fld: "bm_get (rule_fields r) (predicate_field p) = Some fld"
    "predicate_op p \<in> set (field_operations fld)"
    and opnd: "predicate_op p \<notin> {IsNull, IsNotNull} \<Longrightarrow> \<exists>x. predicate_operand p = Some x \<and>
       value_kind (operand_value x) = expected_operand (predicate_op p) (field_kind fld)"
    unfolding predicate_ok_def by (metis (no_types))
  have al: "allows fld (predicate_op p)" using assms(1) fld by (simp add: dictionary_ok_def)
  have st: "fact_state f \<noteq> Denied"
    "\<And>v. fact_state f = Known v \<Longrightarrow> value_kind v = field_kind fld"
    using assms(3) map_of_SomeD [OF Some] fld(1) unfolding facts_ok_def by fastforce+
  show ?thesis
  proof (cases "predicate_op p \<in> {IsNull, IsNotNull}")
    case True
    with Some st(1) show ?thesis by (cases "fact_state f") (auto simp: eval_predicate_def)
  next
    case False
    from opnd [OF False] obtain x where x: "predicate_operand p = Some x"
      "value_kind (operand_value x) = expected_operand (predicate_op p) (field_kind fld)" by blast
    have "\<exists>res. compare v (operand_value x) (predicate_op p) = Some res" if "fact_state f = Known v" for v
      by (rule compare_total [OF al]) (use False x(2) st(2) [OF that] in auto)
    with False Some st(1) x(1) show ?thesis
      by (cases "fact_state f") (auto simp: eval_predicate_def)
  qed
qed

section \<open>Leaves, their order and their outcomes\<close>

fun leaves :: "nat list \<Rightarrow> criteria \<Rightarrow> (nat list \<times> node) list"
and leaves_from :: "nat list \<Rightarrow> nat \<Rightarrow> criteria list \<Rightarrow> (nat list \<times> node) list" where
  "leaves path (Criteria (NAnd cs) _ _) = leaves_from path 0 cs"
| "leaves path (Criteria (NOr cs) _ _) = leaves_from path 0 cs"
| "leaves path (Criteria (NMembership g negated) _ _) = [(path, NMembership g negated)]"
| "leaves path (Criteria (NPredicate p) _ _) = [(path, NPredicate p)]"
| "leaves_from path i [] = []"
| "leaves_from path i (c # cs) = leaves (path @ [i]) c @ leaves_from path (Suc i) cs"

fun leaf_outcome :: "facts \<Rightarrow> memberships \<Rightarrow> timepoint \<Rightarrow> node \<Rightarrow> outcome group_result" where
  "leaf_outcome fs ms now (NMembership g negated) =
    bind_res (or_panic (bm_get ms g)) (\<lambda>m. Inr (negate_membership m negated))"
| "leaf_outcome fs ms now (NPredicate p) =
    eval_predicate (bm_get fs (predicate_field p)) (predicate_op p)
      (map_option operand_value (predicate_operand p)) now"
| "leaf_outcome fs ms now _ = Inl Panic"

definition leaf_value :: "facts \<Rightarrow> memberships \<Rightarrow> timepoint \<Rightarrow> node \<Rightarrow> outcome" where
  "leaf_value fs ms now l = (case leaf_outcome fs ms now l of Inr v \<Rightarrow> v | Inl _ \<Rightarrow> OUnknown MissingFact)"

definition leaf_decision :: "facts \<Rightarrow> memberships \<Rightarrow> timepoint \<Rightarrow> node \<Rightarrow> decision" where
  "leaf_decision fs ms now l = outcome_decision (leaf_value fs ms now l)"

definition explain :: "facts \<Rightarrow> memberships \<Rightarrow> timepoint \<Rightarrow> nat list \<times> node \<Rightarrow> explanation" where
  "explain fs ms now pl = \<lparr>explanation_path = fst pl, explanation_outcome = leaf_value fs ms now (snd pl)\<rparr>"

text \<open>The strong Kleene meaning of a tree over the decisions of its leaves.\<close>

fun kleene :: "(node \<Rightarrow> decision) \<Rightarrow> criteria \<Rightarrow> decision" where
  "kleene l (Criteria (NAnd cs) _ _) =
    (let ds = set (map (\<lambda>c. kleene l c) cs) in
     if NoMatch \<in> ds then NoMatch else if Unknown \<in> ds then Unknown else Match)"
| "kleene l (Criteria (NOr cs) _ _) =
    (let ds = set (map (\<lambda>c. kleene l c) cs) in
     if Match \<in> ds then Match else if Unknown \<in> ds then Unknown else NoMatch)"
| "kleene l (Criteria (NMembership g negated) _ _) = l (NMembership g negated)"
| "kleene l (Criteria (NPredicate p) _ _) = l (NPredicate p)"

lemma kleene_And: "kleene l (Criteria (NAnd cs) n d) = gd.all3 (map (kleene l) cs)"
  by (simp add: gd.all3_def Let_def)

lemma kleene_Or: "kleene l (Criteria (NOr cs) n d) = gd.any3 (map (kleene l) cs)"
  by (simp add: gd.any3_def Let_def)

definition leaves_defined :: "facts \<Rightarrow> memberships \<Rightarrow> timepoint \<Rightarrow> (nat list \<times> node) list \<Rightarrow> bool" where
  "leaves_defined fs ms now ls \<longleftrightarrow> (\<forall>pl \<in> set ls. \<exists>v. leaf_outcome fs ms now (snd pl) = Inr v)"

lemma leaves_defined_append [simp]:
  "leaves_defined fs ms now (xs @ ys) \<longleftrightarrow> leaves_defined fs ms now xs \<and> leaves_defined fs ms now ys"
  by (auto simp: leaves_defined_def)

lemma evaluate_node_kleene:
  "leaves_defined fs ms now (leaves path c) \<Longrightarrow>
    evaluate_node c fs ms now path out =
      Inr (kleene (leaf_decision fs ms now) c, out @ map (explain fs ms now) (leaves path c))"
  "leaves_defined fs ms now (leaves_from path i cs) \<Longrightarrow>
    evaluate_children is_and i cs fs ms now path acc out =
      Inr (fold (gd.scan (if is_and then NoMatch else Match)) (map (kleene (leaf_decision fs ms now)) cs) acc,
           out @ map (explain fs ms now) (leaves_from path i cs))"
proof (induction c fs ms now path out and is_and i cs fs ms now path acc out
    rule: evaluate_node_evaluate_children.induct)
  case (1 g negated n d fs ms now path out)
  then show ?case
    by (auto simp: leaves_defined_def leaf_decision_def leaf_value_def explain_def Let_def)
next
  case (2 p n d fs ms now path out)
  then show ?case
    by (auto simp: leaves_defined_def leaf_decision_def leaf_value_def explain_def Let_def)
next
  case (3 cs n d fs ms now path out)
  then show ?case unfolding kleene_And by (simp add: gd.scan_all)
next
  case (4 cs n d fs ms now path out)
  then show ?case unfolding kleene_Or by (simp add: gd.scan_any)
next
  case (5 is_and i fs ms now path acc out)
  then show ?case by simp
next
  case (6 is_and i c cs fs ms now path acc out)
  then show ?case by (simp add: gd.scan_def Let_def)
qed

text \<open>Every leaf of a rule is one of its predicates or memberships.\<close>

lemma leaves_from_conv: "set (leaves_from path i cs) \<subseteq> (\<Union>j < length cs. set (leaves (path @ [i + j]) (cs ! j)))"
proof (induction cs arbitrary: i)
  case Nil
  then show ?case by simp
next
  case (Cons c cs)
  have "set (leaves_from path (Suc i) cs) \<subseteq> (\<Union>j < length cs. set (leaves (path @ [Suc i + j]) (cs ! j)))"
    by (rule Cons.IH)
  also have "\<dots> \<subseteq> (\<Union>j < length (c # cs). set (leaves (path @ [i + j]) ((c # cs) ! j)))"
    by (auto intro!: bexI [of _ "Suc _"])
  finally show ?case by auto
qed

lemma leaves_cases:
  "(path', l) \<in> set (leaves path c) \<Longrightarrow>
    (\<exists>g negated. l = NMembership g negated \<and> g \<in> set (groups_of c)) \<or>
    (\<exists>p. l = NPredicate p \<and> p \<in> set (predicates_of c))"
  "(path', l) \<in> set (leaves_from path i cs) \<Longrightarrow>
    (\<exists>g negated. l = NMembership g negated \<and> g \<in> set (concat (map groups_of cs))) \<or>
    (\<exists>p. l = NPredicate p \<and> p \<in> set (concat (map predicates_of cs)))"
  by (induction path c and path i cs rule: leaves_leaves_from.induct) auto

lemma leaves_defined_rule:
  assumes "rule_wf r" "facts_ok r fs" "set (rule_groups r) \<subseteq> dom (bm_get ms)"
  shows "leaves_defined fs ms now (leaves path (rule_criteria r))"
  unfolding leaves_defined_def
proof (rule ballI)
  fix pl assume pl: "pl \<in> set (leaves path (rule_criteria r))"
  have "(fst pl, snd pl) \<in> set (leaves path (rule_criteria r))" using pl by simp
  from leaves_cases(1) [OF this] show "\<exists>v. leaf_outcome fs ms now (snd pl) = Inr v"
  proof (elim disjE exE conjE)
    fix g negated assume "snd pl = NMembership g negated" "g \<in> set (groups_of (rule_criteria r))"
    with assms(3) set_rule_groups [of r] show ?thesis by auto
  next
    fix p assume "snd pl = NPredicate p" "p \<in> set (predicates_of (rule_criteria r))"
    with assms(1,2) show ?thesis by (auto simp: rule_wf_def intro!: eval_predicate_total [of r])
  qed
qed

lemma length_leaves:
  "length (leaves path c) = leaf_count c"
  "length (leaves_from path i cs) = sum_list (map leaf_count cs)"
  by (induction path c and path i cs rule: leaves_leaves_from.induct) auto

section \<open>One context, one object, one page\<close>

lemma evaluate_context_Inr:
  assumes "evaluate_context r s as_of ms (cid, fs) (contexts, b) = Inr (contexts', b')"
  shows "facts_ok r fs" "set (page_coverage s) \<subseteq> fst ` set fs"
    "\<exists>d out. evaluate_node (rule_criteria r) fs ms as_of [] [] = Inr (d, out) \<and>
      contexts' = bm_insert cid \<lparr>context_decision = d, context_explanations = out,
        context_provenance = required_provenance r fs\<rparr> contexts"
  using assms
  by (auto simp: evaluate_context_def list_all_iff split: if_splits dest: fold_check_fact_ok)

lemma no_panic_check_fact [no_panic_intros]: "no_panic (check_fact r coverage kf b)"
  by (cases kf) (auto simp: check_fact_def intro!: no_panic_intros split: fact_state.splits)

lemma no_panic_evaluate_context:
  assumes "rule_wf r" "set (rule_groups r) \<subseteq> dom (bm_get ms)"
  shows "no_panic (evaluate_context r s as_of ms cf st)"
proof -
  obtain cid fs where cf: "cf = (cid, fs)" by (cases cf)
  obtain contexts b where st: "st = (contexts, b)" by (cases st)
  have "no_panic (evaluate_node (rule_criteria r) fs ms as_of [] [])" if "facts_ok r fs"
    using evaluate_node_kleene(1) [OF leaves_defined_rule [OF assms(1) that assms(2)]] by simp
  then show ?thesis unfolding evaluate_context_def cf st
    by (auto intro!: no_panic_intros dest: fold_check_fact_ok)
qed

lemma no_panic_quantify [no_panic_intros]: "no_panic (quantify q c contexts)"
  by (auto simp: quantify_def Let_def split: quantifier.splits list.splits)

lemma memberships_cover:
  "bs_of_list (bm_keys ms) = rule_groups r \<Longrightarrow> set (rule_groups r) \<subseteq> dom (bm_get ms)"
  by (metis bm_keys_def dom_map_of_conv_image_fst equalityD1 set_bs_of_list set_map)

lemma no_panic_evaluate_object:
  assumes "rule_wf r"
  shows "no_panic (evaluate_object r s as_of x st)"
  unfolding evaluate_object_def Let_def split_def
  by (intro no_panic_intros; auto intro!: no_panic_intros no_panic_evaluate_context [OF assms]
      dest: memberships_cover)

lemma no_panic_check_coverage_key [no_panic_intros]: "no_panic (check_coverage_key r key b)"
  by (auto simp: check_coverage_key_def intro!: no_panic_intros)

lemma evaluate_page_no_panic: "rule_wf r \<Longrightarrow> no_panic (evaluate_page r s as_of)"
  unfolding evaluate_page_def evaluate_input_def split_def
  by (intro no_panic_intros; auto intro!: no_panic_intros no_panic_evaluate_object)

section \<open>What a page evaluation contains\<close>

lemma evaluate_object_Inr:
  assumes "evaluate_object r s as_of x (n, os, b) = Inr (n', os', b')"
  obtains contexts d b1 b2 where
    "key_tenant (snapshot_key x) = page_tenant s"
    "bs_of_list (bm_keys (snapshot_memberships x)) = rule_groups r"
    "n' = n + length (snapshot_contexts x)"
    "n' * criteria_count (rule_criteria r) \<le> limits_VISITS"
    "n' * leaf_count (rule_criteria r) \<le> limits_EXPLANATIONS"
    "fold_res (evaluate_context r s as_of (snapshot_memberships x)) (snapshot_contexts x) ([], b1) = Inr (contexts, b')"
    "quantify (snapshot_quantifier x) (snapshot_complete x) contexts = Inr d"
    "snapshot_quantifier x = QOne \<Longrightarrow> length (snapshot_contexts x) = 1"
    "os' = os @ [\<lparr>evaluation_key = snapshot_key x, evaluation_decision = d, evaluation_contexts = contexts\<rparr>]"
  using assms
  by (auto simp: evaluate_object_def limit_product_eq checked_add_u64_def split: if_splits)

lemma evaluate_input_Inr:
  assumes "evaluate_input r s as_of b = Inr e"
  obtains n b1 b2 where "rule_tenant r = page_tenant s"
    "fold_res (evaluate_object r s as_of) (page_objects s) (0, [], b1) = Inr (n, result_objects e, b2)"
  using assms by (auto simp: evaluate_input_def)

lemma fold_objects:
  assumes "fold_res (evaluate_object r s as_of) xs (n, os, b) = Inr (n', os', b')"
    and "\<And>x n os b n' os' b'. x \<in> set xs \<Longrightarrow> evaluate_object r s as_of x (n, os, b) = Inr (n', os', b') \<Longrightarrow>
      \<exists>e. os' = os @ [e] \<and> P x e"
  shows "\<exists>es. os' = os @ es \<and> list_all2 P xs es"
  using assms
proof (induction xs arbitrary: n os b)
  case Nil
  then show ?case by simp
next
  case (Cons x xs)
  from Cons.prems(1) obtain n1 os1 b1 where 1: "evaluate_object r s as_of x (n, os, b) = Inr (n1, os1, b1)"
    "fold_res (evaluate_object r s as_of) xs (n1, os1, b1) = Inr (n', os', b')" by auto
  from Cons.prems(2) [OF _ 1(1)] obtain e where e: "os1 = os @ [e]" "P x e" by auto
  have "\<exists>es. os' = os1 @ es \<and> list_all2 P xs es"
    by (rule Cons.IH [OF 1(2)]) (rule Cons.prems(2), auto)
  then obtain es where "os' = os1 @ es" "list_all2 P xs es" by blast
  with e show ?case by auto
qed

lemma evaluate_page_Inr:
  assumes "evaluate_page r s as_of = Inr e"
  shows "set (rule_required r) \<subseteq> set (page_coverage s)"
    "keys_increasing (page_after s) (page_objects s)"
    "evaluate_input r s as_of (budget_new BatchBytes) = Inr e"
    "length (page_objects s) \<le> limits_OBJECTS"
  using assms by (auto simp: evaluate_page_def)

lemma evaluate_page_each:
  assumes "evaluate_page r s as_of = Inr e"
    and "\<And>x n os b n' os' b'. x \<in> set (page_objects s) \<Longrightarrow>
      evaluate_object r s as_of x (n, os, b) = Inr (n', os', b') \<Longrightarrow> \<exists>e. os' = os @ [e] \<and> P x e"
  shows "list_all2 P (page_objects s) (result_objects e)"
proof -
  obtain n b1 b2 where
    "fold_res (evaluate_object r s as_of) (page_objects s) (0, [], b1) = Inr (n, result_objects e, b2)"
    by (rule evaluate_input_Inr [OF evaluate_page_Inr(3) [OF assms(1)]])
  from fold_objects [OF this assms(2)] show ?thesis by simp
qed

subsection \<open>Contexts\<close>

definition context_result :: "rule \<Rightarrow> memberships \<Rightarrow> timepoint \<Rightarrow> facts \<Rightarrow> context_evaluation" where
  "context_result r ms as_of fs =
    \<lparr>context_decision = kleene (leaf_decision fs ms as_of) (rule_criteria r),
     context_explanations = map (explain fs ms as_of) (leaves [] (rule_criteria r)),
     context_provenance = required_provenance r fs\<rparr>"

lemma evaluate_context_result:
  assumes "rule_wf r" "set (rule_groups r) \<subseteq> dom (bm_get ms)"
    and "evaluate_context r s as_of ms (cid, fs) (contexts, b) = Inr (contexts', b')"
  shows "contexts' = bm_insert cid (context_result r ms as_of fs) contexts"
proof -
  from evaluate_context_Inr [OF assms(3)] obtain d out where
    ok: "facts_ok r fs" and ev: "evaluate_node (rule_criteria r) fs ms as_of [] [] = Inr (d, out)"
    and c: "contexts' = bm_insert cid \<lparr>context_decision = d, context_explanations = out,
        context_provenance = required_provenance r fs\<rparr> contexts" by blast
  from ev evaluate_node_kleene(1) [OF leaves_defined_rule [OF assms(1) ok assms(2)], of as_of "[]" "[]"]
  show ?thesis by (simp add: c context_result_def)
qed

lemma fold_evaluate_context:
  assumes "rule_wf r" "set (rule_groups r) \<subseteq> dom (bm_get ms)"
    and "fold_res (evaluate_context r s as_of ms) cfs (contexts, b) = Inr (contexts', b')"
  shows "contexts' = fold (\<lambda>(cid, v). bm_insert cid v) (map (\<lambda>(cid, fs). (cid, context_result r ms as_of fs)) cfs) contexts"
  using assms(3)
proof (induction cfs arbitrary: contexts b)
  case Nil
  then show ?case by simp
next
  case (Cons cf cfs)
  obtain cid fs where cf: "cf = (cid, fs)" by (cases cf)
  from Cons.prems obtain c1 b1 where 1: "evaluate_context r s as_of ms (cid, fs) (contexts, b) = Inr (c1, b1)"
    "fold_res (evaluate_context r s as_of ms) cfs (c1, b1) = Inr (contexts', b')" unfolding cf by auto
  show ?case using Cons.IH [OF 1(2)] evaluate_context_result [OF assms(1,2) 1(1)] by (simp add: cf)
qed

text \<open>A \<^verbatim>\<open>BTreeMap\<close> rebuilt by inserting its own entries in order is the map over its values.\<close>

lemma evaluate_object_result:
  assumes "rule_wf r" "bm_wf (snapshot_contexts x)"
    and "evaluate_object r s as_of x (n, os, b) = Inr (n', os', b')"
  shows "\<exists>d. os' = os @ [\<lparr>evaluation_key = snapshot_key x, evaluation_decision = d,
      evaluation_contexts = map (\<lambda>(cid, fs). (cid, context_result r (snapshot_memberships x) as_of fs)) (snapshot_contexts x)\<rparr>] \<and>
    quantify (snapshot_quantifier x) (snapshot_complete x)
      (map (\<lambda>(cid, fs). (cid, context_result r (snapshot_memberships x) as_of fs)) (snapshot_contexts x)) = Inr d"
proof -
  from evaluate_object_Inr [OF assms(3)] obtain contexts d b1 where
    g: "bs_of_list (bm_keys (snapshot_memberships x)) = rule_groups r"
    and f: "fold_res (evaluate_context r s as_of (snapshot_memberships x)) (snapshot_contexts x) ([], b1) = Inr (contexts, b')"
    and q: "quantify (snapshot_quantifier x) (snapshot_complete x) contexts = Inr d"
    and os: "os' = os @ [\<lparr>evaluation_key = snapshot_key x, evaluation_decision = d, evaluation_contexts = contexts\<rparr>]"
    by metis
  let ?m = "map (\<lambda>(cid, fs). (cid, context_result r (snapshot_memberships x) as_of fs)) (snapshot_contexts x)"
  have "bm_wf ?m" by (rule bm_map_values [OF assms(2)])
  then have "contexts = ?m"
    using fold_evaluate_context [OF assms(1) memberships_cover [OF g] f] bm_of_sorted [of "[]" ?m] by simp
  with q os show ?thesis by blast
qed

section \<open>Explanations name their leaves\<close>

lemma evaluate_node_defined:
  "evaluate_node c fs ms now path out = Inr res \<Longrightarrow> leaves_defined fs ms now (leaves path c)"
  "evaluate_children is_and i cs fs ms now path acc out = Inr res \<Longrightarrow>
    leaves_defined fs ms now (leaves_from path i cs)"
proof (induction c fs ms now path out and is_and i cs fs ms now path acc out
    arbitrary: res and res rule: evaluate_node_evaluate_children.induct)
  case (6 is_and i c cs fs ms now path acc out)
  then show ?case by (fastforce simp: Let_def)
qed (auto simp: leaves_defined_def Let_def)

lemma leaves_prefix:
  "(p, l) \<in> set (leaves path c) \<Longrightarrow> \<exists>q c'. p = path @ q \<and> criteria_at c q = Some c' \<and> criteria_node c' = l"
  "(p, l) \<in> set (leaves_from path i cs) \<Longrightarrow>
    \<exists>j q c'. j < length cs \<and> p = path @ (i + j) # q \<and> criteria_at (cs ! j) q = Some c' \<and> criteria_node c' = l"
proof (induction path c and path i cs rule: leaves_leaves_from.induct)
  case (6 path i c cs)
  from "6.prems" consider "(p, l) \<in> set (leaves (path @ [i]) c)" | "(p, l) \<in> set (leaves_from path (Suc i) cs)"
    by auto
  then show ?case
  proof cases
    case 1
    from "6.IH"(1) [OF this] obtain q c' where "p = path @ [i] @ q" "criteria_at c q = Some c'" "criteria_node c' = l"
      by auto
    then show ?thesis by (intro exI [of _ 0] exI [of _ q] exI [of _ c']) simp
  next
    case 2
    from "6.IH"(2) [OF this] obtain j q c' where "j < length cs" "p = path @ (Suc i + j) # q"
      "criteria_at (cs ! j) q = Some c'" "criteria_node c' = l" by blast
    then show ?thesis by (intro exI [of _ "Suc j"] exI [of _ q] exI [of _ c']) simp
  qed
qed force+

lemma leaves_paths_distinct:
  "distinct (map fst (leaves path c))" "distinct (map fst (leaves_from path i cs))"
proof (induction path c and path i cs rule: leaves_leaves_from.induct)
  case (6 path i c cs)
  have False if x: "(p, l) \<in> set (leaves (path @ [i]) c)" and y: "(p, m) \<in> set (leaves_from path (Suc i) cs)" for p l m
    using leaves_prefix(1) [OF x] leaves_prefix(2) [OF y] by auto
  with 6 show ?case by (auto simp: image_iff) blast
qed auto

section \<open>Resolving unknown facts\<close>

text \<open>\<open>fs'\<close> and \<open>ms'\<close> know at least what \<open>fs\<close> and \<open>ms\<close> know: values and explicit nulls are kept, what
  was missing, deleted, unsupported or in conflict may become anything.\<close>

definition facts_refine :: "facts \<Rightarrow> facts \<Rightarrow> bool" where
  "facts_refine fs fs' \<longleftrightarrow> (\<forall>k f. bm_get fs k = Some f \<longrightarrow>
    (fact_state f = Null \<or> (\<exists>v. fact_state f = Known v)) \<longrightarrow>
    (\<exists>f'. bm_get fs' k = Some f' \<and> fact_state f' = fact_state f))"

definition memberships_refine :: "memberships \<Rightarrow> memberships \<Rightarrow> bool" where
  "memberships_refine ms ms' \<longleftrightarrow> (\<forall>g v. bm_get ms g = Some v \<longrightarrow> outcome_decision v \<noteq> Unknown \<longrightarrow>
    bm_get ms' g = Some v)"

lemma eval_predicate_stable:
  assumes "facts_refine fs fs'"
    and "eval_predicate (bm_get fs k) op x now = Inr v" "outcome_decision v \<noteq> Unknown"
  shows "eval_predicate (bm_get fs' k) op x now' = Inr v"
proof (cases "bm_get fs k")
  case None
  with assms(2,3) show ?thesis by (auto simp: eval_predicate_def)
next
  case (Some f)
  then obtain st: "fact_state f = Null \<or> (\<exists>v. fact_state f = Known v)"
    using assms(2,3) by (cases "fact_state f") (auto simp: eval_predicate_def)
  with assms(1) Some obtain f' where "bm_get fs' k = Some f'" "fact_state f' = fact_state f"
    unfolding facts_refine_def by blast
  with assms(2) Some st show ?thesis by (auto simp: eval_predicate_def)
qed

lemma leaf_refines:
  assumes "facts_refine fs fs'" "memberships_refine ms ms'" "leaf_outcome fs ms now l = Inr v"
  shows "gd.refines (leaf_decision fs ms now l) (leaf_decision fs' ms' now' l)"
proof (cases "outcome_decision v = Unknown")
  case True
  with assms(3) show ?thesis by (simp add: gd.refines_def leaf_decision_def leaf_value_def)
next
  case False
  have "leaf_outcome fs' ms' now' l = Inr v"
  proof (cases l)
    case (NPredicate p)
    with assms(1,3) False show ?thesis by (auto intro: eval_predicate_stable)
  next
    case (NMembership g negated)
    with assms(3) obtain m where m: "bm_get ms g = Some m" "v = negate_membership m negated" by auto
    then have "outcome_decision m \<noteq> Unknown" using False by (cases m; cases negated) auto
    with assms(2) m NMembership show ?thesis by (auto simp: memberships_refine_def)
  qed (use assms(3) in auto)
  with assms(3) show ?thesis by (simp add: gd.refines_def leaf_decision_def leaf_value_def)
qed

lemma kleene_refines:
  "(\<And>path' l. (path', l) \<in> set (leaves path c) \<Longrightarrow> gd.refines (f l) (g l)) \<Longrightarrow>
    gd.refines (kleene f c) (kleene g c)"
  "(\<And>path' l. (path', l) \<in> set (leaves_from path i cs) \<Longrightarrow> gd.refines (f l) (g l)) \<Longrightarrow>
    list_all2 gd.refines (map (kleene f) cs) (map (kleene g) cs)"
proof (induction path c and path i cs rule: leaves_leaves_from.induct)
  case (1 path cs n d)
  then have "list_all2 gd.refines (map (kleene f) cs) (map (kleene g) cs)" by simp
  then show ?case unfolding kleene_And by (rule gd.refines_all3)
next
  case (2 path cs n d)
  then have "list_all2 gd.refines (map (kleene f) cs) (map (kleene g) cs)" by simp
  then show ?case unfolding kleene_Or by (rule gd.refines_any3)
qed auto

lemma evaluate_node_stable:
  assumes "facts_refine fs fs'" "memberships_refine ms ms'"
    and "evaluate_node c fs ms now path out = Inr (d, e)"
    and "evaluate_node c fs' ms' now' path out' = Inr (d', e')"
  shows "gd.refines d d'"
proof -
  have def: "leaves_defined fs ms now (leaves path c)" by (rule evaluate_node_defined(1) [OF assms(3)])
  have def': "leaves_defined fs' ms' now' (leaves path c)" by (rule evaluate_node_defined(1) [OF assms(4)])
  have "gd.refines (kleene (leaf_decision fs ms now) c) (kleene (leaf_decision fs' ms' now') c)"
    by (rule kleene_refines(1) [of path])
      (use def leaf_refines [OF assms(1,2)] in \<open>fastforce simp: leaves_defined_def\<close>)
  with evaluate_node_kleene(1) [OF def, of out] evaluate_node_kleene(1) [OF def', of out'] assms(3,4)
  show ?thesis by simp
qed

section \<open>Order, tenant and budgets of a page\<close>

lemma keys_increasing_sorted:
  "keys_increasing previous xs \<Longrightarrow> sorted_wrt (<) (map snapshot_key xs) \<and>
    (\<forall>k. previous = Some k \<longrightarrow> (\<forall>x \<in> set xs. k < snapshot_key x))"
proof (induction xs arbitrary: previous)
  case Nil
  then show ?case by simp
next
  case (Cons x xs)
  then show ?case by (cases previous) (fastforce intro: less_trans)+
qed

lemma evaluate_page_tenant:
  assumes "evaluate_page r s as_of = Inr e"
  shows "list_all2 (\<lambda>x v. evaluation_key v = snapshot_key x \<and> key_tenant (snapshot_key x) = rule_tenant r)
    (page_objects s) (result_objects e)"
proof (rule evaluate_page_each [OF assms])
  have ten: "rule_tenant r = page_tenant s"
    by (rule evaluate_input_Inr [OF evaluate_page_Inr(3) [OF assms]])
  fix x n os b n' os' b'
  assume "evaluate_object r s as_of x (n, os, b) = Inr (n', os', b')"
  then show "\<exists>v. os' = os @ [v] \<and> evaluation_key v = snapshot_key x \<and> key_tenant (snapshot_key x) = rule_tenant r"
    by (rule evaluate_object_Inr) (simp add: ten)
qed

text \<open>The context counter of the page loop and the limits it is tested against.\<close>

lemma fold_objects_count:
  assumes "fold_res (evaluate_object r s as_of) xs (n, os, b) = Inr (n', os', b')"
  shows "n' = n + sum_list (map (\<lambda>x. length (snapshot_contexts x)) xs) \<and>
    (xs \<noteq> [] \<longrightarrow> n' * criteria_count (rule_criteria r) \<le> limits_VISITS \<and>
      n' * leaf_count (rule_criteria r) \<le> limits_EXPLANATIONS)"
  using assms
proof (induction xs arbitrary: n os b)
  case Nil
  then show ?case by simp
next
  case (Cons x xs)
  from Cons.prems obtain n1 os1 b1 where 1: "evaluate_object r s as_of x (n, os, b) = Inr (n1, os1, b1)"
    "fold_res (evaluate_object r s as_of) xs (n1, os1, b1) = Inr (n', os', b')" by auto
  from 1(1) have "n1 = n + length (snapshot_contexts x)" "n1 * criteria_count (rule_criteria r) \<le> limits_VISITS"
    "n1 * leaf_count (rule_criteria r) \<le> limits_EXPLANATIONS"
    by (auto elim: evaluate_object_Inr)
  with Cons.IH [OF 1(2)] 1(2) show ?case by (cases xs) auto
qed

end
