(* ===== verification/Group_Paging.thy ===== *)
theory Group_Paging
  imports Group_Semantics
begin

text \<open>
  Splitting a page: the evaluation of the parts, the second one from the cursor the first one
  ends at, gives the parts of the evaluation of the whole. Each part needs no more budget than
  the whole.
\<close>

section \<open>Every check of a context is frugal\<close>

lemma frugal_check_fact [frugal_intros]: "frugal (check_fact r coverage kf)"
proof -
  obtain k f where kf: "kf = (k, f)" by (cases kf)
  have "frugal (\<lambda>b. case fact_state f of
         Known v \<Rightarrow>
           bind_res (value_validate v b) (\<lambda>b.
           if value_kind v \<noteq> field_kind fld then Inl (Fail InvalidType) else Inr b)
       | Null \<Rightarrow> if \<not> field_nullable fld then Inl (Fail InvalidType) else Inr b
       | Denied \<Rightarrow> Inl (Fail PermissionDenied)
       | _ \<Rightarrow> Inr b)" for fld
    by (cases "fact_state f") (simp_all add: frugal_intros)
  then show ?thesis unfolding check_fact_def kf Let_def prod.case by (intro frugal_intros)
qed

lemma frugal_check_coverage_key [frugal_intros]: "frugal (check_coverage_key r key)"
  unfolding check_coverage_key_def by (intro frugal_intros)

lemma frugal_identities: "frugal (fold_res budget_identity ks)"
  by (intro frugal_intros)

text \<open>The part of a context that spends budget, before its evaluation.\<close>

definition context_checks :: "rule \<Rightarrow> page_input \<Rightarrow> string \<times> facts \<Rightarrow> budget \<Rightarrow> budget group_result" where
  "context_checks r s cf b =
    bind_res (budget_identity (fst cf) b) (\<lambda>b.
    bind_res (limit_check Fields (length (snd cf))) (\<lambda>_.
    fold_res (check_fact r (page_coverage s)) (snd cf) b))"

lemma frugal_context_checks [frugal_intros]: "frugal (context_checks r s cf)"
  unfolding context_checks_def by (intro frugal_intros)

lemma evaluate_context_sim:
  assumes "evaluate_context r s as_of ms cf (cs, b) = Inr (cs', b')" "budget_le a b"
  shows "\<exists>a'. evaluate_context r s as_of ms cf (cs, a) = Inr (cs', a') \<and> budget_le a' b'"
proof -
  have ev: "evaluate_context r s as_of ms cf (cs, b) = bind_res (context_checks r s cf b) (\<lambda>b.
     if \<not> list_all (\<lambda>key. key \<in> fst ` set (snd cf)) (page_coverage s) then Inl (Fail IncompleteSnapshot)
     else
       bind_res (evaluate_node (rule_criteria r) (snd cf) ms as_of [] []) (\<lambda>(d, out).
       Inr (bm_insert (fst cf) \<lparr>context_decision = d, context_explanations = out,
              context_provenance = required_provenance r (snd cf)\<rparr> cs, b)))" for b
    by (cases cf) (simp add: evaluate_context_def context_checks_def bind_res_assoc cong: if_cong)
  from assms(1) obtain c where c: "context_checks r s cf b = Inr c" unfolding ev by auto
  obtain a' where "context_checks r s cf a = Inr a'" "budget_le a' c"
    by (rule frugalD [OF frugal_context_checks assms(2) c])
  with assms(1) c show ?thesis unfolding ev by (auto split: if_splits)
qed

lemma evaluate_context_le:
  assumes "evaluate_context r s as_of ms cf (cs, b) = Inr (cs', b')"
  shows "budget_le b b'"
proof -
  from assms have "context_checks r s cf b = Inr b'"
    by (cases cf) (auto simp: evaluate_context_def context_checks_def split: if_splits)
  then show ?thesis by (rule frugalD [OF frugal_context_checks budget_le_refl])
qed

lemma fold_context_sim:
  assumes "fold_res (evaluate_context r s as_of ms) cfs (cs, b) = Inr (cs', b')" "budget_le a b"
  shows "\<exists>a'. fold_res (evaluate_context r s as_of ms) cfs (cs, a) = Inr (cs', a') \<and> budget_le a' b'"
proof -
  have "\<exists>s'. fold_res (evaluate_context r s as_of ms) cfs (cs, a) = Inr s' \<and>
      fst s' = fst (cs', b') \<and> budget_le (snd s') (snd (cs', b'))"
    by (rule fold_res_sim [where R = "\<lambda>u t. fst u = fst t \<and> budget_le (snd u) (snd t)", OF assms(1)])
      (use assms(2) evaluate_context_sim in \<open>fastforce+\<close>)
  then show ?thesis by auto
qed

section \<open>Objects\<close>

text \<open>One more object needs at most the contexts and the budget of a fuller state, and gives the
  same result.\<close>

definition lighter ::
  "object_evaluation list \<Rightarrow> nat \<times> object_evaluation list \<times> budget \<Rightarrow>
    nat \<times> object_evaluation list \<times> budget \<Rightarrow> bool" where
  "lighter pre s t \<longleftrightarrow> (case s of (m, os, a) \<Rightarrow> case t of (n, os', b) \<Rightarrow>
    m \<le> n \<and> os' = pre @ os \<and> budget_le a b)"

lemma evaluate_object_sim:
  assumes "evaluate_object r s as_of x t = Inr t'" "lighter pre u t"
  shows "\<exists>u'. evaluate_object r s as_of x u = Inr u' \<and> lighter pre u' t'"
proof -
  obtain n os b where t: "t = (n, pre @ os, b)" and u: "\<exists>m a. u = (m, os, a) \<and> m \<le> n \<and> budget_le a b"
    using assms(2) by (auto simp: lighter_def split: prod.splits)
  then obtain m a where u: "u = (m, os, a)" "m \<le> n" "budget_le a b" by blast
  let ?c = "length (snapshot_contexts x)"
  from assms(1) obtain b1 b2 contexts b3 d where
    g: "key_tenant (snapshot_key x) = page_tenant s"
      "bs_of_list (bm_keys (snapshot_memberships x)) = rule_groups r"
      "\<not> (snapshot_quantifier x = QOne \<and> (?c \<noteq> 1 \<or> \<not> snapshot_complete x))"
    and b1: "budget_text (key_id (snapshot_key x)) b = Inr b1"
    and b2: "fold_res budget_identity (bm_keys (snapshot_memberships x)) b1 = Inr b2"
    and lim: "n + ?c \<le> u64_max" "(n + ?c) * criteria_count (rule_criteria r) \<le> limit_maximum Visits"
      "(n + ?c) * leaf_count (rule_criteria r) \<le> limit_maximum Explanations"
    and b3: "fold_res (evaluate_context r s as_of (snapshot_memberships x)) (snapshot_contexts x) ([], b2) = Inr (contexts, b3)"
    and d: "quantify (snapshot_quantifier x) (snapshot_complete x) contexts = Inr d"
    and t': "t' = (n + ?c, (pre @ os) @ [\<lparr>evaluation_key = snapshot_key x, evaluation_decision = d,
                      evaluation_contexts = contexts\<rparr>], b3)"
    unfolding t by (auto simp: evaluate_object_def limit_product_eq checked_add_u64_def split: if_splits)
  obtain a1 where a1: "budget_text (key_id (snapshot_key x)) a = Inr a1" "budget_le a1 b1"
    by (rule frugalD [OF frugal_text u(3) b1])
  obtain a2 where a2: "fold_res budget_identity (bm_keys (snapshot_memberships x)) a1 = Inr a2" "budget_le a2 b2"
    by (rule frugalD [OF frugal_identities a1(2) b2])
  from fold_context_sim [OF b3 a2(2)] obtain a3 where
    a3: "fold_res (evaluate_context r s as_of (snapshot_memberships x)) (snapshot_contexts x) ([], a2) = Inr (contexts, a3)"
      "budget_le a3 b3" by blast
  have le: "m + ?c \<le> n + ?c" using u(2) by simp
  have "(m + ?c) * k \<le> (n + ?c) * k" for k using le by (rule mult_le_mono1)
  with lim le have "m + ?c \<le> u64_max" "(m + ?c) * criteria_count (rule_criteria r) \<le> limit_maximum Visits"
      "(m + ?c) * leaf_count (rule_criteria r) \<le> limit_maximum Explanations"
    by (meson le_trans)+
  with g a1 a2 a3 d have "evaluate_object r s as_of x (m, os, a) = Inr (m + ?c, os @ [\<lparr>evaluation_key = snapshot_key x,
      evaluation_decision = d, evaluation_contexts = contexts\<rparr>], a3)"
    by (auto simp: evaluate_object_def limit_product_eq checked_add_u64_def)
  with u t' le a3(2) show ?thesis by (auto simp: lighter_def)
qed

lemma fold_object_sim:
  assumes "fold_res (evaluate_object r s as_of) xs t = Inr t'" "lighter pre u t"
  shows "\<exists>u'. fold_res (evaluate_object r s as_of) xs u = Inr u' \<and> lighter pre u' t'"
  by (rule fold_res_sim [where R = "lighter pre", OF assms]) (rule evaluate_object_sim)

lemma evaluate_object_le:
  assumes "evaluate_object r s as_of x (n, os, b) = Inr (n', os', b')"
  shows "budget_le b b'"
proof -
  from assms obtain b1 b2 contexts where
    b1: "budget_text (key_id (snapshot_key x)) b = Inr b1"
    and b2: "fold_res budget_identity (bm_keys (snapshot_memberships x)) b1 = Inr b2"
    and b3: "fold_res (evaluate_context r s as_of (snapshot_memberships x)) (snapshot_contexts x) ([], b2) = Inr (contexts, b')"
    by (auto simp: evaluate_object_def)
  have "budget_le b b1" by (rule frugalD [OF frugal_text budget_le_refl b1])
  moreover have "budget_le b1 b2" by (rule frugalD [OF frugal_identities budget_le_refl b2])
  moreover have "budget_le b2 (snd (contexts, b'))"
    by (rule fold_res_invariant [where P = "\<lambda>t. budget_le b2 (snd t)", OF b3])
      (auto dest!: evaluate_context_le elim: budget_le_trans)
  ultimately show ?thesis by (auto elim: budget_le_trans)
qed

text \<open>The evaluation of an object depends on the tenant and the coverage of the page only.\<close>

lemma evaluate_object_page:
  assumes "page_tenant s' = page_tenant s" "page_coverage s' = page_coverage s"
  shows "evaluate_object r s' = evaluate_object r s"
proof -
  have "evaluate_context r s' = evaluate_context r s"
    by (intro ext) (simp add: evaluate_context_def assms)
  then show ?thesis by (intro ext) (simp add: evaluate_object_def assms)
qed

section \<open>Pages\<close>

lemma keys_increasing_append:
  "keys_increasing previous (xs @ ys) \<longleftrightarrow> keys_increasing previous xs \<and>
    keys_increasing (if xs = [] then previous else Some (snapshot_key (last xs))) ys"
  by (induction xs arbitrary: previous) auto

text \<open>The header checks of \<^verbatim>\<open>evaluate_input\<close>, which do not read the objects.\<close>

definition header_checks :: "rule \<Rightarrow> page_input \<Rightarrow> budget \<Rightarrow> budget group_result" where
  "header_checks r s b =
    bind_res (ensure (rule_tenant r = page_tenant s) TenantMismatch) (\<lambda>_.
    bind_res (budget_identity (page_id s) b) (\<lambda>b.
    bind_res (budget_input_version (page_version s) b) (\<lambda>b.
    bind_res (budget_identity (page_dictionary_version s) b) (\<lambda>b.
    bind_res (ensure (page_dictionary_version s = rule_dictionary_version r) VersionMismatch) (\<lambda>_.
    bind_res (limit_check Fields (length (page_coverage s))) (\<lambda>_.
    fold_res (check_coverage_key r) (page_coverage s) b))))))"

lemma evaluate_input_header:
  "evaluate_input r s as_of b =
    bind_res (header_checks r s b) (\<lambda>b.
    bind_res (limit_check Objects (length (page_objects s))) (\<lambda>_.
    bind_res (fold_res (evaluate_object r s as_of) (page_objects s) (0, [], b)) (\<lambda>(n, objects, b).
    Inr \<lparr>result_coverage = page_coverage s, result_tenant = page_tenant s,
         result_rule_version = rule_version r,
         result_dictionary_version = rule_dictionary_version r,
         result_snapshot_id = page_id s, result_snapshot_version = page_version s,
         result_as_of = as_of, result_objects = objects\<rparr>)))"
  by (simp add: evaluate_input_def header_checks_def bind_res_assoc)

lemma header_checks_page:
  assumes "page_tenant s' = page_tenant s" "page_coverage s' = page_coverage s" "page_id s' = page_id s"
    "page_version s' = page_version s" "page_dictionary_version s' = page_dictionary_version s"
  shows "header_checks r s' = header_checks r s"
  by (intro ext) (simp add: header_checks_def assms)

text \<open>The tenant of the cursor a part ends at is the tenant of the page.\<close>

lemma evaluate_object_tenant:
  "evaluate_object r s as_of x t = Inr t' \<Longrightarrow> key_tenant (snapshot_key x) = page_tenant s"
  by (cases t) (auto simp: evaluate_object_def)

definition page_part :: "page_input \<Rightarrow> object_snapshot list \<Rightarrow> object_key option \<Rightarrow> page_input" where
  "page_part s xs after = s\<lparr>page_objects := xs, page_after := after\<rparr>"

lemma evaluate_page_part:
  assumes "set (rule_required r) \<subseteq> set (page_coverage s)" "length xs \<le> limits_OBJECTS"
    and "case after of None \<Rightarrow> True | Some k \<Rightarrow> key_tenant k = rule_tenant r"
    and "keys_increasing after xs" "header_checks r s (budget_new BatchBytes) = Inr b"
    and "fold_res (evaluate_object r s as_of) xs (0, [], b) = Inr (n, os, b')"
  shows "\<exists>e. evaluate_page r (page_part s xs after) as_of = Inr e \<and> result_objects e = os"
proof -
  have "evaluate_object r (page_part s xs after) = evaluate_object r s"
    "header_checks r (page_part s xs after) = header_checks r s"
    by (rule evaluate_object_page header_checks_page; simp add: page_part_def)+
  then show ?thesis using assms
    by (simp add: evaluate_page_def evaluate_input_header) (simp add: page_part_def)
qed

lemma evaluate_page_split:
  assumes "evaluate_page r s as_of = Inr e" "page_objects s = xs @ ys"
  defines "cursor \<equiv> if xs = [] then page_after s else Some (snapshot_key (last xs))"
  shows "\<exists>e1 e2. evaluate_page r (page_part s xs (page_after s)) as_of = Inr e1 \<and>
    evaluate_page r (page_part s ys cursor) as_of = Inr e2 \<and>
    result_objects e = result_objects e1 @ result_objects e2"
proof -
  from assms(1,2) have len: "length (xs @ ys) \<le> limits_OBJECTS"
    and req: "set (rule_required r) \<subseteq> set (page_coverage s)"
    and after: "case page_after s of None \<Rightarrow> True | Some k \<Rightarrow> key_tenant k = rule_tenant r"
    and keys: "keys_increasing (page_after s) (xs @ ys)"
    and inp: "evaluate_input r s as_of (budget_new BatchBytes) = Inr e"
    by (auto simp: evaluate_page_def)
  from inp assms(2) obtain b n b2 where b: "header_checks r s (budget_new BatchBytes) = Inr b"
    and all: "fold_res (evaluate_object r s as_of) (xs @ ys) (0, [], b) = Inr (n, result_objects e, b2)"
    by (auto simp: evaluate_input_header)
  from all obtain n1 os1 b1 where
    1: "fold_res (evaluate_object r s as_of) xs (0, [], b) = Inr (n1, os1, b1)" and
    2: "fold_res (evaluate_object r s as_of) ys (n1, os1, b1) = Inr (n, result_objects e, b2)"
    by (auto simp: fold_res_append)
  have "\<exists>u'. fold_res (evaluate_object r s as_of) xs (0, [], b) = Inr u' \<and> budget_le b (snd (snd u'))"
  proof -
    have "budget_le b (snd (snd (n1, os1, b1)))"
      by (rule fold_res_invariant [where P = "\<lambda>t. budget_le b (snd (snd t))", OF 1])
        (auto dest!: evaluate_object_le elim: budget_le_trans)
    with 1 show ?thesis by auto
  qed
  then have "lighter os1 (0, [], b) (n1, os1, b1)" using 1 by (simp add: lighter_def)
  from fold_object_sim [OF 2 this] obtain m os2 a where
    3: "fold_res (evaluate_object r s as_of) ys (0, [], b) = Inr (m, os2, a)" "result_objects e = os1 @ os2"
    by (auto simp: lighter_def)
  have ten: "rule_tenant r = page_tenant s" using b by (auto simp: header_checks_def)
  have cur: "case cursor of None \<Rightarrow> True | Some k \<Rightarrow> key_tenant k = rule_tenant r"
  proof (cases "xs = []")
    case False
    from fold_res_each [OF 1 last_in_set [OF False]] evaluate_object_tenant
    have "key_tenant (snapshot_key (last xs)) = page_tenant s" by metis
    with False ten show ?thesis by (simp add: cursor_def)
  qed (use after cursor_def in simp)
  from keys have k1: "keys_increasing (page_after s) xs" and k2: "keys_increasing cursor ys"
    by (simp_all add: keys_increasing_append cursor_def)
  obtain e1 where e1: "evaluate_page r (page_part s xs (page_after s)) as_of = Inr e1" "result_objects e1 = os1"
    using evaluate_page_part [OF req _ after k1 b 1] len by auto
  obtain e2 where e2: "evaluate_page r (page_part s ys cursor) as_of = Inr e2" "result_objects e2 = os2"
    using evaluate_page_part [OF req _ cur k2 b 3(1)] len by auto
  from e1 e2 3(2) show ?thesis by blast
qed

end
