(* ===== verification/Group_Properties.thy ===== *)
theory Group_Properties
  imports Group_Paging
begin

text \<open>
  The properties of the group engine, each with a witness on a concrete rule and page: the rule
  asks for at least 8 units of memory and membership in a frozen group, the page holds one object
  with one context.
\<close>

section \<open>A concrete rule and page\<close>

definition sample_field :: field where
  "sample_field = \<lparr>field_key = ''ram'', field_kind = ScalarField TInteger, field_unit = None,
     field_operations = [Eq, Ge], field_nullable = False\<rparr>"

definition sample_predicate :: predicate where
  "sample_predicate = \<lparr>predicate_field = ''ram'', predicate_op = Ge,
     predicate_operand = Some \<lparr>operand_value = Scalar (SInteger 8), operand_unit = None\<rparr>\<rparr>"

definition sample_criteria :: criteria where
  "sample_criteria =
    Criteria (NAnd [Criteria (NPredicate sample_predicate) 1 1, Criteria (NMembership ''it'' False) 1 1]) 3 2"

definition sample_rule :: rule where
  "sample_rule = \<lparr>rule_tenant = 1, rule_version = ''r1'', rule_dictionary_version = ''d1'',
     rule_fields = [(''ram'', sample_field)], rule_criteria = sample_criteria,
     rule_required = [''ram'']\<rparr>"

definition sample_facts :: "fact_state \<Rightarrow> facts" where
  "sample_facts st = [(''ram'', \<lparr>fact_state = st, fact_source = ''s'', fact_snapshot_id = ''n'', fact_observed_at = 5\<rparr>)]"

definition sample_object :: "string \<Rightarrow> object_snapshot" where
  "sample_object name = \<lparr>snapshot_key = ObjectKey 1 name, snapshot_memberships = [(''it'', OMatch)],
     snapshot_quantifier = QOne, snapshot_complete = True,
     snapshot_contexts = [(''c'', sample_facts (Known (Scalar (SInteger 16))))]\<rparr>"

definition sample_page :: "string list \<Rightarrow> page_input" where
  "sample_page names = \<lparr>page_tenant = 1, page_id = ''p'', page_version = ''v'',
     page_dictionary_version = ''d1'', page_coverage = [''ram''],
     page_objects = map sample_object names, page_after = None\<rparr>"

lemmas text_eval = str_chars_def is_blank_def has_control_def char_is_control_def char_is_whitespace_def

lemmas budget_eval = budget_new_def budget_identity_def budget_text_def budget_input_version_def
  budget_scalar_text_def budget_add_bytes_def budget_take_items_def budget_set_def limit_add_eq
  limit_product_eq limit_check_def limits_defs text_eval

lemmas rule_eval = criteria_predicate_def criteria_membership_def criteria_and_def criteria_or_def
  criteria_group_def rule_new_def add_field_def bm_put_def validate_predicate_def
  validate_operand_def unit_identity_def scalar_validate_def budget_eval

lemmas sample_defs = sample_field_def sample_predicate_def sample_criteria_def sample_rule_def
  sample_facts_def sample_object_def sample_page_def

lemma sample_criteria_built: 
  "bind_res (criteria_predicate sample_predicate) (\<lambda>p.
   bind_res (criteria_membership ''it'' False) (\<lambda>m. criteria_and [p, m])) = Inr sample_criteria"
  by (simp add: rule_eval sample_defs)

lemma sample_rule_new: "rule_new 1 ''r1'' ''d1'' [sample_field] sample_criteria = Inr sample_rule"
  by (simp add: rule_eval sample_defs)

definition sample_result :: "string list \<Rightarrow> page_evaluation" where
  "sample_result names = \<lparr>result_coverage = [''ram''], result_tenant = 1, result_rule_version = ''r1'',
     result_dictionary_version = ''d1'', result_snapshot_id = ''p'', result_snapshot_version = ''v'',
     result_as_of = 9, result_objects = map (\<lambda>n. \<lparr>evaluation_key = ObjectKey 1 n,
       evaluation_decision = Match, evaluation_contexts = [(''c'',
         \<lparr>context_decision = Match,
          context_explanations = [\<lparr>explanation_path = [0], explanation_outcome = OMatch\<rparr>,
            \<lparr>explanation_path = [1], explanation_outcome = OMatch\<rparr>],
          context_provenance = [(''ram'', \<lparr>provenance_source = ''s'', provenance_snapshot_id = ''n'', provenance_observed_at = 5\<rparr>)]\<rparr>)]\<rparr>) names\<rparr>"

lemmas page_eval = evaluate_page_def evaluate_input_def check_coverage_key_def evaluate_object_def
  evaluate_context_def check_fact_def quantify_def required_provenance_def eval_predicate_def
  rule_groups_def bm_keys_def bm_values_def bm_of_list_def bs_of_list_def checked_add_u64_def
  u64_max_def outcome_from_bool_def less_object_key_def map_filter_def scalar_validate_def budget_eval
  less_eq_scalar_def

lemma sample_evaluate: "evaluate_page sample_rule (sample_page [''a'', ''b'']) 9 = Inr (sample_result [''a'', ''b''])"
  by (simp add: page_eval sample_defs sample_result_def)

lemma sample_contexts_wf: "\<forall>x \<in> set (page_objects (sample_page names)). bm_wf (snapshot_contexts x)"
  by (simp add: sample_page_def sample_object_def)

section \<open>Properties\<close>

text \<open>C7: An accepted rule evaluated on any page, well formed or not, never reaches a panic of the
  evaluation: no \<^verbatim>\<open>unreachable!\<close> arm, no missing operand, no missing membership index.\<close>

theorem group_evaluation_never_panics:
  assumes "rule_new tenant version dictionary_version fs criteria = Inr r"
  shows "evaluate_page r s as_of \<noteq> Inl Panic"
  using evaluate_page_no_panic [OF rule_new_Inr(1) [OF assms]] by (simp add: no_panic_def)

theorem group_evaluation_never_panics_witness:
  "rule_new 1 ''r1'' ''d1'' [sample_field] sample_criteria = Inr sample_rule \<and>
   evaluate_page sample_rule (sample_page [''a'', ''b'']) 9 \<noteq> Inl Panic"
  using sample_rule_new group_evaluation_never_panics [OF sample_rule_new] by blast

text \<open>C1: The evaluation of a page refines strong Kleene logic: one result per object in the order of
  the input, one context result per context, whose decision is the three-valued meaning of the
  criteria over the leaf decisions (a confirmed no decides a conjunction, a confirmed yes a
  disjunction, otherwise an unknown leaf makes the result unknown), whose explanations are all
  leaves in tree order with their outcomes, and whose provenance is that of the required fields.\<close>

theorem group_page_refines_kleene:
  assumes "rule_new tenant version dictionary_version fs criteria = Inr r"
    and "evaluate_page r s as_of = Inr e"
    and "\<forall>x \<in> set (page_objects s). bm_wf (snapshot_contexts x)"
  shows "list_all2 (\<lambda>x v. evaluation_key v = snapshot_key x \<and>
      evaluation_contexts v = map (\<lambda>(cid, facts). (cid,
        \<lparr>context_decision = kleene (leaf_decision facts (snapshot_memberships x) as_of) criteria,
         context_explanations = map (explain facts (snapshot_memberships x) as_of) (leaves [] criteria),
         context_provenance = required_provenance r facts\<rparr>)) (snapshot_contexts x))
    (page_objects s) (result_objects e)"
proof (rule evaluate_page_each [OF assms(2)])
  note r = rule_new_Inr [OF assms(1)]
  fix x n os b n' os' b'
  assume x: "x \<in> set (page_objects s)"
    and ev: "evaluate_object r s as_of x (n, os, b) = Inr (n', os', b')"
  from assms(3) x have "bm_wf (snapshot_contexts x)" by blast
  from evaluate_object_result [OF r(1) this ev] show "\<exists>v. os' = os @ [v] \<and>
     evaluation_key v = snapshot_key x \<and>
      evaluation_contexts v = map (\<lambda>(cid, facts). (cid,
        \<lparr>context_decision = kleene (leaf_decision facts (snapshot_memberships x) as_of) criteria,
         context_explanations = map (explain facts (snapshot_memberships x) as_of) (leaves [] criteria),
         context_provenance = required_provenance r facts\<rparr>)) (snapshot_contexts x)"
    by (auto simp: context_result_def r(3))
qed

theorem group_page_refines_kleene_witness:
  "\<exists>e. evaluate_page sample_rule (sample_page [''a'', ''b'']) 9 = Inr e \<and>
    map evaluation_key (result_objects e) = [ObjectKey 1 ''a'', ObjectKey 1 ''b''] \<and>
    list_all2 (\<lambda>x v. evaluation_key v = snapshot_key x)
      (page_objects (sample_page [''a'', ''b''])) (result_objects e)"
proof -
  have "list_all2 (\<lambda>x v. evaluation_key v = snapshot_key x)
      (page_objects (sample_page [''a'', ''b''])) (result_objects (sample_result [''a'', ''b'']))"
    by (rule list_all2_mono [OF group_page_refines_kleene [OF sample_rule_new sample_evaluate sample_contexts_wf]]) simp
  moreover have "map evaluation_key (result_objects (sample_result [''a'', ''b''])) = [ObjectKey 1 ''a'', ObjectKey 1 ''b'']"
    by (simp add: sample_result_def)
  ultimately show ?thesis
    by (intro exI [of _ "sample_result [''a'', ''b'']"] conjI) (rule sample_evaluate)
qed

text \<open>The explanations of an evaluated tree are complete and unambiguous: as many as the tree has
  leaves, with pairwise distinct paths, and each path leads back to the leaf whose outcome it
  reports.\<close>

theorem group_explanations_resolve:
  assumes "evaluate_node c facts ms now [] [] = Inr (d, out)"
  shows "length out = leaf_count c \<and> distinct (map explanation_path out) \<and>
    (\<forall>x \<in> set out. \<exists>leaf. criteria_at c (explanation_path x) = Some leaf \<and>
      leaf_outcome facts ms now (criteria_node leaf) = Inr (explanation_outcome x))"
proof -
  have def: "leaves_defined facts ms now (leaves [] c)" by (rule evaluate_node_defined(1) [OF assms])
  have out: "out = map (explain facts ms now) (leaves [] c)"
    using evaluate_node_kleene(1) [OF def, of "[]"] assms by simp
  have paths: "map explanation_path out = map fst (leaves [] c)" by (simp add: out explain_def comp_def)
  have "\<exists>leaf. criteria_at c (explanation_path x) = Some leaf \<and>
      leaf_outcome facts ms now (criteria_node leaf) = Inr (explanation_outcome x)" if x: "x \<in> set out" for x
  proof -
    from x obtain p l where pl: "(p, l) \<in> set (leaves [] c)" "x = explain facts ms now (p, l)"
      by (auto simp: out)
    from leaves_prefix(1) [OF pl(1)] def pl show ?thesis
      by (fastforce simp: explain_def leaf_value_def leaves_defined_def)
  qed
  then show ?thesis
    unfolding paths using leaves_paths_distinct(1) [of "[]" c] length_leaves(1) [of "[]" c] out by auto
qed

theorem group_explanations_resolve_witness:
  "\<exists>d out. evaluate_node sample_criteria (sample_facts Missing) [(''it'', ONoMatch)] 9 [] [] = Inr (d, out) \<and>
    d = NoMatch \<and> length out = leaf_count sample_criteria \<and> distinct (map explanation_path out)"
proof -
  have ev: "evaluate_node sample_criteria (sample_facts Missing) [(''it'', ONoMatch)] 9 [] [] =
    Inr (NoMatch, [\<lparr>explanation_path = [0], explanation_outcome = OUnknown MissingFact\<rparr>,
                   \<lparr>explanation_path = [1], explanation_outcome = ONoMatch\<rparr>])"
    by (simp add: sample_defs eval_predicate_def)
  from ev group_explanations_resolve [OF ev] show ?thesis by blast
qed

text \<open>C21: A decided result is final in the facts: if a tree is decided on some facts and memberships,
  then it has the same decision on any facts and memberships that keep what was known, however the
  missing, deleted, unsupported and conflicting facts and the unknown memberships are resolved.\<close>

theorem group_decision_stable_under_resolution:
  assumes "evaluate_node c facts ms now [] [] = Inr (d, out)" "d \<noteq> Unknown"
    and "facts_refine facts facts'" "memberships_refine ms ms'"
    and "evaluate_node c facts' ms' now' [] [] = Inr (d', out')"
  shows "d' = d"
  using evaluate_node_stable [OF assms(3,4,1,5)] assms(2) by (simp add: gd.refines_def)

theorem group_decision_stable_under_resolution_witness:
  "\<exists>out'. evaluate_node sample_criteria (sample_facts (Known (Scalar (SInteger 16)))) [(''it'', ONoMatch)] 9 [] [] =
    Inr (NoMatch, out')"
proof -
  have ev: "\<exists>out. evaluate_node sample_criteria (sample_facts Missing) [(''it'', ONoMatch)] 9 [] [] = Inr (NoMatch, out)"
    by (simp add: sample_defs eval_predicate_def)
  have ev': "\<exists>d out. evaluate_node sample_criteria (sample_facts (Known (Scalar (SInteger 16)))) [(''it'', ONoMatch)] 9 [] [] = Inr (d, out)"
    by (simp add: sample_defs eval_predicate_def outcome_from_bool_def)
  have "facts_refine (sample_facts Missing) (sample_facts (Known (Scalar (SInteger 16))))"
    by (simp add: facts_refine_def sample_facts_def)
  moreover have "memberships_refine [(''it'', ONoMatch)] [(''it'', ONoMatch)]"
    by (simp add: memberships_refine_def)
  ultimately show ?thesis using ev ev' group_decision_stable_under_resolution by blast
qed

text \<open>What the quantifier of an object means over its contexts: \<open>Any\<close> matches exactly when some
  context matches and fails exactly when a complete, nonempty enumeration fails everywhere; \<open>All\<close>
  fails exactly when some context fails and matches exactly when a complete, nonempty enumeration
  matches everywhere; \<open>One\<close> is the decision of its only context.\<close>

theorem group_quantifier_meaning:
  assumes "evaluate_page r s as_of = Inr e"
  shows "list_all2 (\<lambda>x v. let ds = set (map context_decision (bm_values (evaluation_contexts v)));
        complete_universe = (snapshot_complete x \<and> evaluation_contexts v \<noteq> []) in
      case snapshot_quantifier x of
        QAny \<Rightarrow> (evaluation_decision v = Match \<longleftrightarrow> Match \<in> ds) \<and>
          (evaluation_decision v = NoMatch \<longleftrightarrow> complete_universe \<and> ds \<subseteq> {NoMatch})
      | QAll \<Rightarrow> (evaluation_decision v = NoMatch \<longleftrightarrow> NoMatch \<in> ds) \<and>
          (evaluation_decision v = Match \<longleftrightarrow> complete_universe \<and> ds \<subseteq> {Match})
      | QOne \<Rightarrow> length (snapshot_contexts x) = 1 \<and> evaluation_decision v \<in> ds)
    (page_objects s) (result_objects e)" (is "list_all2 ?P _ _")
proof (rule evaluate_page_each [OF assms])
  have only: "D \<subseteq> {a} \<longleftrightarrow> b \<notin> D \<and> Unknown \<notin> D" if "{a, b} = {Match, NoMatch}" for D a b
    using that gd.exhaustive by (auto simp: doubleton_eq_iff) (metis decision.exhaust)+
  fix x n os b n' os' b'
  assume ev: "evaluate_object r s as_of x (n, os, b) = Inr (n', os', b')"
  from evaluate_object_Inr [OF ev] obtain contexts d where
    q: "quantify (snapshot_quantifier x) (snapshot_complete x) contexts = Inr d"
      "snapshot_quantifier x = QOne \<Longrightarrow> length (snapshot_contexts x) = 1"
    and os: "os' = os @ [\<lparr>evaluation_key = snapshot_key x, evaluation_decision = d, evaluation_contexts = contexts\<rparr>]"
    by metis
  have "?P x \<lparr>evaluation_key = snapshot_key x, evaluation_decision = d, evaluation_contexts = contexts\<rparr>"
    using q only [of Match NoMatch] only [of NoMatch Match]
    by (cases "snapshot_quantifier x") (auto simp: quantify_def Let_def insert_commute split: if_splits list.splits)
  with os show "\<exists>v. os' = os @ [v] \<and> ?P x v" by blast
qed

theorem group_quantifier_meaning_witness:
  "\<exists>e. evaluate_page sample_rule (sample_page [''a'']) 9 = Inr e \<and>
    list_all2 (\<lambda>x v. evaluation_decision v \<in> set (map context_decision (bm_values (evaluation_contexts v))))
    (page_objects (sample_page [''a''])) (result_objects e)"
proof -
  have ev: "evaluate_page sample_rule (sample_page [''a'']) 9 = Inr (sample_result [''a''])"
    by (simp add: page_eval sample_defs sample_result_def)
  show ?thesis
    using group_quantifier_meaning [OF ev] by (intro exI [of _ "sample_result [''a'']"] conjI ev)
      (simp add: sample_page_def sample_object_def sample_result_def Let_def)
qed

text \<open>An evaluated page reports each object once: the keys of the results are the keys of the
  input, strictly increasing, after the cursor, and all in the tenant of the rule.\<close>

theorem group_page_order_and_tenant:
  assumes "evaluate_page r s as_of = Inr e"
  shows "map evaluation_key (result_objects e) = map snapshot_key (page_objects s) \<and>
    sorted_wrt (<) (map evaluation_key (result_objects e)) \<and>
    (\<forall>v \<in> set (result_objects e). key_tenant (evaluation_key v) = rule_tenant r \<and>
      (\<forall>k. page_after s = Some k \<longrightarrow> k < evaluation_key v))"
proof -
  note all2 = evaluate_page_tenant [OF assms]
  note inc = keys_increasing_sorted [OF evaluate_page_Inr(2) [OF assms]]
  have eq: "map evaluation_key (result_objects e) = map snapshot_key (page_objects s)"
    using all2 by (auto simp: list_all2_conv_all_nth intro: nth_equalityI)
  have "\<forall>k \<in> set (map evaluation_key (result_objects e)). key_tenant k = rule_tenant r \<and>
      (\<forall>j. page_after s = Some j \<longrightarrow> j < k)"
    unfolding eq using all2 inc by (auto simp: list_all2_conv_all_nth in_set_conv_nth)
  then have "\<forall>v \<in> set (result_objects e). key_tenant (evaluation_key v) = rule_tenant r \<and>
      (\<forall>k. page_after s = Some k \<longrightarrow> k < evaluation_key v)" by simp
  moreover have "sorted_wrt (<) (map evaluation_key (result_objects e))" using eq inc by simp
  ultimately show ?thesis using eq by blast
qed

theorem group_page_order_and_tenant_witness:
  "\<exists>e. evaluate_page sample_rule (sample_page [''a'', ''b'']) 9 = Inr e \<and>
    sorted_wrt (<) (map evaluation_key (result_objects e)) \<and> length (result_objects e) = 2"
proof -
  have "length (result_objects (sample_result [''a'', ''b''])) = 2" by (simp add: sample_result_def)
  with group_page_order_and_tenant [OF sample_evaluate] show ?thesis
    by (intro exI [of _ "sample_result [''a'', ''b'']"] conjI sample_evaluate) blast+
qed

text \<open>C23: Paging does not change results: a page that evaluates can be cut at any object, the second
  part continuing from the key of the last object of the first, and the two parts evaluate to the
  two parts of its results.\<close>

theorem group_page_split:
  assumes "evaluate_page r s as_of = Inr e" "page_objects s = xs @ ys"
  shows "\<exists>e1 e2.
    evaluate_page r (s\<lparr>page_objects := xs\<rparr>) as_of = Inr e1 \<and>
    evaluate_page r (s\<lparr>page_objects := ys,
      page_after := (if xs = [] then page_after s else Some (snapshot_key (last xs)))\<rparr>) as_of = Inr e2 \<and>
    result_objects e = result_objects e1 @ result_objects e2"
proof -
  have "page_part s xs (page_after s) = s\<lparr>page_objects := xs\<rparr>" by (simp add: page_part_def)
  with evaluate_page_split [OF assms] show ?thesis by (simp add: page_part_def)
qed

theorem group_page_split_witness:
  "\<exists>e1 e2. evaluate_page sample_rule (sample_page [''a'']) 9 = Inr e1 \<and>
    evaluate_page sample_rule ((sample_page [''b''])\<lparr>page_after := Some (ObjectKey 1 ''a'')\<rparr>) 9 = Inr e2 \<and>
    result_objects (sample_result [''a'', ''b'']) = result_objects e1 @ result_objects e2"
proof -
  have "page_objects (sample_page [''a'', ''b'']) = [sample_object ''a''] @ [sample_object ''b'']"
    by (simp add: sample_page_def)
  from group_page_split [OF sample_evaluate this] show ?thesis
    by (simp add: sample_page_def sample_object_def)
qed

text \<open>An evaluated page stays within its fixed budgets: at most 1000 objects, at most a million
  node visits and at most 65536 explanations over all contexts.\<close>

theorem group_page_within_budgets:
  assumes "rule_new tenant version dictionary_version fs criteria = Inr r"
    and "evaluate_page r s as_of = Inr e"
    and "\<forall>x \<in> set (page_objects s). bm_wf (snapshot_contexts x)"
  shows "length (result_objects e) \<le> limits_OBJECTS \<and>
    sum_list (map (\<lambda>v. length (evaluation_contexts v)) (result_objects e)) * criteria_count criteria \<le> limits_VISITS \<and>
    sum_list (map (\<lambda>v. sum_list (map (\<lambda>c. length (context_explanations c)) (bm_values (evaluation_contexts v))))
      (result_objects e)) \<le> limits_EXPLANATIONS"
proof -
  note r = rule_new_Inr [OF assms(1)]
  note len = evaluate_page_Inr(4) [OF assms(2)]
  obtain n b1 b2 where
    run: "fold_res (evaluate_object r s as_of) (page_objects s) (0, [], b1) = Inr (n, result_objects e, b2)"
    by (rule evaluate_input_Inr [OF evaluate_page_Inr(3) [OF assms(2)]])
  have each: "list_all2 (\<lambda>x v. length (evaluation_contexts v) = length (snapshot_contexts x) \<and>
      sum_list (map (\<lambda>c. length (context_explanations c)) (bm_values (evaluation_contexts v))) =
      length (snapshot_contexts x) * leaf_count criteria) (page_objects s) (result_objects e)"
  proof (rule evaluate_page_each [OF assms(2)])
    fix x n os b n' os' b'
    assume x: "x \<in> set (page_objects s)"
      and ev: "evaluate_object r s as_of x (n, os, b) = Inr (n', os', b')"
    from assms(3) x have "bm_wf (snapshot_contexts x)" by blast
    from evaluate_object_result [OF r(1) this ev] show "\<exists>v. os' = os @ [v] \<and>
      length (evaluation_contexts v) = length (snapshot_contexts x) \<and>
      sum_list (map (\<lambda>c. length (context_explanations c)) (bm_values (evaluation_contexts v))) =
      length (snapshot_contexts x) * leaf_count criteria"
      by (auto simp: bm_values_def comp_def case_prod_beta context_result_def length_leaves r(3)
          sum_list_triv)
  qed
  from each have 1: "map (\<lambda>v. length (evaluation_contexts v)) (result_objects e) = map (\<lambda>x. length (snapshot_contexts x)) (page_objects s)"
    and 2: "map (\<lambda>v. sum_list (map (\<lambda>c. length (context_explanations c)) (bm_values (evaluation_contexts v)))) (result_objects e)
      = map (\<lambda>x. length (snapshot_contexts x) * leaf_count criteria) (page_objects s)"
    and 3: "length (result_objects e) = length (page_objects s)"
    by (auto simp: list_all2_conv_all_nth intro!: nth_equalityI)
  from fold_objects_count [OF run] show ?thesis unfolding 1 2 3
    using len r(3) by (cases "page_objects s = []") (auto simp: sum_list_mult_const)
qed

theorem group_page_within_budgets_witness:
  "length (result_objects (sample_result [''a'', ''b''])) \<le> limits_OBJECTS \<and>
   sum_list (map (\<lambda>v. length (evaluation_contexts v)) (result_objects (sample_result [''a'', ''b'']))) *
     criteria_count sample_criteria \<le> limits_VISITS"
  using group_page_within_budgets [OF sample_rule_new sample_evaluate sample_contexts_wf] by blast

text \<open>A rule is accepted only if its dictionary and its tree agree: distinct keys with permitted
  operators, every predicate on a known field with an allowed operator, an operand of the expected
  type and exactly the field's unit (none for a null test), and the required coverage is exactly
  the set of fields the tree reads.\<close>

theorem group_rule_new_well_typed:
  assumes "rule_new tenant version dictionary_version fs criteria = Inr r"
  shows "dictionary_ok (rule_fields r) \<and> distinct (map field_key fs) \<and>
    (\<forall>p \<in> set (predicates_of criteria). predicate_ok (rule_fields r) p) \<and>
    set (rule_required r) = predicate_field ` set (predicates_of criteria)"
proof -
  note r = rule_new_Inr [OF assms]
  from assms obtain b dict b1 where "fold_res add_field fs ([], b) = Inr (dict, b1)"
    by (auto simp: rule_new_def)
  from fold_add_field_keys [OF this] bm.put_all_distinct [of "[]" "map (\<lambda>f. (field_key f, f)) fs"]
  have "distinct (map field_key fs)" by (simp add: comp_def)
  with r(1) show ?thesis by (simp add: rule_wf_def r(3))
qed

theorem group_rule_new_well_typed_witness:
  "predicate_ok (rule_fields sample_rule) sample_predicate"
  using group_rule_new_well_typed [OF sample_rule_new] by (simp add: sample_criteria_def)

text \<open>Every tree the builders make carries its exact node count and height, within the limits of
  256 nodes and 16 levels.\<close>

theorem group_criteria_counts_exact:
  assumes "built c"
  shows "criteria_count c = node_total c \<and> criteria_depth c = tree_height c \<and>
    node_total c \<le> 256 \<and> tree_height c \<le> 16"
  using built_exact [OF assms] by (simp add: limits_defs)

theorem group_criteria_counts_exact_witness:
  "built sample_criteria \<and> criteria_count sample_criteria = node_total sample_criteria \<and> node_total sample_criteria = 3"
proof -
  have "built (Criteria (NPredicate sample_predicate) 1 1)"
    by (rule built_predicate [of sample_predicate]) (simp add: rule_eval sample_predicate_def)
  moreover have "built (Criteria (NMembership ''it'' False) 1 1)"
    by (rule built_membership [of "''it''" False]) (simp add: rule_eval)
  ultimately have b: "built sample_criteria"
    by (intro built_group [of "[Criteria (NPredicate sample_predicate) 1 1, Criteria (NMembership ''it'' False) 1 1]" True])
      (simp_all add: rule_eval sample_criteria_def)
  with group_criteria_counts_exact [OF b] show ?thesis by (simp add: sample_criteria_def)
qed

end
