(* ===== verification/Scope_Model.thy ===== *)
theory Scope_Model
  imports Three_Valued
begin

text \<open>
  The per-device scope algebra, \<^verbatim>\<open>crates/scope\<close>: identities (\<^verbatim>\<open>identity.rs\<close>), source references,
  reasons and errors (\<^verbatim>\<open>model.rs\<close>), the authored definition (\<^verbatim>\<open>definition.rs\<close>) and the resolution
  of one device (\<^verbatim>\<open>device.rs\<close>). The types that the code keeps in ordered sets and maps get its
  derived order by an instance of \<open>linorder\<close>.
\<close>

section \<open>Identities\<close>

datatype scope_key = ScopeKey (scope_key_tenant: tenant_id) (scope_key_value: string)

datatype device_id = DeviceId scope_key
datatype scope_group_id = ScopeGroupId scope_key

datatype source_id = SDirect device_id | SGroup scope_group_id

text \<open>The exact source snapshot: identity, version (a nonzero u64) and resolution time.\<close>

datatype source_ref =
  SourceRef (source_ref_id: source_id) (source_ref_version: nat) (source_ref_resolved_at: timepoint)

datatype exclusion_reason =
    MissingLimitationMatch | ExplicitExclusion | UnknownTarget | UnknownLimitation | UnknownExclusion

record member_explanation =
  member_object :: device_id
  member_targets :: "source_ref list"
  member_limitations :: "source_ref list"
  member_exclusions :: "source_ref list"
  member_reasons :: "exclusion_reason list"

datatype scope_error =
    SourceLimit
  | InvalidKey
  | InvalidVersion
  | SourceTenantMismatch source_ref tenant_id
  | IncompleteSource source_ref
  | SourceFailed source_ref
  | ConflictingSource source_ref
  | InvalidDirectSource source_ref

definition key_new :: "tenant_id \<Rightarrow> string \<Rightarrow> (scope_error, scope_key) result" where
  "key_new tenant v =
    (if v = [] \<or> length v > 128
        \<or> \<not> list_all (\<lambda>b. is_ascii_alphanumeric b \<or> b = CHR ''.'' \<or> b = CHR ''_'' \<or> b = CHR ''-'') v
     then Inl (Fail InvalidKey) else Inr (ScopeKey tenant v))"

definition scope_group_id_new :: "tenant_id \<Rightarrow> string \<Rightarrow> (scope_error, scope_group_id) result" where
  "scope_group_id_new tenant v = bind_res (key_new tenant v) (\<lambda>k. Inr (ScopeGroupId k))"

definition device_id_new :: "tenant_id \<Rightarrow> string \<Rightarrow> (scope_error, device_id) result" where
  "device_id_new tenant v =
    (if v = [] \<or> length v > 256 \<or> has_control v
     then Inl (Fail InvalidKey) else Inr (DeviceId (ScopeKey tenant v)))"

fun device_tenant :: "device_id \<Rightarrow> tenant_id" where
  "device_tenant (DeviceId k) = scope_key_tenant k"

fun scope_group_tenant :: "scope_group_id \<Rightarrow> tenant_id" where
  "scope_group_tenant (ScopeGroupId k) = scope_key_tenant k"

fun source_tenant :: "source_id \<Rightarrow> tenant_id" where
  "source_tenant (SDirect d) = device_tenant d"
| "source_tenant (SGroup g) = scope_group_tenant g"

definition source_ref_new :: "source_id \<Rightarrow> nat \<Rightarrow> timepoint \<Rightarrow> (scope_error, source_ref) result" where
  "source_ref_new sid version resolved_at =
    bind_res (ok_or InvalidVersion (if version = 0 then None else Some version))
      (\<lambda>v. Inr (SourceRef sid v resolved_at))"

subsection \<open>Orders\<close>

text \<open>\<^verbatim>\<open>Key::cmp\<close> compares the tenant octets, then the text; the enum and the structs derive their
  order: the variant, then the components in declaration order.\<close>

fun source_id_rank :: "source_id \<Rightarrow> nat \<times> tenant_id \<times> string" where
  "source_id_rank (SDirect (DeviceId (ScopeKey t v))) = (0, t, v)"
| "source_id_rank (SGroup (ScopeGroupId (ScopeKey t v))) = (1, t, v)"

lemma source_id_rank_inj [simp]: "source_id_rank a = source_id_rank b \<longleftrightarrow> a = b"
  by (cases a rule: source_id_rank.cases; cases b rule: source_id_rank.cases) auto

instantiation source_id :: linorder
begin
definition less_eq_source_id :: "source_id \<Rightarrow> source_id \<Rightarrow> bool" where
  "less_eq_source_id a b \<longleftrightarrow> source_id_rank a \<le> source_id_rank b"
definition less_source_id :: "source_id \<Rightarrow> source_id \<Rightarrow> bool" where
  "less_source_id a b \<longleftrightarrow> source_id_rank a < source_id_rank b"
instance
  by intro_classes (auto simp: less_eq_source_id_def less_source_id_def order.strict_iff_order)
end

fun source_ref_rank :: "source_ref \<Rightarrow> source_id \<times> nat \<times> timepoint" where
  "source_ref_rank (SourceRef i v t) = (i, v, t)"

lemma source_ref_rank_inj [simp]: "source_ref_rank a = source_ref_rank b \<longleftrightarrow> a = b"
  by (cases a; cases b) auto

instantiation source_ref :: linorder
begin
definition less_eq_source_ref :: "source_ref \<Rightarrow> source_ref \<Rightarrow> bool" where
  "less_eq_source_ref a b \<longleftrightarrow> source_ref_rank a \<le> source_ref_rank b"
definition less_source_ref :: "source_ref \<Rightarrow> source_ref \<Rightarrow> bool" where
  "less_source_ref a b \<longleftrightarrow> source_ref_rank a < source_ref_rank b"
instance
  by intro_classes (auto simp: less_eq_source_ref_def less_source_ref_def order.strict_iff_order)
end

section \<open>The authored definition\<close>

datatype reference = RefDevice string | RefGroup uuid

fun reference_rank :: "reference \<Rightarrow> nat \<times> string \<times> uuid" where
  "reference_rank (RefDevice s) = (0, s, 0)"
| "reference_rank (RefGroup u) = (1, [], u)"

lemma reference_rank_inj [simp]: "reference_rank a = reference_rank b \<longleftrightarrow> a = b"
  by (cases a; cases b) auto

instantiation reference :: linorder
begin
definition less_eq_reference :: "reference \<Rightarrow> reference \<Rightarrow> bool" where
  "less_eq_reference a b \<longleftrightarrow> reference_rank a \<le> reference_rank b"
definition less_reference :: "reference \<Rightarrow> reference \<Rightarrow> bool" where
  "less_reference a b \<longleftrightarrow> reference_rank a < reference_rank b"
instance
  by intro_classes (auto simp: less_eq_reference_def less_reference_def order.strict_iff_order)
end

text \<open>Absent limitations (\<open>None\<close>) are unrestricted, an empty limitation set admits nothing.\<close>

record scope_definition =
  scope_targets :: "reference btree_set"
  scope_limitations :: "reference btree_set option"
  scope_exclusions :: "reference btree_set"

definition scope_references :: "scope_definition \<Rightarrow> reference btree_set" where
  "scope_references d = bs_of_list (scope_targets d @
     (case scope_limitations d of None \<Rightarrow> [] | Some ls \<Rightarrow> ls) @ scope_exclusions d)"

section \<open>Resolution of one device\<close>

datatype membership = MKnown bool | MUnknown | MIncomplete | MFailed

record source_membership =
  membership_source :: source_ref
  membership_contains :: membership

record device_input =
  input_device :: device_id
  input_targets :: "source_membership list"
  input_limitations :: "source_membership list option"
  input_exclusions :: "source_membership list"

definition input_limits :: "device_input \<Rightarrow> source_membership list" where
  "input_limits i = (case input_limitations i of None \<Rightarrow> [] | Some ls \<Rightarrow> ls)"

definition input_sources :: "device_input \<Rightarrow> source_membership list" where
  "input_sources i = input_targets i @ input_limits i @ input_exclusions i"

text \<open>The answer of a source: a complete source confirms membership or leaves it unknown, an
  incomplete or failed one is an error.\<close>

fun membership_answer :: "source_ref \<Rightarrow> membership \<Rightarrow> (scope_error, bool option) result" where
  "membership_answer s (MKnown b) = Inr (Some b)"
| "membership_answer s MUnknown = Inr None"
| "membership_answer s MIncomplete = Inl (Fail (IncompleteSource s))"
| "membership_answer s MFailed = Inl (Fail (SourceFailed s))"

definition direct_ok :: "device_id \<Rightarrow> source_id \<Rightarrow> bool option \<Rightarrow> bool" where
  "direct_ok device sid contains \<longleftrightarrow>
    (case sid of SDirect d \<Rightarrow> contains = Some (d = device) | SGroup _ \<Rightarrow> True)"

type_synonym seen_sources = "(source_id \<times> nat, bool option) btree_map"

text \<open>One round of the validation loop.\<close>

definition check_source ::
  "device_id \<Rightarrow> source_membership \<Rightarrow> seen_sources \<Rightarrow> (scope_error, seen_sources) result" where
  "check_source device m seen =
    (let source = membership_source m; sid = source_ref_id source in
     if source_tenant sid \<noteq> device_tenant device
     then Inl (Fail (SourceTenantMismatch source (device_tenant device)))
     else bind_res (membership_answer source (membership_contains m)) (\<lambda>contains.
       if \<not> direct_ok device sid contains then Inl (Fail (InvalidDirectSource source))
       else let (seen', old) = bm_put (sid, source_ref_version source) contains seen in
         (case old of
            None \<Rightarrow> Inr seen'
          | Some w \<Rightarrow> if w \<noteq> contains then Inl (Fail (ConflictingSource source)) else Inr seen')))"

definition explanation ::
  "device_id \<Rightarrow> source_ref btree_set \<Rightarrow> source_ref btree_set \<Rightarrow> source_ref btree_set \<Rightarrow> bool \<Rightarrow> member_explanation" where
  "explanation object targets limitations exclusions restricted =
    \<lparr>member_object = object, member_targets = targets, member_limitations = limitations,
     member_exclusions = exclusions,
     member_reasons = (if restricted \<and> limitations = [] then [MissingLimitationMatch] else [])
       @ (if exclusions \<noteq> [] then [ExplicitExclusion] else [])\<rparr>"

definition matching :: "source_membership list \<Rightarrow> source_ref btree_set" where
  "matching ms = bs_of_list (map membership_source (filter (\<lambda>m. membership_contains m = MKnown True) ms))"

definition has_unknown :: "source_membership list \<Rightarrow> bool" where
  "has_unknown ms \<longleftrightarrow> list_ex (\<lambda>m. membership_contains m = MUnknown) ms"

text \<open>The reasons after the explicit exclusions: unknown targets, a missing limitation that
  unknown limitations make uncertain, unknown exclusions.\<close>

definition uncertain_reasons :: "device_input \<Rightarrow> member_explanation \<Rightarrow> exclusion_reason list" where
  "uncertain_reasons i r =
    (let reasons1 = member_reasons r @ (if member_targets r = [] then [UnknownTarget] else []);
         reasons2 = (if MissingLimitationMatch \<in> set reasons1 \<and> has_unknown (input_limits i)
           then filter (\<lambda>x. x \<noteq> MissingLimitationMatch) reasons1 @ [UnknownLimitation] else reasons1) in
     if member_exclusions r = [] \<and> has_unknown (input_exclusions i)
     then reasons2 @ [UnknownExclusion] else reasons2)"

definition resolve_device :: "device_input \<Rightarrow> (scope_error, member_explanation option) result" where
  "resolve_device i =
    (if saturating_add_u64 (saturating_add_u64 (length (input_targets i)) (length (input_limits i)))
          (length (input_exclusions i)) > 3000
     then Inl (Fail SourceLimit)
     else bind_res (fold_res (check_source (input_device i)) (input_sources i) []) (\<lambda>seen.
       if length seen > 1000 then Inl (Fail SourceLimit)
       else let targets = matching (input_targets i) in
         if targets = [] \<and> \<not> has_unknown (input_targets i) then Inr None
         else let r = explanation (input_device i) targets (matching (input_limits i))
                (matching (input_exclusions i)) (input_limitations i \<noteq> None) in
           if member_exclusions r \<noteq> [] then Inr (Some r)
           else Inr (Some (r\<lparr>member_reasons := uncertain_reasons i r\<rparr>))))"

end
