(* ===== verification/Scope_Properties.thy ===== *)
theory Scope_Properties
  imports Scope_Model
begin

text \<open>
  What the resolution of one device promises. The specification is the scope algebra over
  three-valued answers: union of the targets, intersection with the union of the limitations,
  difference of the union of the exclusions. \<open>bool option\<close> is the decision type here: a confirmed
  answer or \<open>None\<close>.
\<close>

interpretation sd: three_valued "Some True" "Some False" "None :: bool option"
  by unfold_locales auto

section \<open>Validation of the sources\<close>

fun answer :: "membership \<Rightarrow> bool option" where
  "answer (MKnown b) = Some b"
| "answer _ = None"

definition source_ok :: "device_id \<Rightarrow> source_membership \<Rightarrow> bool" where
  "source_ok device m \<longleftrightarrow>
    source_tenant (source_ref_id (membership_source m)) = device_tenant device \<and>
    membership_contains m \<notin> {MIncomplete, MFailed} \<and>
    (\<forall>d. source_ref_id (membership_source m) = SDirect d \<longrightarrow> membership_contains m = MKnown (d = device))"

definition source_entry :: "source_membership \<Rightarrow> (source_id \<times> nat) \<times> bool option" where
  "source_entry m =
    ((source_ref_id (membership_source m), source_ref_version (membership_source m)), answer (membership_contains m))"

text \<open>The same snapshot of a source gives the same answer wherever it is named.\<close>

definition sources_agree :: "source_membership list \<Rightarrow> bool" where
  "sources_agree ms \<longleftrightarrow> (\<forall>m \<in> set ms. \<forall>m' \<in> set ms.
    fst (source_entry m) = fst (source_entry m') \<longrightarrow> snd (source_entry m) = snd (source_entry m'))"

lemma membership_answer_Inr [simp]:
  "membership_answer s c = Inr a \<longleftrightarrow> c \<notin> {MIncomplete, MFailed} \<and> a = answer c"
  by (cases c) auto

lemma direct_ok_iff:
  "direct_ok device sid (answer c) \<longleftrightarrow> (\<forall>d. sid = SDirect d \<longrightarrow> c = MKnown (d = device))"
  by (cases sid; cases c) (auto simp: direct_ok_def)

lemma check_source_Inr:
  "check_source device m seen = Inr seen' \<longleftrightarrow> source_ok device m \<and>
    seen' = fst (bm_put (fst (source_entry m)) (snd (source_entry m)) seen) \<and>
    (\<forall>w. bm_get seen (fst (source_entry m)) = Some w \<longrightarrow> w = snd (source_entry m))"
  by (auto simp: check_source_def source_ok_def source_entry_def direct_ok_iff bm_put_def Let_def
      split: option.splits if_splits)

lemma fold_check_source:
  "bm_wf seen \<Longrightarrow> fold_res (check_source device) ms seen = Inr seen' \<longleftrightarrow>
    (\<forall>m \<in> set ms. source_ok device m) \<and>
    bm.put_all (\<lambda>w v. w \<noteq> v) (map source_entry ms) seen = Some seen'"
proof (induction ms arbitrary: seen)
  case Nil
  then show ?case by auto
next
  case (Cons m ms)
  obtain k v where e: "source_entry m = (k, v)" by (cases "source_entry m")
  have "bm_wf (fst (bm_put k v seen))" by (rule bm.put_invar) (rule Cons.prems)
  from Cons.IH [OF this] show ?case
    using Cons.prems
    by (auto simp: check_source_Inr e bm.put_all_Cons simp del: bm.put_all.simps(2) split: option.splits if_splits)
qed

lemma checked_sources:
  "(\<exists>seen. fold_res (check_source device) ms [] = Inr seen) \<longleftrightarrow>
    (\<forall>m \<in> set ms. source_ok device m) \<and> sources_agree ms"
proof -
  have "(\<exists>seen. bm.put_all (\<lambda>w v. w \<noteq> v) (map source_entry ms) [] = Some seen) \<longleftrightarrow> sources_agree ms"
    using bm.put_all_agree [of "[]" "map source_entry ms"]
    by (auto simp: sources_agree_def case_prod_beta)
  then show ?thesis by (auto simp: fold_check_source)
qed

lemma length_seen:
  assumes "fold_res (check_source device) ms [] = Inr seen"
  shows "length seen = card (fst ` source_entry ` set ms)"
proof -
  from assms have p: "bm.put_all (\<lambda>w v. w \<noteq> v) (map source_entry ms) [] = Some seen"
    by (simp add: fold_check_source)
  from bm.put_all_get [OF _ p] have "bm_get seen = map_of (rev (map source_entry ms))" by simp
  moreover from bm.put_all_invar [OF _ p] have "bm_wf seen" by simp
  ultimately show ?thesis
    by (simp add: length_bm_keys dom_map_of_conv_image_fst)
qed

lemma saturating_total:
  "saturating_add_u64 (saturating_add_u64 a b) c > 3000 \<longleftrightarrow> a + b + c > 3000"
  by (auto simp: saturating_add_u64_def u64_max_def min_def)

lemma resolve_device_Inr:
  assumes "resolve_device i = Inr out"
  shows "\<forall>m \<in> set (input_sources i). source_ok (input_device i) m" "sources_agree (input_sources i)"
    "length (input_sources i) \<le> 3000" "card (fst ` source_entry ` set (input_sources i)) \<le> 1000"
proof -
  from assms obtain seen where seen: "fold_res (check_source (input_device i)) (input_sources i) [] = Inr seen"
    and len: "length seen \<le> 1000" and n: "length (input_sources i) \<le> 3000"
    by (auto simp: resolve_device_def saturating_total input_sources_def split: if_splits)
  then show "\<forall>m \<in> set (input_sources i). source_ok (input_device i) m" "sources_agree (input_sources i)"
    using checked_sources by blast+
  show "length (input_sources i) \<le> 3000" by (rule n)
  show "card (fst ` source_entry ` set (input_sources i)) \<le> 1000" using len length_seen [OF seen] by simp
qed

section \<open>The decision\<close>

definition sources3 :: "source_membership list \<Rightarrow> bool option" where
  "sources3 ms = sd.any3 (map (\<lambda>m. answer (membership_contains m)) ms)"

text \<open>The scope algebra: targets, limitations when they are given, minus exclusions.\<close>

definition scope_decision :: "device_input \<Rightarrow> bool option" where
  "scope_decision i = sd.conj3 (sources3 (input_targets i))
    (sd.conj3 (case input_limitations i of None \<Rightarrow> Some True | Some ls \<Rightarrow> sources3 ls)
      (sd.neg3 (sources3 (input_exclusions i))))"

text \<open>What an outcome says: no explanation or a definite reason is a no, no reason is a yes, and
  uncertain reasons only are an unknown.\<close>

definition outcome_decision :: "member_explanation option \<Rightarrow> bool option" where
  "outcome_decision out = (case out of
      None \<Rightarrow> Some False
    | Some r \<Rightarrow> if member_reasons r = [] then Some True
        else if MissingLimitationMatch \<in> set (member_reasons r) \<or> ExplicitExclusion \<in> set (member_reasons r)
        then Some False else None)"

lemma matching_Nil: "matching ms = [] \<longleftrightarrow> sources3 ms \<noteq> Some True"
proof -
  have "membership_contains m = MKnown True \<longleftrightarrow> answer (membership_contains m) = Some True" for m :: source_membership
    by (cases "membership_contains m") auto
  then have "matching ms = [] \<longleftrightarrow> Some True \<notin> set (map (\<lambda>m. answer (membership_contains m)) ms)"
    unfolding matching_def by (subst set_empty [symmetric]) (force simp: image_iff)
  then show ?thesis by (simp add: sources3_def sd.any3_def)
qed

lemma unknown_answer:
  "\<forall>m \<in> set ms. source_ok device m \<Longrightarrow> matching ms = [] \<Longrightarrow>
    has_unknown ms \<longleftrightarrow> sources3 ms = None"
proof -
  assume ok: "\<forall>m \<in> set ms. source_ok device m" and "matching ms = []"
  then have "Some True \<notin> set (map (\<lambda>m. answer (membership_contains m)) ms)"
    by (auto simp: matching_Nil sources3_def sd.any3_def)
  moreover have "membership_contains m = MUnknown \<longleftrightarrow> answer (membership_contains m) = None" if "m \<in> set ms" for m
    using ok that by (cases "membership_contains m") (auto simp: source_ok_def)
  ultimately show ?thesis
    by (auto simp: has_unknown_def list_ex_iff sources3_def sd.any3_def image_iff) (metis not_None_eq)+
qed

lemma sources3_cases: "sources3 ms = Some True \<or> sources3 ms = Some False \<or> sources3 ms = None"
  by (rule sd.exhaustive)

text \<open>The outcome of an accepted input, before and after the explicit exclusions.\<close>

lemma resolve_device_outcome:
  assumes "resolve_device i = Inr out"
  shows "out = (if sources3 (input_targets i) = Some False then None
    else let r = explanation (input_device i) (matching (input_targets i)) (matching (input_limits i))
      (matching (input_exclusions i)) (input_limitations i \<noteq> None) in
      Some (if sources3 (input_exclusions i) = Some True then r
        else r\<lparr>member_reasons := uncertain_reasons i r\<rparr>))"
proof -
  have "\<forall>m \<in> set (input_targets i). source_ok (input_device i) m"
    using resolve_device_Inr(1) [OF assms] by (simp add: input_sources_def)
  from unknown_answer [OF this] have "matching (input_targets i) = [] \<and> \<not> has_unknown (input_targets i)
      \<longleftrightarrow> sources3 (input_targets i) = Some False"
    using sources3_cases [of "input_targets i"] by (auto simp: matching_Nil)
  then show ?thesis using assms
    by (auto simp: resolve_device_def Let_def explanation_def matching_Nil split: if_splits)
qed

lemma uncertain_reasons_outcome:
  assumes ok: "\<forall>m \<in> set (input_limits i). source_ok device m" "\<forall>m \<in> set (input_exclusions i). source_ok device m"
    and ex: "sources3 (input_exclusions i) \<noteq> Some True"
  shows "uncertain_reasons i (explanation device (matching (input_targets i)) (matching (input_limits i))
      (matching (input_exclusions i)) restricted) =
    (if restricted \<and> sources3 (input_limits i) = Some False then [MissingLimitationMatch] else [])
    @ (if sources3 (input_targets i) \<noteq> Some True then [UnknownTarget] else [])
    @ (if restricted \<and> sources3 (input_limits i) = None then [UnknownLimitation] else [])
    @ (if sources3 (input_exclusions i) = None then [UnknownExclusion] else [])"
  using ex unknown_answer [OF ok(1)] unknown_answer [OF ok(2)] sources3_cases [of "input_limits i"]
  by (auto simp: uncertain_reasons_def explanation_def matching_Nil Let_def)

lemmas kleene_defs = sd.conj3_def sd.neg3_def outcome_decision_def scope_decision_def

lemma resolve_device_decision:
  assumes "resolve_device i = Inr out"
  shows "outcome_decision out = scope_decision i"
proof -
  have ok: "\<forall>m \<in> set (input_limits i). source_ok (input_device i) m"
    "\<forall>m \<in> set (input_exclusions i). source_ok (input_device i) m"
    using resolve_device_Inr(1) [OF assms] by (simp_all add: input_sources_def)
  show ?thesis
  proof (cases "sources3 (input_exclusions i) = Some True")
    case True
    then show ?thesis unfolding resolve_device_outcome [OF assms]
      by (auto simp: kleene_defs explanation_def Let_def matching_Nil)
  next
    case False
    then show ?thesis
      unfolding resolve_device_outcome [OF assms]
      using uncertain_reasons_outcome [OF ok False] sources3_cases [of "input_exclusions i"]
        sources3_cases [of "input_targets i"] sources3_cases [of "input_limits i"]
      by (cases "input_limitations i") (auto simp: kleene_defs Let_def input_limits_def)
  qed
qed


section \<open>Resolving unknowns and reordering sources\<close>

definition membership_refines :: "source_membership \<Rightarrow> source_membership \<Rightarrow> bool" where
  "membership_refines m m' \<longleftrightarrow> membership_source m = membership_source m' \<and>
    (membership_contains m = membership_contains m' \<or>
      (membership_contains m = MUnknown \<and> (\<exists>b. membership_contains m' = MKnown b)))"

text \<open>The second input has the same sources, with some unknown answers confirmed.\<close>

definition input_refines :: "device_input \<Rightarrow> device_input \<Rightarrow> bool" where
  "input_refines i i' \<longleftrightarrow> input_device i = input_device i' \<and>
    list_all2 membership_refines (input_targets i) (input_targets i') \<and>
    rel_option (list_all2 membership_refines) (input_limitations i) (input_limitations i') \<and>
    list_all2 membership_refines (input_exclusions i) (input_exclusions i')"

lemma sources3_refines: "list_all2 membership_refines ms ms' \<Longrightarrow> sd.refines (sources3 ms) (sources3 ms')"
proof -
  have "sd.refines (answer (membership_contains m)) (answer (membership_contains m'))" if "membership_refines m m'" for m m'
    using that by (auto simp: membership_refines_def sd.refines_def)
  moreover assume "list_all2 membership_refines ms ms'"
  ultimately show ?thesis
    unfolding sources3_def by (intro sd.refines_any3) (auto simp: list_all2_conv_all_nth)
qed

lemma scope_decision_refines: "input_refines i i' \<Longrightarrow> sd.refines (scope_decision i) (scope_decision i')"
proof -
  assume r: "input_refines i i'"
  have "sd.refines (case input_limitations i of None \<Rightarrow> Some True | Some ls \<Rightarrow> sources3 ls)
      (case input_limitations i' of None \<Rightarrow> Some True | Some ls \<Rightarrow> sources3 ls)"
    using r by (auto simp: input_refines_def rel_option_iff sources3_refines split: option.splits)
  moreover have "sd.refines a b \<Longrightarrow> sd.refines (sd.neg3 a) (sd.neg3 b)" for a b
    by (auto simp: sd.refines_def sd.neg3_def)
  ultimately show ?thesis using r
    by (auto simp: scope_decision_def input_refines_def intro!: sd.refines_conj3 sources3_refines)
qed

lemma sources3_set: "set ms = set ms' \<Longrightarrow> sources3 ms = sources3 ms'"
  by (simp add: sources3_def sd.any3_def)

lemma matching_set: "set ms = set ms' \<Longrightarrow> matching ms = matching ms'"
  by (simp add: matching_def bs_of_list_eq_iff)

lemma has_unknown_set: "set ms = set ms' \<Longrightarrow> has_unknown ms = has_unknown ms'"
  by (simp add: has_unknown_def list_ex_iff)

lemma set_matching: "set (matching ms) = {membership_source m |m. m \<in> set ms \<and> membership_contains m = MKnown True}"
  by (auto simp: matching_def)

section \<open>Samples\<close>

definition sample_device :: device_id where
  "sample_device = DeviceId (ScopeKey 7 ''laptop'')"

definition sample_source :: "string \<Rightarrow> membership \<Rightarrow> source_membership" where
  "sample_source g c = \<lparr>membership_source = SourceRef (SGroup (ScopeGroupId (ScopeKey 7 g))) 3 100, membership_contains = c\<rparr>"

text \<open>Two targets, one of them named twice, one limitation with the given answer and one exclusion.\<close>

definition sample_input :: "membership \<Rightarrow> device_input" where
  "sample_input c = \<lparr>input_device = sample_device,
     input_targets = [sample_source ''sales'' (MKnown True), sample_source ''all'' (MKnown False), sample_source ''sales'' (MKnown True)],
     input_limitations = Some [sample_source ''europe'' c],
     input_exclusions = [sample_source ''lost'' (MKnown False)]\<rparr>"

definition sample_outcome :: "membership \<Rightarrow> member_explanation option" where
  "sample_outcome c = Some \<lparr>member_object = sample_device,
     member_targets = [SourceRef (SGroup (ScopeGroupId (ScopeKey 7 ''sales''))) 3 100],
     member_limitations = (if c = MKnown True then [SourceRef (SGroup (ScopeGroupId (ScopeKey 7 ''europe''))) 3 100] else []),
     member_exclusions = [],
     member_reasons = (if c = MKnown True then [] else [UnknownLimitation])\<rparr>"

lemmas scope_eval = resolve_device_def saturating_total input_sources_def input_limits_def check_source_def
  direct_ok_def bm_put_def matching_def bs_of_list_def has_unknown_def explanation_def uncertain_reasons_def
  less_source_id_def less_source_ref_def Let_def

lemmas scope_sample_defs = sample_input_def sample_source_def sample_device_def sample_outcome_def

lemma sample_resolve:
  "resolve_device (sample_input (MKnown True)) = Inr (sample_outcome (MKnown True))"
  "resolve_device (sample_input MUnknown) = Inr (sample_outcome MUnknown)"
  by (simp_all add: scope_eval scope_sample_defs)

section \<open>Properties\<close>

text \<open>C3: Resolving a device computes the scope algebra over three-valued answers: the outcome says
  yes, no or unknown exactly as the union of the targets, restricted to the union of the
  limitations when there are any, minus the union of the exclusions; and no explanation is given
  exactly when every target is a confirmed nonmatch.\<close>

theorem scope_resolution_refines_algebra:
  assumes "resolve_device i = Inr out"
  shows "outcome_decision out = scope_decision i \<and> (out = None \<longleftrightarrow> sources3 (input_targets i) = Some False)"
  using resolve_device_decision [OF assms] resolve_device_outcome [OF assms] by (simp add: Let_def)

theorem scope_resolution_refines_algebra_witness:
  "outcome_decision (sample_outcome MUnknown) = scope_decision (sample_input MUnknown) \<and>
    scope_decision (sample_input MUnknown) = None"
  using scope_resolution_refines_algebra [OF sample_resolve(2)]
  by (simp add: sample_outcome_def outcome_decision_def)

text \<open>C6: A device is retained only on confirmed evidence: it is targeted by a confirmed source, by a
  confirmed limitation when limitations are given (an empty limitation set admits nothing), and
  every exclusion confirms its absence. An unknown exclusion never lets a device through.\<close>

theorem scope_retained_iff_confirmed:
  assumes "resolve_device i = Inr out"
  shows "(\<exists>r. out = Some r \<and> member_reasons r = []) \<longleftrightarrow>
    (\<exists>m \<in> set (input_targets i). membership_contains m = MKnown True) \<and>
    (\<forall>ls. input_limitations i = Some ls \<longrightarrow> (\<exists>m \<in> set ls. membership_contains m = MKnown True)) \<and>
    (\<forall>m \<in> set (input_exclusions i). membership_contains m = MKnown False)"
proof -
  have yes: "answer c = Some b \<longleftrightarrow> c = MKnown b" for c b by (cases c) auto
  have any: "sources3 ms = Some True \<longleftrightarrow> (\<exists>m \<in> set ms. membership_contains m = MKnown True)" for ms
    by (auto simp: sources3_def sd.any3_def image_iff yes [symmetric])
  have none: "sources3 ms = Some False \<longleftrightarrow> (\<forall>m \<in> set ms. membership_contains m = MKnown False)" for ms
    by (simp add: sources3_def sd.any3_no_iff yes)
  have "(\<exists>r. out = Some r \<and> member_reasons r = []) \<longleftrightarrow> outcome_decision out = Some True"
    by (auto simp: outcome_decision_def split: option.splits)
  also have "\<dots> \<longleftrightarrow> sources3 (input_targets i) = Some True \<and>
      (\<forall>ls. input_limitations i = Some ls \<longrightarrow> sources3 ls = Some True) \<and> sources3 (input_exclusions i) = Some False"
    unfolding resolve_device_decision [OF assms] using sources3_cases [of "input_exclusions i"]
    by (auto simp: scope_decision_def sd.conj3_def sd.neg3_def split: option.splits)
  finally show ?thesis by (simp add: any none)
qed

theorem scope_retained_iff_confirmed_witness:
  "\<exists>r. sample_outcome (MKnown True) = Some r \<and> member_reasons r = []"
  using scope_retained_iff_confirmed [OF sample_resolve(1)] by (simp add: sample_input_def sample_source_def)

text \<open>C24: Resolution fails closed and only for its stated reasons: it gives a result exactly when there
  are at most 3000 sources with at most 1000 distinct snapshots, every source belongs to the
  tenant of the device, none is incomplete or failed, a direct source contains exactly its own
  device, and repeated snapshots agree.\<close>

theorem scope_accepts_iff:
  "is_ok (resolve_device i) \<longleftrightarrow>
    length (input_sources i) \<le> 3000 \<and> card (fst ` source_entry ` set (input_sources i)) \<le> 1000 \<and>
    (\<forall>m \<in> set (input_sources i). source_ok (input_device i) m) \<and> sources_agree (input_sources i)"
proof
  assume "is_ok (resolve_device i)"
  then obtain out where "resolve_device i = Inr out" by (auto simp: is_ok_conv)
  note r = resolve_device_Inr [OF this]
  show "length (input_sources i) \<le> 3000 \<and> card (fst ` source_entry ` set (input_sources i)) \<le> 1000 \<and>
    (\<forall>m \<in> set (input_sources i). source_ok (input_device i) m) \<and> sources_agree (input_sources i)"
    by (intro conjI r)
next
  assume a: "length (input_sources i) \<le> 3000 \<and> card (fst ` source_entry ` set (input_sources i)) \<le> 1000 \<and>
    (\<forall>m \<in> set (input_sources i). source_ok (input_device i) m) \<and> sources_agree (input_sources i)"
  then obtain seen where seen: "fold_res (check_source (input_device i)) (input_sources i) [] = Inr seen"
    using checked_sources by blast
  with a length_seen [OF seen] show "is_ok (resolve_device i)"
    by (auto simp: resolve_device_def saturating_total input_sources_def Let_def)
qed

theorem scope_accepts_iff_witness:
  "is_ok (resolve_device (sample_input MUnknown)) \<and> sources_agree (input_sources (sample_input MUnknown)) \<and>
    \<not> is_ok (resolve_device (sample_input MFailed))"
proof -
  have "\<not> source_ok (input_device (sample_input MFailed)) (sample_source ''europe'' MFailed)"
    by (simp add: source_ok_def sample_source_def)
  moreover have "sample_source ''europe'' MFailed \<in> set (input_sources (sample_input MFailed))"
    by (simp add: input_sources_def input_limits_def sample_input_def)
  ultimately show ?thesis
    using scope_accepts_iff [of "sample_input MUnknown"] scope_accepts_iff [of "sample_input MFailed"]
    by (simp add: sample_resolve) blast
qed

text \<open>Confirmed scope decisions are stable: confirming some of the unknown answers of an input never
  turns a retained device into an absent one or a definitely absent device into a retained one.\<close>

theorem scope_decision_stable:
  assumes "resolve_device i = Inr out" "resolve_device i' = Inr out'" "input_refines i i'"
  shows "outcome_decision out = None \<or> outcome_decision out' = outcome_decision out"
  using scope_decision_refines [OF assms(3)]
  unfolding resolve_device_decision [OF assms(1)] resolve_device_decision [OF assms(2)]
  by (auto simp: sd.refines_def)

theorem scope_decision_stable_witness:
  "input_refines (sample_input MUnknown) (sample_input (MKnown True)) \<and>
    (outcome_decision (sample_outcome MUnknown) = None \<or>
     outcome_decision (sample_outcome (MKnown True)) = outcome_decision (sample_outcome MUnknown))"
proof -
  have "input_refines (sample_input MUnknown) (sample_input (MKnown True))"
    by (auto simp: input_refines_def sample_input_def sample_source_def membership_refines_def)
  with scope_decision_stable [OF sample_resolve(2) sample_resolve(1) this] show ?thesis by blast
qed

text \<open>Explanations are exact and canonical: the reported targets, limitations and exclusions of the
  device are the strictly sorted lists of exactly the sources that confirm it.\<close>

theorem scope_explanation_exact:
  assumes "resolve_device i = Inr (Some r)"
  shows "member_object r = input_device i \<and>
    bs_wf (member_targets r) \<and> bs_wf (member_limitations r) \<and> bs_wf (member_exclusions r) \<and>
    set (member_targets r) = {membership_source m |m. m \<in> set (input_targets i) \<and> membership_contains m = MKnown True} \<and>
    set (member_limitations r) = {membership_source m |m. m \<in> set (input_limits i) \<and> membership_contains m = MKnown True} \<and>
    set (member_exclusions r) = {membership_source m |m. m \<in> set (input_exclusions i) \<and> membership_contains m = MKnown True}"
proof -
  have "member_object r = input_device i" "member_targets r = matching (input_targets i)"
    "member_limitations r = matching (input_limits i)" "member_exclusions r = matching (input_exclusions i)"
    using resolve_device_outcome [OF assms] by (auto simp: Let_def explanation_def split: if_splits)
  then show ?thesis by (simp add: set_matching) (simp add: matching_def)
qed

theorem scope_explanation_exact_witness:
  "bs_wf (member_targets (the (sample_outcome (MKnown True)))) \<and> length (member_targets (the (sample_outcome (MKnown True)))) = 1"
  using scope_explanation_exact [of "sample_input (MKnown True)" "the (sample_outcome (MKnown True))"]
  by (simp add: sample_resolve) (simp add: sample_outcome_def)

text \<open>The order and repetition of the sources do not matter: two accepted inputs of a device with the
  same sets of targets, limitations and exclusions have the same outcome, explanation included.\<close>

theorem scope_resolution_canonical:
  assumes "resolve_device i = Inr out" "resolve_device i' = Inr out'"
    and "input_device i = input_device i'" "set (input_targets i) = set (input_targets i')"
    and "map_option set (input_limitations i) = map_option set (input_limitations i')"
    and "set (input_exclusions i) = set (input_exclusions i')"
  shows "out = out'"
proof -
  have l: "set (input_limits i) = set (input_limits i')" "input_limitations i = None \<longleftrightarrow> input_limitations i' = None"
    using assms(5) by (cases "input_limitations i"; cases "input_limitations i'"; simp add: input_limits_def)+
  have "matching (input_targets i) = matching (input_targets i')" "matching (input_limits i) = matching (input_limits i')"
    "matching (input_exclusions i) = matching (input_exclusions i')"
    "has_unknown (input_limits i) = has_unknown (input_limits i')"
    "has_unknown (input_exclusions i) = has_unknown (input_exclusions i')"
    by (intro matching_set has_unknown_set assms(4,6) l(1))+
  with l(2) show ?thesis
    unfolding resolve_device_outcome [OF assms(1)] resolve_device_outcome [OF assms(2)]
    by (simp add: assms(3) sources3_set [OF assms(4)] sources3_set [OF assms(6)] uncertain_reasons_def Let_def)
qed

theorem scope_resolution_canonical_witness:
  "\<exists>out. resolve_device ((sample_input MUnknown)\<lparr>input_targets := rev (input_targets (sample_input MUnknown))\<rparr>) = Inr out \<and>
    out = sample_outcome MUnknown"
proof -
  have r: "resolve_device ((sample_input MUnknown)\<lparr>input_targets := rev (input_targets (sample_input MUnknown))\<rparr>) =
      Inr (sample_outcome MUnknown)"
    by (simp add: scope_eval scope_sample_defs)
  show ?thesis using r scope_resolution_canonical [OF r sample_resolve(2)] by simp
qed

end
