(* ===== verification/Release_Encoding.thy ===== *)
theory Release_Encoding
  imports Mdm_Prelude
begin

text \<open>
  Bytes and the canonical encoding that \<^verbatim>\<open>crates/software-release\<close> hashes (\<^verbatim>\<open>identity.rs\<close>): fixed-width
  big-endian numbers, tenant octets and digests, and length-prefixed byte strings. SHA-256 belongs
  to another crate and is a parameter of the definitions that hash; the encoder is modelled as the
  list of bytes fed to it, because the hash of successive updates is the hash of their
  concatenation.

  The locale \<open>self_delimiting\<close> is the contract of one encoder: the encoded value can be read back
  from the front of any continuation. Concatenations of such encoders are again such encoders,
  which is why the domain-separated encodings of whole requests are injective.
\<close>

type_synonym byte = "8 word"
type_synonym u64 = "64 word"

section \<open>Big-endian octets\<close>

definition be_bytes :: "nat \<Rightarrow> 'a::len word \<Rightarrow> byte list" where
  "be_bytes n w = map (\<lambda>i. ucast (drop_bit (8 * (n - 1 - i)) w)) [0..<n]"

definition of_be_bytes :: "byte list \<Rightarrow> 'a::len word" where
  "of_be_bytes bs = foldl (\<lambda>acc b. or (push_bit 8 acc) (ucast b)) 0 bs"

lemma length_be_bytes [simp]: "length (be_bytes n w) = n"
  by (simp add: be_bytes_def)

lemma bit_be_bytes:
  assumes "i < n" "k < 8"
  shows "bit (be_bytes n w ! i) k \<longleftrightarrow> bit w (8 * (n - 1 - i) + k)"
  using assms by (simp add: be_bytes_def bit_ucast_iff bit_drop_bit_eq ac_simps)

lemma be_bytes_inject:
  fixes v w :: "'a::len word"
  assumes "LENGTH('a) = 8 * n" "be_bytes n v = be_bytes n w"
  shows "v = w"
proof (rule bit_word_eqI)
  fix j assume "j < LENGTH('a)"
  then have j: "j < 8 * n" using assms(1) by simp
  define i where "i = n - 1 - j div 8"
  have i: "i < n" "n - 1 - i = j div 8" using j by (auto simp: i_def)
  have "bit v (8 * (n - 1 - i) + j mod 8) = bit w (8 * (n - 1 - i) + j mod 8)"
    using bit_be_bytes [OF i(1), of "j mod 8" v] bit_be_bytes [OF i(1), of "j mod 8" w] assms(2) by simp
  then show "bit v j = bit w j" unfolding i(2) by simp
qed

lemma be_bytes_u64_inject [simp]: "be_bytes 8 (v :: u64) = be_bytes 8 w \<longleftrightarrow> v = w"
  using be_bytes_inject [of 8 v w] by auto

lemma be_bytes_tenant_inject [simp]: "be_bytes 16 (v :: tenant_id) = be_bytes 16 w \<longleftrightarrow> v = w"
  using be_bytes_inject [of 16 v w] by auto

text \<open>A SHA-256 value: 32 octets as a 256-bit value; the derived order of the octet array is its
  unsigned order.\<close>

type_synonym digest = "256 word"

lemma be_bytes_digest_inject [simp]: "be_bytes 32 (v :: digest) = be_bytes 32 w \<longleftrightarrow> v = w"
  using be_bytes_inject [of 32 v w] by auto

text \<open>The bytes of a string.\<close>

definition str_bytes :: "string \<Rightarrow> byte list" where
  "str_bytes s = map of_char s"

lemma of_char_byte_inject: "(of_char c :: byte) = of_char d \<longleftrightarrow> c = d"
proof
  assume "(of_char c :: byte) = of_char d"
  then have "unat (of_char c :: byte) = unat (of_char d :: byte)" by simp
  moreover have "unat (of_char x :: byte) = of_char x" for x :: char
  proof -
    have "unat (of_nat (of_char x) :: byte) = of_char x"
      using nat_of_char_less_256 [of x] by (simp add: unat_of_nat)
    then show ?thesis by (simp only: of_nat_of_char)
  qed
  ultimately show "c = d" by simp
qed simp

lemma str_bytes_inject [simp]: "str_bytes s = str_bytes t \<longleftrightarrow> s = t"
  unfolding str_bytes_def by (rule inj_map_eq_map) (auto simp: inj_def of_char_byte_inject)

lemma length_str_bytes [simp]: "length (str_bytes s) = length s"
  by (simp add: str_bytes_def)

section \<open>The encoder\<close>

definition enc_number :: "u64 \<Rightarrow> byte list" where
  "enc_number n = be_bytes 8 n"

definition enc_bytes :: "byte list \<Rightarrow> byte list" where
  "enc_bytes bs = enc_number (of_nat (length bs)) @ bs"

definition enc_object :: "tenant_id \<Rightarrow> string \<Rightarrow> byte list" where
  "enc_object tenant v = be_bytes 16 tenant @ enc_bytes (str_bytes v)"

definition enc_digest :: "digest \<Rightarrow> byte list" where
  "enc_digest d = be_bytes 32 d"

definition enc_time :: "timepoint \<Rightarrow> byte list" where
  "enc_time t = enc_number (word_of_int t)"

section \<open>Self-delimiting encodings\<close>

locale self_delimiting =
  fixes enc :: "'a \<Rightarrow> byte list" and valid :: "'a \<Rightarrow> bool"
  assumes delimited: "valid x \<Longrightarrow> valid y \<Longrightarrow> enc x @ r = enc y @ s \<Longrightarrow> x = y \<and> r = s"
begin

lemma enc_inject: "valid x \<Longrightarrow> valid y \<Longrightarrow> enc x = enc y \<longleftrightarrow> x = y"
  using delimited [of x y "[]" "[]"] by auto

lemma delimited_iff: "valid x \<Longrightarrow> valid y \<Longrightarrow> enc x @ r = enc y @ s \<longleftrightarrow> x = y \<and> r = s"
  using delimited by blast

text \<open>A sequence whose length is known can be read back.\<close>

lemma sequence_delimited:
  "list_all valid xs \<Longrightarrow> list_all valid ys \<Longrightarrow> length xs = length ys \<Longrightarrow>
    concat (map enc xs) @ r = concat (map enc ys) @ s \<longleftrightarrow> xs = ys \<and> r = s"
proof (induction xs arbitrary: ys)
  case Nil
  then show ?case by simp
next
  case (Cons x xs)
  then obtain y ys' where "ys = y # ys'" by (cases ys) auto
  with Cons show ?case by (auto simp: delimited_iff)
qed

end

lemma fixed_width_delimited:
  assumes "\<And>x. length (enc x) = n" "\<And>x y. valid x \<Longrightarrow> valid y \<Longrightarrow> enc x = enc y \<Longrightarrow> x = y"
  shows "self_delimiting enc valid"
  by unfold_locales (use assms in \<open>auto simp: append_eq_append_conv\<close>)

interpretation enc_number: self_delimiting enc_number "\<lambda>_. True"
  by (rule fixed_width_delimited [where n = 8]) (simp_all add: enc_number_def)

interpretation enc_digest: self_delimiting enc_digest "\<lambda>_. True"
  by (rule fixed_width_delimited [where n = 32]) (simp_all add: enc_digest_def)

lemma word_of_int_i64_inject:
  assumes "in_i64 a" "in_i64 b" "(word_of_int a :: u64) = word_of_int b"
  shows "a = b"
proof -
  from assms(3) have "signed_take_bit 63 a = signed_take_bit 63 b"
    by (simp add: word_of_int_eq_iff signed_take_bit_eq_iff_take_bit_eq)
  with assms(1,2) show ?thesis
    by (simp add: in_i64_def i64_min_def i64_max_def signed_take_bit_int_eq_self)
qed

interpretation enc_time: self_delimiting enc_time in_i64
  by (rule fixed_width_delimited [where n = 8])
    (simp_all add: enc_time_def enc_number_def word_of_int_i64_inject)

definition u64_sized :: "'a list \<Rightarrow> bool" where
  "u64_sized xs \<longleftrightarrow> length xs < 2 ^ 64"

lemma of_nat_u64_inject:
  assumes "m < 2 ^ 64" "n < 2 ^ 64" shows "(of_nat m :: u64) = of_nat n \<longleftrightarrow> m = n"
proof -
  have "take_bit 64 m = m" "take_bit 64 n = n" using assms by (simp_all only: take_bit_nat_eq_self)
  then show ?thesis by (simp add: word_of_nat_eq_iff)
qed

interpretation enc_bytes: self_delimiting enc_bytes u64_sized
proof
  fix x y r s :: "byte list"
  assume v: "u64_sized x" "u64_sized y" and eq: "enc_bytes x @ r = enc_bytes y @ s"
  then have "of_nat (length x) = (of_nat (length y) :: u64) \<and> x @ r = y @ s"
    by (simp add: enc_bytes_def enc_number.delimited_iff)
  moreover from this v have "length x = length y" by (simp add: u64_sized_def of_nat_u64_inject)
  ultimately show "x = y \<and> r = s" by (simp add: append_eq_append_conv)
qed

lemma enc_object_delimited:
  "u64_sized v \<Longrightarrow> u64_sized w \<Longrightarrow>
    enc_object t v @ r = enc_object u w @ s \<longleftrightarrow> t = u \<and> v = w \<and> r = s"
  by (auto simp: enc_object_def append_eq_append_conv enc_bytes.delimited_iff u64_sized_def)

end
