(* ===== verification/Ordered_Lists.thy ===== *)
theory Ordered_Lists
  imports Main "HOL-Library.Multiset"
begin

text \<open>
  Stable sorting by a strict order, as \<^verbatim>\<open>slice::sort_by\<close> and the \<^verbatim>\<open>ORDER BY\<close> of the database do it, and what
  clients rely on: the result is a permutation, it is sorted where the order is total, and then it is
  the only sorted arrangement.
\<close>

fun insert_by :: "('r \<Rightarrow> 'r \<Rightarrow> bool) \<Rightarrow> 'r \<Rightarrow> 'r list \<Rightarrow> 'r list" where
  "insert_by lt x [] = [x]"
| "insert_by lt x (y # ys) = (if lt y x then y # insert_by lt x ys else x # y # ys)"

definition order_by :: "('r \<Rightarrow> 'r \<Rightarrow> bool) \<Rightarrow> 'r list \<Rightarrow> 'r list" where
  "order_by lt xs = foldr (insert_by lt) xs []"

lemma mset_insert_by [simp]: "mset (insert_by lt x ys) = add_mset x (mset ys)"
  by (induction ys) auto

lemma mset_order_by [simp]: "mset (order_by lt xs) = mset xs"
  by (induction xs) (simp_all add: order_by_def)

lemma set_order_by [simp]: "set (order_by lt xs) = set xs"
  by (metis mset_order_by set_mset_mset)

lemma set_insert_by [simp]: "set (insert_by lt x ys) = insert x (set ys)"
  by (metis list.simps(15) mset.simps(2) mset_insert_by set_mset_mset)

lemma insert_by_sorted:
  assumes "transp lt" "sorted_wrt lt ys" "\<forall>y \<in> set ys. lt x y \<or> lt y x"
  shows "sorted_wrt lt (insert_by lt x ys)"
  using assms(2,3)
proof (induction ys)
  case Nil
  then show ?case by simp
next
  case (Cons y ys)
  show ?case
  proof (cases "lt y x")
    case True
    with Cons show ?thesis by simp
  next
    case False
    with Cons.prems have "lt x y" by simp
    with Cons.prems have "\<forall>z \<in> set (y # ys). lt x z" using transpD [OF assms(1)] by auto
    with Cons.prems False show ?thesis by simp
  qed
qed

lemma order_by_sorted:
  assumes "transp lt" "\<forall>x \<in> set xs. \<forall>y \<in> set xs. x \<noteq> y \<longrightarrow> lt x y \<or> lt y x" "distinct xs"
  shows "sorted_wrt lt (order_by lt xs)"
  using assms(2,3)
proof (induction xs)
  case Nil
  then show ?case by (simp add: order_by_def)
next
  case (Cons x xs)
  have "sorted_wrt lt (insert_by lt x (order_by lt xs))"
  proof (rule insert_by_sorted [OF assms(1)])
    show "\<forall>y \<in> set (order_by lt xs). lt x y \<or> lt y x" using Cons.prems by auto
  qed (use Cons in simp)
  then show ?case by (simp add: order_by_def)
qed

lemma sorted_unique:
  assumes "transp lt" "irreflp lt"
  shows "sorted_wrt lt xs \<Longrightarrow> sorted_wrt lt ys \<Longrightarrow> set xs = set ys \<Longrightarrow> xs = ys"
proof (induction xs arbitrary: ys)
  case Nil
  then show ?case by simp
next
  case (Cons x xs)
  have irr: "\<not> lt a a" for a using assms(2) by (simp add: irreflp_def)
  obtain y ys' where ys: "ys = y # ys'" using Cons.prems(3) by (cases ys) auto
  have "x = y"
  proof (rule ccontr)
    assume "x \<noteq> y"
    then have "lt x y" "lt y x" using Cons.prems ys by auto
    then show False using transpD [OF assms(1)] irr by blast
  qed
  moreover have "x \<notin> set xs" "y \<notin> set ys'" using Cons.prems ys irr by auto
  ultimately have "set xs = set ys'" using Cons.prems(3) ys by auto
  with Cons ys \<open>x = y\<close> show ?case by simp
qed

text \<open>In a strictly ordered list the elements after one are its rest.\<close>

lemma filter_after:
  assumes "transp lt" "irreflp lt" "sorted_wrt lt xs" "k < length xs"
  shows "filter (lt (xs ! k)) xs = drop (Suc k) xs"
proof -
  have irr: "\<not> lt a a" for a using assms(2) by (simp add: irreflp_def)
  have "filter (lt (xs ! k)) (take (Suc k) xs) = []"
  proof -
    have "\<not> lt (xs ! k) (xs ! i)" if "i \<le> k" for i
      using assms(3,4) that irr transpD [OF assms(1)] by (metis le_neq_implies_less sorted_wrt_nth_less)
    then show ?thesis using assms(4) by (auto simp: filter_empty_conv in_set_conv_nth)
  qed
  moreover have "filter (lt (xs ! k)) (drop (Suc k) xs) = drop (Suc k) xs"
    using assms(3,4) by (auto simp: filter_id_conv in_set_conv_nth sorted_wrt_iff_nth_less)
  ultimately show ?thesis by (metis append_take_drop_id filter_append append_Nil)
qed

lemma order_by_filter:
  assumes "transp lt" "irreflp lt" "\<forall>x \<in> set xs. \<forall>y \<in> set xs. x \<noteq> y \<longrightarrow> lt x y \<or> lt y x" "distinct xs"
  shows "order_by lt (filter P xs) = filter P (order_by lt xs)"
proof (rule sorted_unique [OF assms(1,2)])
  show "sorted_wrt lt (order_by lt (filter P xs))" by (rule order_by_sorted) (use assms in auto)
  show "sorted_wrt lt (filter P (order_by lt xs))" using order_by_sorted [OF assms(1,3,4)] by (rule sorted_wrt_filter)
qed simp

text \<open>Two arrangements of the same distinct elements are sorted alike.\<close>

lemma order_by_perm:
  assumes "transp lt" "irreflp lt" "\<forall>x \<in> set xs. \<forall>y \<in> set xs. x \<noteq> y \<longrightarrow> lt x y \<or> lt y x" "distinct xs" "mset xs = mset ys"
  shows "order_by lt xs = order_by lt ys"
proof (rule sorted_unique [OF assms(1,2)])
  have ys: "set ys = set xs" "distinct ys"
    using assms(4,5) by (metis set_mset_mset, metis distinct_count_atmost_1 set_mset_mset)
  show "sorted_wrt lt (order_by lt xs)" by (rule order_by_sorted) (use assms in auto)
  show "sorted_wrt lt (order_by lt ys)" by (rule order_by_sorted) (use assms ys in auto)
  show "set (order_by lt xs) = set (order_by lt ys)" using ys by simp
qed

lemma order_by_sorted_id: "sorted_wrt lt xs \<Longrightarrow> transp lt \<Longrightarrow> irreflp lt \<Longrightarrow> order_by lt xs = xs"
proof (induction xs)
  case Nil
  then show ?case by (simp add: order_by_def)
next
  case (Cons x xs)
  then have "order_by lt xs = xs" by simp
  moreover have "insert_by lt x xs = x # xs"
    using Cons.prems by (cases xs) (auto simp: irreflp_def dest: transpD)
  ultimately show ?case by (simp add: order_by_def)
qed

section \<open>Sorting by a key\<close>

text \<open>\<^verbatim>\<open>windows(2).any\<close> of equal neighbours.\<close>

fun adjacent_equal :: "('a \<Rightarrow> 'b) \<Rightarrow> 'a list \<Rightarrow> bool" where
  "adjacent_equal f (x # y # zs) \<longleftrightarrow> f x = f y \<or> adjacent_equal f (y # zs)"
| "adjacent_equal f _ \<longleftrightarrow> False"

lemma adjacent_equal_sorted:
  fixes f :: "'a \<Rightarrow> 'b::linorder"
  assumes "sorted (map f xs)"
  shows "adjacent_equal f xs \<longleftrightarrow> \<not> distinct (map f xs)"
  using assms
proof (induction f xs rule: adjacent_equal.induct)
  case (1 f x y zs)
  have "f x \<notin> f ` set zs" if "f x \<noteq> f y"
  proof
    assume "f x \<in> f ` set zs"
    then have "f y \<le> f x" using 1(2) by auto
    moreover have "f x \<le> f y" using 1(2) by simp
    ultimately show False using that by simp
  qed
  with 1 show ?case by auto
qed simp_all

lemma adjacent_equal_sort_key [simp]:
  fixes f :: "'a \<Rightarrow> 'b::linorder"
  shows "adjacent_equal f (sort_key f xs) \<longleftrightarrow> \<not> distinct (map f xs)"
proof -
  have "mset (map f (sort_key f xs)) = mset (map f xs)" by simp
  then have "distinct (map f (sort_key f xs)) \<longleftrightarrow> distinct (map f xs)"
    by (metis mset_eq_imp_distinct_iff)
  then show ?thesis by (subst adjacent_equal_sorted) simp_all
qed

text \<open>Sorting by a key that is distinct gives one order for all arrangements.\<close>

lemma sort_key_canonical:
  fixes f :: "'a \<Rightarrow> 'b::linorder"
  assumes "mset xs = mset ys" "distinct (map f xs)"
  shows "sort_key f xs = sort_key f ys"
proof (rule sort_key_inj_key_eq)
  show "mset xs = mset (sort_key f ys)" using assms(1) by simp
  show "inj_on f (set xs)" using assms(2) by (simp add: distinct_map)
qed simp

end
