(* ===== verification/Release_Model.thy ===== *)
theory Release_Model
  imports Release_Encoding Ordered_Lists
begin

text \<open>
  Identities, content and bindings of a software publication, \<^verbatim>\<open>crates/software-release\<close>
  (\<^verbatim>\<open>lib.rs\<close>, \<^verbatim>\<open>identity.rs\<close>, \<^verbatim>\<open>model.rs\<close>). Revisions, attempts and counts are 64-bit words.
\<close>

datatype release_error =
    RInvalidIdentity | RInvalidDigest | RInvalidArtifacts | RTenantMismatch | RIdentityMismatch
  | RRevisionConflict u64 u64 | ROverflow | RRequestConflict | RInvalidSnapshot | RInvalidTime
  | RInvalidTransition | RPublicationClosed | RReconciliationRequired | RResultConflict

section \<open>Identities\<close>

definition name_byte :: "char \<Rightarrow> bool" where
  "name_byte b \<longleftrightarrow> is_ascii_alphanumeric b \<or> b \<in> set ''._-/+@''"

definition bad_segment :: "string \<Rightarrow> bool" where
  "bad_segment s \<longleftrightarrow> s = [] \<or> s = ''.'' \<or> s = ''..''"

definition validate_name :: "string \<Rightarrow> (release_error, unit) result" where
  "validate_name v =
    (if v = [] \<or> length v > 128 \<or> \<not> list_all name_byte v
        \<or> list_ex bad_segment (str_split CHR ''/'' v)
     then Inl (Fail RInvalidIdentity) else Inr ())"

definition checked_name :: "string \<Rightarrow> (release_error, string) result" where
  "checked_name v = bind_res (validate_name v) (\<lambda>_. Inr v)"

datatype publication_key = PublicationKey (pkey_tenant: tenant_id) (pkey_value: string)
datatype target_id = TargetId (target_tenant: tenant_id) (target_value: string)
datatype release_request_id = RequestId (rid_tenant: tenant_id) (rid_value: string)
datatype actor_id = ActorId (actor_tenant: tenant_id) (actor_value: string)

definition publication_key_new :: "tenant_id \<Rightarrow> string \<Rightarrow> (release_error, publication_key) result" where
  "publication_key_new tenant v = bind_res (checked_name v) (\<lambda>n. Inr (PublicationKey tenant n))"

definition target_id_new :: "tenant_id \<Rightarrow> string \<Rightarrow> (release_error, target_id) result" where
  "target_id_new tenant v = bind_res (checked_name v) (\<lambda>n. Inr (TargetId tenant n))"

definition request_id_new :: "tenant_id \<Rightarrow> string \<Rightarrow> (release_error, release_request_id) result" where
  "request_id_new tenant v = bind_res (checked_name v) (\<lambda>n. Inr (RequestId tenant n))"

definition actor_id_new :: "tenant_id \<Rightarrow> string \<Rightarrow> (release_error, actor_id) result" where
  "actor_id_new tenant v =
    (if v = [] \<or> length v > 2048 \<or> has_control v
     then Inl (Fail RInvalidIdentity) else Inr (ActorId tenant v))"

text \<open>A publication identity is the digest of its canonical encoding.\<close>

datatype publication_id = PublicationId (publication_digest: digest)

text \<open>\<^verbatim>\<open>u8::from_str_radix(_, 16)\<close> of one hexadecimal character.\<close>

definition hex_digit :: "char \<Rightarrow> nat option" where
  "hex_digit c = (let n = of_char c in
     if 48 \<le> n \<and> n \<le> 57 then Some (n - 48)
     else if 97 \<le> n \<and> n \<le> 102 then Some (n - 87)
     else if 65 \<le> n \<and> n \<le> 70 then Some (n - 55) else None)"

fun hex_octets :: "string \<Rightarrow> byte list option" where
  "hex_octets [] = Some []"
| "hex_octets (a # b # s) = (case (hex_digit a, hex_digit b, hex_octets s) of
     (Some h, Some l, Some bs) \<Rightarrow> Some (of_nat (16 * h + l) # bs) | _ \<Rightarrow> None)"
| "hex_octets [_] = None"

definition digest_parse :: "string \<Rightarrow> (release_error, digest) result" where
  "digest_parse v =
    (if length v \<noteq> 64 \<or> \<not> list_all (\<lambda>b. hex_digit b \<noteq> None) v then Inl (Fail RInvalidDigest)
     else bind_res (ok_or RInvalidDigest (hex_octets v)) (\<lambda>bs. Inr (of_be_bytes bs)))"

section \<open>Content\<close>

record software_identity =
  sw_source :: string
  sw_package :: string
  sw_version :: string
  sw_platform :: string

definition sw_values :: "software_identity \<Rightarrow> string list" where
  "sw_values f = [sw_source f, sw_package f, sw_version f, sw_platform f]"

definition software_identity_new :: "software_identity \<Rightarrow> (release_error, software_identity) result" where
  "software_identity_new f =
    bind_res (fold_res (\<lambda>v _. validate_name v) (sw_values f) ()) (\<lambda>_. Inr f)"

datatype artifact = Artifact (artifact_key: string) (artifact_digest: digest)

definition artifact_new :: "string \<Rightarrow> digest \<Rightarrow> (release_error, artifact) result" where
  "artifact_new key d = bind_res (checked_name key) (\<lambda>k. Inr (Artifact k d))"

datatype variant_content =
  VariantContent (variant_architecture: string) (variant_variant: string) (variant_artifacts: "artifact list")

definition variant_content_new ::
  "string \<Rightarrow> string \<Rightarrow> artifact list \<Rightarrow> (release_error, variant_content) result" where
  "variant_content_new architecture variant artifacts =
    bind_res (checked_name architecture) (\<lambda>a. bind_res (checked_name variant) (\<lambda>v.
      if artifacts = [] \<or> length artifacts > 256 then Inl (Fail RInvalidArtifacts)
      else let sorted_artifacts = sort_key artifact_key artifacts in
        if adjacent_equal artifact_key sorted_artifacts then Inl (Fail RInvalidArtifacts)
        else Inr (VariantContent a v sorted_artifacts)))"

record content =
  content_software :: software_identity
  content_description :: digest
  content_source_snapshot :: digest
  content_manifest :: digest
  content_variants :: "variant_content list"

definition variant_key :: "variant_content \<Rightarrow> string \<times> string" where
  "variant_key v = (variant_architecture v, variant_variant v)"

definition note_artifact :: "artifact \<Rightarrow> (string, digest) btree_map \<Rightarrow> (release_error, (string, digest) btree_map) result" where
  "note_artifact a seen =
    (let (seen', old) = bm_put (artifact_key a) (artifact_digest a) seen in
     case old of None \<Rightarrow> Inr seen'
     | Some d \<Rightarrow> if d \<noteq> artifact_digest a then Inl (Fail RInvalidArtifacts) else Inr seen')"

definition content_new ::
  "software_identity \<Rightarrow> digest \<Rightarrow> digest \<Rightarrow> digest \<Rightarrow> variant_content list \<Rightarrow> (release_error, content) result" where
  "content_new software description source_snapshot manifest variants =
    (if variants = [] \<or> length variants > 64 \<or> sum_list (map (\<lambda>v. length (variant_artifacts v)) variants) > 256
     then Inl (Fail RInvalidArtifacts)
     else let vs = sort_key variant_key variants in
       if adjacent_equal variant_key vs then Inl (Fail RInvalidArtifacts)
       else bind_res (fold_res note_artifact (concat (map variant_artifacts vs)) []) (\<lambda>_.
         Inr \<lparr>content_software = software, content_description = description,
           content_source_snapshot = source_snapshot, content_manifest = manifest, content_variants = vs\<rparr>))"

section \<open>Canonical encodings of content and binding\<close>

definition enc_artifact :: "artifact \<Rightarrow> byte list" where
  "enc_artifact a = enc_bytes (str_bytes (artifact_key a)) @ enc_digest (artifact_digest a)"

definition enc_variant :: "variant_content \<Rightarrow> byte list" where
  "enc_variant v = enc_bytes (str_bytes (variant_architecture v)) @ enc_bytes (str_bytes (variant_variant v))
     @ enc_number (of_nat (length (variant_artifacts v))) @ concat (map enc_artifact (variant_artifacts v))"

definition content_encoding :: "content \<Rightarrow> byte list" where
  "content_encoding c = enc_bytes (str_bytes ''rss-mdm-software-release/content/v1'')
     @ concat (map (\<lambda>p. enc_bytes (str_bytes p)) (sw_values (content_software c)))
     @ enc_digest (content_description c) @ enc_digest (content_source_snapshot c) @ enc_digest (content_manifest c)
     @ enc_number (of_nat (length (content_variants c))) @ concat (map enc_variant (content_variants c))"

definition content_digest :: "(byte list \<Rightarrow> digest) \<Rightarrow> content \<Rightarrow> digest" where
  "content_digest sha c = sha (content_encoding c)"

record evidence =
  evidence_actor :: actor_id
  evidence_digest :: digest
  evidence_at :: timepoint

record publication_binding =
  binding_publication :: publication_key
  binding_content :: digest
  binding_target :: target_id
  binding_target_digest :: digest
  binding_evidence :: evidence
  binding_lifecycle :: digest
  binding_actor :: actor_id
  binding_at :: timepoint

definition publication_encoding :: "publication_binding \<Rightarrow> byte list" where
  "publication_encoding b = enc_bytes (str_bytes ''rss-mdm-software-release/publication/v1'')
     @ enc_object (pkey_tenant (binding_publication b)) (pkey_value (binding_publication b))
     @ enc_digest (binding_content b)
     @ enc_object (target_tenant (binding_target b)) (target_value (binding_target b))
     @ enc_digest (binding_target_digest b)"

definition binding_publication_id :: "(byte list \<Rightarrow> digest) \<Rightarrow> publication_binding \<Rightarrow> publication_id" where
  "binding_publication_id sha b = PublicationId (sha (publication_encoding b))"

datatype publication_result = RUnknown evidence | NotApplied evidence | Applied evidence

fun result_evidence :: "publication_result \<Rightarrow> evidence" where
  "result_evidence (RUnknown e) = e"
| "result_evidence (NotApplied e) = e"
| "result_evidence (Applied e) = e"

datatype publication_outcome = Pending | Reported publication_result

record attempt =
  attempt_binding :: publication_binding
  attempt_attempt :: u64
  attempt_requested_at :: timepoint
  attempt_outcome :: publication_outcome

definition attempt_id :: "(byte list \<Rightarrow> digest) \<Rightarrow> attempt \<Rightarrow> publication_id" where
  "attempt_id sha a = binding_publication_id sha (attempt_binding a)"

definition enc_evidence :: "evidence \<Rightarrow> byte list" where
  "enc_evidence e = enc_object (actor_tenant (evidence_actor e)) (actor_value (evidence_actor e))
     @ enc_digest (evidence_digest e) @ enc_time (evidence_at e)"

section \<open>Lemmas on construction\<close>

lemma validate_name_Inr:
  "validate_name v = Inr u \<longleftrightarrow> v \<noteq> [] \<and> length v \<le> 128 \<and> list_all name_byte v \<and>
    (\<forall>s \<in> set (str_split CHR ''/'' v). \<not> bad_segment s)"
  by (auto simp: validate_name_def list_ex_iff)

lemma checked_name_Inr [simp]: "checked_name v = Inr n \<longleftrightarrow> n = v \<and> validate_name v = Inr ()"
  unfolding checked_name_def by auto

lemma note_artifact_Inr:
  "note_artifact a seen = Inr seen' \<longleftrightarrow>
    seen' = fst (bm_put (artifact_key a) (artifact_digest a) seen) \<and>
    (\<forall>d. bm_get seen (artifact_key a) = Some d \<longrightarrow> d = artifact_digest a)"
  by (auto simp: note_artifact_def bm_put_def Let_def split: option.splits if_splits)

definition artifact_entry :: "artifact \<Rightarrow> string \<times> digest" where
  "artifact_entry a = (artifact_key a, artifact_digest a)"

lemma fold_note_artifact:
  "bm_wf seen \<Longrightarrow> fold_res note_artifact as seen = Inr seen' \<longleftrightarrow>
    bm.put_all (\<lambda>w v. w \<noteq> v) (map artifact_entry as) seen = Some seen'"
proof (induction as arbitrary: seen)
  case Nil
  then show ?case by auto
next
  case (Cons a as)
  have "bm_wf (fst (bm_put (artifact_key a) (artifact_digest a) seen))"
    by (rule bm.put_invar) (rule Cons.prems)
  from Cons.IH [OF this] show ?case using Cons.prems
    by (auto simp: note_artifact_Inr artifact_entry_def bm.put_all_Cons simp del: bm.put_all.simps(2)
        split: option.splits if_splits)
qed

definition artifacts_agree :: "artifact set \<Rightarrow> bool" where
  "artifacts_agree A \<longleftrightarrow> (\<forall>a \<in> A. \<forall>b \<in> A. artifact_key a = artifact_key b \<longrightarrow> artifact_digest a = artifact_digest b)"

lemma noted_artifacts: "is_ok (fold_res note_artifact as []) \<longleftrightarrow> artifacts_agree (set as)"
proof -
  have "(\<exists>seen. bm.put_all (\<lambda>w v. w \<noteq> v) (map artifact_entry as) [] = Some seen) \<longleftrightarrow> artifacts_agree (set as)"
    using bm.put_all_agree [of "[]" "map artifact_entry as"]
    by (auto simp: artifacts_agree_def artifact_entry_def case_prod_beta)
  then show ?thesis by (auto simp: fold_note_artifact is_ok_conv)
qed

definition variants_acceptable :: "variant_content list \<Rightarrow> bool" where
  "variants_acceptable vs \<longleftrightarrow> vs \<noteq> [] \<and> length vs \<le> 64 \<and>
    sum_list (map (\<lambda>v. length (variant_artifacts v)) vs) \<le> 256 \<and>
    distinct (map variant_key vs) \<and> artifacts_agree (\<Union>v \<in> set vs. set (variant_artifacts v))"

lemma content_new_eq:
  "content_new sw d s m vs = (if variants_acceptable vs
    then Inr \<lparr>content_software = sw, content_description = d, content_source_snapshot = s,
      content_manifest = m, content_variants = sort_key variant_key vs\<rparr>
    else Inl (Fail RInvalidArtifacts))"
proof -
  have "set (concat (map variant_artifacts (sort_key variant_key vs))) = (\<Union>v \<in> set vs. set (variant_artifacts v))"
    by simp
  note ok = noted_artifacts [of "concat (map variant_artifacts (sort_key variant_key vs))", unfolded this]
  have err: "fold_res note_artifact as seen = Inl e \<Longrightarrow> e = Fail RInvalidArtifacts" for as seen e
    by (induction as arbitrary: seen)
      (auto simp: bind_res_Inl_conv note_artifact_def bm_put_def split: option.splits if_splits)
  show ?thesis
    using ok by (cases "fold_res note_artifact (concat (map variant_artifacts (sort_key variant_key vs))) []")
      (auto simp: content_new_def variants_acceptable_def Let_def dest: err)
qed

end
