(* ===== verification/Release_Transition.thy ===== *)
theory Release_Transition
  imports Release_Model
begin

text \<open>
  The publication aggregate and its lifecycle, \<^verbatim>\<open>crates/software-release\<close> (\<^verbatim>\<open>transition.rs\<close>,
  \<^verbatim>\<open>fingerprint.rs\<close>). A publication is its snapshot; \<open>transition\<close> is the whole handler, with the
  replay of a receipt, the guards, the three operations and the final check of the new snapshot.
\<close>

datatype operation =
    Retry publication_id u64
  | Record publication_id u64 publication_result
  | Withdraw

record request =
  request_id :: release_request_id
  request_actor :: actor_id
  request_expected_revision :: u64
  request_as_of :: timepoint
  request_operation :: operation

record receipt =
  receipt_publication :: publication_key
  receipt_request :: release_request_id
  receipt_fingerprint :: digest
  receipt_before_revision :: u64
  receipt_revision :: u64
  receipt_at :: timepoint

datatype release_decision = Updated | Publish attempt | Reconcile publication_id u64

record publication =
  pub_id :: publication_key
  pub_revision :: u64
  pub_at :: timepoint
  pub_content :: content
  pub_withdrawn :: bool
  pub_attempt :: attempt

datatype release_transition = TApplied publication receipt release_decision | Replayed receipt

section \<open>The fingerprint of a request\<close>

fun result_tag :: "publication_result \<Rightarrow> u64" where
  "result_tag (RUnknown _) = 0"
| "result_tag (NotApplied _) = 1"
| "result_tag (Applied _) = 2"

fun enc_operation :: "operation \<Rightarrow> byte list" where
  "enc_operation (Retry p n) = enc_number 0 @ enc_digest (publication_digest p) @ enc_number n"
| "enc_operation (Record p n r) = enc_number 1 @ enc_digest (publication_digest p) @ enc_number n
     @ enc_number (result_tag r) @ enc_evidence (result_evidence r)"
| "enc_operation Withdraw = enc_number 2"

definition request_encoding :: "publication_key \<Rightarrow> request \<Rightarrow> byte list" where
  "request_encoding p r = enc_bytes (str_bytes ''rss-mdm-software-release/request/v1'')
     @ enc_object (pkey_tenant p) (pkey_value p)
     @ enc_object (rid_tenant (request_id r)) (rid_value (request_id r))
     @ enc_object (actor_tenant (request_actor r)) (actor_value (request_actor r))
     @ enc_number (request_expected_revision r) @ enc_time (request_as_of r)
     @ enc_operation (request_operation r)"

definition request_fingerprint :: "(byte list \<Rightarrow> digest) \<Rightarrow> publication_key \<Rightarrow> request \<Rightarrow> digest" where
  "request_fingerprint sha p r = sha (request_encoding p r)"

section \<open>Checks of the aggregate\<close>

text \<open>\<^verbatim>\<open>checked_add(1)\<close>.\<close>

definition checked_succ :: "u64 \<Rightarrow> u64 option" where
  "checked_succ n = (if n = - 1 then None else Some (n + 1))"

fun outcome_evidence :: "publication_outcome \<Rightarrow> evidence option" where
  "outcome_evidence Pending = None"
| "outcome_evidence (Reported r) = Some (result_evidence r)"

definition check_tenant :: "publication \<Rightarrow> tenant_id \<Rightarrow> (release_error, unit) result" where
  "check_tenant p tenant = ensure (tenant = pkey_tenant (pub_id p)) RTenantMismatch"

definition check_evidence :: "publication \<Rightarrow> evidence \<Rightarrow> timepoint \<Rightarrow> (release_error, unit) result" where
  "check_evidence p e at =
    bind_res (check_tenant p (actor_tenant (evidence_actor e))) (\<lambda>_. ensure (\<not> evidence_at e > at) RInvalidTime)"

definition check_snapshot :: "(byte list \<Rightarrow> digest) \<Rightarrow> publication \<Rightarrow> (release_error, unit) result" where
  "check_snapshot sha s =
    (let p = pub_attempt s; b = attempt_binding p in
     bind_res (check_tenant s (target_tenant (binding_target b))) (\<lambda>_.
     bind_res (check_tenant s (actor_tenant (binding_actor b))) (\<lambda>_.
     bind_res (check_evidence s (binding_evidence b) (binding_at b)) (\<lambda>_.
     if binding_publication b \<noteq> pub_id s
        \<or> target_value (binding_target b) \<noteq> sw_source (content_software (pub_content s))
        \<or> binding_target_digest b \<noteq> content_source_snapshot (pub_content s)
        \<or> binding_content b \<noteq> content_digest sha (pub_content s)
        \<or> binding_target_digest b = 0
     then Inl (Fail RIdentityMismatch)
     else if attempt_attempt p = 0 \<or> binding_at b > attempt_requested_at p \<or> attempt_requested_at p > pub_at s
     then Inl (Fail RInvalidSnapshot)
     else if pub_revision s = 0 \<and> (pub_withdrawn s \<or> attempt_attempt p \<noteq> 1 \<or> pub_at s \<noteq> binding_at b
            \<or> attempt_outcome p \<noteq> Pending)
     then Inl (Fail RInvalidSnapshot)
     else (case outcome_evidence (attempt_outcome p) of
         None \<Rightarrow> Inr ()
       | Some e \<Rightarrow> bind_res (check_evidence s e (pub_at s)) (\<lambda>_.
           if evidence_at e < attempt_requested_at p then Inl (Fail RInvalidTime) else Inr ()))))))"

definition publication_restore :: "(byte list \<Rightarrow> digest) \<Rightarrow> publication \<Rightarrow> (release_error, publication) result" where
  "publication_restore sha s = bind_res (check_snapshot sha s) (\<lambda>_. Inr s)"

definition publication_new :: "(byte list \<Rightarrow> digest) \<Rightarrow> content \<Rightarrow> publication_binding \<Rightarrow> (release_error, publication) result" where
  "publication_new sha c b = publication_restore sha
     \<lparr>pub_id = binding_publication b, pub_revision = 0, pub_at = binding_at b, pub_content = c,
      pub_withdrawn = False,
      pub_attempt = \<lparr>attempt_binding = b, attempt_attempt = 1, attempt_requested_at = binding_at b,
        attempt_outcome = Pending\<rparr>\<rparr>"

section \<open>Transitions\<close>

text \<open>The current attempt, addressed by its effect identity and number.\<close>

definition current_attempt :: "(byte list \<Rightarrow> digest) \<Rightarrow> publication \<Rightarrow> publication_id \<Rightarrow> u64 \<Rightarrow> (release_error, attempt) result" where
  "current_attempt sha s pid n =
    (let p = pub_attempt s in
     if attempt_id sha p \<noteq> pid \<or> attempt_attempt p \<noteq> n then Inl (Fail RIdentityMismatch) else Inr p)"

fun apply_operation ::
  "(byte list \<Rightarrow> digest) \<Rightarrow> publication \<Rightarrow> timepoint \<Rightarrow> operation \<Rightarrow> (release_error, publication \<times> release_decision) result" where
  "apply_operation sha s as_of Withdraw = Inr (s\<lparr>pub_withdrawn := True\<rparr>, Updated)"
| "apply_operation sha s as_of (Retry pid n) =
    (if pub_withdrawn s then Inl (Fail RPublicationClosed)
     else bind_res (current_attempt sha s pid n) (\<lambda>p.
       case attempt_outcome p of
         Reported (NotApplied _) \<Rightarrow>
           bind_res (ok_or ROverflow (checked_succ (attempt_attempt p))) (\<lambda>k.
             let p' = p\<lparr>attempt_attempt := k, attempt_requested_at := as_of, attempt_outcome := Pending\<rparr> in
             Inr (s\<lparr>pub_attempt := p'\<rparr>, Publish p'))
       | _ \<Rightarrow> Inl (Fail RReconciliationRequired)))"
| "apply_operation sha s as_of (Record pid n outcome) =
    bind_res (check_evidence s (result_evidence outcome) as_of) (\<lambda>_.
    bind_res (current_attempt sha s pid n) (\<lambda>p.
      let at = evidence_at (result_evidence outcome) in
      if at < attempt_requested_at p
         \<or> (case outcome_evidence (attempt_outcome p) of None \<Rightarrow> False | Some e \<Rightarrow> at < evidence_at e)
      then Inl (Fail RInvalidTime)
      else bind_res
        (case attempt_outcome p of
           Pending \<Rightarrow> Inr (p\<lparr>attempt_outcome := Reported outcome\<rparr>)
         | Reported (RUnknown _) \<Rightarrow> Inr (p\<lparr>attempt_outcome := Reported outcome\<rparr>)
         | Reported old \<Rightarrow> if old = outcome then Inr p else Inl (Fail RResultConflict)) (\<lambda>p'.
        Inr (s\<lparr>pub_attempt := p'\<rparr>,
          (case outcome of RUnknown _ \<Rightarrow> Reconcile pid n | _ \<Rightarrow> Updated)))))"

definition replay :: "publication \<Rightarrow> request \<Rightarrow> digest \<Rightarrow> receipt \<Rightarrow> (release_error, release_transition) result" where
  "replay s req fingerprint r =
    (if receipt_publication r \<noteq> pub_id s \<or> receipt_request r \<noteq> request_id req
        \<or> receipt_fingerprint r \<noteq> fingerprint
     then Inl (Fail RRequestConflict)
     else if receipt_before_revision r \<noteq> request_expected_revision req
        \<or> checked_succ (receipt_before_revision r) \<noteq> Some (receipt_revision r)
        \<or> receipt_revision r > pub_revision s
        \<or> receipt_at r \<noteq> request_as_of req
        \<or> receipt_at r > pub_at s
     then Inl (Fail RInvalidSnapshot)
     else Inr (Replayed r))"

definition transition ::
  "(byte list \<Rightarrow> digest) \<Rightarrow> publication \<Rightarrow> request \<Rightarrow> receipt option \<Rightarrow> (release_error, release_transition) result" where
  "transition sha s req previous =
    bind_res (check_tenant s (rid_tenant (request_id req))) (\<lambda>_.
    bind_res (check_tenant s (actor_tenant (request_actor req))) (\<lambda>_.
    let fingerprint = request_fingerprint sha (pub_id s) req in
    case previous of
      Some r \<Rightarrow> replay s req fingerprint r
    | None \<Rightarrow>
        if request_expected_revision req \<noteq> pub_revision s
        then Inl (Fail (RRevisionConflict (request_expected_revision req) (pub_revision s)))
        else if request_as_of req < pub_at s then Inl (Fail RInvalidTime)
        else bind_res (apply_operation sha s (request_as_of req) (request_operation req)) (\<lambda>(next, d).
          bind_res (ok_or ROverflow (checked_succ (pub_revision next))) (\<lambda>revision.
          let next' = next\<lparr>pub_revision := revision, pub_at := request_as_of req\<rparr> in
          bind_res (check_snapshot sha next') (\<lambda>_.
          Inr (TApplied next'
            \<lparr>receipt_publication = pub_id s, receipt_request = request_id req,
             receipt_fingerprint = fingerprint, receipt_before_revision = pub_revision s,
             receipt_revision = revision, receipt_at = request_as_of req\<rparr> d))))))"

end
