(* ===== verification/Release_Lifecycle.thy ===== *)
theory Release_Lifecycle
  imports Release_Transition
begin

text \<open>
  The lifecycle of a publication as a state machine: what a valid publication is, when an
  operation is enabled and what it does, the step relation that \<open>transition\<close> induces, and runs.
\<close>

section \<open>Valid publications\<close>

text \<open>The part of the snapshot that no operation touches: the binding names this publication, its
  target and its content, in one tenant.\<close>

definition binding_ok :: "(byte list \<Rightarrow> digest) \<Rightarrow> publication_key \<Rightarrow> content \<Rightarrow> publication_binding \<Rightarrow> bool" where
  "binding_ok sha key c b \<longleftrightarrow>
    target_tenant (binding_target b) = pkey_tenant key \<and>
    actor_tenant (binding_actor b) = pkey_tenant key \<and>
    actor_tenant (evidence_actor (binding_evidence b)) = pkey_tenant key \<and>
    evidence_at (binding_evidence b) \<le> binding_at b \<and>
    binding_publication b = key \<and> target_value (binding_target b) = sw_source (content_software c) \<and>
    binding_target_digest b = content_source_snapshot c \<and> binding_content b = content_digest sha c \<and>
    binding_target_digest b \<noteq> 0"

definition evidence_ok :: "publication \<Rightarrow> evidence \<Rightarrow> bool" where
  "evidence_ok s e \<longleftrightarrow> actor_tenant (evidence_actor e) = pkey_tenant (pub_id s) \<and>
    evidence_at e \<le> pub_at s \<and> attempt_requested_at (pub_attempt s) \<le> evidence_at e"

definition publication_valid :: "(byte list \<Rightarrow> digest) \<Rightarrow> publication \<Rightarrow> bool" where
  "publication_valid sha s \<longleftrightarrow>
    binding_ok sha (pub_id s) (pub_content s) (attempt_binding (pub_attempt s)) \<and>
    attempt_attempt (pub_attempt s) \<noteq> 0 \<and>
    binding_at (attempt_binding (pub_attempt s)) \<le> attempt_requested_at (pub_attempt s) \<and>
    attempt_requested_at (pub_attempt s) \<le> pub_at s \<and>
    (pub_revision s = 0 \<longrightarrow> \<not> pub_withdrawn s \<and> attempt_attempt (pub_attempt s) = 1 \<and>
      pub_at s = binding_at (attempt_binding (pub_attempt s)) \<and> attempt_outcome (pub_attempt s) = Pending) \<and>
    (\<forall>e. outcome_evidence (attempt_outcome (pub_attempt s)) = Some e \<longrightarrow> evidence_ok s e)"

lemma check_tenant_Inr [simp]: "check_tenant s t = Inr u \<longleftrightarrow> t = pkey_tenant (pub_id s)"
  by (simp add: check_tenant_def)

lemma check_evidence_Inr [simp]:
  "check_evidence s e at = Inr u \<longleftrightarrow>
    actor_tenant (evidence_actor e) = pkey_tenant (pub_id s) \<and> evidence_at e \<le> at"
  by (auto simp: check_evidence_def)

lemma check_snapshot_Inr [simp]: "check_snapshot sha s = Inr u \<longleftrightarrow> publication_valid sha s"
  by (simp add: check_snapshot_def publication_valid_def binding_ok_def evidence_ok_def Let_def
      split: option.splits)

section \<open>Operations\<close>

definition settled :: "publication_outcome \<Rightarrow> publication_result \<Rightarrow> bool" where
  "settled old new \<longleftrightarrow> (case old of Pending \<Rightarrow> True | Reported (RUnknown _) \<Rightarrow> True | Reported r \<Rightarrow> r = new)"

fun enabled :: "(byte list \<Rightarrow> digest) \<Rightarrow> publication \<Rightarrow> timepoint \<Rightarrow> operation \<Rightarrow> bool" where
  "enabled sha s as_of Withdraw \<longleftrightarrow> True"
| "enabled sha s as_of (Retry pid n) \<longleftrightarrow> \<not> pub_withdrawn s \<and>
    attempt_id sha (pub_attempt s) = pid \<and> attempt_attempt (pub_attempt s) = n \<and> n \<noteq> - 1 \<and>
    (\<exists>e. attempt_outcome (pub_attempt s) = Reported (NotApplied e))"
| "enabled sha s as_of (Record pid n r) \<longleftrightarrow>
    attempt_id sha (pub_attempt s) = pid \<and> attempt_attempt (pub_attempt s) = n \<and>
    actor_tenant (evidence_actor (result_evidence r)) = pkey_tenant (pub_id s) \<and>
    evidence_at (result_evidence r) \<le> as_of \<and>
    attempt_requested_at (pub_attempt s) \<le> evidence_at (result_evidence r) \<and>
    (\<forall>e. outcome_evidence (attempt_outcome (pub_attempt s)) = Some e \<longrightarrow>
      evidence_at e \<le> evidence_at (result_evidence r)) \<and>
    settled (attempt_outcome (pub_attempt s)) r"

fun effect :: "publication \<Rightarrow> timepoint \<Rightarrow> operation \<Rightarrow> publication" where
  "effect s as_of Withdraw = s\<lparr>pub_withdrawn := True\<rparr>"
| "effect s as_of (Retry pid n) = s\<lparr>pub_attempt := (pub_attempt s)\<lparr>attempt_attempt := n + 1,
    attempt_requested_at := as_of, attempt_outcome := Pending\<rparr>\<rparr>"
| "effect s as_of (Record pid n r) = s\<lparr>pub_attempt := (pub_attempt s)\<lparr>attempt_outcome := Reported r\<rparr>\<rparr>"

fun work :: "publication \<Rightarrow> timepoint \<Rightarrow> operation \<Rightarrow> release_decision" where
  "work s as_of Withdraw = Updated"
| "work s as_of (Retry pid n) = Publish (pub_attempt (effect s as_of (Retry pid n)))"
| "work s as_of (Record pid n r) = (case r of RUnknown _ \<Rightarrow> Reconcile pid n | _ \<Rightarrow> Updated)"

lemma current_attempt_Inr [simp]:
  "current_attempt sha s pid n = Inr p \<longleftrightarrow>
    p = pub_attempt s \<and> attempt_id sha p = pid \<and> attempt_attempt p = n"
  by (auto simp: current_attempt_def Let_def)

lemma checked_succ_Some [simp]: "checked_succ n = Some k \<longleftrightarrow> n \<noteq> - 1 \<and> k = n + 1"
  by (auto simp: checked_succ_def)

lemma apply_operation_Inr:
  "apply_operation sha s as_of op = Inr (s', d) \<longleftrightarrow>
    enabled sha s as_of op \<and> s' = effect s as_of op \<and> d = work s as_of op"
proof (cases op)
  case (Record pid n r)
  have same: "(pub_attempt s)\<lparr>attempt_outcome := Reported r\<rparr> = pub_attempt s"
    if "attempt_outcome (pub_attempt s) = Reported r"
    using that by (cases "pub_attempt s") simp
  show ?thesis
    using same unfolding Record
    by (auto simp: settled_def Let_def split: publication_outcome.splits publication_result.splits option.splits if_splits)
qed (auto simp: Let_def split: publication_outcome.splits publication_result.splits)

lemma u64_succ: "(n :: u64) \<noteq> - 1 \<Longrightarrow> unat (n + 1) = Suc (unat n)"
  by (metis add.commute add_eq_0_iff2 unatSuc)

lemma u64_succ_nonzero: "(n :: u64) \<noteq> - 1 \<Longrightarrow> n + 1 \<noteq> 0"
  by (metis add_eq_0_iff2)

text \<open>A valid publication stays valid under every enabled operation, so the final check of the
  handler never rejects anything its guards let through.\<close>

lemma effect_valid:
  assumes "publication_valid sha s" "enabled sha s as_of op" "pub_at s \<le> as_of" "pub_revision s \<noteq> - 1"
  shows "publication_valid sha ((effect s as_of op)\<lparr>pub_revision := pub_revision s + 1, pub_at := as_of\<rparr>)"
proof (cases op)
  case Withdraw
  with assms show ?thesis
    by (auto simp: publication_valid_def evidence_ok_def u64_succ_nonzero)
next
  case (Retry pid n)
  with assms show ?thesis
    by (auto simp: publication_valid_def evidence_ok_def u64_succ_nonzero)
next
  case (Record pid n r)
  with assms show ?thesis
    by (auto simp: publication_valid_def evidence_ok_def u64_succ_nonzero)
qed

lemma effect_frame [simp]:
  "pub_id (effect s as_of op) = pub_id s" "pub_content (effect s as_of op) = pub_content s"
  "pub_revision (effect s as_of op) = pub_revision s"
  "attempt_binding (pub_attempt (effect s as_of op)) = attempt_binding (pub_attempt s)"
  by (cases op; simp)+

section \<open>Steps and runs\<close>

definition request_receipt :: "(byte list \<Rightarrow> digest) \<Rightarrow> publication \<Rightarrow> request \<Rightarrow> receipt" where
  "request_receipt sha s req = \<lparr>receipt_publication = pub_id s, receipt_request = request_id req,
     receipt_fingerprint = request_fingerprint sha (pub_id s) req, receipt_before_revision = pub_revision s,
     receipt_revision = pub_revision s + 1, receipt_at = request_as_of req\<rparr>"

definition request_tenants :: "publication \<Rightarrow> request \<Rightarrow> bool" where
  "request_tenants s req \<longleftrightarrow> rid_tenant (request_id req) = pkey_tenant (pub_id s) \<and>
    actor_tenant (request_actor req) = pkey_tenant (pub_id s)"

definition request_enabled :: "(byte list \<Rightarrow> digest) \<Rightarrow> publication \<Rightarrow> request \<Rightarrow> bool" where
  "request_enabled sha s req \<longleftrightarrow> request_tenants s req \<and> request_expected_revision req = pub_revision s \<and>
    pub_at s \<le> request_as_of req \<and> pub_revision s \<noteq> - 1 \<and>
    enabled sha s (request_as_of req) (request_operation req)"

definition next_publication :: "publication \<Rightarrow> request \<Rightarrow> publication" where
  "next_publication s req = (effect s (request_as_of req) (request_operation req))
     \<lparr>pub_revision := pub_revision s + 1, pub_at := request_as_of req\<rparr>"

lemma transition_None_Inr:
  assumes "publication_valid sha s"
  shows "transition sha s req None = Inr t \<longleftrightarrow> request_enabled sha s req \<and>
    t = TApplied (next_publication s req) (request_receipt sha s req) (work s (request_as_of req) (request_operation req))"
  using effect_valid [OF assms]
  by (auto simp: transition_def request_enabled_def request_tenants_def next_publication_def request_receipt_def
      Let_def apply_operation_Inr)

lemma transition_no_panic: "no_panic (transition sha s req None)"
proof -
  have snap: "no_panic (check_snapshot sha p)" for p
    by (auto simp: check_snapshot_def check_tenant_def check_evidence_def Let_def
        intro!: no_panic_intros split: option.splits)
  have app: "no_panic (apply_operation sha p t op)" for p t op
    by (cases op) (auto simp: check_tenant_def check_evidence_def current_attempt_def Let_def
        intro!: no_panic_intros split: option.splits publication_outcome.splits publication_result.splits)
  show ?thesis using snap app
    by (auto simp: transition_def check_tenant_def Let_def intro!: no_panic_intros)
qed

text \<open>A persisted step: a fresh request that was applied, with the work it allows.\<close>

inductive release_step :: "(byte list \<Rightarrow> digest) \<Rightarrow> publication \<Rightarrow> release_decision \<Rightarrow> publication \<Rightarrow> bool" for sha where
  applied: "transition sha s req None = Inr (TApplied s' r d) \<Longrightarrow> release_step sha s d s'"

inductive release_run :: "(byte list \<Rightarrow> digest) \<Rightarrow> publication \<Rightarrow> release_decision list \<Rightarrow> publication \<Rightarrow> bool" for sha where
  start: "release_run sha s [] s"
| step: "release_run sha s ds s' \<Longrightarrow> release_step sha s' d s'' \<Longrightarrow> release_run sha s (ds @ [d]) s''"

inductive_cases release_stepE: "release_step sha s d s'"

lemma release_step_iff:
  "publication_valid sha s \<Longrightarrow> release_step sha s d s' \<longleftrightarrow>
    (\<exists>req. request_enabled sha s req \<and> s' = next_publication s req \<and>
      d = work s (request_as_of req) (request_operation req))"
  by (auto simp: release_step.simps transition_None_Inr)

lemma step_valid: "publication_valid sha s \<Longrightarrow> release_step sha s d s' \<Longrightarrow> publication_valid sha s'"
  by (auto simp: release_step_iff next_publication_def request_enabled_def intro: effect_valid)

text \<open>What a step leaves alone and what only grows.\<close>

lemma step_frame:
  assumes "publication_valid sha s" "release_step sha s d s'"
  shows "pub_id s' = pub_id s \<and> pub_content s' = pub_content s \<and>
    attempt_binding (pub_attempt s') = attempt_binding (pub_attempt s) \<and>
    unat (pub_revision s') = Suc (unat (pub_revision s)) \<and> pub_at s \<le> pub_at s' \<and>
    (pub_withdrawn s \<longrightarrow> pub_withdrawn s')"
proof -
  obtain req where req: "request_enabled sha s req" "s' = next_publication s req"
    using assms release_step_iff by blast
  then show ?thesis
    by (cases "request_operation req") (auto simp: next_publication_def request_enabled_def u64_succ)
qed

lemma run_invariant:
  assumes "release_run sha s ds s'" "publication_valid sha s" "P [] s"
    and "\<And>ds s' d s''. release_run sha s ds s' \<Longrightarrow> publication_valid sha s' \<Longrightarrow> P ds s' \<Longrightarrow>
      release_step sha s' d s'' \<Longrightarrow> P (ds @ [d]) s''"
  shows "publication_valid sha s' \<and> P ds s'"
  using assms by (induction rule: release_run.induct) (auto intro: step_valid)

end
