(* ===== verification/Release_Properties.thy ===== *)
theory Release_Properties
  imports Release_Lifecycle
begin

text \<open>
  What the publication lifecycle promises: exact acceptance of requests, invariants of every run,
  at most one fresh attempt per confirmed non-application, finality of an applied result,
  idempotent replay, and canonical, injective encodings of what is hashed.
\<close>

section \<open>Runs\<close>

lemma run_frame:
  assumes "publication_valid sha s" "release_run sha s ds s'"
  shows "publication_valid sha s' \<and> pub_id s' = pub_id s \<and> pub_content s' = pub_content s \<and>
    attempt_binding (pub_attempt s') = attempt_binding (pub_attempt s) \<and>
    unat (pub_revision s') = unat (pub_revision s) + length ds \<and> pub_at s \<le> pub_at s' \<and>
    (pub_withdrawn s \<longrightarrow> pub_withdrawn s')"
proof -
  have "publication_valid sha s' \<and> (pub_id s' = pub_id s \<and> pub_content s' = pub_content s \<and>
    attempt_binding (pub_attempt s') = attempt_binding (pub_attempt s) \<and>
    unat (pub_revision s') = unat (pub_revision s) + length ds \<and> pub_at s \<le> pub_at s' \<and>
    (pub_withdrawn s \<longrightarrow> pub_withdrawn s'))"
    by (rule run_invariant [OF assms(2,1)]) (force dest: step_frame)+
  then show ?thesis by blast
qed

text \<open>The attempts a run was allowed to execute against the source.\<close>

fun published :: "release_decision list \<Rightarrow> attempt list" where
  "published [] = []"
| "published (Publish p # ds) = p # published ds"
| "published (_ # ds) = published ds"

lemma published_append [simp]: "published (ds @ es) = published ds @ published es"
  by (induction ds rule: published.induct) auto

text \<open>A step publishes exactly when it replaces a confirmed non-applied attempt.\<close>

lemma step_attempt:
  assumes "publication_valid sha s" "release_step sha s d s'"
  shows "(published [d] = [] \<and> attempt_attempt (pub_attempt s') = attempt_attempt (pub_attempt s) \<and>
      attempt_requested_at (pub_attempt s') = attempt_requested_at (pub_attempt s)) \<or>
    (published [d] = [pub_attempt s'] \<and> \<not> pub_withdrawn s \<and>
      (\<exists>e. attempt_outcome (pub_attempt s) = Reported (NotApplied e)) \<and>
      attempt_outcome (pub_attempt s') = Pending \<and>
      unat (attempt_attempt (pub_attempt s')) = Suc (unat (attempt_attempt (pub_attempt s))))"
proof -
  obtain req where req: "request_enabled sha s req" "s' = next_publication s req"
    "d = work s (request_as_of req) (request_operation req)"
    using assms release_step_iff by blast
  then show ?thesis
    by (cases "request_operation req")
      (auto simp: next_publication_def request_enabled_def u64_succ split: publication_result.splits)
qed

lemma step_outcome_final:
  assumes "publication_valid sha s" "release_step sha s d s'" "attempt_outcome (pub_attempt s) = Reported (Applied e)"
  shows "pub_attempt s' = pub_attempt s \<and> published [d] = []"
proof -
  obtain req where req: "request_enabled sha s req" "s' = next_publication s req"
    "d = work s (request_as_of req) (request_operation req)"
    using assms(1,2) release_step_iff by blast
  have same: "(pub_attempt s)\<lparr>attempt_outcome := Reported (Applied e)\<rparr> = pub_attempt s"
    using assms(3) by (cases "pub_attempt s") simp
  from req assms(3) same show ?thesis
    by (cases "request_operation req")
      (auto simp: next_publication_def request_enabled_def settled_def split: publication_result.splits)
qed

lemma run_published:
  assumes "publication_valid sha s" "release_run sha s ds s'"
  shows "unat (attempt_attempt (pub_attempt s)) \<le> unat (attempt_attempt (pub_attempt s')) \<and>
    map (\<lambda>p. unat (attempt_attempt p)) (published ds) =
      [Suc (unat (attempt_attempt (pub_attempt s))) ..< Suc (unat (attempt_attempt (pub_attempt s')))] \<and>
    (\<forall>p \<in> set (published ds). attempt_binding p = attempt_binding (pub_attempt s) \<and> attempt_outcome p = Pending)"
proof -
  have "publication_valid sha s' \<and> (unat (attempt_attempt (pub_attempt s)) \<le> unat (attempt_attempt (pub_attempt s')) \<and>
    map (\<lambda>p. unat (attempt_attempt p)) (published ds) =
      [Suc (unat (attempt_attempt (pub_attempt s))) ..< Suc (unat (attempt_attempt (pub_attempt s')))] \<and>
    (\<forall>p \<in> set (published ds). attempt_binding p = attempt_binding (pub_attempt s) \<and> attempt_outcome p = Pending))"
    (is "_ \<and> ?P ds s'")
  proof (rule run_invariant [OF assms(2,1)])
    show "?P [] s" by simp
  next
    fix ds s' d s''
    assume run: "release_run sha s ds s'" and v: "publication_valid sha s'" and P: "?P ds s'"
      and st: "release_step sha s' d s''"
    have b: "attempt_binding (pub_attempt s'') = attempt_binding (pub_attempt s)"
      using step_frame [OF v st] run_frame [OF assms(1) run] by simp
    from step_attempt [OF v st] show "?P (ds @ [d]) s''"
    proof (elim disjE conjE)
      assume "published [d] = []" "attempt_attempt (pub_attempt s'') = attempt_attempt (pub_attempt s')"
      with P show ?thesis by simp
    next
      assume pub: "published [d] = [pub_attempt s'']" "attempt_outcome (pub_attempt s'') = Pending"
        and n: "unat (attempt_attempt (pub_attempt s'')) = Suc (unat (attempt_attempt (pub_attempt s')))"
      from P have le: "unat (attempt_attempt (pub_attempt s)) \<le> unat (attempt_attempt (pub_attempt s'))" by blast
      from P pub b le n show ?thesis by simp
    qed
  qed
  then show ?thesis by blast
qed

section \<open>Injective encodings\<close>

definition short :: "string \<Rightarrow> bool" where
  "short s \<longleftrightarrow> length s < 2 ^ 64"

lemma short_sized [simp]: "short s \<Longrightarrow> u64_sized s" "short s \<Longrightarrow> u64_sized (str_bytes s)"
  by (simp_all add: short_def u64_sized_def)

definition evidence_short :: "evidence \<Rightarrow> bool" where
  "evidence_short e \<longleftrightarrow> short (actor_value (evidence_actor e)) \<and> in_i64 (evidence_at e)"

fun operation_short :: "operation \<Rightarrow> bool" where
  "operation_short (Record _ _ r) \<longleftrightarrow> evidence_short (result_evidence r)"
| "operation_short _ \<longleftrightarrow> True"

text \<open>Every string a constructor accepts has at most 2048 bytes and every time is an i64, so the
  requests of the program satisfy this.\<close>

definition request_short :: "request \<Rightarrow> bool" where
  "request_short r \<longleftrightarrow> short (rid_value (request_id r)) \<and> short (actor_value (request_actor r)) \<and>
    in_i64 (request_as_of r) \<and> operation_short (request_operation r)"

lemmas enc_iffs = enc_number.delimited_iff [OF TrueI TrueI] enc_digest.delimited_iff [OF TrueI TrueI]
  enc_number.enc_inject [OF TrueI TrueI] enc_digest.enc_inject [OF TrueI TrueI]

lemma enc_number_only [simp]:
  "enc_number m @ bs = enc_number n \<longleftrightarrow> m = n \<and> bs = []" "enc_number n = enc_number m @ bs \<longleftrightarrow> m = n \<and> bs = []"
  using enc_iffs(1) [of m bs n "[]"] by auto

lemma enc_evidence_inject:
  assumes "evidence_short e" "evidence_short f" "enc_evidence e = enc_evidence f" shows "e = f"
  using assms
  by (cases e; cases f; cases "evidence_actor e"; cases "evidence_actor f")
    (auto simp: enc_evidence_def evidence_short_def enc_object_delimited enc_iffs enc_time.enc_inject)

lemma result_tag_inject:
  "result_tag r = result_tag q \<Longrightarrow> result_evidence r = result_evidence q \<Longrightarrow> r = q"
  by (cases r; cases q) auto

lemma enc_operation_inject:
  assumes "operation_short a" "operation_short b" "enc_operation a = enc_operation b" shows "a = b"
proof (cases a)
  case (Retry p n)
  with assms(3) show ?thesis by (cases b; cases p) (auto simp: enc_iffs intro: publication_id.expand)
next
  case (Record p n r)
  with assms show ?thesis
    by (cases b) (auto simp: enc_iffs intro!: publication_id.expand result_tag_inject enc_evidence_inject)
next
  case Withdraw
  with assms(3) show ?thesis by (cases b) (auto simp: enc_iffs)
qed

lemma request_encoding_inject:
  assumes "short (pkey_value p)" "short (pkey_value q)" "request_short r" "request_short r'"
    and "request_encoding p r = request_encoding q r'"
  shows "p = q \<and> r = r'"
proof -
  have d: "u64_sized (str_bytes ''rss-mdm-software-release/request/v1'')" by (simp add: u64_sized_def)
  have "pkey_tenant p = pkey_tenant q" "pkey_value p = pkey_value q"
    "rid_tenant (request_id r) = rid_tenant (request_id r')" "rid_value (request_id r) = rid_value (request_id r')"
    "actor_tenant (request_actor r) = actor_tenant (request_actor r')"
    "actor_value (request_actor r) = actor_value (request_actor r')"
    "request_expected_revision r = request_expected_revision r'" "request_as_of r = request_as_of r'"
    "enc_operation (request_operation r) = enc_operation (request_operation r')"
    using assms unfolding request_encoding_def request_short_def
    by (simp_all add: enc_bytes.delimited_iff [OF d d] enc_object_delimited enc_iffs enc_time.delimited_iff)
  moreover from this assms(3,4) have "request_operation r = request_operation r'"
    by (intro enc_operation_inject) (simp_all add: request_short_def)
  ultimately show ?thesis
    by (auto intro!: request.equality publication_key.expand release_request_id.expand actor_id.expand)
qed


definition artifact_short :: "artifact \<Rightarrow> bool" where
  "artifact_short a \<longleftrightarrow> short (artifact_key a)"

interpretation enc_artifact: self_delimiting enc_artifact artifact_short
  by unfold_locales
    (auto simp: enc_artifact_def artifact_short_def enc_bytes.delimited_iff enc_iffs intro: artifact.expand)

definition variant_short :: "variant_content \<Rightarrow> bool" where
  "variant_short v \<longleftrightarrow> short (variant_architecture v) \<and> short (variant_variant v) \<and>
    length (variant_artifacts v) < 2 ^ 64 \<and> list_all artifact_short (variant_artifacts v)"

interpretation enc_variant: self_delimiting enc_variant variant_short
proof
  fix x y r s
  assume v: "variant_short x" "variant_short y" and eq: "enc_variant x @ r = enc_variant y @ s"
  then have a: "variant_architecture x = variant_architecture y" "variant_variant x = variant_variant y"
    "(of_nat (length (variant_artifacts x)) :: u64) = of_nat (length (variant_artifacts y))"
    "concat (map enc_artifact (variant_artifacts x)) @ r = concat (map enc_artifact (variant_artifacts y)) @ s"
    by (simp_all add: enc_variant_def variant_short_def enc_bytes.delimited_iff enc_iffs)
  have "length (variant_artifacts x) = length (variant_artifacts y)"
    using a(3) v of_nat_u64_inject by (simp add: variant_short_def)
  with a(4) v have "variant_artifacts x = variant_artifacts y \<and> r = s"
    by (simp add: enc_artifact.sequence_delimited variant_short_def)
  with a(1,2) show "x = y \<and> r = s" by (auto intro: variant_content.expand)
qed

definition content_short :: "content \<Rightarrow> bool" where
  "content_short c \<longleftrightarrow> list_all short (sw_values (content_software c)) \<and>
    length (content_variants c) < 2 ^ 64 \<and> list_all variant_short (content_variants c)"

lemma software_identity_inject: "sw_values f = sw_values g \<Longrightarrow> f = (g :: software_identity)"
  by (cases f; cases g) (simp add: sw_values_def)

interpretation enc_str: self_delimiting "\<lambda>s. enc_bytes (str_bytes s)" short
  by unfold_locales (auto simp: enc_bytes.delimited_iff)

lemma content_encoding_inject:
  assumes "content_short c" "content_short c'" "content_encoding c = content_encoding c'"
  shows "c = c'"
proof -
  have d: "u64_sized (str_bytes ''rss-mdm-software-release/content/v1'')" by (simp add: u64_sized_def)
  have l: "length (sw_values (content_software c)) = length (sw_values (content_software c'))"
    by (simp add: sw_values_def)
  have a: "sw_values (content_software c) = sw_values (content_software c')"
    "content_description c = content_description c'" "content_source_snapshot c = content_source_snapshot c'"
    "content_manifest c = content_manifest c'"
    "(of_nat (length (content_variants c)) :: u64) = of_nat (length (content_variants c'))"
    "concat (map enc_variant (content_variants c)) @ [] = concat (map enc_variant (content_variants c')) @ []"
    using assms unfolding content_encoding_def content_short_def
    by (simp_all add: enc_bytes.delimited_iff [OF d d] enc_str.sequence_delimited [OF _ _ l] enc_iffs)
  have "length (content_variants c) = length (content_variants c')"
    using a(5) assms(1,2) of_nat_u64_inject by (simp add: content_short_def)
  then have "content_variants c = content_variants c'"
    using enc_variant.sequence_delimited [THEN iffD1, OF _ _ _ a(6)] assms(1,2) by (simp add: content_short_def)
  with a(1-4) show ?thesis by (auto intro!: content.equality software_identity_inject)
qed

section \<open>Samples\<close>

text \<open>A constant stands for the hash; nothing below depends on which function it is.\<close>

definition sample_sha :: "byte list \<Rightarrow> digest" where
  "sample_sha bs = 5"

definition sample_actor :: actor_id where
  "sample_actor = ActorId 1 ''op''"

definition sample_evidence :: "timepoint \<Rightarrow> evidence" where
  "sample_evidence t = \<lparr>evidence_actor = sample_actor, evidence_digest = 8, evidence_at = t\<rparr>"

definition sample_software :: software_identity where
  "sample_software = \<lparr>sw_source = ''repo'', sw_package = ''app'', sw_version = ''1.0'', sw_platform = ''macos''\<rparr>"

definition sample_variant :: "string \<Rightarrow> variant_content" where
  "sample_variant arch = VariantContent arch ''std'' [Artifact ''a.pkg'' 1, Artifact ''b.pkg'' 2]"

definition sample_content :: content where
  "sample_content = \<lparr>content_software = sample_software, content_description = 3, content_source_snapshot = 7,
     content_manifest = 4, content_variants = [sample_variant ''arm64'', sample_variant ''x86'']\<rparr>"

definition sample_binding :: publication_binding where
  "sample_binding = \<lparr>binding_publication = PublicationKey 1 ''rec'', binding_content = 5,
     binding_target = TargetId 1 ''repo'', binding_target_digest = 7, binding_evidence = sample_evidence 10,
     binding_lifecycle = 9, binding_actor = sample_actor, binding_at = 20\<rparr>"

definition sample_publication :: publication where
  "sample_publication = \<lparr>pub_id = PublicationKey 1 ''rec'', pub_revision = 0, pub_at = 20, pub_content = sample_content,
     pub_withdrawn = False, pub_attempt = \<lparr>attempt_binding = sample_binding, attempt_attempt = 1,
       attempt_requested_at = 20, attempt_outcome = Pending\<rparr>\<rparr>"

definition sample_request :: "u64 \<Rightarrow> timepoint \<Rightarrow> operation \<Rightarrow> request" where
  "sample_request revision t op = \<lparr>request_id = RequestId 1 ''r'', request_actor = sample_actor,
     request_expected_revision = revision, request_as_of = t, request_operation = op\<rparr>"

lemmas release_sample_defs = sample_sha_def sample_actor_def sample_evidence_def sample_software_def
  sample_variant_def sample_content_def sample_binding_def sample_publication_def sample_request_def

lemma sample_publication_valid: "publication_valid sample_sha sample_publication"
  by (simp add: publication_valid_def binding_ok_def content_digest_def release_sample_defs)

text \<open>A run: the first attempt is reported not applied, then retried, then applied.\<close>

definition sample_requests :: "request list" where
  "sample_requests = [sample_request 0 30 (Record (PublicationId 5) 1 (NotApplied (sample_evidence 25))),
    sample_request 1 40 (Retry (PublicationId 5) 1),
    sample_request 2 50 (Record (PublicationId 5) 2 (Applied (sample_evidence 45)))]"

definition sample_state :: "nat \<Rightarrow> publication" where
  "sample_state n = foldl next_publication sample_publication (take n sample_requests)"

definition sample_work :: "nat \<Rightarrow> release_decision" where
  "sample_work n = (let r = sample_requests ! n in work (sample_state n) (request_as_of r) (request_operation r))"

lemmas sample_run_defs = sample_requests_def sample_state_def sample_work_def request_enabled_def
  request_tenants_def next_publication_def attempt_id_def binding_publication_id_def settled_def

lemma sample_state_0 [simp]: "sample_state 0 = sample_publication"
  by (simp add: sample_state_def)

lemma sample_step:
  assumes "n < 3" "publication_valid sample_sha (sample_state n)"
  shows "release_step sample_sha (sample_state n) (sample_work n) (sample_state (Suc n))"
proof -
  have "n = 0 \<or> n = 1 \<or> n = 2" using assms(1) by auto
  moreover have "request_enabled sample_sha (sample_state 0) (sample_requests ! 0)"
    "request_enabled sample_sha (sample_state 1) (sample_requests ! 1)"
    "request_enabled sample_sha (sample_state 2) (sample_requests ! 2)"
    by (simp_all add: sample_run_defs release_sample_defs)
  ultimately have "request_enabled sample_sha (sample_state n) (sample_requests ! n)" by auto
  moreover have "sample_state (Suc n) = next_publication (sample_state n) (sample_requests ! n)"
  proof -
    have "length sample_requests = 3" by (simp add: sample_requests_def)
    then show ?thesis using assms(1) by (simp add: sample_state_def take_Suc_conv_app_nth)
  qed
  ultimately show ?thesis using release_step_iff [OF assms(2)] by (auto simp: sample_work_def Let_def)
qed

lemma sample_run: "n \<le> 3 \<Longrightarrow> release_run sample_sha sample_publication (map sample_work [0..<n]) (sample_state n) \<and>
    publication_valid sample_sha (sample_state n)"
proof (induction n)
  case 0
  then show ?case by (simp add: release_run.start sample_publication_valid)
next
  case (Suc n)
  then have "release_step sample_sha (sample_state n) (sample_work n) (sample_state (Suc n))"
    using sample_step by simp
  with Suc show ?case using step_valid by (auto intro: release_run.step)
qed


section \<open>Properties\<close>

text \<open>C2: On a valid publication a fresh request is applied exactly when its guards hold: the request
  and the actor are in the tenant, the expected revision is the current one, time does not go
  back, the revision can grow and the operation is enabled (a retry needs an open publication and
  a confirmed non-application of the current attempt; a record needs evidence of this tenant in
  time order that settles, or repeats, the current outcome). The new state is the effect of the
  operation; the final consistency check rejects nothing more.\<close>

theorem release_transition_exact:
  assumes "publication_valid sha s"
  shows "if request_enabled sha s req
    then transition sha s req None = Inr (TApplied (next_publication s req) (request_receipt sha s req)
      (work s (request_as_of req) (request_operation req)))
    else \<exists>e. transition sha s req None = Inl (Fail e)"
proof -
  have "\<exists>e. transition sha s req None = Inl (Fail e)" if "\<not> is_ok (transition sha s req None)"
    using that transition_no_panic [of sha s req]
    by (cases "transition sha s req None") (auto simp: no_panic_def intro: fault.exhaust)
  then show ?thesis using transition_None_Inr [OF assms, of req] by (auto simp: is_ok_conv)
qed

theorem release_transition_exact_witness:
  "is_ok (transition sample_sha sample_publication (sample_requests ! 0) None) \<and>
   \<not> is_ok (transition sample_sha sample_publication (sample_requests ! 1) None)"
proof -
  have "request_enabled sample_sha sample_publication (sample_requests ! 0)"
    "\<not> request_enabled sample_sha sample_publication (sample_requests ! 1)"
    by (simp_all add: sample_run_defs release_sample_defs)
  with release_transition_exact [OF sample_publication_valid, of "sample_requests ! 0"]
    release_transition_exact [OF sample_publication_valid, of "sample_requests ! 1"]
  show ?thesis by auto
qed





text \<open>A confirmed application is final: once the outcome is applied, no later request changes the
  attempt or its outcome, and none starts another attempt.\<close>

theorem release_applied_final:
  assumes "publication_valid sha s" "release_run sha s ds s'"
    and "attempt_outcome (pub_attempt s) = Reported (Applied e)"
  shows "pub_attempt s' = pub_attempt s \<and> published ds = []"
proof -
  have "publication_valid sha s' \<and> (pub_attempt s' = pub_attempt s \<and> published ds = [])"
    by (rule run_invariant [OF assms(2,1)]) (use assms(3) step_outcome_final in \<open>auto simp: assms(3)\<close>)
  then show ?thesis by blast
qed

theorem release_applied_final_witness:
  "\<exists>e. attempt_outcome (pub_attempt (sample_state 3)) = Reported (Applied e) \<and>
    (\<forall>ds s'. release_run sample_sha (sample_state 3) ds s' \<longrightarrow> pub_attempt s' = pub_attempt (sample_state 3))"
proof -
  have o: "attempt_outcome (pub_attempt (sample_state 3)) = Reported (Applied (sample_evidence 45))"
    by (simp add: sample_run_defs release_sample_defs)
  have "publication_valid sample_sha (sample_state 3)" using sample_run [of 3] by simp
  from release_applied_final [OF this _ o] o show ?thesis by blast
qed

text \<open>Withdrawal closes a publication: after it no run publishes another attempt and the attempt
  number stays, while reports about the current attempt can still be recorded.\<close>

theorem release_withdrawn_closed:
  assumes "publication_valid sha s" "release_run sha s ds s'" "pub_withdrawn s"
  shows "pub_withdrawn s' \<and> published ds = [] \<and>
    attempt_attempt (pub_attempt s') = attempt_attempt (pub_attempt s) \<and>
    attempt_requested_at (pub_attempt s') = attempt_requested_at (pub_attempt s)"
proof -
  have "publication_valid sha s' \<and> (pub_withdrawn s' \<and> published ds = [] \<and>
    attempt_attempt (pub_attempt s') = attempt_attempt (pub_attempt s) \<and>
    attempt_requested_at (pub_attempt s') = attempt_requested_at (pub_attempt s))"
  proof (rule run_invariant [OF assms(2,1)])
    fix ds s' d s''
    assume "publication_valid sha s'" "release_step sha s' d s''" and P: "pub_withdrawn s' \<and> published ds = [] \<and>
      attempt_attempt (pub_attempt s') = attempt_attempt (pub_attempt s) \<and>
      attempt_requested_at (pub_attempt s') = attempt_requested_at (pub_attempt s)"
    from step_frame [OF this(1,2)] step_attempt [OF this(1,2)] P
    show "pub_withdrawn s'' \<and> published (ds @ [d]) = [] \<and>
      attempt_attempt (pub_attempt s'') = attempt_attempt (pub_attempt s) \<and>
      attempt_requested_at (pub_attempt s'') = attempt_requested_at (pub_attempt s)" by auto
  qed (simp add: assms(3))
  then show ?thesis by blast
qed

theorem release_withdrawn_closed_witness:
  "\<exists>s. pub_withdrawn s \<and> publication_valid sample_sha s \<and>
    (\<forall>ds s'. release_run sample_sha s ds s' \<longrightarrow> published ds = [])"
proof -
  let ?r = "sample_request 0 30 Withdraw" and ?s = "next_publication sample_publication (sample_request 0 30 Withdraw)"
  have "request_enabled sample_sha sample_publication ?r"
    by (simp add: sample_run_defs release_sample_defs)
  then have v: "publication_valid sample_sha ?s"
    using release_step_iff [OF sample_publication_valid] step_valid [OF sample_publication_valid] by blast
  have w: "pub_withdrawn ?s" by (simp add: next_publication_def sample_request_def)
  from release_withdrawn_closed [OF v _ w] v w show ?thesis by blast
qed

text \<open>Replay is idempotent for ever: the receipt of an applied request, presented with the same
  request at any later state of the publication, is acknowledged as it was, without any change or
  executable decision.\<close>

theorem release_replay_idempotent:
  assumes "publication_valid sha s" "transition sha s req None = Inr (TApplied s1 r d)"
    and "release_run sha s1 ds s2"
  shows "transition sha s2 req (Some r) = Inr (Replayed r)"
proof -
  from assms(2) have en: "request_enabled sha s req" and s1: "s1 = next_publication s req" "r = request_receipt sha s req"
    using transition_None_Inr [OF assms(1)] by auto
  have "release_step sha s d s1" using assms(2) by (rule release_step.applied)
  note v1 = step_valid [OF assms(1) this] and f1 = step_frame [OF assms(1) this]
  note f2 = run_frame [OF v1 assms(3)]
  have "pub_revision s + 1 \<le> pub_revision s2"
    using f2 en by (simp add: word_le_nat_alt s1 next_publication_def request_enabled_def)
  moreover have "pub_at s1 = request_as_of req" by (simp add: s1 next_publication_def)
  ultimately show ?thesis using en f1 f2
    by (simp add: transition_def replay_def Let_def s1(2) request_receipt_def request_enabled_def request_tenants_def
        check_tenant_def checked_succ_def not_less)
qed

theorem release_replay_idempotent_witness:
  "transition sample_sha (sample_state 3) (sample_requests ! 0)
     (Some (request_receipt sample_sha sample_publication (sample_requests ! 0))) =
   Inr (Replayed (request_receipt sample_sha sample_publication (sample_requests ! 0)))"
proof -
  have en: "request_enabled sample_sha sample_publication (sample_requests ! 0)"
    by (simp add: sample_run_defs release_sample_defs)
  have s1: "next_publication sample_publication (sample_requests ! 0) = sample_state 1"
    by (simp add: sample_state_def sample_requests_def)
  have t: "transition sample_sha sample_publication (sample_requests ! 0) None =
      Inr (TApplied (sample_state 1) (request_receipt sample_sha sample_publication (sample_requests ! 0))
        (work sample_publication (request_as_of (sample_requests ! 0)) (request_operation (sample_requests ! 0))))"
    using transition_None_Inr [OF sample_publication_valid] en s1 by auto
  have "release_step sample_sha (sample_state 1) (sample_work 1) (sample_state 2)"
    "release_step sample_sha (sample_state 2) (sample_work 2) (sample_state 3)"
    using sample_step [of 1] sample_step [of 2] sample_run [of 1] sample_run [of 2]
    by (simp_all add: numeral_2_eq_2 numeral_3_eq_3)
  then have "release_run sample_sha (sample_state 1) (([] @ [sample_work 1]) @ [sample_work 2]) (sample_state 3)"
    by (blast intro: release_run.step release_run.start)
  from release_replay_idempotent [OF sample_publication_valid t this] show ?thesis .
qed

text \<open>C26: The fingerprint of a request binds all of it: the bytes that are hashed for two requests are
  equal only if the publication key and every field of the request are equal. So a receipt
  answers a different request only if the hash collides.\<close>

theorem release_request_encoding_injective:
  assumes "short (pkey_value p)" "short (pkey_value q)" "request_short r" "request_short r'"
    and "\<not> (p = q \<and> r = r')"
  shows "request_encoding p r \<noteq> request_encoding q r'"
  using request_encoding_inject [OF assms(1-4)] assms(5) by blast

theorem release_request_encoding_injective_witness:
  "request_encoding (PublicationKey 1 ''rec'') (sample_requests ! 0) \<noteq>
   request_encoding (PublicationKey 1 ''rec'') (sample_requests ! 1)"
proof (rule release_request_encoding_injective)
  show "short (pkey_value (PublicationKey 1 ''rec''))" by (simp add: short_def)
  show "request_short (sample_requests ! 0)" "request_short (sample_requests ! 1)"
    by (simp_all add: sample_requests_def request_short_def evidence_short_def short_def in_i64_def i64_min_def
        i64_max_def release_sample_defs)
qed (simp_all add: short_def sample_requests_def sample_request_def)

text \<open>Content is canonical: freezing any arrangement of the same variants gives the same outcome,
  accepted exactly for 1 to 64 variants with distinct architecture and variant names, at most 256
  artifacts and one digest per artifact key; and the bytes hashed for two contents are equal only
  for equal contents.\<close>

theorem release_content_canonical:
  assumes "mset vs = mset vs'"
  shows "content_new sw d s m vs = content_new sw d s m vs' \<and>
    (is_ok (content_new sw d s m vs) \<longleftrightarrow> variants_acceptable vs) \<and>
    (\<forall>c c'. content_short c \<and> content_short c' \<and> content_encoding c = content_encoding c' \<longrightarrow> c = c')"
proof -
  have set: "set vs = set vs'" and len: "length vs = length vs'"
    using assms by (auto dest: mset_eq_setD mset_eq_length)
  have key: "distinct (map variant_key vs) \<longleftrightarrow> distinct (map variant_key vs')"
    using assms by (metis mset_eq_imp_distinct_iff mset_map)
  have sum: "sum_list (map f vs) = sum_list (map f vs')" for f :: "variant_content \<Rightarrow> nat"
    using assms by (metis mset_map sum_mset_sum_list)
  have acc: "variants_acceptable vs \<longleftrightarrow> variants_acceptable vs'"
    using set len key sum by (auto simp: variants_acceptable_def)
  have "sort_key variant_key vs = sort_key variant_key vs'" if "variants_acceptable vs"
    by (rule sort_key_canonical [OF assms]) (use that in \<open>simp add: variants_acceptable_def\<close>)
  with acc show ?thesis using content_encoding_inject by (auto simp: content_new_eq)
qed

theorem release_content_canonical_witness:
  "content_new sample_software 3 7 4 [sample_variant ''x86'', sample_variant ''arm64''] = Inr sample_content"
proof -
  have "mset [sample_variant ''x86'', sample_variant ''arm64''] = mset [sample_variant ''arm64'', sample_variant ''x86'']"
    by (simp add: add_mset_commute)
  note p = release_content_canonical [OF this, of sample_software 3 7 4]
  have "variants_acceptable [sample_variant ''arm64'', sample_variant ''x86'']"
    by (simp add: variants_acceptable_def sample_variant_def variant_key_def artifacts_agree_def)
  then have "content_new sample_software 3 7 4 [sample_variant ''arm64'', sample_variant ''x86''] = Inr sample_content"
    by (simp add: content_new_eq) (simp add: sample_content_def sample_variant_def variant_key_def)
  with p show ?thesis by simp
qed

end
