(* ===== verification/Presentation.thy ===== *)
theory Presentation
  imports Mdm_Prelude
begin

text \<open>
  Bounded descriptive JSON, \<^verbatim>\<open>presentation.rs\<close> of \<^verbatim>\<open>crates/compliance\<close> and \<^verbatim>\<open>crates/policy\<close> (the two
  files are equal). A JSON object is the list of its entries in iteration order; a number is
  an integer (\<^verbatim>\<open>serde_json\<close> keeps the u64 and i64 ranges) or the text of a float. The length of the serialized form comes from \<^verbatim>\<open>serde_json\<close> and is a parameter, \<open>None\<close> for a
  serialization error.
\<close>

datatype json_number = JInt int | JFloat string

datatype json = JNull | JBool bool | JNumber json_number | JString string | JArray "json list"
  | JObject "(string \<times> json) list"

type_synonym json_map = "(string \<times> json) list"

definition presentation_key :: "string \<Rightarrow> bool" where
  "presentation_key k \<longleftrightarrow> k \<noteq> [] \<and> length k \<le> 256 \<and> \<not> has_control k"

text \<open>\<open>visit\<close> with its node counter passed through; \<^verbatim>\<open>all\<close> stops at the first failure.\<close>

fun visit :: "json \<Rightarrow> nat \<Rightarrow> nat \<Rightarrow> bool \<times> nat"
  and visit_entries :: "json_map \<Rightarrow> nat \<Rightarrow> nat \<Rightarrow> bool \<times> nat"
  and visit_items :: "json list \<Rightarrow> nat \<Rightarrow> nat \<Rightarrow> bool \<times> nat" where
  "visit v depth nodes =
    (let n = nodes + 1 in
     if depth > 16 \<or> n > 4096 then (False, n)
     else case v of
       JObject kvs \<Rightarrow> visit_entries kvs (depth + 1) n
     | JArray vs \<Rightarrow> visit_items vs (depth + 1) n
     | JString s \<Rightarrow> (CHR 0x00 \<notin> set s, n)
     | _ \<Rightarrow> (True, n))"
| "visit_entries [] depth nodes = (True, nodes)"
| "visit_entries ((k, v) # kvs) depth nodes =
    (if presentation_key k
     then (case visit v depth nodes of (True, n) \<Rightarrow> visit_entries kvs depth n | (False, n) \<Rightarrow> (False, n))
     else (False, nodes))"
| "visit_items [] depth nodes = (True, nodes)"
| "visit_items (v # vs) depth nodes =
    (case visit v depth nodes of (True, n) \<Rightarrow> visit_items vs depth n | (False, n) \<Rightarrow> (False, n))"

definition presentation_valid :: "(json_map \<Rightarrow> nat option) \<Rightarrow> json_map \<Rightarrow> nat \<Rightarrow> bool" where
  "presentation_valid json_len m limit \<longleftrightarrow>
    fst (visit_entries m 1 0) \<and> (case json_len m of None \<Rightarrow> False | Some n \<Rightarrow> n \<le> limit)"

section \<open>What the visit accepts\<close>

text \<open>Size, height and well-formedness of a value, each by its own recursion.\<close>

fun json_nodes :: "json \<Rightarrow> nat" and entries_nodes :: "json_map \<Rightarrow> nat" and items_nodes :: "json list \<Rightarrow> nat" where
  "json_nodes v = Suc (case v of JObject kvs \<Rightarrow> entries_nodes kvs | JArray vs \<Rightarrow> items_nodes vs | _ \<Rightarrow> 0)"
| "entries_nodes [] = 0"
| "entries_nodes ((k, v) # kvs) = json_nodes v + entries_nodes kvs"
| "items_nodes [] = 0"
| "items_nodes (v # vs) = json_nodes v + items_nodes vs"

fun json_height :: "json \<Rightarrow> nat" and entries_height :: "json_map \<Rightarrow> nat" and items_height :: "json list \<Rightarrow> nat" where
  "json_height v = Suc (case v of JObject kvs \<Rightarrow> entries_height kvs | JArray vs \<Rightarrow> items_height vs | _ \<Rightarrow> 0)"
| "entries_height [] = 0"
| "entries_height ((k, v) # kvs) = max (json_height v) (entries_height kvs)"
| "items_height [] = 0"
| "items_height (v # vs) = max (json_height v) (items_height vs)"

fun json_clean :: "json \<Rightarrow> bool" and entries_clean :: "json_map \<Rightarrow> bool" and items_clean :: "json list \<Rightarrow> bool" where
  "json_clean v \<longleftrightarrow> (case v of JObject kvs \<Rightarrow> entries_clean kvs | JArray vs \<Rightarrow> items_clean vs
     | JString s \<Rightarrow> CHR 0x00 \<notin> set s | _ \<Rightarrow> True)"
| "entries_clean [] \<longleftrightarrow> True"
| "entries_clean ((k, v) # kvs) \<longleftrightarrow> presentation_key k \<and> json_clean v \<and> entries_clean kvs"
| "items_clean [] \<longleftrightarrow> True"
| "items_clean (v # vs) \<longleftrightarrow> json_clean v \<and> items_clean vs"

lemmas json_measures [simp del] = visit.simps json_nodes.simps json_height.simps json_clean.simps

lemma visit_True_iff:
  "visit v d n = (True, m) \<longleftrightarrow> json_clean v \<and> d + json_height v \<le> 17 \<and> n + json_nodes v \<le> 4096 \<and> m = n + json_nodes v"
  "n \<le> 4096 \<Longrightarrow> d \<le> 17 \<Longrightarrow> visit_entries kvs d n = (True, m) \<longleftrightarrow>
    entries_clean kvs \<and> d + entries_height kvs \<le> 17 \<and> n + entries_nodes kvs \<le> 4096 \<and> m = n + entries_nodes kvs"
  "n \<le> 4096 \<Longrightarrow> d \<le> 17 \<Longrightarrow> visit_items vs d n = (True, m) \<longleftrightarrow>
    items_clean vs \<and> d + items_height vs \<le> 17 \<and> n + items_nodes vs \<le> 4096 \<and> m = n + items_nodes vs"
proof (induction v d n and kvs d n and vs d n arbitrary: m and m and m rule: visit_visit_entries_visit_items.induct)
  case (1 v depth nodes)
  then show ?case
    by (cases v) (auto simp: visit.simps json_nodes.simps json_height.simps json_clean.simps Let_def)
next
  case (3 k v kvs depth nodes)
  show ?case
  proof (cases "presentation_key k \<and> fst (visit v depth nodes)")
    case True
    then obtain x where x: "visit v depth nodes = (True, x)" by (metis (full_types) prod.collapse)
    with "3.IH"(1) [of x] True have v: "json_clean v" "depth + json_height v \<le> 17" "x \<le> 4096" "x = nodes + json_nodes v" by auto
    then show ?thesis using "3.IH"(2) [where m = m, OF _ x [symmetric]] True x "3.prems" by auto
  next
    case False
    then have "\<not> (presentation_key k \<and> (\<exists>x. visit v depth nodes = (True, x)))" by auto
    with False "3.IH"(1) [of "nodes + json_nodes v"] show ?thesis by (cases "visit v depth nodes") auto
  qed
next
  case (5 v vs depth nodes)
  show ?case
  proof (cases "fst (visit v depth nodes)")
    case True
    then obtain x where x: "visit v depth nodes = (True, x)" by (metis (full_types) prod.collapse)
    with "5.IH"(1) [of x] have v: "json_clean v" "depth + json_height v \<le> 17" "x \<le> 4096" "x = nodes + json_nodes v" by auto
    then show ?thesis using "5.IH"(2) [where m = m, OF x [symmetric]] x "5.prems" by auto
  next
    case False
    with "5.IH"(1) [of "nodes + json_nodes v"] show ?thesis by (cases "visit v depth nodes") auto
  qed
qed auto

section \<open>Property\<close>

text \<open>The one-pass visit with its counter accepts exactly the bounded presentations: every key is
  nonempty, at most 256 bytes and free of control characters, no string holds a NUL, the value has
  at most 4096 nodes and 16 levels, and its serialized form is within the limit.\<close>

theorem presentation_bounds_exact:
  "presentation_valid json_len m limit \<longleftrightarrow> entries_clean m \<and> entries_height m \<le> 16 \<and> entries_nodes m \<le> 4096 \<and>
    (\<exists>n. json_len m = Some n \<and> n \<le> limit)"
proof -
  have "fst (visit_entries m 1 0) \<longleftrightarrow> (\<exists>n. visit_entries m 1 0 = (True, n))"
    by (metis (full_types) fst_conv prod.collapse)
  then show ?thesis by (auto simp: presentation_valid_def visit_True_iff(2) split: option.splits)
qed

end
