(* ===== verification/Compliance.thy ===== *)
theory Compliance
  imports Presentation Three_Valued
begin

text \<open>
  Compliance decisions, \<^verbatim>\<open>crates/compliance\<close>: assessment and aggregation of statuses (\<^verbatim>\<open>lib.rs\<close>), the
  definition of a rule, its frozen input, applicability, conclusion and the assessment document
  with its validation (\<^verbatim>\<open>model.rs\<close>). The criteria \<open>'c\<close> and the asset cut \<open>'f\<close> are opaque to this
  component, as in the code.
\<close>

section \<open>Decisions and statuses\<close>

datatype status = Compliant | NonCompliant | SUnknown | NotApplicable

datatype compliance_decision = CMatch | CNoMatch | CUnknown

interpretation cd: three_valued CMatch CNoMatch CUnknown
proof
  fix d :: compliance_decision
  show "d = CMatch \<or> d = CNoMatch \<or> d = CUnknown" by (cases d) auto
qed simp_all

fun assess :: "compliance_decision \<Rightarrow> compliance_decision \<Rightarrow> status" where
  "assess CNoMatch condition = NotApplicable"
| "assess CUnknown condition = SUnknown"
| "assess CMatch CMatch = Compliant"
| "assess CMatch CNoMatch = NonCompliant"
| "assess CMatch CUnknown = SUnknown"

datatype current = CurCompliant | CurNonCompliant | CurUnknown | CurNotApplicable | CurPending

fun current_from :: "status \<Rightarrow> current" where
  "current_from Compliant = CurCompliant"
| "current_from NonCompliant = CurNonCompliant"
| "current_from SUnknown = CurUnknown"
| "current_from NotApplicable = CurNotApplicable"

fun current_rank :: "current \<Rightarrow> nat" where
  "current_rank CurNotApplicable = 0"
| "current_rank CurCompliant = 1"
| "current_rank CurPending = 2"
| "current_rank CurUnknown = 3"
| "current_rank CurNonCompliant = 4"

text \<open>The loop keeps the worst item; an empty input is unknown, never compliant.\<close>

definition worse :: "current \<Rightarrow> current option \<Rightarrow> current option" where
  "worse item best = (case best of None \<Rightarrow> Some item
     | Some old \<Rightarrow> if current_rank item > current_rank old then Some item else Some old)"

definition aggregate :: "current list \<Rightarrow> current" where
  "aggregate items = (case fold worse items None of None \<Rightarrow> CurUnknown | Some c \<Rightarrow> c)"

section \<open>Definitions and frozen inputs\<close>

datatype invalid = InvalidDefinition | InvalidInput | InvalidAssessment | InvalidEvidence

datatype severity = Low | Medium | High | Critical

datatype platform = PAll | PWindows | PMacos

datatype target = TAll | TGroups "uuid list"

record 'c compliance_definition =
  def_presentation :: json_map
  def_severity :: severity
  def_enabled :: bool
  def_platform :: platform
  def_target :: target
  def_criteria :: 'c

definition def_groups :: "'c compliance_definition \<Rightarrow> uuid list" where
  "def_groups d = (case def_target d of TAll \<Rightarrow> [] | TGroups ids \<Rightarrow> ids)"

definition text_ok :: "string \<Rightarrow> nat \<Rightarrow> bool" where
  "text_ok v limit \<longleftrightarrow> \<not> is_blank v \<and> length (str_chars v) \<le> limit \<and> \<not> has_control v"

definition presentation_name :: "json_map \<Rightarrow> string option" where
  "presentation_name m = (case map_of m ''name'' of Some (JString s) \<Rightarrow> Some s | _ \<Rightarrow> None)"

definition target_ok :: "target \<Rightarrow> bool" where
  "target_ok t = (case t of TAll \<Rightarrow> True
     | TGroups ids \<Rightarrow> \<not> (ids = [] \<or> length ids > 16 \<or> list_ex uuid_is_nil ids
         \<or> length (bs_of_list ids) \<noteq> length ids))"

definition definition_validate :: "(json_map \<Rightarrow> nat option) \<Rightarrow> 'c compliance_definition \<Rightarrow> (invalid, unit) result" where
  "definition_validate json_len d =
    (if \<not> presentation_valid json_len (def_presentation d) 65536
        \<or> \<not> (case presentation_name (def_presentation d) of None \<Rightarrow> False | Some n \<Rightarrow> text_ok n 128)
     then Inl (Fail InvalidDefinition)
     else if \<not> target_ok (def_target d) then Inl (Fail InvalidDefinition)
     else Inr ())"

record 'f group_input =
  gi_id :: uuid
  gi_revision :: int
  gi_member_set :: "uuid option"
  gi_member_version :: int
  gi_asset_cut :: "'f option"
  gi_ready :: bool

record ('c, 'f) compliance_input =
  in_rule :: uuid
  in_revision :: int
  in_definition :: "'c compliance_definition"
  in_asset_cut :: 'f
  in_evaluated_at :: int
  in_groups :: "'f group_input list"

definition input_validate :: "(json_map \<Rightarrow> nat option) \<Rightarrow> ('c, 'f) compliance_input \<Rightarrow> (invalid, unit) result" where
  "input_validate json_len i =
    bind_res (definition_validate json_len (in_definition i)) (\<lambda>_.
    if uuid_is_nil (in_rule i) \<or> in_revision i < 1 \<or> in_evaluated_at i < 0 then Inl (Fail InvalidInput)
    else let expected = bs_of_list (def_groups (in_definition i)) in
      if length (in_groups i) \<noteq> length expected \<or> bs_of_list (map gi_id (in_groups i)) \<noteq> expected
      then Inl (Fail InvalidInput)
      else if list_ex (\<lambda>g. gi_revision g < 1 \<or> gi_member_version g < 0) (in_groups i)
      then Inl (Fail InvalidInput)
      else Inr ())"

section \<open>Evidence\<close>

record fact_reference =
  fr_source :: string
  fr_dataset :: "string option"
  fr_registration :: "string option"
  fr_registration_generation :: "nat option"
  fr_epoch :: "string option"
  fr_snapshot_id :: string
  fr_observed_at :: int
  fr_received_at :: int
  fr_actor :: "string option"

record source_reference =
  sr_source :: string
  sr_registration :: string
  sr_generation :: string
  sr_epoch :: string

record field_evidence =
  fe_context :: string
  fe_field :: string
  fe_sources :: "fact_reference list"

datatype compliance_outcome =
    COMatch | CONoMatch | CONull | COMissing | CODeleted | COUnsupported | COConflict

record compliance_explanation =
  ce_context :: string
  ce_path :: "nat list"
  ce_outcome :: compliance_outcome

record group_evidence =
  ge_id :: uuid
  ge_member_set :: "uuid option"
  ge_decision :: compliance_decision

section \<open>Applicability\<close>

record applicability =
  app_platform :: platform
  app_platform_decision :: compliance_decision
  app_sources :: "source_reference list"
  app_groups :: "group_evidence list"

fun decision_union :: "compliance_decision \<Rightarrow> compliance_decision \<Rightarrow> compliance_decision" where
  "decision_union CMatch b = CMatch"
| "decision_union a CMatch = CMatch"
| "decision_union CUnknown b = CUnknown"
| "decision_union a CUnknown = CUnknown"
| "decision_union a b = CNoMatch"

fun decision_intersection :: "compliance_decision \<Rightarrow> compliance_decision \<Rightarrow> compliance_decision" where
  "decision_intersection CNoMatch b = CNoMatch"
| "decision_intersection a CNoMatch = CNoMatch"
| "decision_intersection CUnknown b = CUnknown"
| "decision_intersection a CUnknown = CUnknown"
| "decision_intersection a b = CMatch"

definition group_decision :: "applicability \<Rightarrow> compliance_decision" where
  "group_decision a = (if app_groups a = [] then CMatch
     else foldl (\<lambda>old g. decision_union old (ge_decision g)) CNoMatch (app_groups a))"

definition applicability_decision :: "applicability \<Rightarrow> compliance_decision" where
  "applicability_decision a = decision_intersection (app_platform_decision a) (group_decision a)"

definition platform_decision :: "platform \<Rightarrow> source_reference list \<Rightarrow> compliance_decision" where
  "platform_decision p sources =
    (if p = PAll then CMatch
     else let windows = list_ex (\<lambda>s. sr_source s = ''mdm.windows'') sources;
              macos = list_ex (\<lambda>s. sr_source s = ''mdm.apple'') sources in
       if windows \<and> \<not> macos \<and> p = PWindows then CMatch
       else if \<not> windows \<and> macos \<and> p = PMacos then CMatch
       else if windows \<noteq> macos then CNoMatch
       else CUnknown)"

datatype reason = PlatformNotApplicable | GroupNotApplicable | PlatformUnknown | GroupUnknown
  | RuleSatisfied | RuleFailed | FactsUnknown

definition conclusion :: "applicability \<Rightarrow> compliance_decision \<Rightarrow> status \<times> reason" where
  "conclusion a condition =
    (let status = assess (applicability_decision a) condition in
     (status,
      case status of
        NotApplicable \<Rightarrow> if app_platform_decision a = CNoMatch then PlatformNotApplicable else GroupNotApplicable
      | SUnknown \<Rightarrow> if app_platform_decision a = CUnknown then PlatformUnknown
          else if group_decision a = CUnknown then GroupUnknown else FactsUnknown
      | Compliant \<Rightarrow> RuleSatisfied
      | NonCompliant \<Rightarrow> RuleFailed))"

section \<open>Assessments\<close>

record 'f assessment =
  as_rule_id :: uuid
  as_rule_version :: int
  as_dictionary_version :: string
  as_asset_cut :: 'f
  as_evaluated_at :: int
  as_groups :: "'f group_input list"
  as_status :: status
  as_reason :: reason
  as_condition :: compliance_decision
  as_applicability :: applicability
  as_explanations :: "compliance_explanation list"
  as_evidence :: "field_evidence list"

definition field_evidence_ok :: "field_evidence \<Rightarrow> bool" where
  "field_evidence_ok e \<longleftrightarrow> \<not> (\<not> text_ok (fe_field e) 256 \<or> length (fe_sources e) > 2
     \<or> list_ex (\<lambda>s. \<not> text_ok (fr_source s) 128 \<or> \<not> text_ok (fr_snapshot_id s) 1024) (fe_sources e))"

definition assessment_validate :: "'f assessment \<Rightarrow> (invalid, unit) result" where
  "assessment_validate a =
    (if uuid_is_nil (as_rule_id a) \<or> as_rule_version a < 1 \<or> as_evaluated_at a < 0
        \<or> \<not> text_ok (as_dictionary_version a) 128
     then Inl (Fail InvalidAssessment)
     else if length (as_groups a) > 16 \<or> list_ex (\<lambda>g. \<not> gi_ready g) (as_groups a)
        \<or> length (as_groups a) \<noteq> length (app_groups (as_applicability a))
     then Inl (Fail InvalidAssessment)
     else bind_res (fold_res (\<lambda>(g, p) _. if gi_id g \<noteq> ge_id p \<or> gi_member_set g \<noteq> ge_member_set p
           then Inl (Fail InvalidAssessment) else Inr ())
         (zip (as_groups a) (app_groups (as_applicability a))) ()) (\<lambda>_.
     if length (as_explanations a) > 1024 \<or> length (as_evidence a) > 256 then Inl (Fail InvalidAssessment)
     else if app_platform_decision (as_applicability a)
          \<noteq> platform_decision (app_platform (as_applicability a)) (app_sources (as_applicability a))
        \<or> conclusion (as_applicability a) (as_condition a) \<noteq> (as_status a, as_reason a)
     then Inl (Fail InvalidAssessment)
     else if list_ex (\<lambda>e. \<not> field_evidence_ok e) (as_evidence a) then Inl (Fail InvalidEvidence)
     else Inr ()))"

definition assessment_evaluate ::
  "(json_map \<Rightarrow> nat option) \<Rightarrow> ('c, 'f) compliance_input \<Rightarrow> string \<Rightarrow> compliance_decision \<Rightarrow> applicability \<Rightarrow>
    compliance_explanation list \<Rightarrow> field_evidence list \<Rightarrow> (invalid, 'f assessment) result" where
  "assessment_evaluate json_len i dictionary condition app explanations evidence =
    bind_res (input_validate json_len i) (\<lambda>_.
    let (status, reason) = conclusion app condition;
        result = \<lparr>as_rule_id = in_rule i, as_rule_version = in_revision i, as_dictionary_version = dictionary,
          as_asset_cut = in_asset_cut i, as_evaluated_at = in_evaluated_at i, as_groups = in_groups i,
          as_status = status, as_reason = reason, as_condition = condition, as_applicability = app,
          as_explanations = explanations, as_evidence = evidence\<rparr> in
    bind_res (assessment_validate result) (\<lambda>_. Inr result))"

end
