(* ===== verification/Compliance_Properties.thy ===== *)
theory Compliance_Properties
  imports Compliance
begin

text \<open>
  Lemmas and properties of compliance decisions: the connectives of applicability are those of
  three-valued logic, the reason of a conclusion determines its cause, aggregation is the worst
  item, and an evaluated assessment is the validated record of exactly that conclusion.
\<close>

section \<open>Applicability in three-valued logic\<close>

lemma decision_union_disj3: "decision_union a b = cd.disj3 a b"
  by (cases a; cases b) (simp_all add: cd.disj3_def)

lemma decision_intersection_conj3: "decision_intersection a b = cd.conj3 a b"
  by (cases a; cases b) (simp_all add: cd.conj3_def)

lemma group_decision_any3:
  "group_decision a = (if app_groups a = [] then CMatch else cd.any3 (map ge_decision (app_groups a)))"
proof -
  have "foldl (\<lambda>old g. decision_union old (ge_decision g)) d gs = foldl cd.disj3 d (map ge_decision gs)"
    for d and gs :: "group_evidence list"
    by (induction gs arbitrary: d) (simp_all add: decision_union_disj3)
  moreover have "cd.disj3 CNoMatch d = d" for d using cd.exhaustive [of d] by (auto simp: cd.disj3_def)
  ultimately show ?thesis by (simp add: group_decision_def cd.foldl_disj3)
qed

lemma group_decision_Match:
  "group_decision a = CMatch \<longleftrightarrow> app_groups a = [] \<or> (\<exists>g \<in> set (app_groups a). ge_decision g = CMatch)"
  by (auto simp: group_decision_any3 cd.any3_def image_iff) (metis)+

lemma group_decision_NoMatch:
  "group_decision a = CNoMatch \<longleftrightarrow> app_groups a \<noteq> [] \<and> (\<forall>g \<in> set (app_groups a). ge_decision g = CNoMatch)"
  by (simp add: group_decision_any3 cd.any3_no_iff)

lemma applicability_Match:
  "applicability_decision a = CMatch \<longleftrightarrow> app_platform_decision a = CMatch \<and> group_decision a = CMatch"
  by (cases "app_platform_decision a"; cases "group_decision a") (simp_all add: applicability_decision_def)

lemma applicability_NoMatch:
  "applicability_decision a = CNoMatch \<longleftrightarrow> app_platform_decision a = CNoMatch \<or> group_decision a = CNoMatch"
  by (cases "app_platform_decision a"; cases "group_decision a") (simp_all add: applicability_decision_def)

lemma assess_iff:
  "assess a c = NotApplicable \<longleftrightarrow> a = CNoMatch" "assess a c = Compliant \<longleftrightarrow> a = CMatch \<and> c = CMatch"
  "assess a c = NonCompliant \<longleftrightarrow> a = CMatch \<and> c = CNoMatch"
  by (cases a; cases c; simp)+

text \<open>More evidence: the same groups, with unknown decisions possibly settled.\<close>

definition applicability_refines :: "applicability \<Rightarrow> applicability \<Rightarrow> bool" where
  "applicability_refines a a' \<longleftrightarrow> cd.refines (app_platform_decision a) (app_platform_decision a') \<and>
    list_all2 (\<lambda>g g'. cd.refines (ge_decision g) (ge_decision g')) (app_groups a) (app_groups a')"

lemma applicability_decision_refines:
  "applicability_refines a a' \<Longrightarrow> cd.refines (applicability_decision a) (applicability_decision a')"
proof -
  assume r: "applicability_refines a a'"
  then have "cd.refines (group_decision a) (group_decision a')"
    by (auto simp: group_decision_any3 applicability_refines_def list_all2_map1 list_all2_map2
        intro!: cd.refines_any3)
  with r show ?thesis
    by (auto simp: applicability_decision_def decision_intersection_conj3 applicability_refines_def
        intro!: cd.refines_conj3)
qed

section \<open>Aggregation\<close>

lemma current_rank_inject: "current_rank a = current_rank b \<longleftrightarrow> a = b"
  by (cases a; cases b) simp_all

lemma worse_simps [simp]:
  "worse i None = Some i" "worse i (Some b) = Some (if current_rank i > current_rank b then i else b)"
  by (simp_all add: worse_def)

lemma fold_worse:
  "fold worse items (Some b) = Some c \<Longrightarrow> c \<in> insert b (set items) \<and> (\<forall>i \<in> insert b (set items). current_rank i \<le> current_rank c)"
proof (induction items arbitrary: b)
  case Nil
  then show ?case by simp
next
  case (Cons i items)
  from Cons.prems have "fold worse items (Some (if current_rank i > current_rank b then i else b)) = Some c" by simp
  from Cons.IH [OF this] show ?case by (auto split: if_splits intro: order_trans)
qed

lemma fold_worse_Some: "\<exists>c. fold worse items (Some b) = Some c"
  by (induction items arbitrary: b) auto

lemma aggregate_worst:
  assumes "items \<noteq> []"
  shows "aggregate items \<in> set items \<and> (\<forall>i \<in> set items. current_rank i \<le> current_rank (aggregate items))"
proof -
  obtain i rest where i: "items = i # rest" using assms by (cases items) auto
  obtain c where c: "fold worse rest (Some i) = Some c" using fold_worse_Some by blast
  have "aggregate items = c" by (simp add: aggregate_def i c)
  with fold_worse [OF c] i show ?thesis by simp
qed

section \<open>Assessments\<close>

lemma fold_pairs:
  "fold_res (\<lambda>(g, p) _. if P g p then Inl (Fail e) else Inr ()) xs () = Inr u \<longleftrightarrow> list_all (\<lambda>(g, p). \<not> P g p) xs"
  by (induction xs) (auto split: if_splits)

definition groups_match :: "'f group_input list \<Rightarrow> group_evidence list \<Rightarrow> bool" where
  "groups_match gs ps \<longleftrightarrow> list_all2 (\<lambda>g p. gi_ready g \<and> gi_id g = ge_id p \<and> gi_member_set g = ge_member_set p) gs ps"

definition assessment_valid :: "'f assessment \<Rightarrow> bool" where
  "assessment_valid a \<longleftrightarrow> \<not> uuid_is_nil (as_rule_id a) \<and> 1 \<le> as_rule_version a \<and> 0 \<le> as_evaluated_at a \<and>
    text_ok (as_dictionary_version a) 128 \<and> length (as_groups a) \<le> 16 \<and>
    groups_match (as_groups a) (app_groups (as_applicability a)) \<and>
    length (as_explanations a) \<le> 1024 \<and> length (as_evidence a) \<le> 256 \<and>
    app_platform_decision (as_applicability a) =
      platform_decision (app_platform (as_applicability a)) (app_sources (as_applicability a)) \<and>
    conclusion (as_applicability a) (as_condition a) = (as_status a, as_reason a) \<and>
    (\<forall>e \<in> set (as_evidence a). field_evidence_ok e)"

lemma groups_match_iff:
  "groups_match gs ps \<longleftrightarrow> length gs = length ps \<and> \<not> list_ex (\<lambda>g. \<not> gi_ready g) gs \<and>
    list_all (\<lambda>(g, p). \<not> (gi_id g \<noteq> ge_id p \<or> gi_member_set g \<noteq> ge_member_set p)) (zip gs ps)"
  unfolding groups_match_def
proof (induction gs arbitrary: ps)
  case (Cons g gs)
  then show ?case by (cases ps) auto
qed simp

lemma assessment_validate_Inr [simp]: "assessment_validate a = Inr u \<longleftrightarrow> assessment_valid a"
proof -
  have ev: "list_ex (\<lambda>e. \<not> field_evidence_ok e) es \<longleftrightarrow> \<not> (\<forall>e \<in> set es. field_evidence_ok e)" for es
    by (auto simp: list_ex_iff)
  show ?thesis
    unfolding assessment_valid_def groups_match_iff assessment_validate_def ev
    by (auto simp: fold_pairs not_less simp del: de_Morgan_disj split: if_splits)
qed

lemma assessment_evaluate_Inr:
  "assessment_evaluate json_len i dict c app es evs = Inr a \<longleftrightarrow>
    input_validate json_len i = Inr () \<and> assessment_valid a \<and>
    a = \<lparr>as_rule_id = in_rule i, as_rule_version = in_revision i, as_dictionary_version = dict,
      as_asset_cut = in_asset_cut i, as_evaluated_at = in_evaluated_at i, as_groups = in_groups i,
      as_status = fst (conclusion app c), as_reason = snd (conclusion app c), as_condition = c,
      as_applicability = app, as_explanations = es, as_evidence = evs\<rparr>"
  by (auto simp: assessment_evaluate_def case_prod_beta Let_def)

lemma assessment_evaluate_sel:
  assumes "assessment_evaluate json_len i dict c app es evs = Inr a"
  shows "as_status a = fst (conclusion app c)" "as_explanations a = es" "assessment_valid a"
  using assms by (auto simp: assessment_evaluate_Inr)

section \<open>Samples\<close>

definition sample_presentation :: json_map where
  "sample_presentation = [(''name'', JString ''Disk''), (''tags'', JArray [JString ''a'', JNumber (JInt 1)])]"

definition sample_json_len :: "json_map \<Rightarrow> nat option" where
  "sample_json_len m = Some (10 * length m)"

definition sample_definition :: "unit compliance_definition" where
  "sample_definition = \<lparr>def_presentation = sample_presentation, def_severity = High, def_enabled = True,
     def_platform = PMacos, def_target = TGroups [4], def_criteria = ()\<rparr>"

definition sample_group_input :: "unit group_input" where
  "sample_group_input = \<lparr>gi_id = 4, gi_revision = 1, gi_member_set = Some 9, gi_member_version = 0,
     gi_asset_cut = None, gi_ready = True\<rparr>"

definition sample_compliance_input :: "(unit, unit) compliance_input" where
  "sample_compliance_input = \<lparr>in_rule = 3, in_revision = 2, in_definition = sample_definition, in_asset_cut = (),
     in_evaluated_at = 50, in_groups = [sample_group_input]\<rparr>"

definition sample_applicability :: "compliance_decision \<Rightarrow> applicability" where
  "sample_applicability d = \<lparr>app_platform = PMacos, app_platform_decision = CMatch,
     app_sources = [\<lparr>sr_source = ''mdm.apple'', sr_registration = ''r'', sr_generation = ''1'', sr_epoch = ''e''\<rparr>],
     app_groups = [\<lparr>ge_id = 4, ge_member_set = Some 9, ge_decision = d\<rparr>]\<rparr>"

definition sample_assessment :: "compliance_decision \<Rightarrow> unit assessment" where
  "sample_assessment d = \<lparr>as_rule_id = 3, as_rule_version = 2, as_dictionary_version = ''v1'', as_asset_cut = (),
     as_evaluated_at = 50, as_groups = [sample_group_input],
     as_status = (case d of CMatch \<Rightarrow> NonCompliant | CNoMatch \<Rightarrow> NotApplicable | CUnknown \<Rightarrow> SUnknown),
     as_reason = (case d of CMatch \<Rightarrow> RuleFailed | CNoMatch \<Rightarrow> GroupNotApplicable | CUnknown \<Rightarrow> GroupUnknown),
     as_condition = CNoMatch, as_applicability = sample_applicability d, as_explanations = [], as_evidence = []\<rparr>"

lemmas compliance_eval = visit.simps json_nodes.simps json_height.simps json_clean.simps presentation_key_def
  has_control_def is_blank_def str_chars_def char_is_control_def char_is_whitespace_def text_ok_def
  presentation_valid_def presentation_name_def target_ok_def uuid_is_nil_def bs_of_list_def Let_def

lemmas compliance_sample_defs = sample_presentation_def sample_json_len_def sample_definition_def
  sample_group_input_def sample_compliance_input_def sample_applicability_def sample_assessment_def

lemma sample_input_valid: "input_validate sample_json_len sample_compliance_input = Inr ()"
  by (simp add: input_validate_def definition_validate_def def_groups_def compliance_eval compliance_sample_defs)

lemma sample_assessment_evaluate:
  "assessment_evaluate sample_json_len sample_compliance_input ''v1'' CNoMatch (sample_applicability d) [] [] =
    Inr (sample_assessment d)"
proof -
  have "conclusion (sample_applicability d) CNoMatch = (as_status (sample_assessment d), as_reason (sample_assessment d))"
    by (cases d) (simp_all add: conclusion_def applicability_decision_def group_decision_def compliance_sample_defs)
  moreover have "text_ok ''v1'' 128" by (simp add: compliance_eval)
  ultimately show ?thesis
    by (simp add: assessment_evaluate_Inr sample_input_valid assessment_valid_def groups_match_def)
      (simp add: compliance_sample_defs uuid_is_nil_def platform_decision_def)
qed


section \<open>Properties\<close>

text \<open>C25: A compliance status is confirmed only by confirmed decisions, and then for good: compliant or
  non-compliant needs a matching platform, a matching target group (or no target groups) and a
  decided condition, not applicable needs a confirmed exclusion; and settling unknown decisions
  never changes a status that was not unknown.\<close>

theorem compliance_status_confirmed:
  assumes "applicability_refines a a'" "cd.refines c c'"
  shows "(fst (conclusion a c) = SUnknown \<or> fst (conclusion a' c') = fst (conclusion a c)) \<and>
    (fst (conclusion a c) = Compliant \<longleftrightarrow> c = CMatch \<and> app_platform_decision a = CMatch \<and>
      (app_groups a = [] \<or> (\<exists>g \<in> set (app_groups a). ge_decision g = CMatch))) \<and>
    (fst (conclusion a c) = NotApplicable \<longleftrightarrow> app_platform_decision a = CNoMatch \<or>
      (app_groups a \<noteq> [] \<and> (\<forall>g \<in> set (app_groups a). ge_decision g = CNoMatch)))"
proof -
  have "fst (conclusion a c) = assess (applicability_decision a) c" for a c
    by (simp add: conclusion_def Let_def)
  moreover have "assess (applicability_decision a) c = SUnknown \<or>
      assess (applicability_decision a') c' = assess (applicability_decision a) c"
    using applicability_decision_refines [OF assms(1)] assms(2)
    by (cases "applicability_decision a"; cases c) (auto simp: cd.refines_def)
  ultimately show ?thesis
    by (simp add: assess_iff applicability_Match applicability_NoMatch group_decision_Match group_decision_NoMatch) blast
qed

theorem compliance_status_confirmed_witness:
  "applicability_refines (sample_applicability CUnknown) (sample_applicability CMatch) \<and>
    fst (conclusion (sample_applicability CUnknown) CNoMatch) = SUnknown"
proof -
  have r: "applicability_refines (sample_applicability CUnknown) (sample_applicability CMatch)"
    by (simp add: applicability_refines_def sample_applicability_def cd.refines_def)
  show ?thesis using r compliance_status_confirmed [OF r cd.refines_refl [of CNoMatch]]
    by (simp add: conclusion_def applicability_decision_def group_decision_def sample_applicability_def)
qed

text \<open>The reason of a conclusion names its cause: each reason stands for exactly one combination of
  platform, group and condition decisions, so the status can be read off the reason.\<close>

theorem compliance_reason_exact:
  "(snd (conclusion a c) = PlatformNotApplicable \<longleftrightarrow> app_platform_decision a = CNoMatch) \<and>
   (snd (conclusion a c) = GroupNotApplicable \<longleftrightarrow> app_platform_decision a \<noteq> CNoMatch \<and> group_decision a = CNoMatch) \<and>
   (snd (conclusion a c) = PlatformUnknown \<longleftrightarrow> app_platform_decision a = CUnknown \<and> group_decision a \<noteq> CNoMatch) \<and>
   (snd (conclusion a c) = GroupUnknown \<longleftrightarrow> app_platform_decision a = CMatch \<and> group_decision a = CUnknown) \<and>
   (snd (conclusion a c) = FactsUnknown \<longleftrightarrow> app_platform_decision a = CMatch \<and> group_decision a = CMatch \<and> c = CUnknown) \<and>
   (snd (conclusion a c) = RuleSatisfied \<longleftrightarrow> fst (conclusion a c) = Compliant) \<and>
   (snd (conclusion a c) = RuleFailed \<longleftrightarrow> fst (conclusion a c) = NonCompliant)"
  by (cases "app_platform_decision a"; cases "group_decision a"; cases c)
    (simp_all add: conclusion_def applicability_decision_def Let_def)

text \<open>Aggregation reports the worst item, in the order not applicable, compliant, pending, unknown,
  non-compliant, whatever the order of the items; no items at all are unknown, so an empty rule
  set never counts as compliance, and compliance needs at least one compliant item and no worse
  one.\<close>

theorem compliance_aggregate_worst:
  "aggregate [] = CurUnknown \<and>
   (items \<noteq> [] \<longrightarrow> aggregate items \<in> set items \<and> (\<forall>i \<in> set items. current_rank i \<le> current_rank (aggregate items))) \<and>
   (set items = set items' \<longrightarrow> aggregate items = aggregate items') \<and>
   (aggregate items = CurCompliant \<longleftrightarrow> CurCompliant \<in> set items \<and> set items \<subseteq> {CurCompliant, CurNotApplicable})"
proof -
  have eq: "aggregate items = aggregate items'" if "set items = set items'"
  proof (cases "items = []")
    case False
    with that have "items' \<noteq> []" by auto
    with False aggregate_worst [of items] aggregate_worst [of items'] that
    have "current_rank (aggregate items) = current_rank (aggregate items')" by (intro order_antisym) auto
    then show ?thesis by (simp add: current_rank_inject)
  qed (use that in simp)
  have rank: "current_rank i \<le> 1 \<longleftrightarrow> i \<in> {CurCompliant, CurNotApplicable}" for i by (cases i) auto
  have "aggregate items = CurCompliant \<longleftrightarrow> CurCompliant \<in> set items \<and> set items \<subseteq> {CurCompliant, CurNotApplicable}"
  proof (cases "items = []")
    case True
    then show ?thesis by (simp add: aggregate_def)
  next
    case False
    note w = aggregate_worst [OF False]
    show ?thesis
    proof
      assume "aggregate items = CurCompliant"
      with w have "CurCompliant \<in> set items" "\<forall>i \<in> set items. current_rank i \<le> 1" by simp_all
      then show "CurCompliant \<in> set items \<and> set items \<subseteq> {CurCompliant, CurNotApplicable}" using rank by blast
    next
      assume "CurCompliant \<in> set items \<and> set items \<subseteq> {CurCompliant, CurNotApplicable}"
      with w have "aggregate items \<in> {CurCompliant, CurNotApplicable}" "1 \<le> current_rank (aggregate items)"
        by auto
      then show "aggregate items = CurCompliant" by auto
    qed
  qed
  with eq aggregate_worst show ?thesis by (simp add: aggregate_def)
qed

theorem compliance_aggregate_worst_witness:
  "aggregate [CurCompliant, CurUnknown, CurNotApplicable] = aggregate [CurUnknown, CurNotApplicable, CurCompliant] \<and>
   aggregate [CurCompliant, CurUnknown] \<noteq> CurCompliant"
  using compliance_aggregate_worst [of "[CurCompliant, CurUnknown, CurNotApplicable]" "[CurUnknown, CurNotApplicable, CurCompliant]"]
    compliance_aggregate_worst [of "[CurCompliant, CurUnknown]" "[]"] by (simp add: insert_commute)

text \<open>An assessment is the record of its conclusion: evaluation succeeds only on a valid frozen input,
  copies the rule, version, cut and groups of that input, and its status and reason are the
  conclusion drawn from its own applicability and condition; the result always passes the
  validation that reading it back applies.\<close>

theorem compliance_assessment_consistent:
  assumes "assessment_evaluate json_len i dict c app es evs = Inr a"
  shows "input_validate json_len i = Inr () \<and> assessment_validate a = Inr () \<and>
    as_rule_id a = in_rule i \<and> as_rule_version a = in_revision i \<and> as_asset_cut a = in_asset_cut i \<and>
    as_groups a = in_groups i \<and> as_condition a = c \<and> as_applicability a = app \<and>
    (as_status a, as_reason a) = conclusion app c \<and>
    set (map ge_id (app_groups app)) = set (def_groups (in_definition i)) \<and>
    app_platform_decision app = platform_decision (app_platform app) (app_sources app)"
proof -
  note e = assms [unfolded assessment_evaluate_Inr]
  have "map gi_id (in_groups i) = map ge_id (app_groups app)"
    using e by (auto simp: assessment_valid_def groups_match_def list_all2_conv_all_nth intro!: nth_equalityI)
  moreover have "set (map gi_id (in_groups i)) = set (def_groups (in_definition i))"
    using e by (auto simp: input_validate_def Let_def bs_of_list_eq_iff split: if_splits)
  ultimately show ?thesis using e by (auto simp: assessment_valid_def)
qed

theorem compliance_assessment_consistent_witness:
  "as_status (sample_assessment CMatch) = NonCompliant \<and>
   (as_status (sample_assessment CMatch), as_reason (sample_assessment CMatch)) = conclusion (sample_applicability CMatch) CNoMatch"
  using compliance_assessment_consistent [OF sample_assessment_evaluate [of CMatch]]
  by (simp add: sample_assessment_def)

end
