(* ===== verification/Compliance_Bridge.thy ===== *)
theory Compliance_Bridge
  imports Compliance_Properties Group_Properties
begin

text \<open>
  From the evaluation of a group rule to a compliance assessment: \<^verbatim>\<open>assessment\<close> and \<^verbatim>\<open>merge_targets\<close> of
  \<^verbatim>\<open>crates/inventory-service/src/compliance/evaluation.rs\<close>. The decision of the evaluated object
  becomes the condition, every explained leaf an explanation, and every required field with asset
  evidence a field evidence. The asset summaries of the device contexts are inputs.
\<close>

fun condition_of :: "decision \<Rightarrow> compliance_decision" where
  "condition_of Match = CMatch"
| "condition_of NoMatch = CNoMatch"
| "condition_of Unknown = CUnknown"

fun compliance_outcome_of :: "outcome \<Rightarrow> compliance_outcome" where
  "compliance_outcome_of OMatch = COMatch"
| "compliance_outcome_of ONoMatch = CONoMatch"
| "compliance_outcome_of (OUnknown NullValue) = CONull"
| "compliance_outcome_of (OUnknown MissingFact) = COMissing"
| "compliance_outcome_of (OUnknown DeletedFact) = CODeleted"
| "compliance_outcome_of (OUnknown UnsupportedFact) = COUnsupported"
| "compliance_outcome_of (OUnknown ConflictFact) = COConflict"

text \<open>The resolved scalar and array fields of one device context with the evidence of their sources,
  in key order.\<close>

record device_summary =
  summary_fields :: "(string, fact_reference list) btree_map"
  summary_arrays :: "(string, fact_reference list) btree_map"

type_synonym context_summaries = "string \<times> string \<Rightarrow> device_summary option"

text \<open>A key stands for itself and for the fields below it.\<close>

definition key_covers :: "string \<Rightarrow> string \<Rightarrow> bool" where
  "key_covers key field \<longleftrightarrow> key = field \<or> prefix (key @ ''.'') field"

definition find_evidence :: "device_summary \<Rightarrow> string \<Rightarrow> fact_reference list option" where
  "find_evidence s field =
    (case find (\<lambda>(k, _). key_covers k field) (summary_fields s) of
       Some (_, refs) \<Rightarrow> Some refs
     | None \<Rightarrow> map_option snd (find (\<lambda>(k, _). key_covers k field) (summary_arrays s)))"

definition compliance_explanations :: "object_evaluation \<Rightarrow> compliance_explanation list" where
  "compliance_explanations e = concat (map (\<lambda>(cid, v). map (\<lambda>x.
     \<lparr>ce_context = cid, ce_path = explanation_path x, ce_outcome = compliance_outcome_of (explanation_outcome x)\<rparr>)
     (context_explanations v)) (evaluation_contexts e))"

definition field_evidence_of :: "string \<Rightarrow> context_summaries \<Rightarrow> string \<times> string \<Rightarrow> field_evidence option" where
  "field_evidence_of device summaries = (\<lambda>(cid, field).
     case summaries (device, cid) of None \<Rightarrow> None
     | Some s \<Rightarrow> map_option (\<lambda>refs. \<lparr>fe_context = cid, fe_field = field, fe_sources = refs\<rparr>) (find_evidence s field))"

definition compliance_evidence :: "string \<Rightarrow> context_summaries \<Rightarrow> object_evaluation \<Rightarrow> field_evidence list" where
  "compliance_evidence device summaries e =
    List.map_filter (field_evidence_of device summaries)
      (concat (map (\<lambda>(cid, v). map (\<lambda>field. (cid, field)) (bm_keys (context_provenance v))) (evaluation_contexts e)))"

definition device_assessment ::
  "(json_map \<Rightarrow> nat option) \<Rightarrow> string \<Rightarrow> ('c, 'f) compliance_input \<Rightarrow> string \<Rightarrow> context_summaries \<Rightarrow>
    object_evaluation \<Rightarrow> group_evidence list \<Rightarrow> source_reference list \<Rightarrow> (invalid, 'f assessment) result" where
  "device_assessment json_len dictionary i device summaries e groups sources =
    (let app = \<lparr>app_platform = def_platform (in_definition i),
           app_platform_decision = platform_decision (def_platform (in_definition i)) sources,
           app_sources = sources, app_groups = groups\<rparr> in
     assessment_evaluate json_len i dictionary (condition_of (evaluation_decision e)) app
       (compliance_explanations e) (compliance_evidence device summaries e))"

section \<open>Stored group decisions\<close>

text \<open>The stored counterpart of an evaluated object, \<^verbatim>\<open>crates/group-postgres/src/decisions.rs\<close>.\<close>

datatype decision_origin = RuleOrigin | ManualOrigin | SystemOrigin

datatype decision_value = VMatch | VNoMatch | VUnknown | VNull | VMissing | VDeleted | VUnsupported | VConflict

fun decision_value_from :: "outcome \<Rightarrow> decision_value" where
  "decision_value_from OMatch = VMatch"
| "decision_value_from ONoMatch = VNoMatch"
| "decision_value_from (OUnknown NullValue) = VNull"
| "decision_value_from (OUnknown MissingFact) = VMissing"
| "decision_value_from (OUnknown DeletedFact) = VDeleted"
| "decision_value_from (OUnknown UnsupportedFact) = VUnsupported"
| "decision_value_from (OUnknown ConflictFact) = VConflict"

record predicate_decision =
  pd_context :: string
  pd_path :: "nat list"
  pd_outcome :: decision_value

record stored_evidence =
  se_context :: string
  se_field :: string
  se_source :: string
  se_snapshot_id :: string
  se_observed_at :: int

record decision_record =
  record_device :: string
  record_origin :: decision_origin
  record_decision :: decision_value
  record_explanations :: "predicate_decision list"
  record_provenance :: "stored_evidence list"

definition manual :: "string \<Rightarrow> decision_record" where
  "manual device = \<lparr>record_device = device, record_origin = ManualOrigin, record_decision = VMatch,
     record_explanations = [], record_provenance = []\<rparr>"

fun overall_value :: "decision \<Rightarrow> decision_value" where
  "overall_value Match = VMatch"
| "overall_value NoMatch = VNoMatch"
| "overall_value Unknown = VUnknown"

definition evaluated :: "object_evaluation \<Rightarrow> decision_record" where
  "evaluated object = \<lparr>record_device = key_id (evaluation_key object), record_origin = RuleOrigin,
     record_decision = overall_value (evaluation_decision object),
     record_explanations = concat (map (\<lambda>(cid, v). map (\<lambda>x.
       \<lparr>pd_context = cid, pd_path = explanation_path x, pd_outcome = decision_value_from (explanation_outcome x)\<rparr>)
       (context_explanations v)) (evaluation_contexts object)),
     record_provenance = concat (map (\<lambda>(cid, v). map (\<lambda>(field, p).
       \<lparr>se_context = cid, se_field = field, se_source = provenance_source p,
        se_snapshot_id = provenance_snapshot_id p, se_observed_at = provenance_observed_at p\<rparr>)
       (context_provenance v)) (evaluation_contexts object))\<rparr>"

text \<open>How a stored decision counts as the membership of a target group.\<close>

fun stored_decision :: "decision_value \<Rightarrow> compliance_decision" where
  "stored_decision VMatch = CMatch"
| "stored_decision VNoMatch = CNoMatch"
| "stored_decision _ = CUnknown"

type_synonym group_targets = "(string, group_evidence list) btree_map"

text \<open>Every device of the page starts outside every target group.\<close>

definition initial_targets :: "string list \<Rightarrow> 'f group_input list \<Rightarrow> group_targets" where
  "initial_targets devices groups = bm_of_list (map (\<lambda>d. (d, map (\<lambda>g.
     \<lparr>ge_id = gi_id g, ge_member_set = gi_member_set g, ge_decision = CNoMatch\<rparr>) groups)) devices)"

text \<open>\<^verbatim>\<open>get_mut\<close> and an indexed assignment; an index out of range panics.\<close>

definition merge_target :: "nat \<Rightarrow> decision_record \<Rightarrow> group_targets \<Rightarrow> (invalid, group_targets) result" where
  "merge_target index r targets =
    (case bm_get targets (record_device r) of
       None \<Rightarrow> Inr targets
     | Some gs \<Rightarrow> if index < length gs
         then Inr (bm_insert (record_device r)
           (gs[index := (gs ! index)\<lparr>ge_decision := stored_decision (record_decision r)\<rparr>]) targets)
         else Inl Panic)"

definition merge_targets :: "group_targets \<Rightarrow> nat \<Rightarrow> decision_record list \<Rightarrow> (invalid, group_targets) result" where
  "merge_targets targets index records = fold_res (merge_target index) records targets"


section \<open>Lemmas\<close>

lemma stored_decision_evaluated: "stored_decision (record_decision (evaluated e)) = condition_of (evaluation_decision e)"
  by (cases "evaluation_decision e") (simp_all add: evaluated_def)

text \<open>The decision the records leave for a device: the last one about it, or the old one.\<close>

fun last_decision :: "string \<Rightarrow> decision_record list \<Rightarrow> compliance_decision \<Rightarrow> compliance_decision" where
  "last_decision d [] old = old"
| "last_decision d (r # rs) old =
    last_decision d rs (if record_device r = d then stored_decision (record_decision r) else old)"

definition targets_ok :: "nat \<Rightarrow> group_targets \<Rightarrow> bool" where
  "targets_ok index targets \<longleftrightarrow> bm_wf targets \<and> (\<forall>d gs. bm_get targets d = Some gs \<longrightarrow> index < length gs)"

definition set_decision :: "nat \<Rightarrow> compliance_decision \<Rightarrow> group_evidence list \<Rightarrow> group_evidence list" where
  "set_decision index c gs = gs[index := (gs ! index)\<lparr>ge_decision := c\<rparr>]"

lemma length_set_decision [simp]: "length (set_decision i c gs) = length gs"
  by (simp add: set_decision_def)

lemma set_decision_nth [simp]: "i < length gs \<Longrightarrow> ge_decision (set_decision i c gs ! i) = c"
  by (simp add: set_decision_def)

lemma set_decision_twice [simp]: "set_decision i c (set_decision i c' gs) = set_decision i c gs"
  by (cases "i < length gs") (simp_all add: set_decision_def list_update_beyond)

lemma set_decision_same [simp]: "set_decision i (ge_decision (gs ! i)) gs = gs"
proof -
  have "g\<lparr>ge_decision := ge_decision g\<rparr> = g" for g :: group_evidence by (cases g) simp
  then show ?thesis by (simp add: set_decision_def)
qed

lemma merge_target_Inr:
  assumes "targets_ok index targets"
  obtains targets' where "merge_target index r targets = Inr targets'" "targets_ok index targets'"
    "\<And>d. bm_get targets' d = map_option (\<lambda>gs. set_decision index
        (if record_device r = d then stored_decision (record_decision r) else ge_decision (gs ! index)) gs) (bm_get targets d)"
proof (cases "bm_get targets (record_device r)")
  case None
  show ?thesis
  proof (rule that)
    show "merge_target index r targets = Inr targets" using None by (simp add: merge_target_def)
    show "targets_ok index targets" by (rule assms)
  next
    fix d
    show "bm_get targets d = map_option (\<lambda>gs. set_decision index
        (if record_device r = d then stored_decision (record_decision r) else ge_decision (gs ! index)) gs) (bm_get targets d)"
      using None by (cases "bm_get targets d") auto
  qed
next
  case (Some gs)
  let ?t = "bm_insert (record_device r) (set_decision index (stored_decision (record_decision r)) gs) targets"
  have wf: "bm_wf targets" and i: "index < length gs" using assms Some by (auto simp: targets_ok_def)
  show ?thesis
  proof (rule that)
    show "merge_target index r targets = Inr ?t" using Some i by (simp add: merge_target_def set_decision_def)
    show "targets_ok index ?t" using assms i wf by (auto simp: targets_ok_def)
  next
    fix d
    show "bm_get ?t d = map_option (\<lambda>gs. set_decision index
        (if record_device r = d then stored_decision (record_decision r) else ge_decision (gs ! index)) gs) (bm_get targets d)"
      using Some wf by (cases "bm_get targets d") auto
  qed
qed

lemma merge_targets_Inr:
  assumes "targets_ok index targets"
  shows "\<exists>targets'. merge_targets targets index rs = Inr targets' \<and> targets_ok index targets' \<and>
    (\<forall>d. bm_get targets' d = map_option (\<lambda>gs. set_decision index (last_decision d rs (ge_decision (gs ! index))) gs) (bm_get targets d))"
  using assms
proof (induction rs arbitrary: targets)
  case Nil
  then show ?case by (simp add: merge_targets_def option.map_ident)
next
  case (Cons r rs)
  obtain t1 where t1: "merge_target index r targets = Inr t1" "targets_ok index t1"
    "\<And>d. bm_get t1 d = map_option (\<lambda>gs. set_decision index
        (if record_device r = d then stored_decision (record_decision r) else ge_decision (gs ! index)) gs) (bm_get targets d)"
    using merge_target_Inr [OF Cons.prems, of r] by blast
  from Cons.IH [OF t1(2)] obtain t2 where t2: "merge_targets t1 index rs = Inr t2" "targets_ok index t2"
    "\<And>d. bm_get t2 d = map_option (\<lambda>gs. set_decision index (last_decision d rs (ge_decision (gs ! index))) gs) (bm_get t1 d)"
    by blast
  have "bm_get t2 d = map_option (\<lambda>gs. set_decision index (last_decision d (r # rs) (ge_decision (gs ! index))) gs) (bm_get targets d)" for d
  proof (cases "bm_get targets d")
    case (Some gs)
    then have "index < length gs" using Cons.prems by (simp add: targets_ok_def)
    with Some show ?thesis by (simp add: t2(3) t1(3))
  qed (simp add: t2(3) t1(3))
  with t1(1) t2(1,2) show ?case by (simp add: merge_targets_def)
qed


lemma initial_targets_get:
  "bm_get (initial_targets devices groups) d = (if d \<in> set devices then Some (map (\<lambda>g.
    \<lparr>ge_id = gi_id g, ge_member_set = gi_member_set g, ge_decision = CNoMatch\<rparr>) groups) else None)"
proof -
  let ?v = "map (\<lambda>g. \<lparr>ge_id = gi_id g, ge_member_set = gi_member_set g, ge_decision = CNoMatch\<rparr>) groups"
  have "rev (map (\<lambda>d. (d, ?v)) devices) = map (\<lambda>d. (d, ?v)) (rev devices)" by (simp add: rev_map)
  then show ?thesis
    unfolding initial_targets_def bm_get_of_list
    by (auto simp: map_of_eq_None_iff map_of_map_restrict restrict_map_def)
qed

lemma last_decision_absent: "d \<notin> record_device ` set rs \<Longrightarrow> last_decision d rs old = old"
  by (induction rs arbitrary: old) auto

lemma last_decision_append: "last_decision d (rs @ [r]) old =
    (if record_device r = d then stored_decision (record_decision r) else last_decision d rs old)"
  by (induction rs arbitrary: old) auto

lemma last_decision_unique:
  assumes "distinct (map record_device rs)" "r \<in> set rs"
  shows "last_decision (record_device r) rs old = stored_decision (record_decision r)"
  using assms
proof (induction rs rule: rev_induct)
  case (snoc x rs)
  then show ?case
  proof (cases "r = x")
    case False
    with snoc have "record_device x \<noteq> record_device r" by force
    with False snoc show ?thesis by (simp add: last_decision_append)
  qed (simp add: last_decision_append)
qed simp

section \<open>Properties\<close>

text \<open>C8: The assessment of a device follows the evaluation of its rule: it is compliant exactly when
  the evaluated object matches and the device is on the platform and in a target group,
  non-compliant exactly when it definitely does not match there; its explanations are, in order,
  those of all the contexts of the evaluation, path by path; and it passes validation.\<close>

theorem compliance_assessment_follows_evaluation:
  assumes "device_assessment json_len dict i device summaries e groups sources = Inr a"
  shows "assessment_validate a = Inr () \<and>
    (let here = (platform_decision (def_platform (in_definition i)) sources = CMatch \<and>
        (groups = [] \<or> (\<exists>g \<in> set groups. ge_decision g = CMatch))) in
      (as_status a = Compliant \<longleftrightarrow> here \<and> evaluation_decision e = Match) \<and>
      (as_status a = NonCompliant \<longleftrightarrow> here \<and> evaluation_decision e = NoMatch)) \<and>
    map (\<lambda>x. (ce_context x, ce_path x)) (as_explanations a) =
      concat (map (\<lambda>(cid, v). map (\<lambda>x. (cid, explanation_path x)) (context_explanations v)) (evaluation_contexts e))"
proof -
  define app where "app = \<lparr>app_platform = def_platform (in_definition i),
    app_platform_decision = platform_decision (def_platform (in_definition i)) sources,
    app_sources = sources, app_groups = groups\<rparr>"
  from assms have ev: "assessment_evaluate json_len i dict (condition_of (evaluation_decision e)) app
      (compliance_explanations e) (compliance_evidence device summaries e) = Inr a"
    by (simp add: device_assessment_def app_def)
  note sel = assessment_evaluate_sel [OF ev]
  from sel(1) have st: "as_status a = assess (applicability_decision app) (condition_of (evaluation_decision e))"
    by (simp add: conclusion_def Let_def)
  have c: "condition_of d = CMatch \<longleftrightarrow> d = Match" "condition_of d = CNoMatch \<longleftrightarrow> d = NoMatch" for d
    by (cases d; simp)+
  have "applicability_decision app = CMatch \<longleftrightarrow> platform_decision (def_platform (in_definition i)) sources = CMatch \<and>
      (groups = [] \<or> (\<exists>g \<in> set groups. ge_decision g = CMatch))"
    by (simp add: applicability_Match group_decision_Match) (simp add: app_def)
  moreover have "map (\<lambda>x. (ce_context x, ce_path x)) (compliance_explanations e) =
      concat (map (\<lambda>(cid, v). map (\<lambda>x. (cid, explanation_path x)) (context_explanations v)) (evaluation_contexts e))"
    by (simp add: compliance_explanations_def map_concat comp_def split_def)
  ultimately show ?thesis using sel(3) by (simp add: st sel(2) assess_iff c Let_def)
qed

definition sample_evaluation :: object_evaluation where
  "sample_evaluation = \<lparr>evaluation_key = ObjectKey 1 ''mac'', evaluation_decision = NoMatch,
     evaluation_contexts = [(''main'', \<lparr>context_decision = NoMatch,
       context_explanations = [\<lparr>explanation_path = [0], explanation_outcome = ONoMatch\<rparr>],
       context_provenance = [(''disk.free'', \<lparr>provenance_source = ''s'', provenance_snapshot_id = ''n'', provenance_observed_at = 5\<rparr>)]\<rparr>)]\<rparr>"

definition sample_summaries :: context_summaries where
  "sample_summaries k = (if k = (''mac'', ''main'')
     then Some \<lparr>summary_fields = [(''disk'', [\<lparr>fr_source = ''mdm.apple'', fr_dataset = None, fr_registration = None,
       fr_registration_generation = None, fr_epoch = None, fr_snapshot_id = ''n'', fr_observed_at = 5, fr_received_at = 6,
       fr_actor = None\<rparr>])], summary_arrays = []\<rparr> else None)"

theorem compliance_assessment_follows_evaluation_witness:
  "\<exists>a. device_assessment sample_json_len ''v1'' sample_compliance_input ''mac'' sample_summaries sample_evaluation
      (app_groups (sample_applicability CMatch)) (app_sources (sample_applicability CMatch)) = Inr a \<and>
    as_status a = NonCompliant \<and> length (as_explanations a) = 1 \<and> length (as_evidence a) = 1"
proof -
  let ?ev = "compliance_evidence ''mac'' sample_summaries sample_evaluation"
  let ?ex = "compliance_explanations sample_evaluation"
  let ?a = "(sample_assessment CMatch)\<lparr>as_explanations := ?ex, as_evidence := ?ev\<rparr>"
  have ex: "length ?ex = 1" by (simp add: compliance_explanations_def sample_evaluation_def)
  have ev: "length ?ev = 1" "\<forall>e \<in> set ?ev. field_evidence_ok e"
    by (simp_all add: compliance_evidence_def field_evidence_of_def find_evidence_def key_covers_def bm_keys_def
        sample_summaries_def sample_evaluation_def field_evidence_ok_def compliance_eval map_filter_def)
  have "assessment_valid (sample_assessment CMatch)"
    by (rule assessment_evaluate_sel(3) [OF sample_assessment_evaluate])
  then have "assessment_valid ?a" using ex ev by (simp add: assessment_valid_def)
  moreover have "sample_applicability CMatch = \<lparr>app_platform = def_platform (in_definition sample_compliance_input),
      app_platform_decision = platform_decision (def_platform (in_definition sample_compliance_input)) (app_sources (sample_applicability CMatch)),
      app_sources = app_sources (sample_applicability CMatch), app_groups = app_groups (sample_applicability CMatch)\<rparr>"
    by (simp add: compliance_sample_defs platform_decision_def)
  ultimately have d: "device_assessment sample_json_len ''v1'' sample_compliance_input ''mac'' sample_summaries sample_evaluation
      (app_groups (sample_applicability CMatch)) (app_sources (sample_applicability CMatch)) = Inr ?a"
    using sample_assessment_evaluate [of CMatch]
    by (simp add: device_assessment_def assessment_evaluate_Inr sample_evaluation_def)
  show ?thesis using compliance_assessment_follows_evaluation [OF d] d ex ev(1)
    by (intro exI [of _ ?a]) (simp add: Let_def sample_assessment_def)
qed

text \<open>Target groups read the stored decisions of group evaluations: merging the records of one group
  into the devices of a page never fails, touches only that group's entry, and gives every device
  with a record of an evaluated object the decision of that object and every other device its
  previous decision.\<close>

theorem compliance_targets_follow_group_decisions:
  assumes "index < length groups" "distinct (map (\<lambda>e. key_id (evaluation_key e)) es)"
  shows "\<exists>targets. merge_targets (initial_targets devices groups) index (map evaluated es) = Inr targets \<and>
    (\<forall>d \<in> set devices. \<exists>gs. bm_get targets d = Some gs \<and> map ge_id gs = map gi_id groups \<and>
      (\<forall>j < length gs. j \<noteq> index \<longrightarrow> ge_decision (gs ! j) = CNoMatch) \<and>
      (\<forall>e \<in> set es. key_id (evaluation_key e) = d \<longrightarrow> ge_decision (gs ! index) = condition_of (evaluation_decision e)) \<and>
      (d \<notin> (\<lambda>e. key_id (evaluation_key e)) ` set es \<longrightarrow> ge_decision (gs ! index) = CNoMatch))"
proof -
  let ?gs = "map (\<lambda>g. \<lparr>ge_id = gi_id g, ge_member_set = gi_member_set g, ge_decision = CNoMatch\<rparr>) groups"
  have "targets_ok index (initial_targets devices groups)"
    using assms(1) by (auto simp: targets_ok_def initial_targets_get) (simp add: initial_targets_def)
  from merge_targets_Inr [OF this] obtain targets where
    m: "merge_targets (initial_targets devices groups) index (map evaluated es) = Inr targets"
    and g: "\<And>d. bm_get targets d = map_option (\<lambda>gs. set_decision index (last_decision d (map evaluated es) (ge_decision (gs ! index))) gs)
        (bm_get (initial_targets devices groups) d)" by blast
  have dist: "distinct (map record_device (map evaluated es))" using assms(2) by (simp add: comp_def evaluated_def)
  have "last_decision (key_id (evaluation_key e)) (map evaluated es) old = condition_of (evaluation_decision e)" if "e \<in> set es" for e old
    using last_decision_unique [OF dist, of "evaluated e" old] that stored_decision_evaluated [of e] by (simp add: evaluated_def)
  moreover have "last_decision d (map evaluated es) old = old" if "d \<notin> (\<lambda>e. key_id (evaluation_key e)) ` set es" for d old
    using that by (intro last_decision_absent) (auto simp: evaluated_def)
  ultimately have "\<exists>gs. bm_get targets d = Some gs \<and> map ge_id gs = map gi_id groups \<and>
      (\<forall>j < length gs. j \<noteq> index \<longrightarrow> ge_decision (gs ! j) = CNoMatch) \<and>
      (\<forall>e \<in> set es. key_id (evaluation_key e) = d \<longrightarrow> ge_decision (gs ! index) = condition_of (evaluation_decision e)) \<and>
      (d \<notin> (\<lambda>e. key_id (evaluation_key e)) ` set es \<longrightarrow> ge_decision (gs ! index) = CNoMatch)" if "d \<in> set devices" for d
    using that assms(1)
    by (intro exI [of _ "set_decision index (last_decision d (map evaluated es) (ge_decision (?gs ! index))) ?gs"])
      (auto simp: g initial_targets_get set_decision_def nth_list_update intro!: nth_equalityI)
  with m show ?thesis by blast
qed

theorem compliance_targets_follow_group_decisions_witness:
  "\<exists>targets. merge_targets (initial_targets [''mac'', ''pc''] [sample_group_input]) 0 (map evaluated [sample_evaluation]) = Inr targets"
  using compliance_targets_follow_group_decisions [of 0 "[sample_group_input]" "[sample_evaluation]" "[''mac'', ''pc'']"]
  by auto

end
