(* ===== verification/Policy_Schedule.thy ===== *)
theory Policy_Schedule
  imports Release_Encoding
begin

text \<open>
  Schedules of policies, \<^verbatim>\<open>crates/policy/src/schedule.rs\<close>: validation, the latest due occurrence, the
  next occurrence, jitter and windows. Times are i64 seconds; an addition or multiplication that
  the code leaves unchecked is a panic when it overflows.

  The time zone database and the civil calendar belong to another crate (\<^verbatim>\<open>jiff\<close>) and are the
  parameter \<open>calendar\<close>: zones by name, representable timestamps, the local date of a second, the
  neighbouring dates, the ISO weekday, and the second of a local time, which may fall into a gap.
  SHA-256 is a parameter too.
\<close>

datatype policy_error = Malformed | PConflict | PNotFound

datatype trigger =
    Manual
  | Once int
  | Interval int nat
  | Weekly string nat nat
  | Registration
  | CheckIn nat

datatype misfire = Skip nat | CoalesceOne

record window =
  window_zone :: string
  window_weekdays :: "nat btree_set"
  window_start_minute :: nat
  window_end_minute :: nat

record schedule =
  sched_trigger :: trigger
  sched_misfire :: misfire
  sched_not_before :: int
  sched_until :: "int option"
  sched_jitter_seconds :: nat
  sched_window :: "window option"

record occurrence =
  occ_coordinate :: int
  occ_available_at :: int
  occ_window_end :: "int option"

datatype local_time = LGap | LUnrepresentable | LAt int

record ('z, 'd) calendar =
  cal_zone :: "string \<Rightarrow> 'z option"
  cal_timestamp :: "int \<Rightarrow> bool"
  cal_date :: "'z \<Rightarrow> int \<Rightarrow> 'd"
  cal_next_day :: "'d \<Rightarrow> 'd option"
  cal_prev_day :: "'d \<Rightarrow> 'd option"
  cal_weekday :: "'d \<Rightarrow> nat"
  cal_local :: "'z \<Rightarrow> 'd \<Rightarrow> nat \<Rightarrow> nat \<Rightarrow> local_time"

definition zone :: "('z, 'd) calendar \<Rightarrow> string \<Rightarrow> (policy_error, 'z) result" where
  "zone cal name =
    (if name \<noteq> ''UTC'' \<and> (CHR ''/'' \<notin> set name \<or> length name > 128) then Inl (Fail Malformed)
     else ok_or Malformed (cal_zone cal name))"

definition local :: "('z, 'd) calendar \<Rightarrow> 'z \<Rightarrow> 'd \<Rightarrow> nat \<Rightarrow> (policy_error, int option) result" where
  "local cal tz date minute =
    bind_res (if minute = 1440 then bind_res (ok_or Malformed (cal_next_day cal date)) (\<lambda>d. Inr (d, 0, 0))
              else Inr (date, minute div 60, minute mod 60)) (\<lambda>(d, h, m).
    case cal_local cal tz d h m of
      LGap \<Rightarrow> Inr None
    | LUnrepresentable \<Rightarrow> Inl (Fail Malformed)
    | LAt t \<Rightarrow> Inr (Some t))"

definition ends_at :: "schedule \<Rightarrow> int" where
  "ends_at s = (case sched_until s of None \<Rightarrow> i64_max | Some u \<Rightarrow> u)"

definition missed :: "schedule \<Rightarrow> int \<Rightarrow> int \<Rightarrow> bool" where
  "missed s available_at now \<longleftrightarrow>
    (case sched_misfire s of Skip n \<Rightarrow> saturating_sub_i64 now available_at > int n | CoalesceOne \<Rightarrow> False)"

section \<open>Validation\<close>

text \<open>The first point of an interval grid at or after a floor, in checked arithmetic. The dividend is
  not negative where this is used, so \<open>div\<close> is the quotient of the code.\<close>

definition grid_from :: "int \<Rightarrow> int \<Rightarrow> int \<Rightarrow> (policy_error, int) result" where
  "grid_from anchor step distance =
    bind_res (ok_or Malformed (checked_i64 (distance + (step - 1)))) (\<lambda>d.
    bind_res (ok_or Malformed (checked_i64 (d div step * step))) (\<lambda>m.
    ok_or Malformed (checked_i64 (anchor + m))))"

definition trigger_validate :: "('z, 'd) calendar \<Rightarrow> schedule \<Rightarrow> (policy_error, unit) result" where
  "trigger_validate cal s =
    (case sched_trigger s of
       Once at \<Rightarrow> if at < sched_not_before s \<or> at \<ge> ends_at s then Inl (Fail Malformed) else Inr ()
     | Interval anchor seconds \<Rightarrow>
         if anchor < 0 \<or> \<not> (60 \<le> seconds \<and> seconds \<le> 31536000) then Inl (Fail Malformed)
         else bind_res
           (if anchor \<ge> sched_not_before s then Inr anchor
            else bind_res (ok_or Malformed (checked_i64 (sched_not_before s - anchor))) (\<lambda>distance.
              grid_from anchor (int seconds) distance)) (\<lambda>first.
           if first \<ge> ends_at s then Inl (Fail Malformed) else Inr ())
     | Weekly name weekday minute \<Rightarrow>
         bind_res (zone cal name) (\<lambda>_.
           if \<not> (1 \<le> weekday \<and> weekday \<le> 7) \<or> minute \<ge> 1440 then Inl (Fail Malformed) else Inr ())
     | CheckIn n \<Rightarrow> if \<not> (60 \<le> n \<and> n \<le> 31536000) then Inl (Fail Malformed) else Inr ()
     | _ \<Rightarrow> Inr ())"

definition window_validate :: "('z, 'd) calendar \<Rightarrow> window \<Rightarrow> (policy_error, unit) result" where
  "window_validate cal w =
    bind_res (zone cal (window_zone w)) (\<lambda>_.
      if window_weekdays w = [] \<or> list_ex (\<lambda>d. \<not> (1 \<le> d \<and> d \<le> 7)) (window_weekdays w)
         \<or> window_start_minute w = window_end_minute w
         \<or> window_start_minute w \<ge> 1440 \<or> window_end_minute w > 1440
      then Inl (Fail Malformed) else Inr ())"

definition schedule_validate :: "('z, 'd) calendar \<Rightarrow> schedule \<Rightarrow> (policy_error, unit) result" where
  "schedule_validate cal s =
    (if sched_not_before s < 0 \<or> ends_at s \<le> sched_not_before s \<or> sched_jitter_seconds s > 3600
     then Inl (Fail Malformed)
     else bind_res (ensure (cal_timestamp cal (sched_not_before s)) Malformed) (\<lambda>_.
       bind_res (case sched_until s of None \<Rightarrow> Inr () | Some u \<Rightarrow> ensure (cal_timestamp cal u) Malformed) (\<lambda>_.
       bind_res (trigger_validate cal s) (\<lambda>_.
       case sched_window s of None \<Rightarrow> Inr () | Some w \<Rightarrow> window_validate cal w))))"

section \<open>Windows and occurrences\<close>

text \<open>One start day: the window of that day, if it ends after the given time.\<close>

definition window_day :: "('z, 'd) calendar \<Rightarrow> window \<Rightarrow> 'z \<Rightarrow> int \<Rightarrow> 'd \<Rightarrow> (policy_error, (int \<times> int option) option) result" where
  "window_day cal w tz at date =
    (if cal_weekday cal date \<in> set (window_weekdays w)
     then bind_res (local cal tz date (window_start_minute w)) (\<lambda>start.
       bind_res (if window_end_minute w < window_start_minute w
                 then ok_or Malformed (cal_next_day cal date) else Inr date) (\<lambda>end_date.
       bind_res (local cal tz end_date (window_end_minute w)) (\<lambda>finish.
       Inr (case (start, finish) of
         (Some a, Some b) \<Rightarrow> if at < b \<and> a < b then Some (max at a, Some b) else None
       | _ \<Rightarrow> None))))
     else Inr None)"

text \<open>The loop over 16 start days from the day before; \<open>n\<close> counts the remaining days.\<close>

fun window_scan :: "('z, 'd) calendar \<Rightarrow> window \<Rightarrow> 'z \<Rightarrow> int \<Rightarrow> nat \<Rightarrow> 'd \<Rightarrow> (policy_error, (int \<times> int option) option) result" where
  "window_scan cal w tz at 0 date = Inr None"
| "window_scan cal w tz at (Suc n) date =
    bind_res (window_day cal w tz at date) (\<lambda>found.
    case found of
      Some r \<Rightarrow> Inr (Some r)
    | None \<Rightarrow> bind_res (ok_or Malformed (cal_next_day cal date)) (window_scan cal w tz at n))"

definition window_next :: "('z, 'd) calendar \<Rightarrow> window \<Rightarrow> int \<Rightarrow> (policy_error, (int \<times> int option) option) result" where
  "window_next cal w at =
    bind_res (zone cal (window_zone w)) (\<lambda>tz.
    bind_res (ensure (cal_timestamp cal at) Malformed) (\<lambda>_.
    bind_res (ok_or Malformed (cal_prev_day cal (cal_date cal tz at))) (window_scan cal w tz at 16)))"

text \<open>The first eight bytes of the hash of the identity and the coordinate, modulo the bound.\<close>

definition jitter :: "(byte list \<Rightarrow> digest) \<Rightarrow> byte list \<Rightarrow> schedule \<Rightarrow> int \<Rightarrow> nat" where
  "jitter sha identity s coordinate =
    unat (of_be_bytes (take 8 (be_bytes 32 (sha (identity @ be_bytes 8 (word_of_int coordinate :: u64))))) :: u64)
      mod (sched_jitter_seconds s + 1)"

definition schedule_occurrence ::
  "('z, 'd) calendar \<Rightarrow> (byte list \<Rightarrow> digest) \<Rightarrow> schedule \<Rightarrow> int \<Rightarrow> byte list \<Rightarrow> (policy_error, occurrence option) result" where
  "schedule_occurrence cal sha s coordinate identity =
    bind_res (schedule_validate cal s) (\<lambda>_.
    if coordinate < sched_not_before s \<or> coordinate \<ge> ends_at s then Inr None
    else bind_res (ok_or Malformed (checked_i64 (coordinate + int (jitter sha identity s coordinate)))) (\<lambda>earliest.
      bind_res (case sched_window s of Some w \<Rightarrow> window_next cal w earliest | None \<Rightarrow> Inr (Some (earliest, None))) (\<lambda>available.
      Inr (case available of None \<Rightarrow> None
        | Some (at, window_end) \<Rightarrow> if at < ends_at s
            then Some \<lparr>occ_coordinate = coordinate, occ_available_at = at, occ_window_end = window_end\<rparr> else None))))"

section \<open>The latest due occurrence\<close>

text \<open>The loop over 15 days back.\<close>

fun weekly_back :: "('z, 'd) calendar \<Rightarrow> 'z \<Rightarrow> nat \<Rightarrow> nat \<Rightarrow> int \<Rightarrow> nat \<Rightarrow> 'd \<Rightarrow> (policy_error, int option) result" where
  "weekly_back cal tz weekday minute now 0 date = Inr None"
| "weekly_back cal tz weekday minute now (Suc n) date =
    bind_res (if cal_weekday cal date = weekday then local cal tz date minute else Inr None) (\<lambda>at.
    if (case at of Some t \<Rightarrow> t \<le> now | None \<Rightarrow> False) then Inr at
    else bind_res (ok_or Malformed (cal_prev_day cal date)) (weekly_back cal tz weekday minute now n))"

definition due_base :: "('z, 'd) calendar \<Rightarrow> schedule \<Rightarrow> int \<Rightarrow> (policy_error, int option) result" where
  "due_base cal s now =
    (case sched_trigger s of
       Once at \<Rightarrow> Inr (Some at)
     | Interval anchor seconds \<Rightarrow>
         if now \<ge> anchor
         then bind_res (or_panic (checked_i64 (now - anchor))) (\<lambda>d.
           bind_res (or_panic (checked_i64 (d div int seconds * int seconds))) (\<lambda>m.
           bind_res (or_panic (checked_i64 (anchor + m))) (\<lambda>t. Inr (Some t))))
         else Inr None
     | Weekly name weekday minute \<Rightarrow>
         bind_res (zone cal name) (\<lambda>tz.
         bind_res (ensure (cal_timestamp cal now) Malformed) (\<lambda>_.
         weekly_back cal tz weekday minute now 15 (cal_date cal tz now)))
     | _ \<Rightarrow> Inr None)"

definition due ::
  "('z, 'd) calendar \<Rightarrow> (byte list \<Rightarrow> digest) \<Rightarrow> schedule \<Rightarrow> int \<Rightarrow> int \<Rightarrow> byte list \<Rightarrow> (policy_error, occurrence option) result" where
  "due cal sha s after now identity =
    bind_res (schedule_validate cal s) (\<lambda>_.
    if now < sched_not_before s \<or> now \<ge> ends_at s \<or> now \<le> after then Inr None
    else bind_res (due_base cal s now) (\<lambda>base.
      case base of
        None \<Rightarrow> Inr None
      | Some at \<Rightarrow>
          if \<not> (at > after \<and> at \<ge> sched_not_before s \<and> at \<le> now) then Inr None
          else bind_res (schedule_occurrence cal sha s at identity) (\<lambda>found.
            case found of
              None \<Rightarrow> Inr None
            | Some found_occ \<Rightarrow> if missed s (occ_available_at found_occ) now then Inr None else Inr (Some found_occ))))"

definition collection_due ::
  "('z, 'd) calendar \<Rightarrow> (byte list \<Rightarrow> digest) \<Rightarrow> schedule \<Rightarrow> int option \<Rightarrow> int \<Rightarrow> byte list \<Rightarrow> (policy_error, occurrence option) result" where
  "collection_due cal sha s last_started now identity =
    (case (last_started, sched_trigger s) of
       (Some started, Interval _ seconds) \<Rightarrow>
         bind_res (ok_or Malformed (checked_i64 (started + int seconds))) (\<lambda>next.
           if next > now then Inr None else schedule_occurrence cal sha s now identity)
     | _ \<Rightarrow> due cal sha s (- 1) now identity)"

section \<open>The next occurrence\<close>

fun weekly_forward :: "('z, 'd) calendar \<Rightarrow> 'z \<Rightarrow> nat \<Rightarrow> nat \<Rightarrow> int \<Rightarrow> nat \<Rightarrow> 'd \<Rightarrow> (policy_error, int option) result" where
  "weekly_forward cal tz weekday minute floor 0 date = Inr None"
| "weekly_forward cal tz weekday minute floor (Suc n) date =
    bind_res (if cal_weekday cal date = weekday then local cal tz date minute else Inr None) (\<lambda>at.
    if (case at of Some t \<Rightarrow> t \<ge> floor | None \<Rightarrow> False) then Inr at
    else bind_res (ok_or Malformed (cal_next_day cal date)) (weekly_forward cal tz weekday minute floor n))"

definition next_coordinate :: "('z, 'd) calendar \<Rightarrow> schedule \<Rightarrow> int \<Rightarrow> int \<Rightarrow> (policy_error, int option) result" where
  "next_coordinate cal s now floor =
    (case sched_trigger s of
       Once at \<Rightarrow> Inr (if at \<ge> floor then Some at else None)
     | Interval anchor seconds \<Rightarrow>
         bind_res (grid_from anchor (int seconds) (max (saturating_sub_i64 floor anchor) 0)) (\<lambda>t. Inr (Some t))
     | Weekly name weekday minute \<Rightarrow>
         bind_res (zone cal name) (\<lambda>tz.
         bind_res (ensure (cal_timestamp cal floor) Malformed) (\<lambda>_.
         weekly_forward cal tz weekday minute floor 15 (cal_date cal tz floor)))
     | _ \<Rightarrow> Inr (if sched_not_before s > now then Some (sched_not_before s) else None))"

definition next_after ::
  "('z, 'd) calendar \<Rightarrow> (byte list \<Rightarrow> digest) \<Rightarrow> schedule \<Rightarrow> int \<Rightarrow> byte list \<Rightarrow> (policy_error, occurrence option) result" where
  "next_after cal sha s now identity =
    bind_res (schedule_validate cal s) (\<lambda>_.
    if now \<ge> ends_at s then Inr None
    else bind_res (due cal sha s (- 1) now identity) (\<lambda>current.
      if (case current of Some found_occ \<Rightarrow> occ_available_at found_occ > now | None \<Rightarrow> False) then Inr current
      else bind_res (ok_or Malformed (checked_i64 (now + 1))) (\<lambda>n.
        bind_res (next_coordinate cal s now (max n (sched_not_before s))) (\<lambda>coordinate.
        case coordinate of Some at \<Rightarrow> schedule_occurrence cal sha s at identity | None \<Rightarrow> Inr None))))"

end
