(* ===== verification/Policy_Schedule_Properties.thy ===== *)
theory Policy_Schedule_Properties
  imports Policy_Schedule
begin

text \<open>
  What the schedule decisions promise, for every calendar and every hash: an occurrence lies within
  its bounds, an interval yields the latest grid point, scanning with an advancing cursor never
  repeats an occurrence, the next occurrence lies in the future, and no arithmetic overflows.
\<close>

section \<open>Validation\<close>

lemma validated:
  assumes "schedule_validate cal s = Inr u"
  shows "0 \<le> sched_not_before s" "sched_not_before s < ends_at s" "sched_jitter_seconds s \<le> 3600"
    "sched_trigger s = Interval anchor seconds \<Longrightarrow> 0 \<le> anchor \<and> 60 \<le> seconds \<and> seconds \<le> 31536000"
  using assms by (auto simp: schedule_validate_def trigger_validate_def split: if_splits)

lemma jitter_le: "jitter sha identity s c \<le> sched_jitter_seconds s"
  unfolding jitter_def using mod_less_divisor [of "sched_jitter_seconds s + 1"] by (simp add: less_Suc_eq_le)

section \<open>Windows\<close>

lemma window_day_bounds:
  assumes "window_day cal w tz at date = Inr (Some (a, e))"
  shows "at \<le> a \<and> (\<exists>b. e = Some b \<and> a < b)"
proof -
  have "at \<le> a \<and> (\<exists>b. e = Some b \<and> a < b)"
    if "(case (start, finish) of (Some a, Some b) \<Rightarrow> if at < b \<and> a < b then Some (max at a, Some b) else None
      | _ \<Rightarrow> None) = Some (a, e)" for start finish
    using that by (auto split: option.split_asm if_split_asm)
  with assms show ?thesis by (auto simp: window_day_def split: if_split_asm)
qed

lemma window_scan_bounds:
  "window_scan cal w tz at n date = Inr (Some (a, e)) \<Longrightarrow> at \<le> a \<and> (\<exists>b. e = Some b \<and> a < b)"
proof (induction n arbitrary: date)
  case (Suc n)
  then obtain found where f: "window_day cal w tz at date = Inr found"
    "(case found of Some r \<Rightarrow> Inr (Some r)
      | None \<Rightarrow> bind_res (ok_or Malformed (cal_next_day cal date)) (window_scan cal w tz at n)) = Inr (Some (a, e))"
    by auto
  then show ?case using Suc.IH by (cases found) (auto dest: window_day_bounds)
qed simp

lemma window_next_bounds:
  "window_next cal w at = Inr (Some (a, e)) \<Longrightarrow> at \<le> a \<and> (\<exists>b. e = Some b \<and> a < b)"
  by (auto simp: window_next_def dest: window_scan_bounds)

definition occurrence_ok :: "schedule \<Rightarrow> occurrence \<Rightarrow> bool" where
  "occurrence_ok s x \<longleftrightarrow> sched_not_before s \<le> occ_coordinate x \<and> occ_coordinate x \<le> occ_available_at x \<and>
    occ_available_at x < ends_at s \<and>
    (case sched_window s of
       None \<Rightarrow> occ_window_end x = None \<and> occ_available_at x \<le> occ_coordinate x + int (sched_jitter_seconds s)
     | Some _ \<Rightarrow> \<exists>b. occ_window_end x = Some b \<and> occ_available_at x < b)"

lemma schedule_occurrence_Inr:
  assumes "schedule_occurrence cal sha s c identity = Inr (Some x)"
  shows "occ_coordinate x = c" "occurrence_ok s x"
proof -
  from assms obtain e available where
    e: "e = c + int (jitter sha identity s c)" "sched_not_before s \<le> c"
    and a: "(case sched_window s of Some w \<Rightarrow> window_next cal w e | None \<Rightarrow> Inr (Some (e, None))) = Inr available"
    and r: "(case available of None \<Rightarrow> None | Some (at, window_end) \<Rightarrow> if at < ends_at s
        then Some \<lparr>occ_coordinate = c, occ_available_at = at, occ_window_end = window_end\<rparr> else None) = Some x"
    by (auto simp: schedule_occurrence_def split: if_split_asm)
  from r obtain at we where x: "x = \<lparr>occ_coordinate = c, occ_available_at = at, occ_window_end = we\<rparr>" "at < ends_at s"
    and "available = Some (at, we)"
    by (auto split: option.split_asm if_split_asm prod.split_asm)
  with a have av: "(case sched_window s of Some w \<Rightarrow> window_next cal w e | None \<Rightarrow> Inr (Some (e, None))) = Inr (Some (at, we))"
    by simp
  show "occ_coordinate x = c" using x by simp
  have j: "int (jitter sha identity s c) \<le> int (sched_jitter_seconds s)" using jitter_le by simp
  show "occurrence_ok s x"
  proof (cases "sched_window s")
    case None
    with av x e j show ?thesis by (auto simp: occurrence_ok_def)
  next
    case (Some w)
    with av have "window_next cal w e = Inr (Some (at, we))" by simp
    from window_next_bounds [OF this] Some x e show ?thesis by (auto simp: occurrence_ok_def)
  qed
qed

section \<open>Due occurrences\<close>

lemma due_Inr:
  assumes "due cal sha s after now identity = Inr (Some x)"
  shows "schedule_validate cal s = Inr ()" "due_base cal s now = Inr (Some (occ_coordinate x))"
    "after < occ_coordinate x" "occ_coordinate x \<le> now" "occurrence_ok s x" "now < ends_at s"
    "\<not> missed s (occ_available_at x) now"
  using assms by (auto simp: due_def dest: schedule_occurrence_Inr split: if_splits option.splits)

lemma due_base_interval:
  assumes "due_base cal s now = Inr (Some t)" "sched_trigger s = Interval anchor seconds"
  shows "anchor \<le> now" "t = anchor + (now - anchor) div int seconds * int seconds"
  using assms by (auto simp: due_base_def split: if_splits)

text \<open>The grid point of a division is the last one not after the time.\<close>

lemma grid_latest:
  fixes anchor now step :: int
  assumes "0 < step" "t = anchor + (now - anchor) div step * step"
  shows "t \<le> now" "now < t + step" "anchor + k * step \<le> now \<Longrightarrow> anchor + k * step \<le> t"
proof -
  have m: "(now - anchor) div step * step = now - anchor - (now - anchor) mod step"
    by (simp add: minus_mod_eq_div_mult)
  have "0 \<le> (now - anchor) mod step" "(now - anchor) mod step < step" using assms(1) by simp_all
  then show "t \<le> now" "now < t + step" unfolding assms(2) m by simp_all
  assume "anchor + k * step \<le> now"
  then have "k \<le> (now - anchor) div step"
    using assms(1) by (metis le_diff_eq add.commute zdiv_mono1 nonzero_mult_div_cancel_right less_irrefl)
  then show "anchor + k * step \<le> t" unfolding assms(2) using assms(1) by simp
qed

lemma grid_from_Inr:
  assumes "grid_from anchor step d = Inr t" "0 < step"
  shows "\<exists>k. t = anchor + k * step" "anchor + d \<le> t" "t < anchor + d + step"
proof -
  have t: "t = anchor + (d + (step - 1)) div step * step" using assms(1) by (auto simp: grid_from_def)
  have m: "(d + (step - 1)) div step * step = d + (step - 1) - (d + (step - 1)) mod step"
    by (simp add: minus_mod_eq_div_mult)
  have "0 \<le> (d + (step - 1)) mod step" "(d + (step - 1)) mod step < step" using assms(2) by simp_all
  then show "anchor + d \<le> t" "t < anchor + d + step" unfolding t m by simp_all
  show "\<exists>k. t = anchor + k * step" unfolding t by blast
qed

section \<open>Absence of overflow\<close>

lemma no_panic_zone [no_panic_intros]: "no_panic (zone cal name)"
  by (auto simp: zone_def)

lemma no_panic_local [no_panic_intros]: "no_panic (local cal tz date minute)"
  by (auto simp: local_def intro!: no_panic_intros split: local_time.splits)

lemma no_panic_grid [no_panic_intros]: "no_panic (grid_from a b c)"
  by (auto simp: grid_from_def intro!: no_panic_intros)

lemma no_panic_validate [no_panic_intros]: "no_panic (schedule_validate cal s)"
  by (auto simp: schedule_validate_def trigger_validate_def window_validate_def
      intro!: no_panic_intros split: trigger.splits option.splits)

lemma no_panic_window_scan [no_panic_intros]: "no_panic (window_scan cal w tz at n date)"
proof (induction n arbitrary: date)
  case (Suc n)
  have "no_panic (window_day cal w tz at date)" for date by (auto simp: window_day_def intro!: no_panic_intros)
  with Suc show ?case by (auto intro!: no_panic_intros split: option.splits)
qed simp

lemma no_panic_weekly_back [no_panic_intros]: "no_panic (weekly_back cal tz weekday minute now n date)"
proof (induction n arbitrary: date)
  case (Suc n)
  then show ?case by (auto intro!: no_panic_intros)
qed simp

lemma no_panic_weekly_forward [no_panic_intros]: "no_panic (weekly_forward cal tz weekday minute now n date)"
proof (induction n arbitrary: date)
  case (Suc n)
  then show ?case by (auto intro!: no_panic_intros)
qed simp

lemma no_panic_occurrence [no_panic_intros]: "no_panic (schedule_occurrence cal sha s c identity)"
  by (auto simp: schedule_occurrence_def window_next_def intro!: no_panic_intros split: option.splits)

lemma no_panic_due_base:
  assumes "schedule_validate cal s = Inr ()" "in_i64 now"
  shows "no_panic (due_base cal s now)"
proof (cases "sched_trigger s")
  case (Interval anchor seconds)
  note a = validated(4) [OF assms(1) Interval]
  have "in_i64 (now - anchor) \<and> in_i64 ((now - anchor) div int seconds * int seconds) \<and>
    in_i64 (anchor + (now - anchor) div int seconds * int seconds)" if "anchor \<le> now"
  proof -
    have t: "anchor + (now - anchor) div int seconds * int seconds \<le> now"
      using grid_latest(1) [OF _ refl] a by simp
    have "0 \<le> (now - anchor) div int seconds * int seconds"
      using that a by (intro mult_nonneg_nonneg) (simp_all add: pos_imp_zdiv_nonneg_iff)
    with t that a assms(2) show ?thesis by (auto simp: in_i64_def i64_min_def)
  qed
  then show ?thesis by (auto simp: due_base_def Interval checked_i64_def)
qed (auto simp: due_base_def intro!: no_panic_intros)

lemma no_panic_due: "in_i64 now \<Longrightarrow> no_panic (due cal sha s after now identity)"
  by (auto simp: due_def intro!: no_panic_intros no_panic_due_base split: option.splits)


lemma no_panic_next_after: "in_i64 now \<Longrightarrow> no_panic (next_after cal sha s now identity)"
  by (auto simp: next_after_def next_coordinate_def intro!: no_panic_intros no_panic_due
      split: option.splits trigger.splits)

lemma no_panic_collection_due: "in_i64 now \<Longrightarrow> no_panic (collection_due cal sha s started now identity)"
  by (auto simp: collection_due_def intro!: no_panic_intros no_panic_due split: option.splits trigger.splits)

section \<open>The next occurrence\<close>

lemma weekly_forward_ge: "weekly_forward cal tz d m floor n date = Inr (Some t) \<Longrightarrow> floor \<le> t"
proof (induction n arbitrary: date)
  case (Suc n)
  then obtain at where "(if (case at of Some t \<Rightarrow> t \<ge> floor | None \<Rightarrow> False) then Inr at
      else bind_res (ok_or Malformed (cal_next_day cal date)) (weekly_forward cal tz d m floor n)) = Inr (Some t)"
    by auto
  then show ?case using Suc.IH by (auto split: if_split_asm option.split_asm)
qed simp

text \<open>For an interval, the next coordinate is the first point of the grid, at or after the anchor, that
  is not before the floor.\<close>

lemma next_coordinate_interval:
  assumes "next_coordinate cal s now floor = Inr (Some t)" "sched_trigger s = Interval anchor seconds"
    and "0 < seconds" "in_i64 floor" "0 \<le> anchor" "0 \<le> floor"
  shows "\<exists>k. t = anchor + k * int seconds" "floor \<le> t" "anchor \<le> t" "t < max floor anchor + int seconds"
proof -
  have "saturating_sub_i64 floor anchor = floor - anchor \<or> (saturating_sub_i64 floor anchor \<le> 0 \<and> floor \<le> anchor)"
    using assms(4-6) by (auto simp: saturating_sub_i64_def in_i64_def i64_min_def i64_max_def)
  then have d: "max (saturating_sub_i64 floor anchor) 0 = max floor anchor - anchor" by auto
  have "grid_from anchor (int seconds) (max floor anchor - anchor) = Inr t"
    using assms(1,2) d by (auto simp: next_coordinate_def)
  from grid_from_Inr [OF this] assms(3)
  show "\<exists>k. t = anchor + k * int seconds" "floor \<le> t" "anchor \<le> t" "t < max floor anchor + int seconds" by auto
qed

lemma next_coordinate_ge:
  assumes "next_coordinate cal s now (max (now + 1) (sched_not_before s)) = Inr (Some t)"
    and "schedule_validate cal s = Inr ()" "in_i64 (now + 1)" "in_i64 (sched_not_before s)"
  shows "now < t"
proof (cases "sched_trigger s")
  case (Interval anchor seconds)
  note v = validated [OF assms(2)]
  have "in_i64 (max (now + 1) (sched_not_before s))" using assms(3,4) by (simp add: max_def)
  moreover have "0 \<le> max (now + 1) (sched_not_before s)" using v(1) by simp
  ultimately show ?thesis
    using next_coordinate_interval(2) [OF assms(1) Interval] v(4) [OF Interval] by simp
next
  case (Weekly name weekday minute)
  with assms(1) have "max (now + 1) (sched_not_before s) \<le> t"
    by (auto simp: next_coordinate_def dest: weekly_forward_ge)
  then show ?thesis by simp
qed (use assms(1) in \<open>auto simp: next_coordinate_def split: if_split_asm\<close>)

lemma next_after_Inr:
  assumes "next_after cal sha s now identity = Inr (Some x)"
  shows "schedule_validate cal s = Inr ()" "now < ends_at s"
    "due cal sha s (- 1) now identity = Inr (Some x) \<and> now < occ_available_at x \<or>
     in_i64 (now + 1) \<and> schedule_occurrence cal sha s (occ_coordinate x) identity = Inr (Some x) \<and>
     next_coordinate cal s now (max (now + 1) (sched_not_before s)) = Inr (Some (occ_coordinate x))"
proof -
  from assms obtain current where v: "schedule_validate cal s = Inr ()" "now < ends_at s"
    and cur: "due cal sha s (- 1) now identity = Inr current"
    and rest: "(if (case current of Some found_occ \<Rightarrow> occ_available_at found_occ > now | None \<Rightarrow> False) then Inr current
      else bind_res (ok_or Malformed (checked_i64 (now + 1))) (\<lambda>n.
        bind_res (next_coordinate cal s now (max n (sched_not_before s))) (\<lambda>coordinate.
        case coordinate of Some at \<Rightarrow> schedule_occurrence cal sha s at identity | None \<Rightarrow> Inr None))) = Inr (Some x)"
    by (auto simp: next_after_def split: if_split_asm)
  show "schedule_validate cal s = Inr ()" "now < ends_at s" by (rule v)+
  show "due cal sha s (- 1) now identity = Inr (Some x) \<and> now < occ_available_at x \<or>
     in_i64 (now + 1) \<and> schedule_occurrence cal sha s (occ_coordinate x) identity = Inr (Some x) \<and>
     next_coordinate cal s now (max (now + 1) (sched_not_before s)) = Inr (Some (occ_coordinate x))"
  proof (cases "case current of Some found_occ \<Rightarrow> occ_available_at found_occ > now | None \<Rightarrow> False")
    case True
    with rest cur show ?thesis by auto
  next
    case False
    with rest obtain c where n: "in_i64 (now + 1)" and c: "next_coordinate cal s now (max (now + 1) (sched_not_before s)) = Inr c"
      and o: "(case c of Some at \<Rightarrow> schedule_occurrence cal sha s at identity | None \<Rightarrow> Inr None) = Inr (Some x)"
      by auto
    from o obtain at where at: "c = Some at" "schedule_occurrence cal sha s at identity = Inr (Some x)"
      by (cases c) auto
    with schedule_occurrence_Inr(1) [OF at(2)] n c show ?thesis by simp
  qed
qed

section \<open>Scanning with a cursor\<close>

text \<open>The scans of one device: each scan starts where the previous one stopped, and the occurrences
  found are collected.\<close>

fun scans :: "('z, 'd) calendar \<Rightarrow> (byte list \<Rightarrow> digest) \<Rightarrow> schedule \<Rightarrow> byte list \<Rightarrow> int \<Rightarrow> int list \<Rightarrow> (policy_error, occurrence list) result" where
  "scans cal sha s identity cursor [] = Inr []"
| "scans cal sha s identity cursor (now # nows) =
    bind_res (due cal sha s cursor now identity) (\<lambda>found.
    bind_res (scans cal sha s identity now nows) (\<lambda>rest.
    Inr (case found of None \<Rightarrow> rest | Some x \<Rightarrow> x # rest)))"

lemma scans_increasing:
  assumes "scans cal sha s identity cursor nows = Inr xs" "sorted_wrt (<) (cursor # nows)"
  shows "sorted_wrt (<) (map occ_coordinate xs) \<and> (\<forall>x \<in> set xs. cursor < occ_coordinate x \<and> occurrence_ok s x)"
  using assms
proof (induction nows arbitrary: cursor xs)
  case Nil
  then show ?case by simp
next
  case (Cons now nows)
  from Cons.prems(1) obtain found rest where f: "due cal sha s cursor now identity = Inr found"
    and r: "scans cal sha s identity now nows = Inr rest" "xs = (case found of None \<Rightarrow> rest | Some x \<Rightarrow> x # rest)"
    by auto
  note ih = Cons.IH [OF r(1)]
  from ih Cons.prems(2) have rest: "sorted_wrt (<) (map occ_coordinate rest)"
    "\<forall>x \<in> set rest. now < occ_coordinate x \<and> occurrence_ok s x" by auto
  show ?case
  proof (cases found)
    case None
    then show ?thesis using rest r(2) Cons.prems(2) by force
  next
    case (Some x)
    note d = due_Inr(3-5) [OF f [unfolded Some]]
    show ?thesis using rest r(2) Some d Cons.prems(2) by force
  qed
qed


section \<open>Samples\<close>

text \<open>A calendar with one zone, UTC, and days counted from 1970-01-01, a Thursday.\<close>

definition utc :: "(unit, int) calendar" where
  "utc = \<lparr>cal_zone = (\<lambda>name. if name = ''UTC'' then Some () else None), cal_timestamp = (\<lambda>t. \<bar>t\<bar> \<le> 253402207200),
     cal_date = (\<lambda>_ t. t div 86400), cal_next_day = (\<lambda>d. Some (d + 1)), cal_prev_day = (\<lambda>d. Some (d - 1)),
     cal_weekday = (\<lambda>d. nat ((d + 3) mod 7 + 1)), cal_local = (\<lambda>_ d h m. LAt (d * 86400 + int h * 3600 + int m * 60))\<rparr>"

definition no_sha :: "byte list \<Rightarrow> digest" where
  "no_sha bs = 0"

definition hourly :: schedule where
  "hourly = \<lparr>sched_trigger = Interval 0 3600, sched_misfire = CoalesceOne, sched_not_before = 0, sched_until = None,
     sched_jitter_seconds = 0,
     sched_window = Some \<lparr>window_zone = ''UTC'', window_weekdays = [1, 2, 3, 4, 5], window_start_minute = 480, window_end_minute = 1020\<rparr>\<rparr>"

lemmas schedule_eval = schedule_validate_def trigger_validate_def window_validate_def zone_def ends_at_def
  due_def due_base_def schedule_occurrence_def window_next_def window_day_def local_def missed_def
  checked_i64_def in_i64_def i64_max_def i64_min_def next_after_def next_coordinate_def grid_from_def saturating_sub_i64_def

lemma hourly_jitter: "sched_jitter_seconds s = 0 \<Longrightarrow> jitter sha identity s c = 0"
  by (simp add: jitter_def)

lemma window_scan_16: "window_scan cal w tz at 16 date = bind_res (window_day cal w tz at date) (\<lambda>found.
    case found of Some r \<Rightarrow> Inr (Some r)
    | None \<Rightarrow> bind_res (ok_or Malformed (cal_next_day cal date)) (window_scan cal w tz at 15))"
  "window_scan cal w tz at 15 date = bind_res (window_day cal w tz at date) (\<lambda>found.
    case found of Some r \<Rightarrow> Inr (Some r)
    | None \<Rightarrow> bind_res (ok_or Malformed (cal_next_day cal date)) (window_scan cal w tz at 14))"
  using window_scan.simps(2) [of cal w tz at 15 date] window_scan.simps(2) [of cal w tz at 14 date]
  by (simp_all del: window_scan.simps)

text \<open>Friday 2 January 1970, 05:00 is before the window of that day, 08:00 to 17:00.\<close>

definition friday_occurrence :: occurrence where
  "friday_occurrence = \<lparr>occ_coordinate = 104400, occ_available_at = 115200, occ_window_end = Some 147600\<rparr>"

lemma hourly_due: "due utc no_sha hourly 0 104500 [] = Inr (Some friday_occurrence)"
  by (simp add: schedule_eval hourly_jitter window_scan_16 hourly_def utc_def friday_occurrence_def)

lemma hourly_next: "next_after utc no_sha hourly 104500 [] = Inr (Some friday_occurrence)"
proof -
  have "schedule_validate utc hourly = Inr ()" "ends_at hourly = 9223372036854775807"
    by (simp_all add: schedule_eval hourly_def utc_def)
  moreover have "due utc no_sha hourly (- 1) 104500 [] = Inr (Some friday_occurrence)"
    by (simp add: schedule_eval hourly_jitter window_scan_16 hourly_def utc_def friday_occurrence_def)
  ultimately show ?thesis by (simp add: next_after_def friday_occurrence_def)
qed

section \<open>Properties\<close>

text \<open>C9: A due occurrence lies within its bounds: its coordinate is after the cursor, not after the
  current time and within the validity of the schedule; it becomes available at or after its
  coordinate and before the end, within the jitter bound when there is no window and before the
  end of its window otherwise; and it is not one the misfire rule rejects.\<close>

theorem schedule_due_bounds:
  assumes "due cal sha s after now identity = Inr (Some x)"
  shows "after < occ_coordinate x \<and> occ_coordinate x \<le> now \<and> now < ends_at s \<and>
    sched_not_before s \<le> occ_coordinate x \<and> occ_coordinate x \<le> occ_available_at x \<and> occ_available_at x < ends_at s \<and>
    (sched_window s = None \<longrightarrow> occ_window_end x = None \<and>
      occ_available_at x \<le> occ_coordinate x + int (sched_jitter_seconds s)) \<and>
    (sched_window s \<noteq> None \<longrightarrow> (\<exists>b. occ_window_end x = Some b \<and> occ_available_at x < b)) \<and>
    \<not> missed s (occ_available_at x) now"
  using due_Inr(3-7) [OF assms] by (auto simp: occurrence_ok_def split: option.splits)

theorem schedule_due_bounds_witness:
  "0 < occ_coordinate friday_occurrence \<and> (\<exists>b. occ_window_end friday_occurrence = Some b \<and> occ_available_at friday_occurrence < b)"
  using schedule_due_bounds [OF hourly_due] by (simp add: hourly_def)

text \<open>An interval schedule coalesces: the due occurrence is the latest point of the grid of its anchor
  and period that is not after the current time; every earlier point is skipped.\<close>

theorem schedule_interval_latest:
  assumes "due cal sha s after now identity = Inr (Some x)" "sched_trigger s = Interval anchor seconds"
  shows "(\<exists>k \<ge> 0. occ_coordinate x = anchor + k * int seconds) \<and> occ_coordinate x \<le> now \<and>
    now < occ_coordinate x + int seconds \<and>
    (\<forall>k. anchor + k * int seconds \<le> now \<longrightarrow> anchor + k * int seconds \<le> occ_coordinate x)"
proof -
  note b = due_base_interval [OF due_Inr(2) [OF assms(1)] assms(2)]
  have s: "0 < int seconds" using validated(4) [OF due_Inr(1) [OF assms(1)] assms(2)] by simp
  have "0 \<le> (now - anchor) div int seconds" using b(1) s by (simp add: pos_imp_zdiv_nonneg_iff)
  with b(2) grid_latest [OF s b(2)] show ?thesis by blast
qed

theorem schedule_interval_latest_witness:
  "104500 < occ_coordinate friday_occurrence + 3600"
  using schedule_interval_latest [OF hourly_due, of 0 3600] by (simp add: hourly_def)

text \<open>Scanning never repeats an occurrence: when each scan starts from the time of the previous one,
  the coordinates of the occurrences found strictly increase, whatever the trigger, calendar and
  jitter.\<close>

theorem schedule_scans_once:
  assumes "scans cal sha s identity cursor nows = Inr xs" "sorted_wrt (<) (cursor # nows)"
  shows "sorted_wrt (<) (map occ_coordinate xs) \<and> distinct (map occ_coordinate xs) \<and>
    (\<forall>x \<in> set xs. cursor < occ_coordinate x)"
  using scans_increasing [OF assms] strict_sorted_iff [of "map occ_coordinate xs"] by blast

theorem schedule_scans_once_witness:
  "scans utc no_sha hourly [] 0 [104500] = Inr [friday_occurrence] \<and> distinct (map occ_coordinate [friday_occurrence])"
proof -
  have sc: "scans utc no_sha hourly [] 0 [104500] = Inr [friday_occurrence]" by (simp add: hourly_due)
  show ?thesis using sc schedule_scans_once [OF sc] by simp
qed

text \<open>The next occurrence lies in the future and inside the schedule; on an interval schedule it is
  either the current grid point, delayed by jitter or a window, or the first grid point after the
  current time that the schedule allows.\<close>

theorem schedule_next_after_future:
  assumes "next_after cal sha s now identity = Inr (Some x)" "in_i64 (sched_not_before s)"
  shows "now < occ_available_at x \<and> occ_available_at x < ends_at s \<and>
    (\<forall>anchor seconds. sched_trigger s = Interval anchor seconds \<longrightarrow>
      (\<exists>k. occ_coordinate x = anchor + k * int seconds) \<and>
      (now < occ_coordinate x \<longrightarrow> (\<forall>k \<ge> 0. max (now + 1) (sched_not_before s) \<le> anchor + k * int seconds \<longrightarrow>
        occ_coordinate x \<le> anchor + k * int seconds)))"
proof -
  note v = next_after_Inr [OF assms(1)]
  from v(3) show ?thesis
  proof (elim disjE conjE)
    assume d: "due cal sha s (- 1) now identity = Inr (Some x)" "now < occ_available_at x"
    then show ?thesis using due_Inr(4,5) [OF d(1)] due_base_interval [OF due_Inr(2) [OF d(1)]]
      by (auto simp: occurrence_ok_def)
  next
    assume n: "in_i64 (now + 1)" and o: "schedule_occurrence cal sha s (occ_coordinate x) identity = Inr (Some x)"
      and c: "next_coordinate cal s now (max (now + 1) (sched_not_before s)) = Inr (Some (occ_coordinate x))"
    have lt: "now < occ_coordinate x" by (rule next_coordinate_ge [OF c v(1) n assms(2)])
    have fl: "in_i64 (max (now + 1) (sched_not_before s))" "0 \<le> max (now + 1) (sched_not_before s)"
      using n assms(2) validated(1) [OF v(1)] by (auto simp: max_def)
    have "(\<exists>k. occ_coordinate x = anchor + k * int seconds) \<and>
        (\<forall>k \<ge> 0. max (now + 1) (sched_not_before s) \<le> anchor + k * int seconds \<longrightarrow> occ_coordinate x \<le> anchor + k * int seconds)"
      if t: "sched_trigger s = Interval anchor seconds" for anchor seconds
    proof -
      note a = validated(4) [OF v(1) t]
      note g = next_coordinate_interval [OF c t _ fl(1) _ fl(2)]
      from g a obtain j where j: "occ_coordinate x = anchor + j * int seconds"
        "anchor + j * int seconds < max (max (now + 1) (sched_not_before s)) anchor + int seconds" by auto
      have "occ_coordinate x \<le> anchor + k * int seconds"
        if "0 \<le> k" "max (now + 1) (sched_not_before s) \<le> anchor + k * int seconds" for k
      proof -
        have "0 \<le> k * int seconds" using that(1) by simp
        then have "anchor + j * int seconds < anchor + (k + 1) * int seconds"
          using j(2) that(2) by (auto simp: distrib_right max_def split: if_split_asm)
        then have "j \<le> k" using a by (simp add: mult_less_cancel_right)
        then show ?thesis using j(1) a by (simp add: mult_right_mono)
      qed
      with j show ?thesis by blast
    qed
    with lt schedule_occurrence_Inr(2) [OF o] show ?thesis by (auto simp: occurrence_ok_def)
  qed
qed

theorem schedule_next_after_future_witness:
  "104500 < occ_available_at friday_occurrence"
  using schedule_next_after_future [OF hourly_next] by (simp add: hourly_def in_i64_def i64_min_def i64_max_def)

text \<open>The schedule decisions never overflow: for every time in the range of an i64 the due, collection
  and next computations return a value or the malformed error, although some of their arithmetic
  is unchecked.\<close>

theorem schedule_never_overflows:
  assumes "in_i64 now"
  shows "no_panic (due cal sha s after now identity) \<and> no_panic (collection_due cal sha s started now identity) \<and>
    no_panic (next_after cal sha s now identity)"
  using assms no_panic_due no_panic_collection_due no_panic_next_after by blast

theorem schedule_never_overflows_witness:
  "no_panic (due utc no_sha hourly 0 9223372036854775806 [])"
  using schedule_never_overflows [of 9223372036854775806 utc no_sha hourly 0 "[]" None]
  by (simp add: in_i64_def i64_min_def i64_max_def)

end
