(* ===== verification/Policy_Self_Service.thy ===== *)
theory Policy_Self_Service
  imports Presentation Policy_Schedule
begin

text \<open>
  Parameter sources and self-service configuration, \<^verbatim>\<open>crates/policy/src/self_service.rs\<close>. The length
  of a serialized value comes from \<^verbatim>\<open>serde_json\<close> and is a parameter. A JSON object of this crate is
  a map in key order.
\<close>

section \<open>Parameter sources\<close>

datatype parameter_source = Fixed json | Input

type_synonym parameter_sources = "(string, parameter_source) btree_map"

fun is_input :: "parameter_source \<Rightarrow> bool" where
  "is_input Input \<longleftrightarrow> True"
| "is_input (Fixed _) \<longleftrightarrow> False"

definition has_input :: "parameter_sources \<Rightarrow> bool" where
  "has_input ps \<longleftrightarrow> list_ex is_input (bm_values ps)"

text \<open>A literal is a string without NUL, a boolean or an i64.\<close>

fun scalar_literal :: "json \<Rightarrow> bool" where
  "scalar_literal (JString s) \<longleftrightarrow> CHR 0x00 \<notin> set s"
| "scalar_literal (JBool _) \<longleftrightarrow> True"
| "scalar_literal (JNumber (JInt n)) \<longleftrightarrow> in_i64 n"
| "scalar_literal _ \<longleftrightarrow> False"

definition parameter_name_ok :: "string \<Rightarrow> bool" where
  "parameter_name_ok name \<longleftrightarrow> \<not> (name = [] \<or> length name > 64 \<or>
     \<not> list_all (\<lambda>b. is_ascii_alphanumeric b \<or> b = CHR ''_'') name)"

definition check_parameter :: "string \<times> parameter_source \<Rightarrow> unit \<Rightarrow> (policy_error, unit) result" where
  "check_parameter p u = (case p of (name, source) \<Rightarrow>
     if \<not> parameter_name_ok name then Inl (Fail Malformed)
     else (case source of
         Fixed v \<Rightarrow> if \<not> scalar_literal v then Inl (Fail Malformed) else Inr ()
       | Input \<Rightarrow> Inr ()))"

definition parameters_validate :: "(parameter_sources \<Rightarrow> nat option) \<Rightarrow> parameter_sources \<Rightarrow> (policy_error, unit) result" where
  "parameters_validate params_len ps =
    (if length ps > 32 then Inl (Fail Malformed)
     else bind_res (ok_or Malformed (params_len ps)) (\<lambda>n.
       if n > 65536 then Inl (Fail Malformed) else fold_res check_parameter ps ()))"

definition resolve_parameter ::
  "json_map \<Rightarrow> string \<times> parameter_source \<Rightarrow> json_map \<Rightarrow> (policy_error, json_map) result" where
  "resolve_parameter input p acc = (case p of (name, source) \<Rightarrow>
     bind_res (case source of Fixed v \<Rightarrow> Inr v | Input \<Rightarrow> ok_or Malformed (bm_get input name)) (\<lambda>v.
     Inr (bm_insert name v acc)))"

definition parameters_resolve ::
  "(parameter_sources \<Rightarrow> nat option) \<Rightarrow> parameter_sources \<Rightarrow> json \<Rightarrow> (policy_error, json) result" where
  "parameters_resolve params_len ps input =
    bind_res (parameters_validate params_len ps) (\<lambda>_.
    bind_res (case input of JObject m \<Rightarrow> Inr m | _ \<Rightarrow> Inl (Fail Malformed)) (\<lambda>m.
    if length m \<noteq> length (filter is_input (bm_values ps)) then Inl (Fail Malformed)
    else bind_res (fold_res (resolve_parameter m) ps []) (\<lambda>acc.
      if list_ex (\<lambda>name. \<not> (case bm_get ps name of Some Input \<Rightarrow> True | _ \<Rightarrow> False)) (bm_keys m)
      then Inl (Fail Malformed) else Inr (JObject acc))))"

definition fixed_values :: "parameter_sources \<Rightarrow> json" where
  "fixed_values ps = JObject (List.map_filter (\<lambda>(name, p).
     case p of Fixed v \<Rightarrow> Some (name, v) | Input \<Rightarrow> None) ps)"

section \<open>Self-service configuration\<close>

datatype script_risk = ScriptRisk nat

definition risk_direct :: script_risk where "risk_direct = ScriptRisk 1"
definition risk_confirm :: script_risk where "risk_confirm = ScriptRisk 2"

definition script_risk_try_from :: "nat \<Rightarrow> (policy_error, script_risk) result" where
  "script_risk_try_from v = (if v = 1 \<or> v = 2 then Inr (ScriptRisk v) else Inl (Fail Malformed))"

record self_service_source =
  sss_provider_id :: uuid
  sss_issuer :: string
  sss_configuration_version :: int

datatype department_match = Exact | Subtree

datatype self_service_selector =
    SelUser uuid uuid uuid
  | SelIdpGroup self_service_source string
  | SelDepartment self_service_source string department_match
  | SelUserGroup uuid

datatype self_service_access = AccessDevice | AccessAuthenticatedUser | AccessUsers "self_service_selector list"

definition selector_id_ok :: "string \<Rightarrow> bool" where
  "selector_id_ok s \<longleftrightarrow> s \<noteq> [] \<and> length s \<le> 256 \<and> is_trimmed s \<and> \<not> has_control s"

definition selector_source_ok :: "self_service_source \<Rightarrow> bool" where
  "selector_source_ok s \<longleftrightarrow> \<not> (uuid_is_nil (sss_provider_id s) \<or> sss_configuration_version s < 1
     \<or> sss_issuer s = [] \<or> length (sss_issuer s) > 2048 \<or> has_control (sss_issuer s))"

fun selector_ok :: "self_service_selector \<Rightarrow> bool" where
  "selector_ok (SelUser i t p) \<longleftrightarrow> \<not> (uuid_is_nil i \<or> uuid_is_nil t \<or> uuid_is_nil p)"
| "selector_ok (SelUserGroup g) \<longleftrightarrow> \<not> uuid_is_nil g"
| "selector_ok (SelIdpGroup s i) \<longleftrightarrow> selector_id_ok i \<and> selector_source_ok s"
| "selector_ok (SelDepartment s i _) \<longleftrightarrow> selector_id_ok i \<and> selector_source_ok s"

text \<open>The loop compares each selector with those before it.\<close>

fun check_selectors :: "self_service_selector list \<Rightarrow> self_service_selector list \<Rightarrow> (policy_error, unit) result" where
  "check_selectors earlier [] = Inr ()"
| "check_selectors earlier (x # xs) =
    (if x \<in> set earlier then Inl (Fail Malformed)
     else if \<not> selector_ok x then Inl (Fail Malformed)
     else check_selectors (earlier @ [x]) xs)"

definition access_validate :: "self_service_access \<Rightarrow> (policy_error, unit) result" where
  "access_validate a = (case a of
      AccessUsers selectors \<Rightarrow>
        if selectors = [] \<or> length selectors > 256 then Inl (Fail Malformed) else check_selectors [] selectors
    | _ \<Rightarrow> Inr ())"

record self_service =
  ss_access :: "self_service_access option"
  ss_published :: bool
  ss_presentation :: json_map
  ss_allow_ai :: "bool option"
  ss_risk_level :: "script_risk option"

definition or_else :: "'a option \<Rightarrow> 'a option \<Rightarrow> 'a option" where
  "or_else a b = (case a of None \<Rightarrow> b | Some x \<Rightarrow> Some x)"

definition normalize :: "self_service \<Rightarrow> self_service option \<Rightarrow> self_service" where
  "normalize c old = c\<lparr>
     ss_allow_ai := Some (case or_else (ss_allow_ai c) (Option.bind old ss_allow_ai) of None \<Rightarrow> True | Some b \<Rightarrow> b),
     ss_risk_level := Some (case or_else (ss_risk_level c) (Option.bind old ss_risk_level) of None \<Rightarrow> risk_confirm | Some r \<Rightarrow> r)\<rparr>"

fun json_as_str :: "json \<Rightarrow> string option" where
  "json_as_str (JString s) = Some s"
| "json_as_str _ = None"

fun json_as_array :: "json \<Rightarrow> json list option" where
  "json_as_array (JArray vs) = Some vs"
| "json_as_array _ = None"

definition presentation_texts :: "(string \<times> nat \<times> bool) list" where
  "presentation_texts = [(''displayName'', 256, True), (''description'', 4096, False),
     (''prerequisites'', 4096, False), (''sideEffects'', 4096, False), (''category'', 128, True)]"

definition check_text :: "json_map \<Rightarrow> string \<times> nat \<times> bool \<Rightarrow> unit \<Rightarrow> (policy_error, unit) result" where
  "check_text m b u = (case b of (key, bound, required) \<Rightarrow>
     bind_res (ok_or Malformed (Option.bind (map_of m key) json_as_str)) (\<lambda>v.
       if length v > bound \<or> (required \<and> is_blank v) then Inl (Fail Malformed) else Inr ()))"

definition keyword_ok :: "json \<Rightarrow> bool" where
  "keyword_ok v = (case json_as_str v of None \<Rightarrow> False
     | Some s \<Rightarrow> \<not> (is_blank s \<or> length s > 128 \<or> has_control s))"

definition self_service_validate :: "(json_map \<Rightarrow> nat option) \<Rightarrow> self_service \<Rightarrow> (policy_error, unit) result" where
  "self_service_validate json_len c =
    (if ss_published c \<and> ss_access c = None then Inl (Fail Malformed)
     else bind_res (case ss_access c of None \<Rightarrow> Inr () | Some a \<Rightarrow> access_validate a) (\<lambda>_.
     if \<not> presentation_valid json_len (ss_presentation c) 65536 then Inl (Fail Malformed)
     else bind_res (fold_res (check_text (ss_presentation c)) presentation_texts ()) (\<lambda>_.
     bind_res (ok_or Malformed (Option.bind (map_of (ss_presentation c) ''keywords'') json_as_array)) (\<lambda>keywords.
     if length keywords > 32 \<or> list_ex (\<lambda>v. \<not> keyword_ok v) keywords then Inl (Fail Malformed) else Inr ()))))"

section \<open>Lemmas\<close>

text \<open>The value of a parameter: its literal, or what the call supplies under its name.\<close>

definition parameter_value :: "json_map \<Rightarrow> string \<Rightarrow> parameter_source \<Rightarrow> json option" where
  "parameter_value input name p = (case p of Fixed v \<Rightarrow> Some v | Input \<Rightarrow> bm_get input name)"

lemma resolve_parameter_Inr [simp]:
  "resolve_parameter input (name, p) acc = Inr acc' \<longleftrightarrow>
    (\<exists>v. parameter_value input name p = Some v \<and> acc' = bm_insert name v acc)"
  by (cases p) (auto simp: resolve_parameter_def parameter_value_def)

lemma fold_resolve:
  assumes "fold_res (resolve_parameter input) ps acc = Inr acc'" "bm_wf acc"
  shows "bm_wf acc' \<and> (\<forall>k. bm_get acc' k =
    (case map_of (rev ps) k of Some p \<Rightarrow> parameter_value input k p | None \<Rightarrow> bm_get acc k))
    \<and> (\<forall>(name, p) \<in> set ps. parameter_value input name p \<noteq> None)"
  using assms
proof (induction ps arbitrary: acc)
  case Nil
  then show ?case by simp
next
  case (Cons q ps)
  obtain name p where q: "q = (name, p)" by (cases q)
  from Cons.prems(1) obtain v where v: "parameter_value input name p = Some v"
    and r: "fold_res (resolve_parameter input) ps (bm_insert name v acc) = Inr acc'" by (auto simp: q)
  have w: "bm_wf (bm_insert name v acc)" using Cons.prems(2) by simp
  from Cons.IH [OF r w] v Cons.prems(2) show ?case
    by (auto simp: q map_add_def split: option.splits)
qed

lemma check_selectors_Inr:
  "check_selectors earlier xs = Inr u \<longleftrightarrow> distinct xs \<and> set earlier \<inter> set xs = {} \<and> list_all selector_ok xs"
  by (induction earlier xs rule: check_selectors.induct) auto

lemma access_validate_Inr:
  "access_validate a = Inr u \<longleftrightarrow> (\<forall>xs. a = AccessUsers xs \<longrightarrow>
    xs \<noteq> [] \<and> length xs \<le> 256 \<and> distinct xs \<and> list_all selector_ok xs)"
  by (cases a) (auto simp: access_validate_def check_selectors_Inr)

lemma normalize_idempotent: "normalize (normalize c old) old' = normalize c old"
  by (simp add: normalize_def or_else_def)

end
