(* ===== verification/Policy_Assignment.thy ===== *)
theory Policy_Assignment
  imports Policy_Self_Service
begin

text \<open>
  Authored assignments, \<^verbatim>\<open>crates/policy/src/assignment.rs\<close> and \<^verbatim>\<open>behavior.rs\<close>: resource bindings, the
  eleven actions with their validation, software rollout, credential operations, and the driver
  that each action selects. Login settings of other crates are carried as JSON and never
  interpreted here.
\<close>

section \<open>Resources and targets\<close>

datatype policy_platform = PlatWindows | PlatMacos
datatype architecture = X86_64 | Aarch64

record exact_resource_binding =
  er_id :: string
  er_version :: string
  er_platform :: policy_platform
  er_architecture :: architecture
  er_variant :: string

datatype software_target = WindowsX86_64 | WindowsAarch64 | MacosX86_64 | MacosAarch64

fun software_target_new :: "policy_platform \<Rightarrow> architecture \<Rightarrow> software_target" where
  "software_target_new PlatWindows X86_64 = WindowsX86_64"
| "software_target_new PlatWindows Aarch64 = WindowsAarch64"
| "software_target_new PlatMacos X86_64 = MacosX86_64"
| "software_target_new PlatMacos Aarch64 = MacosAarch64"

fun software_target_parts :: "software_target \<Rightarrow> policy_platform \<times> architecture" where
  "software_target_parts WindowsX86_64 = (PlatWindows, X86_64)"
| "software_target_parts WindowsAarch64 = (PlatWindows, Aarch64)"
| "software_target_parts MacosX86_64 = (PlatMacos, X86_64)"
| "software_target_parts MacosAarch64 = (PlatMacos, Aarch64)"

text \<open>The closed coordinates are exactly the pairs of a platform and an architecture.\<close>

lemma software_target_round_trip:
  "software_target_parts (software_target_new p a) = (p, a)"
  "case_prod software_target_new (software_target_parts t) = t"
  by (cases p; cases a; simp) (cases t; simp)

record software_resource_binding =
  srb_id :: string
  srb_version :: string
  srb_variants :: "(software_target, string) btree_map"

datatype frequency = OncePerVersion | OncePerEntry | EveryTrigger
datatype exit_behavior = Retain | Remove
datatype software_delivery = Direct | Native string
datatype access_role = Standard | Administrator
datatype software_intent = RequiredInstall | AvailableInstall | ExplicitUninstall
datatype software_channel = ChannelAgent | ChannelMdm

record rollout_stage =
  stage_scope :: uuid
  stage_opens_at :: int
  stage_minimum_verified_percent :: "nat option"

text \<open>The products of the percentage test fit the u128 arithmetic of the code.\<close>

definition stage_open :: "rollout_stage \<Rightarrow> int \<Rightarrow> nat \<Rightarrow> nat \<Rightarrow> bool" where
  "stage_open s now previous_total previous_verified \<longleftrightarrow>
    (if now < stage_opens_at s \<or> previous_verified > previous_total then False
     else (case stage_minimum_verified_percent s of None \<Rightarrow> True
       | Some minimum \<Rightarrow> previous_total > 0 \<and> previous_verified * 100 \<ge> previous_total * minimum))"

datatype credential_operation =
    RotateRssLogin uuid int string
  | VerifyRssLogin uuid int string
  | CollectBitlocker
  | VerifyBitlocker string uuid
  | RotateBitlocker string uuid
  | RotateLocalAdministrator string
  | VerifyLocalAdministrator string

definition bounded_text :: "string \<Rightarrow> bool" where
  "bounded_text s \<longleftrightarrow> s \<noteq> [] \<and> length s \<le> 256 \<and> \<not> has_control s"

definition rss_login_ok :: "uuid \<Rightarrow> int \<Rightarrow> string \<Rightarrow> bool" where
  "rss_login_ok binding generation sid \<longleftrightarrow> \<not> uuid_is_nil binding \<and> generation > 0 \<and> bounded_text sid \<and>
     prefix ''S-1-5-21-'' sid"

definition local_sid_ok :: "string \<Rightarrow> bool" where
  "local_sid_ok sid \<longleftrightarrow> bounded_text sid \<and> prefix ''S-1-5-'' sid \<and>
     list_all (\<lambda>v. v \<noteq> [] \<and> list_all is_ascii_digit v) (drop 1 (str_split CHR ''-'' sid))"

fun credential_ok :: "credential_operation \<Rightarrow> bool" where
  "credential_ok (RotateRssLogin b g s) = rss_login_ok b g s"
| "credential_ok (VerifyRssLogin b g s) = rss_login_ok b g s"
| "credential_ok CollectBitlocker = True"
| "credential_ok (VerifyBitlocker v p) = (bounded_text v \<and> \<not> uuid_is_nil p)"
| "credential_ok (RotateBitlocker v p) = (bounded_text v \<and> \<not> uuid_is_nil p)"
| "credential_ok (RotateLocalAdministrator s) = local_sid_ok s"
| "credential_ok (VerifyLocalAdministrator s) = local_sid_ok s"

definition credential_validate :: "credential_operation \<Rightarrow> (policy_error, unit) result" where
  "credential_validate c = (if credential_ok c then Inr () else Inl (Fail Malformed))"

section \<open>Actions\<close>

datatype action =
    DeviceAccess "json option" json bool "access_role option"
  | TelemetryProfile exact_resource_binding
  | Credential credential_operation architecture schedule frequency nat
  | Execution exact_resource_binding parameter_sources schedule frequency nat
  | AgentCollection exact_resource_binding schedule frequency nat
  | NativeCollection exact_resource_binding schedule frequency nat
  | Configuration exact_resource_binding exit_behavior
  | Software software_channel software_delivery software_resource_binding software_intent schedule nat "rollout_stage list"
  | UnmanageDevice schedule nat
  | EnsureAgentInstalled "(software_target, uuid) btree_map" schedule nat
  | RequestMdmEnrollment uuid schedule nat

definition default_schedule :: schedule where
  "default_schedule = \<lparr>sched_trigger = CheckIn 60, sched_misfire = CoalesceOne, sched_not_before = 0,
     sched_until = None, sched_jitter_seconds = 0, sched_window = None\<rparr>"

definition default_collection_schedule :: schedule where
  "default_collection_schedule = default_schedule\<lparr>sched_trigger := Interval 0 3600\<rparr>"

definition default_unmanage_schedule :: schedule where
  "default_unmanage_schedule = default_schedule\<lparr>sched_trigger := Manual\<rparr>"

definition policy_id_ok :: "string \<Rightarrow> bool" where
  "policy_id_ok s \<longleftrightarrow> \<not> (s = [] \<or> length s > 128
     \<or> \<not> list_all (\<lambda>b. is_ascii_alphanumeric b \<or> b \<in> set ''._-/'') s
     \<or> list_ex (\<lambda>part. part = [] \<or> part = ''.'' \<or> part = ''..'') (str_split CHR ''/'' s))"

definition validate_ids :: "string list \<Rightarrow> (policy_error, unit) result" where
  "validate_ids ids = fold_res (\<lambda>s _. if policy_id_ok s then Inr () else Inl (Fail Malformed)) ids ()"

definition exact_resource_validate :: "exact_resource_binding \<Rightarrow> (policy_error, unit) result" where
  "exact_resource_validate r = validate_ids [er_id r, er_version r, er_variant r]"

definition software_resource_validate :: "software_resource_binding \<Rightarrow> (policy_error, unit) result" where
  "software_resource_validate r =
    (if srb_variants r = [] \<or> length (srb_variants r) > 4 then Inl (Fail Malformed)
     else validate_ids (srb_id r # srb_version r # bm_values (srb_variants r)))"

definition lifetime_ok :: "nat \<Rightarrow> bool" where
  "lifetime_ok n \<longleftrightarrow> 60 \<le> n \<and> n \<le> 604800"

text \<open>The checks of \<^verbatim>\<open>Action::validate\<close> in their order. Login credentials need an x86-64 device.\<close>

fun credential_architecture_ok :: "action \<Rightarrow> bool" where
  "credential_architecture_ok (Credential (RotateRssLogin _ _ _) arch _ _ _) \<longleftrightarrow> arch = X86_64"
| "credential_architecture_ok (Credential (VerifyRssLogin _ _ _) arch _ _ _) \<longleftrightarrow> arch = X86_64"
| "credential_architecture_ok _ \<longleftrightarrow> True"

text \<open>Collections repeat on an interval for ever and coalesce what they missed.\<close>

definition collection_schedule_ok :: "schedule \<Rightarrow> frequency \<Rightarrow> bool" where
  "collection_schedule_ok s f \<longleftrightarrow>
    (case sched_trigger s of Interval _ _ \<Rightarrow> True | _ \<Rightarrow> False) \<and> f = EveryTrigger \<and>
    sched_misfire s = CoalesceOne \<and> sched_until s = None \<and> sched_window s = None"

fun collection_ok :: "action \<Rightarrow> bool" where
  "collection_ok (AgentCollection _ s f _) = collection_schedule_ok s f"
| "collection_ok (NativeCollection _ s f _) = collection_schedule_ok s f"
| "collection_ok _ = True"

fun action_resource_validate :: "action \<Rightarrow> (policy_error, unit) result" where
  "action_resource_validate (TelemetryProfile r) = exact_resource_validate r"
| "action_resource_validate (Execution r _ _ _ _) = exact_resource_validate r"
| "action_resource_validate (AgentCollection r _ _ _) = exact_resource_validate r"
| "action_resource_validate (NativeCollection r _ _ _) = exact_resource_validate r"
| "action_resource_validate (Configuration r _) = exact_resource_validate r"
| "action_resource_validate (Software _ _ r _ _ _ _) = software_resource_validate r"
| "action_resource_validate (EnsureAgentInstalled packages _ _) =
    (if packages = [] \<or> length packages > 4 \<or> list_ex uuid_is_nil (bm_values packages)
     then Inl (Fail Malformed) else Inr ())"
| "action_resource_validate (Credential c _ _ _ _) = credential_validate c"
| "action_resource_validate _ = Inr ()"

fun action_parameters_validate :: "(parameter_sources \<Rightarrow> nat option) \<Rightarrow> action \<Rightarrow> (policy_error, unit) result" where
  "action_parameters_validate params_len (Execution _ ps s _ _) =
    bind_res (parameters_validate params_len ps) (\<lambda>_.
      if has_input ps \<and> sched_trigger s \<noteq> Manual then Inl (Fail Malformed) else Inr ())"
| "action_parameters_validate params_len _ = Inr ()"

definition check_stage :: "rollout_stage \<Rightarrow> int option \<times> uuid btree_set \<Rightarrow> (policy_error, int option \<times> uuid btree_set) result" where
  "check_stage s st = (case st of (previous, scopes) \<Rightarrow>
     if uuid_is_nil (stage_scope s) \<or> stage_opens_at s < 0
        \<or> (case previous of None \<Rightarrow> False | Some v \<Rightarrow> stage_opens_at s \<le> v)
        \<or> (case stage_minimum_verified_percent s of None \<Rightarrow> False | Some v \<Rightarrow> v > 100)
        \<or> stage_scope s \<in> set scopes
     then Inl (Fail Malformed)
     else Inr (Some (stage_opens_at s), bs_insert (stage_scope s) scopes))"

definition rollout_validate :: "rollout_stage list \<Rightarrow> (policy_error, unit) result" where
  "rollout_validate stages =
    (if stages = [] \<or> length stages > 32 then Inl (Fail Malformed)
     else if stage_minimum_verified_percent (hd stages) \<noteq> None then Inl (Fail Malformed)
     else bind_res (fold_res check_stage stages (None, [])) (\<lambda>_. Inr ()))"

definition delivery_target_ok :: "software_delivery \<Rightarrow> bool" where
  "delivery_target_ok d = (case d of Direct \<Rightarrow> True
     | Native target \<Rightarrow> \<not> (target = [] \<or> length target > 128
         \<or> \<not> list_all (\<lambda>b. is_ascii_alphanumeric b \<or> b \<in> set ''._-'') target))"

definition timed_validate :: "('z, 'd) calendar \<Rightarrow> schedule \<Rightarrow> bool \<Rightarrow> (policy_error, unit) result" where
  "timed_validate cal s ok =
    bind_res (schedule_validate cal s) (\<lambda>_. if \<not> ok then Inl (Fail Malformed) else Inr ())"

fun action_timing_validate :: "('z, 'd) calendar \<Rightarrow> action \<Rightarrow> (policy_error, unit) result" where
  "action_timing_validate cal (Credential _ _ s _ n) = timed_validate cal s (lifetime_ok n)"
| "action_timing_validate cal (Execution _ _ s _ n) = timed_validate cal s (lifetime_ok n)"
| "action_timing_validate cal (AgentCollection _ s _ n) = timed_validate cal s (lifetime_ok n)"
| "action_timing_validate cal (NativeCollection _ s _ n) = timed_validate cal s (lifetime_ok n)"
| "action_timing_validate cal (Software channel delivery _ intent s n stages) =
    bind_res (schedule_validate cal s) (\<lambda>_.
      if channel = ChannelMdm \<and> (delivery \<noteq> Direct \<or> intent \<noteq> RequiredInstall) then Inl (Fail Malformed)
      else if \<not> delivery_target_ok delivery then Inl (Fail Malformed)
      else if \<not> lifetime_ok n then Inl (Fail Malformed)
      else rollout_validate stages)"
| "action_timing_validate cal (UnmanageDevice s n) =
    timed_validate cal s ((case sched_trigger s of Registration \<Rightarrow> False | CheckIn _ \<Rightarrow> False | _ \<Rightarrow> True) \<and> lifetime_ok n)"
| "action_timing_validate cal (EnsureAgentInstalled _ s n) = timed_validate cal s (lifetime_ok n)"
| "action_timing_validate cal (RequestMdmEnrollment org s n) =
    timed_validate cal s (\<not> uuid_is_nil org \<and> lifetime_ok n)"
| "action_timing_validate cal _ = Inr ()"

definition action_validate ::
  "('z, 'd) calendar \<Rightarrow> (parameter_sources \<Rightarrow> nat option) \<Rightarrow> action \<Rightarrow> (policy_error, unit) result" where
  "action_validate cal params_len a =
    (if \<not> credential_architecture_ok a then Inl (Fail Malformed)
     else if \<not> collection_ok a then Inl (Fail Malformed)
     else bind_res (action_resource_validate a) (\<lambda>_.
       bind_res (action_parameters_validate params_len a) (\<lambda>_.
       action_timing_validate cal a)))"

section \<open>Definitions\<close>

record policy_definition =
  pd_custom_event :: "string option"
  pd_alias :: "string option"
  pd_scope :: uuid
  pd_action :: action
  pd_self_service :: "self_service option"

text \<open>What serialization contributes: the length of a definition, of a parameter map and of a
  presentation, and the bytes of an action.\<close>

record serde =
  ser_definition :: "policy_definition \<Rightarrow> nat option"
  ser_parameters :: "parameter_sources \<Rightarrow> nat option"
  ser_presentation :: "json_map \<Rightarrow> nat option"
  ser_software :: "software_resource_binding \<Rightarrow> software_channel \<Rightarrow> software_delivery \<Rightarrow> software_intent \<Rightarrow> schedule \<Rightarrow> nat \<Rightarrow> byte list option"
  ser_action :: "action \<Rightarrow> byte list option"

definition self_service_allowed :: "action \<Rightarrow> bool" where
  "self_service_allowed a = (case a of
      Execution _ _ _ _ _ \<Rightarrow> True
    | RequestMdmEnrollment _ _ _ \<Rightarrow> True
    | Software _ _ _ intent _ _ _ \<Rightarrow> intent = AvailableInstall
    | _ \<Rightarrow> False)"

definition policy_definition_validate :: "('z, 'd) calendar \<Rightarrow> serde \<Rightarrow> policy_definition \<Rightarrow> (policy_error, unit) result" where
  "policy_definition_validate cal ser d =
    bind_res (ok_or Malformed (ser_definition ser d)) (\<lambda>n.
    if n > 4194304 then Inl (Fail Malformed)
    else if uuid_is_nil (pd_scope d) then Inl (Fail Malformed)
    else bind_res (action_validate cal (ser_parameters ser) (pd_action d)) (\<lambda>_.
      if pd_custom_event d \<noteq> None \<and> (case pd_action d of Execution _ ps _ _ _ \<Rightarrow> has_input ps | _ \<Rightarrow> False)
      then Inl (Fail Malformed)
      else if (case pd_action d of Software ChannelMdm _ _ _ _ _ _ \<Rightarrow> True | _ \<Rightarrow> False) \<and> pd_self_service d \<noteq> None
      then Inl (Fail Malformed)
      else (case pd_self_service d of
          None \<Rightarrow> Inr ()
        | Some config \<Rightarrow> if \<not> self_service_allowed (pd_action d) then Inl (Fail Malformed)
            else self_service_validate (ser_presentation ser) config)))"

section \<open>Behavior\<close>

datatype action_kind = KDeviceAccess | KUnmanageDevice | KCredential | KExecution | KNativeCollection
  | KAgentCollection | KTelemetryProfile | KConfiguration | KSoftware | KEnsureAgentInstalled | KRequestMdmEnrollment

fun action_kind_of :: "action \<Rightarrow> action_kind" where
  "action_kind_of (DeviceAccess _ _ _ _) = KDeviceAccess"
| "action_kind_of (UnmanageDevice _ _) = KUnmanageDevice"
| "action_kind_of (Credential _ _ _ _ _) = KCredential"
| "action_kind_of (Execution _ _ _ _ _) = KExecution"
| "action_kind_of (NativeCollection _ _ _ _) = KNativeCollection"
| "action_kind_of (AgentCollection _ _ _ _) = KAgentCollection"
| "action_kind_of (TelemetryProfile _) = KTelemetryProfile"
| "action_kind_of (Configuration _ _) = KConfiguration"
| "action_kind_of (Software _ _ _ _ _ _ _) = KSoftware"
| "action_kind_of (EnsureAgentInstalled _ _ _) = KEnsureAgentInstalled"
| "action_kind_of (RequestMdmEnrollment _ _ _) = KRequestMdmEnrollment"

fun action_kind_as_str :: "action_kind \<Rightarrow> string" where
  "action_kind_as_str KDeviceAccess = ''device_access''"
| "action_kind_as_str KUnmanageDevice = ''unmanage_device''"
| "action_kind_as_str KCredential = ''credential''"
| "action_kind_as_str KExecution = ''execution''"
| "action_kind_as_str KNativeCollection = ''native_collection''"
| "action_kind_as_str KAgentCollection = ''agent_collection''"
| "action_kind_as_str KTelemetryProfile = ''telemetry_profile''"
| "action_kind_as_str KConfiguration = ''configuration''"
| "action_kind_as_str KSoftware = ''software''"
| "action_kind_as_str KEnsureAgentInstalled = ''ensure_agent_installed''"
| "action_kind_as_str KRequestMdmEnrollment = ''request_mdm_enrollment''"

definition supports_rerun :: "action_kind \<Rightarrow> bool" where
  "supports_rerun k \<longleftrightarrow> k \<in> {KUnmanageDevice, KCredential, KExecution, KRequestMdmEnrollment, KEnsureAgentInstalled}"

fun action_resource :: "action \<Rightarrow> (string \<times> string) option" where
  "action_resource (TelemetryProfile r) = Some (er_id r, er_version r)"
| "action_resource (AgentCollection r _ _ _) = Some (er_id r, er_version r)"
| "action_resource (NativeCollection r _ _ _) = Some (er_id r, er_version r)"
| "action_resource (Execution r _ _ _ _) = Some (er_id r, er_version r)"
| "action_resource (Configuration r _) = Some (er_id r, er_version r)"
| "action_resource (Software _ _ r _ _ _ _) = Some (srb_id r, srb_version r)"
| "action_resource _ = None"

fun target_channel :: "action \<Rightarrow> software_channel option" where
  "target_channel (UnmanageDevice _ _) = None"
| "target_channel (Software channel _ _ _ _ _ _) = Some channel"
| "target_channel (NativeCollection _ _ _ _) = Some ChannelMdm"
| "target_channel (Configuration _ _) = Some ChannelMdm"
| "target_channel (EnsureAgentInstalled _ _ _) = Some ChannelMdm"
| "target_channel _ = Some ChannelAgent"

datatype assignment_driver = BDeviceAccess | BDeviceLifecycle | BAgentCheckIn | BNativeCollectionRecovery
  | BNativeDesired | BTelemetrySampling

definition assignment_behavior :: "action \<Rightarrow> assignment_driver" where
  "assignment_behavior a = (case a of
      DeviceAccess _ _ _ _ \<Rightarrow> BDeviceAccess
    | UnmanageDevice _ _ \<Rightarrow> BDeviceLifecycle
    | TelemetryProfile _ \<Rightarrow> BTelemetrySampling
    | NativeCollection _ _ _ _ \<Rightarrow> BNativeCollectionRecovery
    | _ \<Rightarrow> if target_channel a = Some ChannelMdm then BNativeDesired else BAgentCheckIn)"

fun behavior_kinds :: "assignment_driver \<Rightarrow> string list" where
  "behavior_kinds BDeviceAccess = [''device_access'']"
| "behavior_kinds BDeviceLifecycle = [''unmanage_device'']"
| "behavior_kinds BTelemetrySampling = [''telemetry_profile'']"
| "behavior_kinds BAgentCheckIn = [''credential'', ''agent_collection'', ''execution'', ''request_mdm_enrollment'']"
| "behavior_kinds BNativeCollectionRecovery = [''native_collection'']"
| "behavior_kinds BNativeDesired = [''configuration'', ''ensure_agent_installed'']"

end
