(* ===== verification/Policy_Model.thy ===== *)
theory Policy_Model
  imports Policy_Assignment
begin

text \<open>
  The policy aggregate and its configuration changes, \<^verbatim>\<open>crates/policy/src/model.rs\<close>: one compare-and-set
  per change, a semantic version that grows only with the execution content, and the lifecycle
  enabled, disabled, archived. Revisions and version numbers are i64, the expected revision u64.
\<close>

datatype policy_state = Enabled | Disabled | Archived

datatype change = Put policy_definition bool | Enable | Disable | Archive

record policy =
  pol_id :: uuid
  pol_revision :: int
  pol_version :: uuid
  pol_number :: int
  pol_state :: policy_state
  pol_definition :: policy_definition
  pol_execution_binding :: "digest option"

record changed =
  changed_policy :: policy
  changed_semantic_changed :: bool
  changed_semantic :: digest

section \<open>The semantic digest\<close>

definition semantic_bytes :: "serde \<Rightarrow> action \<Rightarrow> (policy_error, byte list) result" where
  "semantic_bytes ser a = ok_or Malformed (case a of
      Software channel delivery resource intent schedule n _ \<Rightarrow> ser_software ser resource channel delivery intent schedule n
    | _ \<Rightarrow> ser_action ser a)"

definition semantic :: "(byte list \<Rightarrow> digest) \<Rightarrow> serde \<Rightarrow> policy_definition \<Rightarrow> (policy_error, digest) result" where
  "semantic sha ser d = bind_res (semantic_bytes ser (pd_action d)) (\<lambda>bs. Inr (sha bs))"

definition bound_semantic ::
  "(byte list \<Rightarrow> digest) \<Rightarrow> serde \<Rightarrow> policy_definition \<Rightarrow> digest option \<Rightarrow> (policy_error, digest) result" where
  "bound_semantic sha ser d binding =
    bind_res (semantic sha ser d) (\<lambda>s.
    case binding of None \<Rightarrow> Inr s
    | Some b \<Rightarrow> Inr (sha (str_bytes ''software-policy-lifecycle/v1'' @ be_bytes 32 s @ be_bytes 32 b)))"

section \<open>Changes\<close>

definition check_old :: "('z, 'd) calendar \<Rightarrow> serde \<Rightarrow> policy option \<Rightarrow> (policy_error, unit) result" where
  "check_old cal ser old = (case old of None \<Rightarrow> Inr ()
    | Some p \<Rightarrow>
        if uuid_is_nil (pol_id p) \<or> uuid_is_nil (pol_version p) \<or> pol_revision p < 1 \<or> pol_number p < 1
           \<or> pol_number p > pol_revision p
        then Inl (Fail Malformed) else policy_definition_validate cal ser (pol_definition p))"

definition old_revision :: "policy option \<Rightarrow> nat" where
  "old_revision old = (case old of None \<Rightarrow> 0 | Some p \<Rightarrow> nat (pol_revision p))"

definition next_revision :: "nat \<Rightarrow> nat option" where
  "next_revision expected = (case checked_add_u64 expected 1 of None \<Rightarrow> None
     | Some v \<Rightarrow> if int v \<le> i64_max then Some v else None)"

definition change_target :: "policy option \<Rightarrow> change \<Rightarrow> (policy_error, policy_definition \<times> policy_state) result" where
  "change_target old c = (case c of
      Put d enabled \<Rightarrow> Inr (d, if enabled then Enabled else Disabled)
    | Enable \<Rightarrow> bind_res (ok_or PNotFound old) (\<lambda>p. Inr (pol_definition p, Enabled))
    | Disable \<Rightarrow> bind_res (ok_or PNotFound old) (\<lambda>p. Inr (pol_definition p, Disabled))
    | Archive \<Rightarrow> bind_res (ok_or PNotFound old) (\<lambda>p.
        if pol_state p \<noteq> Disabled then Inl (Fail PConflict) else Inr (pol_definition p, Archived)))"

definition normalize_definition :: "policy option \<Rightarrow> policy_definition \<Rightarrow> policy_definition" where
  "normalize_definition old d = (case pd_self_service d of None \<Rightarrow> d
    | Some config \<Rightarrow> d\<lparr>pd_self_service := Some (normalize config
        (Option.bind old (\<lambda>p. pd_self_service (pol_definition p))))\<rparr>)"

definition is_put :: "change \<Rightarrow> bool" where
  "is_put c = (case c of Put _ _ \<Rightarrow> True | _ \<Rightarrow> False)"

definition needs_binding :: "action \<Rightarrow> bool" where
  "needs_binding a = (case a of EnsureAgentInstalled _ _ _ \<Rightarrow> True | _ \<Rightarrow> False)"

text \<open>The change in the order of the code: admission of the compare-and-set, the new definition, its
  execution binding, and the version that follows from the content.\<close>

definition admit_change :: "('z, 'd) calendar \<Rightarrow> serde \<Rightarrow> uuid \<Rightarrow> policy option \<Rightarrow> nat \<Rightarrow> uuid \<Rightarrow> (policy_error, nat) result" where
  "admit_change cal ser uid old expected next_version =
    (if uuid_is_nil uid \<or> uuid_is_nil next_version then Inl (Fail Malformed)
     else bind_res (check_old cal ser old) (\<lambda>_.
       if (case old of None \<Rightarrow> False | Some p \<Rightarrow> pol_id p \<noteq> uid) \<or> old_revision old \<noteq> expected
       then Inl (Fail PConflict)
       else if (case old of None \<Rightarrow> False | Some p \<Rightarrow> pol_state p = Archived) then Inl (Fail PConflict)
       else ok_or PConflict (next_revision expected)))"

definition change_definition ::
  "('z, 'd) calendar \<Rightarrow> serde \<Rightarrow> policy option \<Rightarrow> change \<Rightarrow> (policy_error, policy_definition \<times> policy_state) result" where
  "change_definition cal ser old input =
    bind_res (change_target old input) (\<lambda>(d, state).
    let d' = normalize_definition old d in
    bind_res (policy_definition_validate cal ser d') (\<lambda>_. Inr (d', state)))"

definition change_binding ::
  "policy option \<Rightarrow> change \<Rightarrow> digest option \<Rightarrow> policy_definition \<Rightarrow> (policy_error, digest option) result" where
  "change_binding old input execution_binding d =
    (let binding = (if is_put input then execution_binding else Option.bind old pol_execution_binding) in
     if needs_binding (pd_action d) \<noteq> (binding \<noteq> None) then Inl (Fail Malformed) else Inr binding)"

definition change_version ::
  "(byte list \<Rightarrow> digest) \<Rightarrow> serde \<Rightarrow> policy option \<Rightarrow> policy_definition \<Rightarrow> digest option \<Rightarrow> uuid \<Rightarrow>
    (policy_error, digest \<times> bool \<times> int \<times> uuid) result" where
  "change_version sha ser old d binding next_version =
    bind_res (bound_semantic sha ser d binding) (\<lambda>sem.
    bind_res (case old of None \<Rightarrow> Inr None
        | Some p \<Rightarrow> bind_res (bound_semantic sha ser (pol_definition p) (pol_execution_binding p)) (\<lambda>x. Inr (Some x))) (\<lambda>old_sem.
    let is_changed = (old_sem \<noteq> Some sem) in
    if is_changed \<and> (case old of None \<Rightarrow> False | Some p \<Rightarrow> pol_version p = next_version) then Inl (Fail Malformed)
    else bind_res (if is_changed
        then ok_or PConflict (case old of None \<Rightarrow> Some 1 | Some p \<Rightarrow> checked_i64 (pol_number p + 1))
        else bind_res (ok_or PNotFound old) (\<lambda>p. Inr (pol_number p))) (\<lambda>number.
    bind_res (if is_changed then Inr next_version else bind_res (ok_or PNotFound old) (\<lambda>p. Inr (pol_version p))) (\<lambda>version.
    Inr (sem, is_changed, number, version)))))"

definition policy_apply ::
  "('z, 'd) calendar \<Rightarrow> (byte list \<Rightarrow> digest) \<Rightarrow> serde \<Rightarrow> uuid \<Rightarrow> policy option \<Rightarrow> nat \<Rightarrow> change \<Rightarrow> uuid \<Rightarrow> digest option \<Rightarrow>
    (policy_error, changed) result" where
  "policy_apply cal sha ser uid old expected input next_version execution_binding =
    bind_res (admit_change cal ser uid old expected next_version) (\<lambda>revision.
    bind_res (change_definition cal ser old input) (\<lambda>(d, state).
    bind_res (change_binding old input execution_binding d) (\<lambda>binding.
    bind_res (change_version sha ser old d binding next_version) (\<lambda>(sem, is_changed, number, version).
    Inr \<lparr>changed_policy = \<lparr>pol_id = uid, pol_revision = int revision, pol_version = version, pol_number = number,
        pol_state = state, pol_definition = d, pol_execution_binding = binding\<rparr>,
      changed_semantic_changed = is_changed, changed_semantic = sem\<rparr>))))"

section \<open>Projection\<close>

record policy_view =
  view_id :: uuid
  view_revision :: int
  view_version :: int
  view_version_id :: uuid
  view_state :: policy_state
  view_definition :: policy_definition

definition view_from :: "policy \<Rightarrow> policy_view" where
  "view_from p = \<lparr>view_id = pol_id p, view_revision = pol_revision p, view_version = pol_number p,
     view_version_id = pol_version p, view_state = pol_state p, view_definition = pol_definition p\<rparr>"

definition state_is_enabled :: "policy_state \<Rightarrow> bool" where
  "state_is_enabled s \<longleftrightarrow> s = Enabled"

fun state_as_str :: "policy_state \<Rightarrow> string" where
  "state_as_str Enabled = ''enabled''"
| "state_as_str Disabled = ''disabled''"
| "state_as_str Archived = ''archived''"

end
