(* ===== verification/Policy_Properties.thy ===== *)
theory Policy_Properties
  imports Policy_Model
begin

text \<open>
  What configuration changes promise, for every calendar, serialization and hash: each change is one
  compare-and-set that keeps the aggregate valid, the version identity follows the execution
  content alone, an archived policy is final; and the properties of rollouts, parameters and
  drivers that the execution side relies on.
\<close>

section \<open>One change\<close>

definition policy_ok :: "('z, 'd) calendar \<Rightarrow> serde \<Rightarrow> policy \<Rightarrow> bool" where
  "policy_ok cal ser p \<longleftrightarrow> \<not> uuid_is_nil (pol_id p) \<and> \<not> uuid_is_nil (pol_version p) \<and> 1 \<le> pol_revision p \<and>
    1 \<le> pol_number p \<and> pol_number p \<le> pol_revision p \<and> pol_revision p \<le> i64_max \<and>
    policy_definition_validate cal ser (pol_definition p) = Inr ()"

lemma check_old_Some:
  "check_old cal ser (Some p) = Inr u \<longleftrightarrow> \<not> uuid_is_nil (pol_id p) \<and> \<not> uuid_is_nil (pol_version p) \<and>
    1 \<le> pol_revision p \<and> 1 \<le> pol_number p \<and> pol_number p \<le> pol_revision p \<and>
    policy_definition_validate cal ser (pol_definition p) = Inr ()"
  by (auto simp: check_old_def)

lemma normalize_definition_action [simp]: "pd_action (normalize_definition old d) = pd_action d"
  by (simp add: normalize_definition_def split: option.splits)

lemma next_revision_Some:
  "next_revision expected = Some r \<longleftrightarrow> r = Suc expected \<and> int expected + 1 \<le> i64_max"
  by (auto simp: next_revision_def checked_add_u64_def u64_max_def i64_max_def)

lemma bound_semantic_action:
  "pd_action d = pd_action d' \<Longrightarrow> bound_semantic sha ser d b = bound_semantic sha ser d' b"
  by (simp add: bound_semantic_def semantic_def)

text \<open>The phases of a change.\<close>

lemma policy_apply_phases:
  assumes "policy_apply cal sha ser uid old expected c v b = Inr ch"
  obtains revision d st binding sem is_changed number version where
    "admit_change cal ser uid old expected v = Inr revision" "change_definition cal ser old c = Inr (d, st)"
    "change_binding old c b d = Inr binding" "change_version sha ser old d binding v = Inr (sem, is_changed, number, version)"
    "ch = \<lparr>changed_policy = \<lparr>pol_id = uid, pol_revision = int revision, pol_version = version, pol_number = number,
        pol_state = st, pol_definition = d, pol_execution_binding = binding\<rparr>,
      changed_semantic_changed = is_changed, changed_semantic = sem\<rparr>"
  using assms unfolding policy_apply_def by auto

lemma admit_new: "admit_change cal ser uid None expected v = Inr r \<longleftrightarrow>
    \<not> uuid_is_nil uid \<and> \<not> uuid_is_nil v \<and> expected = 0 \<and> r = 1"
  by (auto simp: admit_change_def check_old_def old_revision_def next_revision_Some i64_max_def split: if_split_asm)

lemma admit_old: "admit_change cal ser uid (Some p) expected v = Inr r \<longleftrightarrow>
    \<not> uuid_is_nil v \<and> policy_ok cal ser p \<and> pol_id p = uid \<and> int expected = pol_revision p \<and>
    pol_state p \<noteq> Archived \<and> r = Suc expected \<and> int r \<le> i64_max"
  unfolding admit_change_def policy_ok_def
  by (auto simp: check_old_Some old_revision_def next_revision_Some split: if_split_asm)

text \<open>The execution content of a change: the new action for a replacement, the old one otherwise.\<close>

definition change_content :: "policy \<Rightarrow> change \<Rightarrow> digest option \<Rightarrow> action \<times> digest option" where
  "change_content p c b = (case c of Put d _ \<Rightarrow> (pd_action d, b) | _ \<Rightarrow> (pd_action (pol_definition p), pol_execution_binding p))"

fun change_state :: "change \<Rightarrow> policy_state" where
  "change_state (Put _ e) = (if e then Enabled else Disabled)"
| "change_state Enable = Enabled"
| "change_state Disable = Disabled"
| "change_state Archive = Archived"

lemma change_target_Some:
  "change_target (Some p) c = Inr (d, st) \<longleftrightarrow> st = change_state c \<and> (c = Archive \<longrightarrow> pol_state p = Disabled) \<and>
    d = (case c of Put d' _ \<Rightarrow> d' | _ \<Rightarrow> pol_definition p)"
  by (cases c) (auto simp: change_target_def)

lemma change_definition_old:
  assumes "change_definition cal ser (Some p) c = Inr (d, st)" "change_binding (Some p) c b d = Inr binding"
  shows "st = change_state c" "c = Archive \<longrightarrow> pol_state p = Disabled" "(pd_action d, binding) = change_content p c b"
    "policy_definition_validate cal ser d = Inr ()"
proof -
  from assms(1) obtain d0 where t: "change_target (Some p) c = Inr (d0, st)"
    and d: "d = normalize_definition (Some p) d0" "policy_definition_validate cal ser d = Inr ()"
    unfolding change_definition_def Let_def by auto
  have b: "binding = (if is_put c then b else pol_execution_binding p)"
    using assms(2) by (auto simp: change_binding_def Let_def split: if_split_asm)
  show "policy_definition_validate cal ser d = Inr ()" by (rule d(2))
  show "st = change_state c" "c = Archive \<longrightarrow> pol_state p = Disabled" using t by (simp_all add: change_target_Some)
  show "(pd_action d, binding) = change_content p c b"
    using t by (cases c) (simp_all add: b d(1) change_target_Some change_content_def is_put_def)
qed

lemma change_definition_new:
  assumes "change_definition cal ser None c = Inr (d, st)"
  shows "\<exists>d e. c = Put d e" "st \<noteq> Archived" "policy_definition_validate cal ser d = Inr ()"
proof -
  from assms obtain d0 where t: "change_target None c = Inr (d0, st)" and d: "policy_definition_validate cal ser d = Inr ()"
    unfolding change_definition_def Let_def by auto
  show "policy_definition_validate cal ser d = Inr ()" by (rule d)
  from t obtain d e where c: "c = Put d e" by (cases c) (simp_all add: change_target_def)
  then show "\<exists>d e. c = Put d e" by blast
  from t c show "st \<noteq> Archived" by (auto simp: change_target_def split: if_split_asm)
qed

lemma change_version_new:
  assumes "change_version sha ser None d binding v = Inr (sem, is_changed, number, version)"
  shows "is_changed" "number = 1" "version = v"
  using assms by (auto simp: change_version_def Let_def)

lemma change_version_old:
  assumes "change_version sha ser (Some p) d binding v = Inr (sem, is_changed, number, version)"
  shows "is_changed \<longleftrightarrow> bound_semantic sha ser (pol_definition p) (pol_execution_binding p) \<noteq> bound_semantic sha ser d binding"
    "number = pol_number p + (if is_changed then 1 else 0)" "version = (if is_changed then v else pol_version p)"
    "is_changed \<longrightarrow> v \<noteq> pol_version p"
  using assms by (auto simp: change_version_def Let_def split: if_split_asm)

text \<open>The two ways in: creating a policy and changing one.\<close>

lemma policy_apply_new:
  assumes "policy_apply cal sha ser uid None expected c v b = Inr ch"
  shows "expected = 0" "\<exists>d e. c = Put d e" "changed_semantic_changed ch" "pol_id (changed_policy ch) = uid"
    "pol_revision (changed_policy ch) = 1" "pol_number (changed_policy ch) = 1" "pol_version (changed_policy ch) = v"
    "pol_state (changed_policy ch) \<noteq> Archived" "policy_ok cal ser (changed_policy ch)"
proof -
  obtain revision d st binding sem is_changed number version where
    a: "admit_change cal ser uid None expected v = Inr revision"
    and d: "change_definition cal ser None c = Inr (d, st)"
    and n: "change_version sha ser None d binding v = Inr (sem, is_changed, number, version)"
    and ch: "ch = \<lparr>changed_policy = \<lparr>pol_id = uid, pol_revision = int revision, pol_version = version, pol_number = number,
        pol_state = st, pol_definition = d, pol_execution_binding = binding\<rparr>,
      changed_semantic_changed = is_changed, changed_semantic = sem\<rparr>"
    by (rule policy_apply_phases [OF assms])
  note facts = a [unfolded admit_new] change_definition_new [OF d] change_version_new [OF n]
  show "expected = 0" "\<exists>d e. c = Put d e" "changed_semantic_changed ch" "pol_id (changed_policy ch) = uid"
    "pol_revision (changed_policy ch) = 1" "pol_number (changed_policy ch) = 1" "pol_version (changed_policy ch) = v"
    "pol_state (changed_policy ch) \<noteq> Archived" "policy_ok cal ser (changed_policy ch)"
    using facts by (simp_all add: ch policy_ok_def i64_max_def)
qed

lemma policy_apply_old:
  assumes "policy_apply cal sha ser uid (Some p) expected c v b = Inr ch"
  shows "pol_id p = uid" "int expected = pol_revision p" "pol_state p \<noteq> Archived" "c = Archive \<longrightarrow> pol_state p = Disabled"
    "pol_id (changed_policy ch) = uid" "pol_revision (changed_policy ch) = pol_revision p + 1"
    "pol_state (changed_policy ch) = change_state c"
    "(pd_action (pol_definition (changed_policy ch)), pol_execution_binding (changed_policy ch)) = change_content p c b"
    "changed_semantic_changed ch \<longleftrightarrow>
      bound_semantic sha ser (pol_definition p) (pol_execution_binding p) \<noteq>
      bound_semantic sha ser (pol_definition (changed_policy ch)) (pol_execution_binding (changed_policy ch))"
    "pol_number (changed_policy ch) = pol_number p + (if changed_semantic_changed ch then 1 else 0)"
    "pol_version (changed_policy ch) = (if changed_semantic_changed ch then v else pol_version p)"
    "changed_semantic_changed ch \<longrightarrow> v \<noteq> pol_version p"
    "policy_ok cal ser p" "policy_ok cal ser (changed_policy ch)"
proof -
  obtain revision d st binding sem is_changed number version where
    a: "admit_change cal ser uid (Some p) expected v = Inr revision"
    and d: "change_definition cal ser (Some p) c = Inr (d, st)" "change_binding (Some p) c b d = Inr binding"
    and n: "change_version sha ser (Some p) d binding v = Inr (sem, is_changed, number, version)"
    and ch: "ch = \<lparr>changed_policy = \<lparr>pol_id = uid, pol_revision = int revision, pol_version = version, pol_number = number,
        pol_state = st, pol_definition = d, pol_execution_binding = binding\<rparr>,
      changed_semantic_changed = is_changed, changed_semantic = sem\<rparr>"
    by (rule policy_apply_phases [OF assms])
  note a = a [unfolded admit_old] and d = change_definition_old [OF d] and n = change_version_old [OF n]
  show "pol_id p = uid" "int expected = pol_revision p" "pol_state p \<noteq> Archived" "policy_ok cal ser p"
    using a by simp_all
  show "c = Archive \<longrightarrow> pol_state p = Disabled" "pol_id (changed_policy ch) = uid"
    "pol_state (changed_policy ch) = change_state c"
    "(pd_action (pol_definition (changed_policy ch)), pol_execution_binding (changed_policy ch)) = change_content p c b"
    "changed_semantic_changed ch \<longleftrightarrow> bound_semantic sha ser (pol_definition p) (pol_execution_binding p) \<noteq>
      bound_semantic sha ser (pol_definition (changed_policy ch)) (pol_execution_binding (changed_policy ch))"
    "pol_number (changed_policy ch) = pol_number p + (if changed_semantic_changed ch then 1 else 0)"
    "pol_version (changed_policy ch) = (if changed_semantic_changed ch then v else pol_version p)"
    "changed_semantic_changed ch \<longrightarrow> v \<noteq> pol_version p"
    using d(1-3) n by (simp_all add: ch)
  show "pol_revision (changed_policy ch) = pol_revision p + 1" using a by (simp add: ch)
  show "policy_ok cal ser (changed_policy ch)"
    using a d(4) n(2,3) by (auto simp: ch policy_ok_def)
qed


section \<open>Histories\<close>

text \<open>The persisted states of one policy, the latest first: creation and then one change at a time.\<close>

inductive policy_history ::
  "('z, 'd) calendar \<Rightarrow> (byte list \<Rightarrow> digest) \<Rightarrow> serde \<Rightarrow> uuid \<Rightarrow> policy list \<Rightarrow> bool" for cal sha ser uid where
  created: "policy_apply cal sha ser uid None expected c v b = Inr ch \<Longrightarrow>
    policy_history cal sha ser uid [changed_policy ch]"
| changed: "policy_history cal sha ser uid (p # ps) \<Longrightarrow>
    policy_apply cal sha ser uid (Some p) expected c v b = Inr ch \<Longrightarrow>
    policy_history cal sha ser uid (changed_policy ch # p # ps)"

lemma history_heads:
  assumes "policy_history cal sha ser uid ps"
  shows "ps \<noteq> [] \<and> pol_revision (hd ps) = int (length ps) \<and>
    list_all (\<lambda>p. policy_ok cal ser p \<and> pol_id p = uid) ps \<and>
    sorted_wrt (\<lambda>p q. pol_revision q < pol_revision p \<and> pol_number q \<le> pol_number p \<and> pol_state q \<noteq> Archived) ps"
  using assms
proof (induction rule: policy_history.induct)
  case (created expected c v b ch)
  with policy_apply_new [OF created] show ?case by simp
next
  case (changed p ps expected c v b ch)
  note a = policy_apply_old [OF changed(2)]
  have "pol_number p \<le> pol_number (changed_policy ch)" using a(10) by simp
  with changed.IH a(1,3,5,6,13,14) show ?case by auto
qed

section \<open>Rollouts\<close>

lemma check_stage_Inr:
  "check_stage s (previous, scopes) = Inr st \<longleftrightarrow> \<not> uuid_is_nil (stage_scope s) \<and> 0 \<le> stage_opens_at s \<and>
    (\<forall>v. previous = Some v \<longrightarrow> v < stage_opens_at s) \<and>
    (\<forall>n. stage_minimum_verified_percent s = Some n \<longrightarrow> n \<le> 100) \<and> stage_scope s \<notin> set scopes \<and>
    st = (Some (stage_opens_at s), bs_insert (stage_scope s) scopes)"
  by (auto simp: check_stage_def split: if_split_asm option.splits)

lemma check_stages:
  assumes "fold_res check_stage stages (previous, scopes) = Inr st" "bs_wf scopes"
  shows "sorted_wrt (<) (map stage_opens_at stages) \<and> distinct (map stage_scope stages) \<and>
    (\<forall>s \<in> set stages. (\<forall>v. previous = Some v \<longrightarrow> v < stage_opens_at s) \<and> stage_scope s \<notin> set scopes \<and>
      0 \<le> stage_opens_at s \<and> (\<forall>n. stage_minimum_verified_percent s = Some n \<longrightarrow> n \<le> 100))"
  using assms
proof (induction stages arbitrary: previous scopes)
  case Nil
  then show ?case by simp
next
  case (Cons s stages)
  from Cons.prems(1) have ok: "0 \<le> stage_opens_at s" "\<forall>v. previous = Some v \<longrightarrow> v < stage_opens_at s"
    "\<forall>n. stage_minimum_verified_percent s = Some n \<longrightarrow> n \<le> 100" "stage_scope s \<notin> set scopes"
    and rest: "fold_res check_stage stages (Some (stage_opens_at s), bs_insert (stage_scope s) scopes) = Inr st"
    by (auto simp: check_stage_Inr)
  from Cons.IH [OF rest] Cons.prems(2) ok show ?case by force
qed

section \<open>Samples\<close>

definition sample_serde :: serde where
  "sample_serde = \<lparr>ser_definition = (\<lambda>_. Some 100), ser_parameters = (\<lambda>_. Some 10), ser_presentation = (\<lambda>_. Some 10),
     ser_software = (\<lambda>r c d i s n. Some [of_nat n]), ser_action = (\<lambda>a. Some [])\<rparr>"

definition sample_calendar :: "(unit, int) calendar" where
  "sample_calendar = \<lparr>cal_zone = (\<lambda>_. None), cal_timestamp = (\<lambda>_. True), cal_date = (\<lambda>_ t. t div 86400),
     cal_next_day = (\<lambda>d. Some (d + 1)), cal_prev_day = (\<lambda>d. Some (d - 1)), cal_weekday = (\<lambda>_. 1),
     cal_local = (\<lambda>_ _ _ _. LGap)\<rparr>"

definition sample_hash :: "byte list \<Rightarrow> digest" where
  "sample_hash bs = of_nat (length bs)"

definition sample_parameters :: parameter_sources where
  "sample_parameters = [(''level'', Fixed (JNumber (JInt 3))), (''path'', Input)]"

definition sample_execution :: action where
  "sample_execution = Execution \<lparr>er_id = ''cleanup'', er_version = ''v1'', er_platform = PlatMacos,
     er_architecture = Aarch64, er_variant = ''default''\<rparr> sample_parameters default_unmanage_schedule OncePerVersion 300"

definition sample_policy_definition :: policy_definition where
  "sample_policy_definition = \<lparr>pd_custom_event = None, pd_alias = None, pd_scope = 8, pd_action = sample_execution, pd_self_service = None\<rparr>"

definition sample_policy :: "nat \<Rightarrow> policy_state \<Rightarrow> policy" where
  "sample_policy n st = \<lparr>pol_id = 1, pol_revision = int n, pol_version = 2, pol_number = 1, pol_state = st,
     pol_definition = sample_policy_definition, pol_execution_binding = None\<rparr>"

lemmas policy_eval = policy_definition_validate_def action_validate_def exact_resource_validate_def validate_ids_def
  policy_id_ok_def is_ascii_alphanumeric_def is_ascii_digit_def is_ascii_alpha_def parameters_validate_def check_parameter_def
  parameter_name_ok_def has_input_def bm_values_def in_i64_def i64_min_def i64_max_def timed_validate_def schedule_validate_def
  trigger_validate_def lifetime_ok_def ends_at_def default_unmanage_schedule_def default_schedule_def uuid_is_nil_def

lemma sample_definition_valid: "policy_definition_validate sample_calendar sample_serde sample_policy_definition = Inr ()"
  by (simp add: policy_eval sample_policy_definition_def sample_execution_def sample_parameters_def sample_serde_def sample_calendar_def)

lemma sample_policy_ok: "0 < n \<Longrightarrow> int n \<le> i64_max \<Longrightarrow> policy_ok sample_calendar sample_serde (sample_policy n st)"
  by (simp add: policy_ok_def sample_policy_def sample_definition_valid uuid_is_nil_def)

lemma sample_bound: "bound_semantic sample_hash sample_serde sample_policy_definition None = Inr 0"
  by (simp add: bound_semantic_def semantic_def semantic_bytes_def sample_policy_definition_def sample_execution_def
      sample_serde_def sample_hash_def)

definition sample_changed :: "nat \<Rightarrow> policy_state \<Rightarrow> bool \<Rightarrow> changed" where
  "sample_changed n st ch = \<lparr>changed_policy = sample_policy n st, changed_semantic_changed = ch, changed_semantic = 0\<rparr>"

lemma sample_normalized: "normalize_definition old sample_policy_definition = sample_policy_definition"
  by (simp add: normalize_definition_def sample_policy_definition_def)

lemma sample_created:
  "policy_apply sample_calendar sample_hash sample_serde 1 None 0 (Put sample_policy_definition True) 2 None =
    Inr (sample_changed 1 Enabled True)"
proof -
  have "admit_change sample_calendar sample_serde 1 None 0 2 = Inr 1" by (simp add: admit_new uuid_is_nil_def)
  moreover have "change_definition sample_calendar sample_serde None (Put sample_policy_definition True) = Inr (sample_policy_definition, Enabled)"
    by (simp add: change_definition_def change_target_def sample_normalized sample_definition_valid)
  moreover have "change_binding None (Put sample_policy_definition True) None sample_policy_definition = Inr None"
    by (simp add: change_binding_def is_put_def needs_binding_def sample_policy_definition_def sample_execution_def)
  moreover have "change_version sample_hash sample_serde None sample_policy_definition None 2 = Inr (0, True, 1, 2)"
    by (simp add: change_version_def sample_bound)
  ultimately show ?thesis by (simp add: policy_apply_def sample_changed_def sample_policy_def)
qed

lemma sample_toggle:
  assumes "0 < n" "int n < i64_max" "st \<noteq> Archived"
    and "c = Disable \<and> st' = Disabled \<or> c = Archive \<and> st = Disabled \<and> st' = Archived"
  shows "policy_apply sample_calendar sample_hash sample_serde 1 (Some (sample_policy n st)) n c 3 None =
    Inr (sample_changed (Suc n) st' False)"
proof -
  have "admit_change sample_calendar sample_serde 1 (Some (sample_policy n st)) n 3 = Inr (Suc n)"
    using assms sample_policy_ok [of n st] by (simp add: admit_old uuid_is_nil_def) (simp add: sample_policy_def)
  moreover have "change_definition sample_calendar sample_serde (Some (sample_policy n st)) c = Inr (sample_policy_definition, st')"
    using assms(4) by (auto simp: change_definition_def change_target_def sample_policy_def sample_normalized sample_definition_valid)
  moreover have "change_binding (Some (sample_policy n st)) c None sample_policy_definition = Inr None"
    using assms(4) by (auto simp: change_binding_def is_put_def needs_binding_def sample_policy_definition_def sample_execution_def sample_policy_def)
  moreover have "change_version sample_hash sample_serde (Some (sample_policy n st)) sample_policy_definition None 3 = Inr (0, False, 1, 2)"
    by (simp add: change_version_def sample_bound sample_policy_def)
  ultimately show ?thesis by (simp add: policy_apply_def sample_changed_def sample_policy_def)
qed

lemma sample_history: "policy_history sample_calendar sample_hash sample_serde 1
    [sample_policy 3 Archived, sample_policy 2 Disabled, sample_policy 1 Enabled]"
proof -
  have 1: "policy_history sample_calendar sample_hash sample_serde 1 [sample_policy 1 Enabled]"
    using policy_history.created [OF sample_created] by (simp add: sample_changed_def)
  have 2: "policy_history sample_calendar sample_hash sample_serde 1 [sample_policy 2 Disabled, sample_policy 1 Enabled]"
    using policy_history.changed [OF 1 sample_toggle [of 1 Enabled Disable Disabled]]
    by (simp add: sample_changed_def i64_max_def numeral_2_eq_2)
  show ?thesis
    using policy_history.changed [OF 2 sample_toggle [of 2 Disabled Archive Archived]]
    by (simp add: sample_changed_def i64_max_def numeral_3_eq_3)
qed


section \<open>Properties\<close>

text \<open>C10: The history of a policy is a chain of single changes: revisions count up from one without gaps,
  version numbers never decrease and never exceed the revision, every state is valid with the same
  identity, and an archived state is the last one: it accepts no change at all.\<close>

theorem policy_history_invariant:
  assumes "policy_history cal sha ser uid ps"
  shows "map pol_revision (rev ps) = map int [1..<Suc (length ps)] \<and>
    sorted (map pol_number (rev ps)) \<and>
    (\<forall>p \<in> set ps. pol_id p = uid \<and> 1 \<le> pol_number p \<and> pol_number p \<le> pol_revision p \<and>
      policy_definition_validate cal ser (pol_definition p) = Inr ()) \<and>
    (\<forall>p \<in> set (tl ps). pol_state p \<noteq> Archived) \<and>
    (pol_state (hd ps) = Archived \<longrightarrow> \<not> is_ok (policy_apply cal sha ser uid (Some (hd ps)) expected c v b))"
proof -
  note h = history_heads [OF assms]
  have "map pol_revision (rev ps) = map int [1..<Suc (length ps)]"
    using assms
  proof (induction rule: policy_history.induct)
    case (created expected c v b ch)
    then show ?case using policy_apply_new(5) [OF created] by simp
  next
    case (changed p ps expected c v b ch)
    then have "pol_revision p = int (length (p # ps))" using history_heads [OF changed(1)] by simp
    with changed policy_apply_old(6) [OF changed(2)] show ?case by simp
  qed
  moreover have "sorted (map pol_number (rev ps))"
    using h by (auto simp: sorted_wrt_map sorted_wrt_rev elim!: sorted_wrt_mono_rel [rotated])
  moreover have "\<forall>p \<in> set (tl ps). pol_state p \<noteq> Archived" using h by (cases ps) auto
  moreover have "pol_state (hd ps) = Archived \<longrightarrow> \<not> is_ok (policy_apply cal sha ser uid (Some (hd ps)) expected c v b)"
  proof
    assume "pol_state (hd ps) = Archived"
    then show "\<not> is_ok (policy_apply cal sha ser uid (Some (hd ps)) expected c v b)"
      using policy_apply_old(3) [of cal sha ser uid "hd ps" expected c v b] by (auto simp: is_ok_conv)
  qed
  ultimately show ?thesis using h by (auto simp: list_all_iff policy_ok_def)
qed

theorem policy_history_invariant_witness:
  "\<not> is_ok (policy_apply sample_calendar sample_hash sample_serde 1 (Some (sample_policy 3 Archived)) 3 Enable 9 None)"
  using policy_history_invariant [OF sample_history, of 3 Enable 9 None] by (simp add: sample_policy_def)

text \<open>C4: The version of a policy follows its execution content alone. An applied change is a
  compare-and-set on the current revision; enabling, disabling and archiving never change the
  version identity, number, action or binding; a replacement gets a new version identity and the
  next number exactly when the digest of its execution content differs, and keeps both otherwise;
  archiving is reached only from disabled.\<close>

theorem policy_version_follows_content:
  assumes "policy_apply cal sha ser uid (Some p) expected c v b = Inr ch"
  shows "int expected = pol_revision p \<and> pol_revision (changed_policy ch) = pol_revision p + 1 \<and>
    (changed_semantic_changed ch \<longleftrightarrow>
      bound_semantic sha ser (pol_definition p) (pol_execution_binding p) \<noteq>
      bound_semantic sha ser (pol_definition (changed_policy ch)) (pol_execution_binding (changed_policy ch))) \<and>
    (if changed_semantic_changed ch
     then is_put c \<and> pol_version (changed_policy ch) = v \<and> v \<noteq> pol_version p \<and> pol_number (changed_policy ch) = pol_number p + 1
     else pol_version (changed_policy ch) = pol_version p \<and> pol_number (changed_policy ch) = pol_number p) \<and>
    (\<not> is_put c \<longrightarrow> pd_action (pol_definition (changed_policy ch)) = pd_action (pol_definition p) \<and>
      pol_execution_binding (changed_policy ch) = pol_execution_binding p) \<and>
    (pol_state (changed_policy ch) = Archived \<longrightarrow> pol_state p = Disabled)"
proof -
  note a = policy_apply_old [OF assms]
  have same: "pd_action (pol_definition (changed_policy ch)) = pd_action (pol_definition p) \<and>
      pol_execution_binding (changed_policy ch) = pol_execution_binding p" if "\<not> is_put c"
    using a(8) that by (cases c) (simp_all add: change_content_def is_put_def)
  then have "changed_semantic_changed ch \<longrightarrow> is_put c"
    using a(9) bound_semantic_action by metis
  moreover have "c = Archive" if "pol_state (changed_policy ch) = Archived"
    using a(7) that by (cases c) (auto split: if_split_asm)
  ultimately show ?thesis using a(2,4,6,9-12) same by (cases "changed_semantic_changed ch") auto
qed

theorem policy_version_follows_content_witness:
  "pol_number (changed_policy (sample_changed 2 Disabled False)) = pol_number (sample_policy 1 Enabled)"
  using policy_version_follows_content [OF sample_toggle [of 1 Enabled Disable Disabled]]
  by (simp add: i64_max_def sample_changed_def sample_policy_def)

text \<open>A validated rollout opens in order: the stages have distinct scopes and strictly increasing
  opening times, the first one has no success gate, so that a later stage is never open before the
  opening time of an earlier one; and an open stage stays open as time passes and more devices of
  the preceding stage are verified.\<close>

theorem policy_rollout_ordered:
  assumes "rollout_validate stages = Inr ()"
  shows "distinct (map stage_scope stages) \<and> stage_minimum_verified_percent (hd stages) = None \<and>
    (\<forall>i j. i < j \<and> j < length stages \<longrightarrow> stage_opens_at (stages ! i) < stage_opens_at (stages ! j) \<and>
      (\<forall>now n k. stage_open (stages ! j) now n k \<longrightarrow> stage_opens_at (stages ! i) < now)) \<and>
    (\<forall>s now now' n k k'. stage_open s now n k \<and> now \<le> now' \<and> k \<le> k' \<and> k' \<le> n \<longrightarrow> stage_open s now' n k')"
proof -
  from assms obtain st where "fold_res check_stage stages (None, []) = Inr st" and h: "stage_minimum_verified_percent (hd stages) = None"
    by (auto simp: rollout_validate_def split: if_split_asm)
  from check_stages [OF this(1)] have s: "sorted_wrt (<) (map stage_opens_at stages)" "distinct (map stage_scope stages)" by simp_all
  have lt: "stage_opens_at (stages ! i) < stage_opens_at (stages ! j)" if "i < j" "j < length stages" for i j
    using s(1) that by (simp add: sorted_wrt_iff_nth_less)
  have open': "stage_opens_at x \<le> now" if "stage_open x now n k" for x now n k
    using that by (simp add: stage_open_def split: if_split_asm)
  have before: "stage_opens_at (stages ! i) < now" if "i < j" "j < length stages" "stage_open (stages ! j) now n k" for i j now n k
    using lt [OF that(1,2)] open' [OF that(3)] by simp
  have later: "stage_open x now' n k'" if "stage_open x now n k" "now \<le> now'" "k \<le> k'" "k' \<le> n" for x now now' n k k'
    using that by (auto simp: stage_open_def split: if_split_asm option.splits)
  show ?thesis by (intro conjI allI impI s(2) h; elim conjE) (rule lt before later; assumption)+
qed

theorem policy_rollout_ordered_witness:
  "rollout_validate [\<lparr>stage_scope = 1, stage_opens_at = 10, stage_minimum_verified_percent = None\<rparr>,
      \<lparr>stage_scope = 2, stage_opens_at = 20, stage_minimum_verified_percent = Some 80\<rparr>] = Inr () \<and>
    \<not> stage_open \<lparr>stage_scope = 2, stage_opens_at = 20, stage_minimum_verified_percent = Some 80\<rparr> 10 5 5"
proof -
  have v: "rollout_validate [\<lparr>stage_scope = 1, stage_opens_at = 10, stage_minimum_verified_percent = None\<rparr>,
      \<lparr>stage_scope = 2, stage_opens_at = 20, stage_minimum_verified_percent = Some 80\<rparr>] = Inr ()"
    by (simp add: rollout_validate_def check_stage_def uuid_is_nil_def)
  have "\<forall>now n k. stage_open \<lparr>stage_scope = 2, stage_opens_at = 20, stage_minimum_verified_percent = Some 80\<rparr> now n k \<longrightarrow> 10 < now"
    using policy_rollout_ordered [OF v, THEN conjunct2, THEN conjunct2, THEN conjunct1, rule_format, of 0 1] by simp
  with v show ?thesis by auto
qed

text \<open>Resolved parameters are exactly the declared ones: resolving succeeds only with one value for
  every declared call input and nothing else, every literal of the administrator is kept as it is,
  and the result has exactly the declared names.\<close>

theorem policy_parameters_resolved:
  assumes "parameters_resolve params_len ps input = Inr out" "bm_wf ps"
  shows "\<exists>m r. input = JObject m \<and> out = JObject r \<and> bm_wf r \<and>
    set (bm_keys r) = set (bm_keys ps) \<and>
    set (bm_keys m) = {name. bm_get ps name = Some Input} \<and>
    (\<forall>name v. bm_get ps name = Some (Fixed v) \<longrightarrow> bm_get r name = Some v) \<and>
    (\<forall>name. bm_get ps name = Some Input \<longrightarrow> bm_get r name = bm_get m name \<and> bm_get m name \<noteq> None)"
proof -
  have declared: "(case q of Some Input \<Rightarrow> True | _ \<Rightarrow> False) \<longleftrightarrow> q = Some Input" for q
    by (auto split: option.splits parameter_source.splits)
  from assms(1) obtain m r where m: "input = JObject m" and r: "out = JObject r"
    and f: "fold_res (resolve_parameter m) ps [] = Inr r"
    and keys: "\<forall>name \<in> set (bm_keys m). bm_get ps name = Some Input"
    unfolding parameters_resolve_def declared by (cases input) (auto simp: list_ex_iff split: if_split_asm)
  have rev: "map_of (rev ps) = map_of ps"
    using bm_wf_distinct [OF assms(2)] by (subst map_of_inject_set) (simp_all add: rev_map [symmetric])
  from fold_resolve [OF f] have wf: "bm_wf r"
    and get: "\<And>k. bm_get r k = (case bm_get ps k of Some p \<Rightarrow> parameter_value m k p | None \<Rightarrow> None)"
    and all: "\<forall>(name, p) \<in> set ps. parameter_value m name p \<noteq> None" by (simp_all add: rev cong: option.case_cong)
  have val: "parameter_value m name p \<noteq> None" if "bm_get ps name = Some p" for name p
    using all map_of_SomeD [OF that] by auto
  have domp: "set (bm_keys ps) = dom (bm_get ps)" by (simp add: bm_keys_def dom_map_of_conv_image_fst)
  have domm: "set (bm_keys x) = dom (bm_get x)" for x :: json_map
    by (simp add: bm_keys_def dom_map_of_conv_image_fst)
  have "set (bm_keys r) = set (bm_keys ps)"
    unfolding domp domm using val by (auto simp: dom_def get split: option.splits)
  moreover have "set (bm_keys m) = {name. bm_get ps name = Some Input}"
    using keys val unfolding domm by (force simp: parameter_value_def dom_def)
  moreover have "bm_get m name \<noteq> None" if "bm_get ps name = Some Input" for name
    using val [OF that] by (simp add: parameter_value_def)
  ultimately show ?thesis using m r wf get by (simp add: parameter_value_def)
qed

theorem policy_parameters_resolved_witness:
  "parameters_resolve (\<lambda>_. Some 10) sample_parameters (JObject [(''path'', JString ''/tmp'')]) =
    Inr (JObject [(''level'', JNumber (JInt 3)), (''path'', JString ''/tmp'')]) \<and>
   set (bm_keys [(''level'', JNumber (JInt 3)), (''path'', JString ''/tmp'')]) = set (bm_keys sample_parameters)"
proof -
  have r: "parameters_resolve (\<lambda>_. Some 10) sample_parameters (JObject [(''path'', JString ''/tmp'')]) =
      Inr (JObject [(''level'', JNumber (JInt 3)), (''path'', JString ''/tmp'')])"
    by (simp add: parameters_resolve_def policy_eval sample_parameters_def resolve_parameter_def bm_keys_def)
  have wf: "bm_wf sample_parameters" by (simp add: sample_parameters_def)
  show ?thesis using r policy_parameters_resolved [OF r wf] by auto
qed

text \<open>The database predicates of a driver agree with the driver an action selects: outside software,
  whose channel is authored, the persisted kind of an action is listed for its driver and for no
  other; software goes to the native driver exactly on the MDM channel; and every driver but the
  device lifecycle writes through one channel.\<close>

theorem policy_driver_kinds_exact:
  "(action_kind_of a \<noteq> KSoftware \<longrightarrow>
      (action_kind_as_str (action_kind_of a) \<in> set (behavior_kinds k) \<longleftrightarrow> k = assignment_behavior a)) \<and>
   (action_kind_of a = KSoftware \<longrightarrow>
      (assignment_behavior a = BNativeDesired \<longleftrightarrow> target_channel a = Some ChannelMdm) \<and>
      assignment_behavior a \<in> {BNativeDesired, BAgentCheckIn}) \<and>
   (target_channel a = None \<longleftrightarrow> assignment_behavior a = BDeviceLifecycle)"
  by (cases a; cases k) (auto simp: assignment_behavior_def)

theorem policy_driver_kinds_exact_witness:
  "action_kind_of sample_execution \<noteq> KSoftware \<and>
   action_kind_as_str (action_kind_of sample_execution) \<in> set (behavior_kinds BAgentCheckIn)"
  using policy_driver_kinds_exact [of sample_execution BAgentCheckIn]
  by (simp add: sample_execution_def assignment_behavior_def)

end
