(* ===== verification/Query_Text.thy ===== *)
theory Query_Text
  imports Mdm_Prelude
begin

text \<open>
  What the query crate uses of text beyond the shared layer: the next character of a string with its
  length in bytes (\<^verbatim>\<open>chars().next()\<close>, \<^verbatim>\<open>len_utf8\<close>), the check of \<^verbatim>\<open>String::from_utf8\<close>, hexadecimal
  digits and the decimal parsers of the standard library.
\<close>

section \<open>Characters\<close>

text \<open>The next scalar value of a string and the number of its bytes. A Rust string is valid UTF-8, so
  a sequence that ends early does not occur; it has no next character here.\<close>

fun next_char :: "string \<Rightarrow> (nat \<times> nat) option" where
  "next_char [] = None"
| "next_char (a # s) =
    (let x = of_char a in
     if x < 128 then Some (x, 1)
     else if x < 224 then
       (case s of b # _ \<Rightarrow> Some ((x - 192) * 64 + (of_char b - 128), 2) | _ \<Rightarrow> None)
     else if x < 240 then
       (case s of b # c # _ \<Rightarrow> Some ((x - 224) * 4096 + (of_char b - 128) * 64 + (of_char c - 128), 3)
        | _ \<Rightarrow> None)
     else
       (case s of b # c # d # _ \<Rightarrow>
          Some ((x - 240) * 262144 + (of_char b - 128) * 4096 + (of_char c - 128) * 64 + (of_char d - 128), 4)
        | _ \<Rightarrow> None))"

declare next_char.simps(2) [simp del]

text \<open>The number of bytes alone; the shape of the string decides the rest.\<close>

lemma next_char_cases [consumes 1, case_names one two three four]:
  assumes "next_char s = Some (c, n)"
  obtains a r where "s = a # r" "of_char a < (128::nat)" "c = of_char a" "n = 1"
  | a b r where "s = a # b # r" "n = 2" "128 \<le> (of_char a::nat)" "of_char a < (224::nat)"
      "c = (of_char a - 192) * 64 + (of_char b - 128)"
  | a b d r where "s = a # b # d # r" "n = 3" "224 \<le> (of_char a::nat)" "of_char a < (240::nat)"
      "c = (of_char a - 224) * 4096 + (of_char b - 128) * 64 + (of_char d - 128)"
  | a b d e r where "s = a # b # d # e # r" "n = 4" "240 \<le> (of_char a::nat)"
      "c = (of_char a - 240) * 262144 + (of_char b - 128) * 4096 + (of_char d - 128) * 64 + (of_char e - 128)"
  using assms
  by (cases s) (auto simp: next_char.simps(2) Let_def not_less split: list.splits if_splits)

lemma next_char_bounds: "next_char s = Some (c, n) \<Longrightarrow> 1 \<le> n \<and> n \<le> length s"
  by (erule next_char_cases) auto

lemma next_char_append: "next_char s = Some (c, n) \<Longrightarrow> next_char (s @ t) = Some (c, n)"
  by (erule next_char_cases) (simp_all add: next_char.simps(2))

lemma next_char_ascii [simp]: "of_char a < (128::nat) \<Longrightarrow> next_char (a # s) = Some (of_char a, 1)"
  by (simp add: next_char.simps(2))

text \<open>The decoding of the shared layer takes one such character after the other.\<close>

lemma str_chars_next: "next_char s = Some (c, n) \<Longrightarrow> str_chars s = c # str_chars (drop n s)"
  by (erule next_char_cases) (simp_all add: str_chars_def)

lemma next_char_None: "next_char s = None \<Longrightarrow> str_chars s = []"
  by (cases s) (auto simp: str_chars_def next_char.simps(2) Let_def split: list.splits if_splits)

section \<open>Validity\<close>

text \<open>The well-formed sequences of UTF-8: no overlong form, no surrogate, nothing above U+10FFFF.\<close>

definition utf8_tail :: "nat \<Rightarrow> bool" where
  "utf8_tail b \<longleftrightarrow> 128 \<le> b \<and> b < 192"

fun utf8_valid :: "nat list \<Rightarrow> bool" where
  "utf8_valid [] = True"
| "utf8_valid (a # bs) =
    (if a < 128 then utf8_valid bs
     else if 194 \<le> a \<and> a < 224 then
       (case bs of b # r \<Rightarrow> utf8_tail b \<and> utf8_valid r | _ \<Rightarrow> False)
     else if 224 \<le> a \<and> a < 240 then
       (case bs of b # c # r \<Rightarrow> utf8_tail b \<and> utf8_tail c \<and> (a = 224 \<longrightarrow> 160 \<le> b) \<and> (a = 237 \<longrightarrow> b < 160)
            \<and> utf8_valid r
        | _ \<Rightarrow> False)
     else if 240 \<le> a \<and> a < 245 then
       (case bs of b # c # d # r \<Rightarrow> utf8_tail b \<and> utf8_tail c \<and> utf8_tail d
            \<and> (a = 240 \<longrightarrow> 144 \<le> b) \<and> (a = 244 \<longrightarrow> b < 144) \<and> utf8_valid r
        | _ \<Rightarrow> False)
     else False)"

definition str_valid :: "string \<Rightarrow> bool" where
  "str_valid s \<longleftrightarrow> utf8_valid (map of_char s)"

lemma str_valid_Nil [simp]: "str_valid []"
  by (simp add: str_valid_def)

lemma str_valid_next:
  assumes "str_valid (a # s)"
  obtains c n where "next_char (a # s) = Some (c, n)" "str_valid (drop n (a # s))"
proof -
  consider "of_char a < (128::nat)" | "128 \<le> (of_char a::nat)" "of_char a < (224::nat)"
    | "224 \<le> (of_char a::nat)" "of_char a < (240::nat)" | "240 \<le> (of_char a::nat)"
    by linarith
  then show thesis
  proof cases
    case 1
    then show thesis using assms that by (simp add: str_valid_def)
  next
    case 2
    then obtain b r where "s = b # r" using assms by (cases s) (auto simp: str_valid_def split: if_splits)
    then show thesis using 2 assms that by (auto simp: str_valid_def next_char.simps(2) split: if_splits)
  next
    case 3
    then obtain b d r where "s = b # d # r"
      using assms by (cases s rule: remdups_adj.cases) (auto simp: str_valid_def split: if_splits)
    then show thesis using 3 assms that by (auto simp: str_valid_def next_char.simps(2) split: if_splits)
  next
    case 4
    then obtain b d e r where "s = b # d # e # r"
      using assms by (cases s; cases "tl s"; cases "tl (tl s)") (auto simp: str_valid_def split: if_splits)
    then show thesis using 4 assms that by (auto simp: str_valid_def next_char.simps(2) split: if_splits)
  qed
qed

lemma utf8_valid_append: "utf8_valid xs \<Longrightarrow> utf8_valid (xs @ ys) = utf8_valid ys"
proof (induction xs rule: utf8_valid.induct)
  case 1
  then show ?case by simp
next
  case (2 a bs)
  consider "a < 128" | "128 \<le> a" "a < 224" | "224 \<le> a" "a < 240" | "240 \<le> a" by linarith
  then show ?case
  proof cases
    case 1
    then show ?thesis using "2.prems" "2.IH"(1) by simp
  next
    case c: 2
    then obtain b r where "bs = b # r" using "2.prems" by (cases bs) (auto split: if_splits)
    then show ?thesis using c "2.prems" "2.IH"(2) by (simp split: if_splits)
  next
    case c: 3
    then obtain b d r where "bs = b # d # r" using "2.prems" by (cases bs rule: remdups_adj.cases) (auto split: if_splits)
    then show ?thesis using c "2.prems" "2.IH"(3) by (simp split: if_splits)
  next
    case c: 4
    then obtain b d e r where "bs = b # d # e # r"
      using "2.prems" by (cases bs; cases "tl bs"; cases "tl (tl bs)") (auto split: if_splits)
    then show ?thesis using c "2.prems" "2.IH"(4) by (simp split: if_splits)
  qed
qed

lemma str_valid_append: "str_valid s \<Longrightarrow> str_valid (s @ t) = str_valid t"
  by (simp add: str_valid_def utf8_valid_append)

lemma str_valid_ascii: "of_char a < (128::nat) \<Longrightarrow> str_valid (a # s) = str_valid s"
  by (simp add: str_valid_def)

section \<open>Numbers\<close>

text \<open>\<^verbatim>\<open>char::to_digit(16)\<close> of a byte.\<close>

definition hex_value :: "char \<Rightarrow> nat option" where
  "hex_value c = (let n = of_char c in
     if 48 \<le> n \<and> n \<le> 57 then Some (n - 48)
     else if 97 \<le> n \<and> n \<le> 102 then Some (n - 87)
     else if 65 \<le> n \<and> n \<le> 70 then Some (n - 55) else None)"

lemma hex_value_bound: "hex_value c = Some n \<Longrightarrow> n < 16"
  by (auto simp: hex_value_def Let_def split: if_splits)

text \<open>The value of a nonempty sequence of decimal digits.\<close>

definition decimal :: "string \<Rightarrow> nat option" where
  "decimal s = (if s = [] \<or> \<not> list_all is_ascii_digit s then None
     else Some (foldl (\<lambda>n c. 10 * n + (of_char c - 48)) 0 s))"

definition parse_u16 :: "string \<Rightarrow> nat option" where
  "parse_u16 s = (let t = (case s of c # r \<Rightarrow> if c = CHR ''+'' then r else s | [] \<Rightarrow> s) in
     case decimal t of Some n \<Rightarrow> if n < 65536 then Some n else None | None \<Rightarrow> None)"

definition parse_i64 :: "string \<Rightarrow> int option" where
  "parse_i64 s = (case s of
      [] \<Rightarrow> None
    | c # r \<Rightarrow>
        (if c = CHR ''-'' then Option.bind (decimal r) (\<lambda>n. checked_i64 (- int n))
         else Option.bind (decimal (if c = CHR ''+'' then r else s)) (\<lambda>n. checked_i64 (int n))))"

text \<open>\<^verbatim>\<open>to_string\<close> of an unsigned number, and the texts that are the decimal form of a bounded number
  (\<^verbatim>\<open>s.parse().is_ok_and(|n| n.to_string() == s)\<close>).\<close>

fun print_nat :: "nat \<Rightarrow> string" where
  "print_nat n = (if n < 10 then [char_of (48 + n)] else print_nat (n div 10) @ [char_of (48 + n mod 10)])"

declare print_nat.simps [simp del]

definition parse_unsigned :: "nat \<Rightarrow> string \<Rightarrow> nat option" where
  "parse_unsigned bound s = (let t = (case s of c # r \<Rightarrow> if c = CHR ''+'' then r else s | [] \<Rightarrow> s) in
     case decimal t of Some n \<Rightarrow> if n \<le> bound then Some n else None | None \<Rightarrow> None)"

definition canonical_decimal :: "nat \<Rightarrow> string \<Rightarrow> bool" where
  "canonical_decimal bound s = (case parse_unsigned bound s of Some n \<Rightarrow> print_nat n = s | None \<Rightarrow> False)"

definition digits_value :: "nat \<Rightarrow> string \<Rightarrow> nat" where
  "digits_value a s = foldl (\<lambda>n c. 10 * n + (of_char c - 48)) a s"

lemma print_nat_digits: "print_nat n \<noteq> [] \<and> list_all is_ascii_digit (print_nat n) \<and> digits_value 0 (print_nat n) = n"
proof (induction n rule: print_nat.induct)
  case (1 n)
  show ?case
  proof (cases "n < 10")
    case True
    then show ?thesis by (subst (1 2 3) print_nat.simps) (simp add: digits_value_def is_ascii_digit_def)
  next
    case False
    moreover have "is_ascii_digit (char_of (48 + n mod 10))"
      using mod_less_divisor [of 10 n] by (simp add: is_ascii_digit_def del: mod_less_divisor)
    ultimately show ?thesis using 1
      by (subst (1 2 3) print_nat.simps) (simp add: digits_value_def)
  qed
qed

end
