(* ===== verification/Query_Parser.thy ===== *)
theory Query_Parser
  imports Query_Text
begin

text \<open>
  The filter language of \<^verbatim>\<open>crates/query\<close> (\<^verbatim>\<open>lib.rs\<close>, \<^verbatim>\<open>parser.rs\<close>): a recursive descent parser with
  budgets. The parser state keeps the unread rest of the input in place of the offset. The mutual
  recursion of \<^verbatim>\<open>logical\<close> and \<^verbatim>\<open>atom\<close> is defined as in the code; that every round consumes input is
  proved on its domain first and gives termination.
\<close>

datatype query_error = QInvalid | QBudget | QCursorInvalidated

type_synonym 'a query_result = "(query_error, 'a) result"

datatype query_operator = QEq | QNe | QLt | QLe | QGt | QGe | QIn | QOut | QIcontains | QContains
  | QNotContains | QContainsAny | QContainsAll | QIsNull | QIsNotNull

definition operator_range :: "query_operator \<Rightarrow> bool" where
  "operator_range x \<longleftrightarrow> x \<in> {QLt, QLe, QGt, QGe}"

definition operator_set :: "query_operator \<Rightarrow> bool" where
  "operator_set x \<longleftrightarrow> x \<in> {QIn, QOut, QContainsAny, QContainsAll}"

datatype ('f, 'v) expression =
    Compare 'f query_operator "'v list"
  | QAnd "('f, 'v) expression list"
  | QOr "('f, 'v) expression list"

definition max_filter_bytes :: nat where "max_filter_bytes = 8 * 1024"

section \<open>Parser state\<close>

record parser =
  rest :: string
  nodes :: nat
  set_items :: nat

definition eat :: "char \<Rightarrow> parser \<Rightarrow> parser option" where
  "eat c p = (case rest p of x # xs \<Rightarrow> if x = c then Some (p\<lparr>rest := xs\<rparr>) else None | [] \<Rightarrow> None)"

definition parser_node :: "parser \<Rightarrow> parser query_result" where
  "parser_node p = (if nodes p \<ge> 128 then Inl (Fail QBudget) else Inr (p\<lparr>nodes := nodes p + 1\<rparr>))"

lemma eat_Some: "eat c p = Some q \<longleftrightarrow> rest p = c # rest q \<and> q = p\<lparr>rest := rest q\<rparr>"
  by (auto simp: eat_def split: list.splits if_splits)

lemma eat_length [dest]: "eat c p = Some q \<Longrightarrow> length (rest p) = Suc (length (rest q))"
  by (auto simp: eat_Some)

lemma parser_node_Inr [simp]:
  "parser_node p = Inr q \<longleftrightarrow> nodes p < 128 \<and> q = p\<lparr>nodes := nodes p + 1\<rparr>"
  by (auto simp: parser_node_def)

section \<open>Values\<close>

text \<open>One character of a value after the tests for its end: an escape stands for the character that
  follows, everything else for itself. The result is the bytes to push, the character and the rest.\<close>

definition value_char :: "nat option \<Rightarrow> nat \<Rightarrow> nat \<Rightarrow> string \<Rightarrow> (string \<times> nat \<times> string) query_result" where
  "value_char quote c n s =
    (if c = 92 then
       (case next_char (drop n s) of
          None \<Rightarrow> Inl (Fail QInvalid)
        | Some (e, m) \<Rightarrow>
            if e \<notin> {92, 39, 34, 44, 59, 40, 41} then Inl (Fail QInvalid)
            else Inr (take m (drop n s), e, drop (n + m) s))
     else if quote = None \<and> (char_is_whitespace c \<or> c \<in> {40, 39, 34, 61, 33, 60, 62})
     then Inl (Fail QInvalid)
     else Inr (take n s, c, drop n s))"

lemma value_char_Inr:
  "value_char quote c n s = Inr (bs, d, s') \<Longrightarrow> next_char s = Some (c, n) \<Longrightarrow> length s' < length s"
  by (auto simp: value_char_def split: option.splits if_splits dest!: next_char_bounds)

function value_chars :: "nat option \<Rightarrow> string \<Rightarrow> string \<Rightarrow> (string \<times> string \<times> bool) query_result" where
  "value_chars quote s out =
    (case next_char s of
       None \<Rightarrow> Inr (out, s, quote = None)
     | Some (c, n) \<Rightarrow>
         if quote = Some c then Inr (out, drop n s, True)
         else if quote = None \<and> c \<in> {44, 59, 41} then Inr (out, s, True)
         else bind_res (value_char quote c n s) (\<lambda>(bs, d, s').
           if char_is_control d \<or> (quote = None \<and> d = 42) then Inl (Fail QInvalid)
           else if length out + length bs > 1024 then Inl (Fail QBudget)
           else value_chars quote s' (out @ bs)))"
  by pat_completeness auto
termination
  by (relation "measure (\<lambda>(quote, s, out). length s)") (auto dest: value_char_Inr)

declare value_chars.simps [simp del]

definition parse_value :: "parser \<Rightarrow> (string \<times> parser) query_result" where
  "parse_value p =
    (let quote = (case next_char (rest p) of Some (c, n) \<Rightarrow> if c = 39 \<or> c = 34 then Some c else None | None \<Rightarrow> None);
         s = (if quote = None then rest p else tl (rest p)) in
     bind_res (value_chars quote s []) (\<lambda>(out, s', closed).
     if \<not> closed \<or> (quote = None \<and> out = []) then Inl (Fail QInvalid)
     else Inr (out, p\<lparr>rest := s'\<rparr>)))"

function value_list :: "string list \<Rightarrow> parser \<Rightarrow> (string list \<times> parser) query_result" where
  "value_list vs p =
    (if length vs \<ge> 64 \<or> set_items p \<ge> 256 then Inl (Fail QBudget)
     else bind_res (parse_value (p\<lparr>set_items := set_items p + 1\<rparr>)) (\<lambda>(v, p).
       case eat CHR '')'' p of
         Some p \<Rightarrow> Inr (vs @ [v], p)
       | None \<Rightarrow>
           (case eat CHR '','' p of
              None \<Rightarrow> Inl (Fail QInvalid)
            | Some p \<Rightarrow> value_list (vs @ [v]) p)))"
  by pat_completeness auto
termination
  by (relation "measure (\<lambda>(vs, p). 64 - length vs)") auto

declare value_list.simps [simp del]

section \<open>Comparisons\<close>

definition operator_tokens :: "(string \<times> query_operator) list" where
  "operator_tokens = [(''=='', QEq), (''!='', QNe), (''=lt='', QLt), (''=le='', QLe), (''=gt='', QGt),
     (''=ge='', QGe), (''=in='', QIn), (''=out='', QOut), (''=icontains='', QIcontains),
     (''=contains='', QContains), (''=notcontains='', QNotContains), (''=containsany='', QContainsAny),
     (''=containsall='', QContainsAll), (''=isnull='', QIsNull), (''=isnotnull='', QIsNotNull)]"

definition field_byte :: "char \<Rightarrow> bool" where
  "field_byte b \<longleftrightarrow> is_ascii_alphanumeric b \<or> b = CHR ''_'' \<or> b = CHR ''.''"

definition parse_compare :: "parser \<Rightarrow> ((string, string) expression \<times> parser) query_result" where
  "parse_compare p =
    bind_res (parser_node p) (\<lambda>p.
    let field = takeWhile field_byte (rest p) in
    if field = [] \<or> length field > 128 then Inl (Fail QInvalid)
    else let s = dropWhile field_byte (rest p) in
      bind_res (ok_or QInvalid (find (\<lambda>(t, _). prefix t s) operator_tokens)) (\<lambda>(token, x).
      let p = p\<lparr>rest := drop (length token) s\<rparr> in
      if operator_set x
      then (case eat CHR ''('' p of
              None \<Rightarrow> Inl (Fail QInvalid)
            | Some p \<Rightarrow> bind_res (value_list [] p) (\<lambda>(vs, p). Inr (Compare field x vs, p)))
      else bind_res (parse_value p) (\<lambda>(v, p). Inr (Compare field x [v], p))))"

section \<open>What is left is shorter\<close>

lemma value_chars_length:
  "value_chars quote s out = Inr (v, s', closed) \<Longrightarrow> length s' \<le> length s"
proof (induction quote s out rule: value_chars.induct)
  case (1 quote s out)
  show ?case
  proof (cases "next_char s")
    case None
    then show ?thesis using "1.prems" by (subst (asm) value_chars.simps) simp
  next
    case (Some cn)
    obtain c n where cn: "cn = (c, n)" by (cases cn)
    show ?thesis
    proof (cases "quote = Some c \<or> (quote = None \<and> c \<in> {44, 59, 41})")
      case True
      then show ?thesis using "1.prems" Some cn by (subst (asm) value_chars.simps) (auto split: if_splits)
    next
      case False
      with "1.prems" Some cn obtain bs d t where t: "value_char quote c n s = Inr (bs, d, t)"
        "\<not> (char_is_control d \<or> (quote = None \<and> d = 42))" "\<not> length out + length bs > 1024"
        "value_chars quote t (out @ bs) = Inr (v, s', closed)"
        by (subst (asm) value_chars.simps) (auto split: if_splits)
      have "length s' \<le> length t" using "1.IH" [OF Some] False t cn by blast
      moreover have "length t < length s" using value_char_Inr t(1) Some cn by blast
      ultimately show ?thesis by simp
    qed
  qed
qed

lemma parse_value_length: "parse_value p = Inr (v, q) \<Longrightarrow> length (rest q) \<le> length (rest p)"
  by (auto simp: parse_value_def Let_def dest!: value_chars_length split: option.splits if_splits)

lemma value_list_length: "value_list vs p = Inr (ws, q) \<Longrightarrow> length (rest q) \<le> length (rest p)"
proof (induction vs p rule: value_list.induct)
  case (1 vs p)
  from "1.prems" obtain v p1 where p1: "parse_value (p\<lparr>set_items := set_items p + 1\<rparr>) = Inr (v, p1)"
    and g: "\<not> (length vs \<ge> 64 \<or> set_items p \<ge> 256)"
    and m: "(case eat CHR '')'' p1 of Some p \<Rightarrow> Inr (vs @ [v], p) | None \<Rightarrow>
      (case eat CHR '','' p1 of None \<Rightarrow> Inl (Fail QInvalid) | Some p \<Rightarrow> value_list (vs @ [v]) p)) = Inr (ws, q)"
    by (subst (asm) value_list.simps) (auto split: if_splits)
  from parse_value_length [OF p1] have le: "length (rest p1) \<le> length (rest p)" by simp
  show ?case
  proof (cases "eat CHR '')'' p1")
    case (Some p2)
    then show ?thesis using m le by (auto dest: eat_length)
  next
    case None
    then obtain p2 where p2: "eat CHR '','' p1 = Some p2" "value_list (vs @ [v]) p2 = Inr (ws, q)"
      using m by (auto split: option.splits)
    from "1.IH" [OF g p1 refl None p2(1) p2(2)] le p2(1) show ?thesis by (auto dest: eat_length)
  qed
qed

lemma find_operator:
  "find (\<lambda>(t, _). prefix t s) operator_tokens = Some (t, x) \<Longrightarrow> prefix t s \<and> (t, x) \<in> set operator_tokens"
  unfolding find_Some_iff by (metis (no_types, lifting) case_prod_conv nth_mem)

lemma parse_compare_Inr:
  assumes "parse_compare p = Inr (e, q)"
  obtains token x p1 vs where "nodes p < 128" "takeWhile field_byte (rest p) \<noteq> []"
    "length (takeWhile field_byte (rest p)) \<le> 128"
    "find (\<lambda>(t, _). prefix t (dropWhile field_byte (rest p))) operator_tokens = Some (token, x)"
    "p1 = p\<lparr>nodes := nodes p + 1, rest := drop (length token) (dropWhile field_byte (rest p))\<rparr>"
    "e = Compare (takeWhile field_byte (rest p)) x vs"
    "if operator_set x then \<exists>p2. eat CHR ''('' p1 = Some p2 \<and> value_list [] p2 = Inr (vs, q)
     else \<exists>v. vs = [v] \<and> parse_value p1 = Inr (v, q)"
proof -
  from assms obtain token x where b: "nodes p < 128" "takeWhile field_byte (rest p) \<noteq> []"
    "length (takeWhile field_byte (rest p)) \<le> 128"
    "find (\<lambda>(t, _). prefix t (dropWhile field_byte (rest p))) operator_tokens = Some (token, x)"
    by (auto simp: parse_compare_def Let_def not_less split: if_splits)
  let ?p1 = "p\<lparr>nodes := nodes p + 1, rest := drop (length token) (dropWhile field_byte (rest p))\<rparr>"
  show thesis
  proof (cases "operator_set x")
    case True
    then obtain p2 vs where "eat CHR ''('' ?p1 = Some p2" "value_list [] p2 = Inr (vs, q)"
      "e = Compare (takeWhile field_byte (rest p)) x vs"
      using assms b by (auto simp: parse_compare_def Let_def split: if_splits option.splits)
    then show thesis using True b that [of token x ?p1 vs] by simp
  next
    case False
    then obtain v where "parse_value ?p1 = Inr (v, q)" "e = Compare (takeWhile field_byte (rest p)) x [v]"
      using assms b by (auto simp: parse_compare_def Let_def split: if_splits)
    then show thesis using False b that [of token x ?p1 "[v]"] by simp
  qed
qed

lemma parse_compare_length:
  assumes "parse_compare p = Inr (e, q)"
  shows "length (rest q) < length (rest p)"
  using assms
proof (cases rule: parse_compare_Inr)
  case (1 token x p1 vs)
  have "length (rest q) \<le> length (rest p1)"
    using 1(7) by (auto dest!: value_list_length parse_value_length eat_length split: if_splits)
  moreover have "length (rest p) = length (takeWhile field_byte (rest p)) + length (dropWhile field_byte (rest p))"
    by (metis length_append takeWhile_dropWhile_id)
  moreover have "length (takeWhile field_byte (rest p)) > 0" using 1(2) by simp
  moreover have "length (rest p1) \<le> length (dropWhile field_byte (rest p))" using 1(5) by simp
  ultimately show ?thesis by linarith
qed

section \<open>Expressions\<close>

definition separator :: "nat \<Rightarrow> char" where
  "separator precedence = (if precedence = 0 then CHR '','' else CHR '';'')"

definition combine :: "nat \<Rightarrow> ('f, 'v) expression list \<Rightarrow> ('f, 'v) expression" where
  "combine precedence es = (if precedence = 0 then QOr es else QAnd es)"

text \<open>\<^verbatim>\<open>precedence + 1\<close> is an addition of u8. \<open>more\<close> is the loop that collects the children after the
  first separator.\<close>

function (sequential) logical :: "nat \<Rightarrow> nat \<Rightarrow> parser \<Rightarrow> ((string, string) expression \<times> parser) query_result"
and more :: "nat \<Rightarrow> nat \<Rightarrow> (string, string) expression list \<Rightarrow> parser \<Rightarrow>
    ((string, string) expression list \<times> parser) query_result"
and atom :: "nat \<Rightarrow> parser \<Rightarrow> ((string, string) expression \<times> parser) query_result" where
  "logical precedence depth p =
    (if depth > 16 then Inl (Fail QBudget)
     else if precedence = 2 then atom depth p
     else if precedence \<ge> 255 then Inl Panic
     else bind_res (logical (precedence + 1) depth p) (\<lambda>(first, p).
       case eat (separator precedence) p of
         None \<Rightarrow> Inr (first, p)
       | Some p \<Rightarrow>
           bind_res (parser_node p) (\<lambda>p.
           bind_res (more precedence depth [first] p) (\<lambda>(children, p).
           Inr (combine precedence children, p)))))"
| "more precedence depth children p =
    (if precedence \<ge> 255 then Inl Panic
     else bind_res (logical (precedence + 1) depth p) (\<lambda>(child, p).
       case eat (separator precedence) p of
         None \<Rightarrow> Inr (children @ [child], p)
       | Some p \<Rightarrow> more precedence depth (children @ [child]) p))"
| "atom depth p =
    (case eat CHR ''('' p of
       Some p \<Rightarrow>
         if depth = 16 then Inl (Fail QBudget)
         else bind_res (logical 0 (depth + 1) p) (\<lambda>(inner, p).
           case eat CHR '')'' p of
             None \<Rightarrow> Inl (Fail QInvalid)
           | Some p \<Rightarrow> Inr (inner, p))
     | None \<Rightarrow> parse_compare p)"
  by pat_completeness auto

text \<open>On its domain every call consumes input; so the domain is everything.\<close>

lemma logical_consumes:
  "logical_more_atom_dom (Inl (precedence, depth, p)) \<Longrightarrow>
    (\<forall>e q. logical precedence depth p = Inr (e, q) \<longrightarrow> length (rest q) < length (rest p))"
  "logical_more_atom_dom (Inr (Inl (precedence, depth, children, p))) \<Longrightarrow>
    (\<forall>es q. more precedence depth children p = Inr (es, q) \<longrightarrow> length (rest q) < length (rest p))"
  "logical_more_atom_dom (Inr (Inr (depth, p))) \<Longrightarrow>
    (\<forall>e q. atom depth p = Inr (e, q) \<longrightarrow> length (rest q) < length (rest p))"
proof (induction precedence depth p and precedence depth children p and depth p rule: logical_more_atom.pinduct)
  case (1 precedence depth p)
  show ?case
  proof (intro allI impI)
    fix e q
    assume a: "logical precedence depth p = Inr (e, q)"
    show "length (rest q) < length (rest p)"
    proof (cases "precedence = 2")
      case True
      then show ?thesis using a "1.IH"(1) unfolding logical.psimps [OF "1.hyps"] by (auto split: if_splits)
    next
      case False
      with a obtain e1 p1 where p1: "logical (precedence + 1) depth p = Inr (e1, p1)" "\<not> depth > 16" "\<not> precedence \<ge> 255"
        by (auto simp: logical.psimps [OF "1.hyps"] split: if_splits)
      have l1: "length (rest p1) < length (rest p)" using "1.IH"(2) p1 False by blast
      show ?thesis
      proof (cases "eat (separator precedence) p1")
        case None
        then show ?thesis using a p1 False l1 by (simp add: logical.psimps [OF "1.hyps"])
      next
        case (Some p2)
        from a Some p1 False obtain es where m: "nodes p2 < 128"
          "more precedence depth [e1] (p2\<lparr>nodes := nodes p2 + 1\<rparr>) = Inr (es, q)"
          by (auto simp: logical.psimps [OF "1.hyps"])
        have "length (rest q) < length (rest p2)"
          using "1.IH"(3) [OF _ False _ p1(1) refl Some] m p1 by auto
        then show ?thesis using l1 Some by (auto dest: eat_length)
      qed
    qed
  qed
next
  case (2 precedence depth children p)
  show ?case
  proof (intro allI impI)
    fix es q
    assume a: "more precedence depth children p = Inr (es, q)"
    then obtain e1 p1 where p1: "logical (precedence + 1) depth p = Inr (e1, p1)" "\<not> precedence \<ge> 255"
      by (auto simp: more.psimps [OF "2.hyps"] split: if_splits)
    have l1: "length (rest p1) < length (rest p)" using "2.IH"(1) p1 by blast
    show "length (rest q) < length (rest p)"
    proof (cases "eat (separator precedence) p1")
      case None
      then show ?thesis using a p1 l1 by (simp add: more.psimps [OF "2.hyps"])
    next
      case (Some p2)
      from a Some p1 have "more precedence depth (children @ [e1]) p2 = Inr (es, q)"
        by (simp add: more.psimps [OF "2.hyps"])
      then have "length (rest q) < length (rest p2)" using "2.IH"(2) [OF p1(2,1) refl Some] by blast
      then show ?thesis using l1 Some by (auto dest: eat_length)
    qed
  qed
next
  case (3 depth p)
  show ?case
  proof (intro allI impI)
    fix e q
    assume a: "atom depth p = Inr (e, q)"
    show "length (rest q) < length (rest p)"
    proof (cases "eat CHR ''('' p")
      case None
      then show ?thesis using a by (auto simp: atom.psimps [OF "3.hyps"] dest: parse_compare_length)
    next
      case (Some p1)
      with a obtain e1 p2 where "logical 0 (depth + 1) p1 = Inr (e1, p2)" "depth \<noteq> 16" "eat CHR '')'' p2 = Some q"
        by (auto simp: atom.psimps [OF "3.hyps"] split: if_splits option.splits)
      then show ?thesis using "3.IH" [OF Some] Some by (fastforce dest: eat_length)
    qed
  qed
qed

termination logical
proof (relation "measures [
    \<lambda>x. case x of Inl (_, _, p) \<Rightarrow> length (rest p) | Inr (Inl (_, _, _, p)) \<Rightarrow> length (rest p) | Inr (Inr (_, p)) \<Rightarrow> length (rest p),
    \<lambda>x. case x of Inl (k, _, _) \<Rightarrow> 257 - k | Inr (Inl (k, _, _, _)) \<Rightarrow> 258 - k | Inr (Inr _) \<Rightarrow> 0]")
qed (auto dest!: eat_length logical_consumes(1) [rule_format])

declare logical.simps [simp del] more.simps [simp del] atom.simps [simp del]

definition parse_filter :: "string \<Rightarrow> (string, string) expression query_result" where
  "parse_filter input =
    (if length input > max_filter_bytes then Inl (Fail QBudget)
     else bind_res (logical 0 0 \<lparr>rest = input, nodes = 0, set_items = 0\<rparr>) (\<lambda>(e, p).
       if rest p \<noteq> [] then Inl (Fail QInvalid) else Inr e))"

end
