(* ===== verification/Query_Parser_Properties.thy ===== *)
theory Query_Parser_Properties
  imports Query_Parser
begin

text \<open>
  What the filter parser accepts and that it can be printed back. \<open>filter_ok\<close> describes the expressions
  within the budgets of the language, \<open>print_filter\<close> gives the text of an expression with the least
  parentheses. The parser returns only such expressions and reads the printed text of each of them.
\<close>

section \<open>Text\<close>

lemma str_chars_append: "str_valid s \<Longrightarrow> str_chars (s @ t) = str_chars s @ str_chars t"
proof (induction s rule: length_induct)
  case (1 s)
  show ?case
  proof (cases s)
    case Nil
    then show ?thesis by (simp add: str_chars_def)
  next
    case (Cons a r)
    then obtain c n where n: "next_char s = Some (c, n)" "str_valid (drop n s)"
      using "1.prems" str_valid_next by metis
    have "length (drop n s) < length s" using next_char_bounds [OF n(1)] by (simp add: Cons)
    with "1.IH" n have "str_chars (drop n s @ t) = str_chars (drop n s) @ str_chars t" by blast
    moreover have "drop n (s @ t) = drop n s @ t" using next_char_bounds [OF n(1)] by simp
    ultimately show ?thesis using str_chars_next [OF n(1)] str_chars_next [OF next_char_append [OF n(1), of t]] by simp
  qed
qed

lemma has_control_append: "str_valid s \<Longrightarrow> has_control (s @ t) = (has_control s \<or> has_control t)"
  by (simp add: has_control_def str_chars_append)

text \<open>The bytes of one character of a valid string.\<close>

lemma next_char_take:
  assumes "next_char s = Some (c, n)" "str_valid s"
  shows "str_valid (take n s) \<and> str_valid (drop n s) \<and> str_chars (take n s) = [c] \<and> length (take n s) = n"
  using assms(1)
proof (cases rule: next_char_cases)
  case (one a r)
  then show ?thesis using assms by (simp add: str_valid_def str_chars_def)
next
  case (two a b r)
  then show ?thesis using assms by (auto simp: str_valid_def str_chars_def split: if_splits)
next
  case (three a b d r)
  then show ?thesis using assms by (auto simp: str_valid_def str_chars_def split: if_splits)
next
  case (four a b d e r)
  then show ?thesis using assms by (auto simp: str_valid_def str_chars_def split: if_splits)
qed

section \<open>Expressions within the budgets\<close>

definition filter_value_ok :: "string \<Rightarrow> bool" where
  "filter_value_ok v \<longleftrightarrow> length v \<le> 1024 \<and> str_valid v \<and> \<not> has_control v"

definition field_ok :: "string \<Rightarrow> bool" where
  "field_ok f \<longleftrightarrow> f \<noteq> [] \<and> length f \<le> 128 \<and> list_all field_byte f"

fun filter_shape :: "(string, string) expression \<Rightarrow> bool" where
  "filter_shape (Compare f x vs) \<longleftrightarrow> field_ok f \<and> list_all filter_value_ok vs \<and>
     (if operator_set x then 1 \<le> length vs \<and> length vs \<le> 64 else length vs = 1)"
| "filter_shape (QAnd es) \<longleftrightarrow> 2 \<le> length es \<and> (\<forall>e \<in> set es. filter_shape e)"
| "filter_shape (QOr es) \<longleftrightarrow> 2 \<le> length es \<and> (\<forall>e \<in> set es. filter_shape e)"

fun filter_nodes :: "('f, 'v) expression \<Rightarrow> nat" where
  "filter_nodes (Compare f x vs) = 1"
| "filter_nodes (QAnd es) = Suc (sum_list (map (\<lambda>e. filter_nodes e) es))"
| "filter_nodes (QOr es) = Suc (sum_list (map (\<lambda>e. filter_nodes e) es))"

fun filter_items :: "('f, 'v) expression \<Rightarrow> nat" where
  "filter_items (Compare f x vs) = (if operator_set x then length vs else 0)"
| "filter_items (QAnd es) = sum_list (map (\<lambda>e. filter_items e) es)"
| "filter_items (QOr es) = sum_list (map (\<lambda>e. filter_items e) es)"

text \<open>The depth of the parentheses an expression needs where an operand of precedence \<open>k\<close> is
  expected.\<close>

fun filter_depth :: "nat \<Rightarrow> ('f, 'v) expression \<Rightarrow> nat" where
  "filter_depth k (Compare f x vs) = 0"
| "filter_depth k (QAnd es) = (if k > 1 then 1 else 0) + Max (insert 0 (set (map (\<lambda>e. filter_depth 2 e) es)))"
| "filter_depth k (QOr es) = (if k > 0 then 1 else 0) + Max (insert 0 (set (map (\<lambda>e. filter_depth 1 e) es)))"

definition filter_ok :: "(string, string) expression \<Rightarrow> bool" where
  "filter_ok e \<longleftrightarrow> filter_shape e \<and> filter_nodes e \<le> 128 \<and> filter_items e \<le> 256 \<and> filter_depth 0 e \<le> 16"

lemma combine_simps:
  "filter_shape (combine k es) \<longleftrightarrow> 2 \<le> length es \<and> (\<forall>e \<in> set es. filter_shape e)"
  "filter_nodes (combine k es') = Suc (sum_list (map filter_nodes es'))"
  "filter_items (combine k es') = sum_list (map filter_items es')"
  by (auto simp: combine_def)

lemma combine_depth:
  "k < 2 \<Longrightarrow> filter_depth k (combine k es) = Max (insert 0 (set (map (filter_depth (Suc k)) es)))"
  by (cases k) (auto simp: combine_def numeral_2_eq_2)

lemma filter_depth_combine_le:
  assumes "k < 2" "\<forall>e \<in> set es. d + filter_depth (Suc k) e \<le> 16" "d \<le> 16"
  shows "d + filter_depth k (combine k es) \<le> 16"
proof -
  have "Max (insert 0 (set (map (filter_depth (Suc k)) es))) \<le> 16 - d"
    using assms(2) by (intro Max.boundedI) auto
  then show ?thesis using assms(3) unfolding combine_depth [OF assms(1)] by linarith
qed

lemma filter_depth_combine_ge:
  assumes "k < 2" "d + filter_depth k (combine k es) \<le> 16" "e \<in> set es"
  shows "d + filter_depth (Suc k) e \<le> 16"
proof -
  have "filter_depth (Suc k) e \<le> Max (insert 0 (set (map (filter_depth (Suc k)) es)))"
    using assms(3) by (intro Max_ge) auto
  then show ?thesis using assms(1,2) by (simp add: combine_depth)
qed

lemma filter_depth_paren: "filter_depth 2 e \<le> Suc (filter_depth 0 e)"
  by (cases e) auto

lemma filter_depth_mono: "k < 2 \<Longrightarrow> filter_depth k e \<le> filter_depth (Suc k) e"
  by (cases e) auto

section \<open>What the parser returns\<close>

lemma value_char_ok:
  assumes "value_char quote c n s = Inr (bs, d, s')" "next_char s = Some (c, n)" "str_valid s"
  shows "str_valid bs \<and> str_valid s' \<and> str_chars bs = [d]"
proof (cases "c = 92")
  case True
  with assms obtain m where m: "next_char (drop n s) = Some (d, m)" "bs = take m (drop n s)" "s' = drop (n + m) s"
    by (auto simp: value_char_def split: option.splits if_splits)
  have "str_valid (drop n s)" using next_char_take assms(2,3) by blast
  then have "str_valid bs \<and> str_valid (drop m (drop n s)) \<and> str_chars bs = [d]"
    using next_char_take m(1,2) by blast
  then show ?thesis using m(3) by (simp add: add.commute)
next
  case False
  then have "bs = take n s" "d = c" "s' = drop n s"
    using assms(1) by (auto simp: value_char_def split: if_splits)
  then show ?thesis using next_char_take assms(2,3) by blast
qed

lemma value_chars_ok:
  "value_chars quote s out = Inr (v, s', closed) \<Longrightarrow> str_valid s \<Longrightarrow> filter_value_ok out \<Longrightarrow> filter_value_ok v \<and> str_valid s'"
proof (induction quote s out rule: value_chars.induct)
  case (1 quote s out)
  show ?case
  proof (cases "next_char s")
    case None
    then show ?thesis using "1.prems" by (subst (asm) value_chars.simps) simp
  next
    case (Some cn)
    obtain c n where cn: "cn = (c, n)" by (cases cn)
    show ?thesis
    proof (cases "quote = Some c \<or> (quote = None \<and> c \<in> {44, 59, 41})")
      case True
      then show ?thesis using "1.prems" Some cn next_char_take [of s c n]
        by (subst (asm) value_chars.simps) (auto split: if_splits)
    next
      case False
      with "1.prems" Some cn obtain bs d t where t: "value_char quote c n s = Inr (bs, d, t)"
        "\<not> (char_is_control d \<or> (quote = None \<and> d = 42))" "\<not> length out + length bs > 1024"
        "value_chars quote t (out @ bs) = Inr (v, s', closed)"
        by (subst (asm) value_chars.simps) (auto split: if_splits)
      have ok: "str_valid bs" "str_valid t" "str_chars bs = [d]"
        using value_char_ok t(1) Some cn "1.prems"(2) by blast+
      have "filter_value_ok (out @ bs)"
        using "1.prems"(3) ok t(2,3) by (simp add: filter_value_ok_def str_valid_append has_control_append)
          (simp add: has_control_def)
      then show ?thesis using "1.IH" [OF Some] False t ok cn by blast
    qed
  qed
qed

lemma filter_value_ok_Nil [simp]: "filter_value_ok []"
  by (simp add: filter_value_ok_def has_control_def str_chars_def)

lemma quote_tl:
  assumes "next_char s = Some (c, n)" "c = 39 \<or> c = 34" "str_valid s"
  shows "str_valid (tl s)"
proof -
  obtain a r where s: "s = a # r" using assms(1) by (cases s) auto
  have "of_char a < (128::nat)"
  proof (rule ccontr)
    assume "\<not> of_char a < (128::nat)"
    with assms s show False
      by (auto simp: str_valid_def utf8_tail_def next_char.simps(2) Let_def split: if_splits list.splits)
  qed
  then show ?thesis using assms(3) s by (simp add: str_valid_ascii)
qed

lemma parse_value_ok:
  "parse_value p = Inr (v, q) \<Longrightarrow> str_valid (rest p) \<Longrightarrow>
    filter_value_ok v \<and> str_valid (rest q) \<and> nodes q = nodes p \<and> set_items q = set_items p"
  by (auto simp: parse_value_def Let_def dest!: value_chars_ok quote_tl split: option.splits if_splits)

lemma value_list_ok:
  "value_list vs p = Inr (ws, q) \<Longrightarrow> str_valid (rest p) \<Longrightarrow> list_all filter_value_ok vs \<Longrightarrow> set_items p \<le> 256 \<Longrightarrow>
    list_all filter_value_ok ws \<and> str_valid (rest q) \<and> nodes q = nodes p \<and> length vs < length ws \<and> length ws \<le> 64 \<and>
    set_items q + length vs = set_items p + length ws \<and> set_items q \<le> 256"
proof (induction vs p rule: value_list.induct)
  case (1 vs p)
  from "1.prems"(1) obtain v p1 where p1: "parse_value (p\<lparr>set_items := set_items p + 1\<rparr>) = Inr (v, p1)"
    and g: "\<not> (length vs \<ge> 64 \<or> set_items p \<ge> 256)"
    and m: "(case eat CHR '')'' p1 of Some p \<Rightarrow> Inr (vs @ [v], p) | None \<Rightarrow>
      (case eat CHR '','' p1 of None \<Rightarrow> Inl (Fail QInvalid) | Some p \<Rightarrow> value_list (vs @ [v]) p)) = Inr (ws, q)"
    by (subst (asm) value_list.simps) (auto split: if_splits)
  from parse_value_ok [OF p1] "1.prems"(2)
  have v: "filter_value_ok v" "str_valid (rest p1)" "nodes p1 = nodes p" "set_items p1 = Suc (set_items p)" by auto
  have valid: "str_valid (rest p2)" "nodes p2 = nodes p" "set_items p2 = Suc (set_items p)"
    if "eat c p1 = Some p2" "of_char c < (128::nat)" for c p2
  proof -
    have "rest p1 = c # rest p2" "p2 = p1\<lparr>rest := rest p2\<rparr>" using that(1) by (simp_all add: eat_Some)
    then show "str_valid (rest p2)" "nodes p2 = nodes p" "set_items p2 = Suc (set_items p)"
      using v that(2) by (simp_all add: str_valid_ascii) (metis parser.select_convs parser.surjective parser.update_convs(1))+
  qed
  show ?case
  proof (cases "eat CHR '')'' p1")
    case (Some p2)
    then show ?thesis using m valid [OF Some] v g "1.prems"(3) by (auto simp: not_le)
  next
    case None
    then obtain p2 where p2: "eat CHR '','' p1 = Some p2" "value_list (vs @ [v]) p2 = Inr (ws, q)"
      using m by (auto split: option.splits)
    from "1.IH" [OF g p1 refl None p2(1) p2(2)] valid [OF p2(1)] v g "1.prems"(3) show ?thesis by (auto simp: not_le)
  qed
qed

lemma parse_compare_ok:
  assumes "parse_compare p = Inr (e, q)" "str_valid (rest p)" "set_items p \<le> 256"
  shows "filter_shape e \<and> str_valid (rest q) \<and> nodes q = nodes p + filter_nodes e \<and> nodes q \<le> 128 \<and>
    set_items q = set_items p + filter_items e \<and> set_items q \<le> 256 \<and> (\<forall>k. filter_depth k e = 0)"
  using assms(1)
proof (cases rule: parse_compare_Inr)
  case (1 token x p1 vs)
  let ?f = "takeWhile field_byte (rest p)" and ?s = "dropWhile field_byte (rest p)"
  have ascii: "list_all (\<lambda>c. of_char c < (128::nat)) t \<Longrightarrow> str_valid t" for t
    by (induction t) (simp_all add: str_valid_ascii)
  have "list_all (\<lambda>c. of_char c < (128::nat)) ?f"
    by (auto simp: list_all_iff field_byte_def is_ascii_alphanumeric_def is_ascii_digit_def is_ascii_alpha_def
        dest!: set_takeWhileD)
  then have s: "str_valid ?s" using assms(2) str_valid_append [OF ascii, of ?f ?s] by simp
  from find_operator [OF 1(4)] obtain r where r: "?s = token @ r" and t: "(token, x) \<in> set operator_tokens"
    by (auto simp: prefix_def)
  from t have "list_all (\<lambda>c. of_char c < (128::nat)) token" by (auto simp: operator_tokens_def)
  then have v1: "str_valid (rest p1)" using s r 1(5) str_valid_append [OF ascii] by simp
  have f: "field_ok ?f" using 1(2,3) by (auto simp: field_ok_def list_all_iff dest: set_takeWhileD)
  show ?thesis
  proof (cases "operator_set x")
    case True
    then obtain p2 where p2: "eat CHR ''('' p1 = Some p2" "value_list [] p2 = Inr (vs, q)" using 1(7) by auto
    have "str_valid (rest p2) \<and> nodes p2 = nodes p1 \<and> set_items p2 = set_items p1"
      using p2(1) v1 by (auto simp: eat_def str_valid_ascii split: list.splits if_splits)
    with value_list_ok [OF p2(2)] True 1 f assms(3) show ?thesis by (auto simp: Suc_le_eq)
  next
    case False
    then obtain v where "vs = [v]" "parse_value p1 = Inr (v, q)" using 1(7) by auto
    with parse_value_ok [OF this(2) v1] False 1 f assms(3) show ?thesis by auto
  qed
qed

text \<open>The invariant of the mutual recursion.\<close>

definition parsed :: "nat \<Rightarrow> nat \<Rightarrow> parser \<Rightarrow> (string, string) expression \<Rightarrow> parser \<Rightarrow> bool" where
  "parsed k d p e q \<longleftrightarrow> filter_shape e \<and> str_valid (rest q) \<and> nodes q = nodes p + filter_nodes e \<and> nodes q \<le> 128 \<and>
    set_items q = set_items p + filter_items e \<and> set_items q \<le> 256 \<and> d + filter_depth k e \<le> 16"

definition parsed_list :: "nat \<Rightarrow> nat \<Rightarrow> parser \<Rightarrow> (string, string) expression list \<Rightarrow> parser \<Rightarrow> bool" where
  "parsed_list k d p es q \<longleftrightarrow> es \<noteq> [] \<and> (\<forall>e \<in> set es. filter_shape e \<and> d + filter_depth k e \<le> 16) \<and> str_valid (rest q) \<and>
    nodes q = nodes p + sum_list (map filter_nodes es) \<and> nodes q \<le> 128 \<and>
    set_items q = set_items p + sum_list (map filter_items es) \<and> set_items q \<le> 256"

definition parser_ok :: "parser \<Rightarrow> bool" where
  "parser_ok p \<longleftrightarrow> str_valid (rest p) \<and> nodes p \<le> 128 \<and> set_items p \<le> 256"

lemma eat_ok:
  "eat c p = Some q \<Longrightarrow> of_char c < (128::nat) \<Longrightarrow> parser_ok p \<Longrightarrow> parser_ok q \<and> nodes q = nodes p \<and> set_items q = set_items p"
  by (auto simp: eat_def parser_ok_def str_valid_ascii split: list.splits if_splits)

lemma parsed_ok: "parsed k d p e q \<Longrightarrow> parser_ok q"
  by (simp add: parsed_def parser_ok_def)

lemma separator_ascii [simp]: "of_char (separator k) < (128::nat)"
  by (simp add: separator_def)

lemma logical_ok:
  "logical k d p = Inr (e, q) \<Longrightarrow> k \<le> 2 \<Longrightarrow> parser_ok p \<Longrightarrow> parsed k d p e q"
  "more k d children p = Inr (es, q) \<Longrightarrow> k < 2 \<Longrightarrow> d \<le> 16 \<Longrightarrow> parser_ok p \<Longrightarrow>
    \<exists>new. es = children @ new \<and> parsed_list (Suc k) d p new q"
  "atom d p = Inr (e, q) \<Longrightarrow> d \<le> 16 \<Longrightarrow> parser_ok p \<Longrightarrow> parsed 2 d p e q"
proof (induction k d p and k d children p and d p arbitrary: e q and es q and e q rule: logical_more_atom.induct)
  case (1 k d p)
  show ?case
  proof (cases "k = 2")
    case True
    then show ?thesis using "1.prems" "1.IH"(1) by (subst (asm) logical.simps) (auto split: if_splits)
  next
    case False
    with "1.prems"(1) obtain e1 p1 where p1: "logical (k + 1) d p = Inr (e1, p1)" "\<not> d > 16" "\<not> k \<ge> 255"
      by (subst (asm) logical.simps) (auto split: if_splits)
    from "1.IH"(2) [OF p1(2) False p1(3,1)] False "1.prems" have ok1: "parsed (Suc k) d p e1 p1" by simp
    show ?thesis
    proof (cases "eat (separator k) p1")
      case None
      then have "e = e1" "q = p1" using "1.prems"(1) p1 False by (subst (asm) logical.simps, simp)+
      then show ?thesis using ok1 filter_depth_mono [of k e1] False "1.prems"(2) by (simp add: parsed_def)
    next
      case (Some p2)
      let ?p3 = "p2\<lparr>nodes := nodes p2 + 1\<rparr>"
      from "1.prems"(1) Some p1 False obtain es where m: "nodes p2 < 128"
        "more k d [e1] ?p3 = Inr (es, q)" "e = combine k es"
        by (subst (asm) logical.simps) auto
      from eat_ok [OF Some] parsed_ok [OF ok1] m(1)
      have p3: "parser_ok ?p3" "nodes p2 = nodes p1" "set_items p2 = set_items p1"
        by (auto simp: parser_ok_def)
      have node: "parser_node p2 = Inr ?p3" using m(1) by simp
      obtain new where new: "es = [e1] @ new" "parsed_list (Suc k) d ?p3 new q"
        using "1.IH"(3) [OF p1(2) False p1(3,1) refl Some node m(2)] p3 False "1.prems"(2) p1(2) by auto
      have "d + filter_depth k (combine k es) \<le> 16"
        using new ok1 False "1.prems"(2) p1(2)
        by (intro filter_depth_combine_le) (auto simp: parsed_def parsed_list_def)
      then show ?thesis using new ok1 m(3) p3
        by (auto simp: parsed_def parsed_list_def combine_simps Suc_le_eq)
    qed
  qed
next
  case (2 k d children p)
  from "2.prems"(1) obtain e1 p1 where p1: "logical (k + 1) d p = Inr (e1, p1)" "\<not> k \<ge> 255"
    by (subst (asm) more.simps) (auto split: if_splits)
  from "2.IH"(1) [OF p1(2,1)] "2.prems" have ok1: "parsed (Suc k) d p e1 p1" by simp
  show ?case
  proof (cases "eat (separator k) p1")
    case None
    then have "es = children @ [e1]" "q = p1" using "2.prems"(1) p1 by (subst (asm) more.simps, simp)+
    then show ?thesis using ok1 by (auto simp: parsed_def parsed_list_def)
  next
    case (Some p2)
    from "2.prems"(1) Some p1 have m: "more k d (children @ [e1]) p2 = Inr (es, q)"
      by (subst (asm) more.simps) simp
    from eat_ok [OF Some] parsed_ok [OF ok1] have p2: "parser_ok p2" "nodes p2 = nodes p1" "set_items p2 = set_items p1" by auto
    obtain new where new: "es = (children @ [e1]) @ new" "parsed_list (Suc k) d p2 new q"
      using "2.IH"(2) [OF p1(2,1) refl Some m] "2.prems" p2 by auto
    have "parsed_list (Suc k) d p (e1 # new) q" using new ok1 p2 by (auto simp: parsed_def parsed_list_def)
    with new show ?thesis by (intro exI [of _ "e1 # new"]) simp
  qed
next
  case (3 d p)
  show ?case
  proof (cases "eat CHR ''('' p")
    case None
    then have "parse_compare p = Inr (e, q)" using "3.prems"(1) by (subst (asm) atom.simps) simp
    then show ?thesis using parse_compare_ok [of p e q] "3.prems" by (simp add: parsed_def parser_ok_def)
  next
    case (Some p1)
    with "3.prems"(1) obtain p2 where p2: "logical 0 (d + 1) p1 = Inr (e, p2)" "d \<noteq> 16" "eat CHR '')'' p2 = Some q"
      by (subst (asm) atom.simps) (auto split: if_splits option.splits)
    from eat_ok [OF Some] "3.prems"(3) have p1: "parser_ok p1" "nodes p1 = nodes p" "set_items p1 = set_items p" by auto
    have ok: "parsed 0 (d + 1) p1 e p2" using "3.IH" [OF Some p2(2,1)] p1 by simp
    from eat_ok [OF p2(3)] parsed_ok [OF ok] have "parser_ok q" "nodes q = nodes p2" "set_items q = set_items p2" by auto
    then show ?thesis using ok p1 filter_depth_paren [of e] by (auto simp: parsed_def parser_ok_def)
  qed
qed

lemma logical_no_panic:
  "k \<le> 2 \<Longrightarrow> no_panic (logical k d p)"
  "k < 2 \<Longrightarrow> no_panic (more k d children p)"
  "no_panic (atom d p)"
proof (induction k d p and k d children p and d p rule: logical_more_atom.induct)
  case (1 k d p)
  then show ?case
    by (subst logical.simps) (auto simp: parser_node_def intro!: no_panic_intros split: option.splits)
next
  case (2 k d children p)
  then show ?case by (subst more.simps) (auto intro!: no_panic_intros split: option.splits)
next
  case (3 d p)
  have vc: "no_panic (value_char quote c n s)" for quote c n s
    by (auto simp: value_char_def split: option.splits)
  have chars: "no_panic (value_chars quote s out)" for quote s out
  proof (induction quote s out rule: value_chars.induct)
    case (1 quote s out)
    show ?case
    proof (cases "next_char s")
      case None
      then show ?thesis by (simp add: value_chars.simps [of quote s out])
    next
      case (Some cn)
      obtain c n where cn: "cn = (c, n)" by (cases cn)
      show ?thesis using 1 [OF Some cn [symmetric]] Some cn vc [of quote c n s]
        by (subst value_chars.simps) (cases quote; auto intro!: no_panic_intros)
    qed
  qed
  have val: "no_panic (parse_value p)" for p
    using chars by (auto simp: parse_value_def Let_def intro!: no_panic_intros)
  have vals: "no_panic (value_list vs p)" for vs p
  proof (induction vs p rule: value_list.induct)
    case (1 vs p)
    then show ?case using val by (subst value_list.simps) (auto intro!: no_panic_intros split: option.splits)
  qed
  have "no_panic (parse_compare p)"
    using val vals by (auto simp: parse_compare_def parser_node_def Let_def intro!: no_panic_intros split: option.splits)
  with 3 show ?case by (subst atom.simps) (auto intro!: no_panic_intros split: option.splits)
qed

section \<open>Printing\<close>

definition operator_token :: "query_operator \<Rightarrow> string" where
  "operator_token x = the (map_of (map prod.swap operator_tokens) x)"

function escape_value :: "string \<Rightarrow> string" where
  "escape_value s = (case next_char s of
      None \<Rightarrow> []
    | Some (c, n) \<Rightarrow> (if c = 92 \<or> c = 39 then [CHR 0x5C] else []) @ take n s @ escape_value (drop n s))"
  by pat_completeness auto
termination
  by (relation "measure length") (auto dest: next_char_bounds)

declare escape_value.simps [simp del]

definition print_value :: "string \<Rightarrow> string" where
  "print_value v = [CHR 0x27] @ escape_value v @ [CHR 0x27]"

definition paren :: "bool \<Rightarrow> string \<Rightarrow> string" where
  "paren b s = (if b then ''('' @ s @ '')'' else s)"

fun print_filter :: "nat \<Rightarrow> (string, string) expression \<Rightarrow> string" where
  "print_filter k (Compare f x vs) = f @ operator_token x @
     (if operator_set x then ''('' @ str_join CHR '','' (map print_value vs) @ '')'' else print_value (hd vs))"
| "print_filter k (QAnd es) = paren (k > 1) (str_join CHR '';'' (map (\<lambda>e. print_filter 2 e) es))"
| "print_filter k (QOr es) = paren (k > 0) (str_join CHR '','' (map (\<lambda>e. print_filter 1 e) es))"

lemma print_combine:
  "k < 2 \<Longrightarrow> print_filter k (combine k es) = str_join (separator k) (map (print_filter (Suc k)) es)"
  by (cases k) (auto simp: combine_def separator_def paren_def numeral_2_eq_2)

section \<open>Reading printed text\<close>

lemma value_chars_escape:
  "str_valid v \<Longrightarrow> \<not> has_control v \<Longrightarrow> length out + length v \<le> 1024 \<Longrightarrow>
    value_chars (Some 39) (escape_value v @ CHR 0x27 # t) out = Inr (out @ v, t, True)"
proof (induction v arbitrary: out rule: length_induct)
  case (1 v)
  show ?case
  proof (cases v)
    case Nil
    then show ?thesis by (simp add: escape_value.simps [of "[]"] value_chars.simps [of _ "CHR 0x27 # t"])
  next
    case (Cons a r)
    then obtain c n where n: "next_char v = Some (c, n)" "str_valid (drop n v)"
      using "1.prems"(1) str_valid_next by metis
    note b = next_char_bounds [OF n(1)] and tk = next_char_take [OF n(1) "1.prems"(1)]
    have ctl: "\<not> char_is_control c" "\<not> has_control (drop n v)"
      using "1.prems"(2) str_chars_next [OF n(1)] by (auto simp: has_control_def)
    have len: "length v = n + length (drop n v)" using b by simp
    have IH: "value_chars (Some 39) (escape_value (drop n v) @ CHR 0x27 # t) (out @ take n v) = Inr (out @ v, t, True)"
      using "1.IH" n(2) ctl(2) "1.prems"(3) len b tk by (auto simp: Cons)
    have e: "escape_value v = (if c = 92 \<or> c = 39 then [CHR 0x5C] else []) @ take n v @ escape_value (drop n v)"
      using n(1) by (simp add: escape_value.simps [of v])
    have nc: "next_char (take n v @ u) = Some (c, n)" for u
    proof -
      have "next_char (take n v) = Some (c, n)" using n(1) by (cases rule: next_char_cases) (simp_all add: next_char.simps(2))
      then show ?thesis by (rule next_char_append)
    qed
    let ?u = "escape_value (drop n v) @ CHR 0x27 # t"
    have lo: "\<not> 1024 < length out + length (take n v)" using "1.prems"(3) len tk by linarith
    have vc: "value_char (Some 39) (if c = 92 \<or> c = 39 then 92 else c) (if c = 92 \<or> c = 39 then 1 else n)
        ((if c = 92 \<or> c = 39 then [CHR 0x5C] else []) @ take n v @ ?u) = Inr (take n v, c, ?u)"
      using nc tk by (auto simp: value_char_def)
    show ?thesis
    proof (cases "c = 92 \<or> c = 39")
      case True
      then show ?thesis unfolding e using IH vc lo ctl(1) by (subst value_chars.simps) simp
    next
      case False
      then show ?thesis unfolding e using IH vc lo ctl(1) nc by (subst value_chars.simps) simp
    qed
  qed
qed

lemma parse_value_print:
  assumes "filter_value_ok v" "rest p = print_value v @ t"
  shows "parse_value p = Inr (v, p\<lparr>rest := t\<rparr>)"
  using assms value_chars_escape [of v "[]" t]
  by (simp add: parse_value_def print_value_def filter_value_ok_def)

lemma value_list_print:
  "list_all filter_value_ok vs \<Longrightarrow> vs \<noteq> [] \<Longrightarrow> length us + length vs \<le> 64 \<Longrightarrow> set_items p + length vs \<le> 256 \<Longrightarrow>
    rest p = str_join CHR '','' (map print_value vs) @ CHR '')'' # t \<Longrightarrow>
    value_list us p = Inr (us @ vs, p\<lparr>rest := t, set_items := set_items p + length vs\<rparr>)"
proof (induction vs arbitrary: us p)
  case Nil
  then show ?case by simp
next
  case (Cons v vs)
  let ?p = "p\<lparr>set_items := set_items p + 1\<rparr>"
  show ?case
  proof (cases "vs = []")
    case True
    then have "parse_value ?p = Inr (v, ?p\<lparr>rest := CHR '')'' # t\<rparr>)"
      using Cons.prems by (intro parse_value_print) simp_all
    then show ?thesis using True Cons.prems by (subst value_list.simps) (simp add: eat_def)
  next
    case False
    let ?t = "str_join CHR '','' (map print_value vs) @ CHR '')'' # t"
    have "parse_value ?p = Inr (v, ?p\<lparr>rest := CHR '','' # ?t\<rparr>)"
      using Cons.prems False by (intro parse_value_print) (simp_all add: str_join_Cons)
    moreover have "value_list (us @ [v]) (?p\<lparr>rest := ?t\<rparr>) =
        Inr ((us @ [v]) @ vs, ?p\<lparr>rest := ?t\<rparr>\<lparr>rest := t, set_items := set_items (?p\<lparr>rest := ?t\<rparr>) + length vs\<rparr>)"
      using Cons.prems False by (intro Cons.IH) simp_all
    ultimately show ?thesis using Cons.prems by (subst value_list.simps) (simp add: eat_def)
  qed
qed

lemma find_operator_token:
  "find (\<lambda>(t, _). prefix t (operator_token x @ CHR 0x27 # u)) operator_tokens = Some (operator_token x, x)"
  "find (\<lambda>(t, _). prefix t (operator_token x @ CHR ''('' # u)) operator_tokens = Some (operator_token x, x)"
  by (cases x; simp add: operator_token_def operator_tokens_def)+

lemma operator_token_head: "\<exists>c r. operator_token x = c # r \<and> \<not> field_byte c"
  by (cases x)
    (simp_all add: operator_token_def operator_tokens_def field_byte_def is_ascii_alphanumeric_def
      is_ascii_digit_def is_ascii_alpha_def)

lemma field_split:
  assumes "list_all field_byte f" "\<not> field_byte c"
  shows "takeWhile field_byte (f @ c # u) = f \<and> dropWhile field_byte (f @ c # u) = c # u"
  using assms by (induction f) auto

lemma parse_compare_print:
  assumes "filter_shape (Compare f x vs)" "nodes p < 128" "set_items p + filter_items (Compare f x vs) \<le> 256"
    and "rest p = print_filter k (Compare f x vs) @ t"
  shows "parse_compare p = Inr (Compare f x vs, p\<lparr>rest := t, nodes := nodes p + 1,
    set_items := set_items p + filter_items (Compare f x vs)\<rparr>)"
proof -
  let ?args = "(if operator_set x then ''('' @ str_join CHR '','' (map print_value vs) @ '')'' else print_value (hd vs)) @ t"
  have r: "rest p = f @ operator_token x @ ?args" using assms(4) by simp
  have f: "takeWhile field_byte (rest p) = f" "dropWhile field_byte (rest p) = operator_token x @ ?args"
    using operator_token_head [of x] field_split [of f] assms(1) unfolding r by (auto simp: field_ok_def)
  have fd: "find (\<lambda>(t, _). prefix t (operator_token x @ ?args)) operator_tokens = Some (operator_token x, x)"
    using find_operator_token [of x] by (simp add: print_value_def)
  have fo: "f \<noteq> []" "length f \<le> 128" using assms(1) by (simp_all add: field_ok_def)
  show ?thesis
  proof (cases "operator_set x")
    case True
    then show ?thesis
      using assms(1-3) fo f fd value_list_print [of vs "[]" "p\<lparr>nodes := nodes p + 1, rest := str_join CHR '','' (map print_value vs) @ CHR '')'' # t\<rparr>" t]
      by (simp add: parse_compare_def parser_node_def eat_def Suc_le_eq)
  next
    case False
    then obtain v where v: "vs = [v]" "filter_value_ok v" using assms(1) by (auto simp: length_Suc_conv)
    then show ?thesis
      using False assms(1-3) fo f fd parse_value_print [of v "p\<lparr>nodes := nodes p + 1, rest := print_value v @ t\<rparr>" t]
      by (simp add: parse_compare_def parser_node_def)
  qed
qed

text \<open>\<open>reads k e\<close>: whatever follows the printed expression and cannot continue it, the parser at level
  \<open>k\<close> returns the expression and leaves that.\<close>

definition ends :: "nat \<Rightarrow> string \<Rightarrow> bool" where
  "ends k t \<longleftrightarrow> (\<forall>j \<in> {k..<2}. \<forall>u. t \<noteq> separator j # u)"

definition after_expr :: "(string, string) expression \<Rightarrow> string \<Rightarrow> parser \<Rightarrow> parser" where
  "after_expr e t p = p\<lparr>rest := t, nodes := nodes p + filter_nodes e, set_items := set_items p + filter_items e\<rparr>"

definition reads :: "nat \<Rightarrow> (string, string) expression \<Rightarrow> bool" where
  "reads k e \<longleftrightarrow> (\<forall>d p t. nodes p + filter_nodes e \<le> 128 \<longrightarrow> set_items p + filter_items e \<le> 256 \<longrightarrow>
     d + filter_depth k e \<le> 16 \<longrightarrow> rest p = print_filter k e @ t \<longrightarrow> ends k t \<longrightarrow>
     logical k d p = Inr (e, after_expr e t p))"

lemma ends_eat: "ends k t \<Longrightarrow> k < 2 \<Longrightarrow> rest p = t \<Longrightarrow> eat (separator k) p = None"
  by (auto simp: ends_def eat_def split: list.splits)

lemma ends_Suc: "ends k t \<Longrightarrow> ends (Suc k) t"
  by (auto simp: ends_def)

lemma filter_nodes_pos: "0 < filter_nodes e"
  by (cases e) auto

lemma print_nonempty_head:
  assumes "filter_shape (Compare f x vs)"
  shows "\<exists>c r. print_filter k (Compare f x vs) = c # r \<and> c \<noteq> CHR ''(''"
  using assms
  by (cases f) (auto simp: field_ok_def field_byte_def is_ascii_alphanumeric_def is_ascii_digit_def is_ascii_alpha_def)

lemma reads_compare:
  assumes "filter_shape (Compare f x vs)"
  shows "reads 2 (Compare f x vs)"
  unfolding reads_def
proof (intro allI impI)
  fix d :: nat and p :: parser and t :: string
  let ?e = "Compare f x vs"
  assume h: "nodes p + filter_nodes ?e \<le> 128" "set_items p + filter_items ?e \<le> 256" "d + filter_depth 2 ?e \<le> 16"
    "rest p = print_filter 2 ?e @ t" "ends 2 t"
  obtain c r where "print_filter 2 ?e = c # r" "c \<noteq> CHR ''(''" using print_nonempty_head [OF assms] by blast
  then have "eat CHR ''('' p = None" using h(4) by (simp add: eat_def)
  then show "logical 2 d p = Inr (?e, after_expr ?e t p)"
    using h parse_compare_print [OF assms _ h(2,4)]
    by (simp add: logical.simps [of 2] atom.simps [of d p] after_expr_def)
qed

lemma reads_lift:
  assumes "reads (Suc k) e" "k < 2" "print_filter k e = print_filter (Suc k) e" "filter_depth k e = filter_depth (Suc k) e"
  shows "reads k e"
  unfolding reads_def
proof (intro allI impI)
  fix d :: nat and p :: parser and t :: string
  assume h: "nodes p + filter_nodes e \<le> 128" "set_items p + filter_items e \<le> 256" "d + filter_depth k e \<le> 16"
    "rest p = print_filter k e @ t" "ends k t"
  have "logical (Suc k) d p = Inr (e, after_expr e t p)"
    using assms h ends_Suc by (simp add: reads_def)
  moreover have "eat (separator k) (after_expr e t p) = None"
    using h(5) assms(2) by (rule ends_eat) (simp add: after_expr_def)
  ultimately show "logical k d p = Inr (e, after_expr e t p)"
    using assms(2) h(3) by (subst logical.simps) simp
qed

lemma reads_paren:
  assumes "reads 0 e" "print_filter 2 e = ''('' @ print_filter 0 e @ '')''" "filter_depth 2 e = Suc (filter_depth 0 e)"
  shows "reads 2 e"
  unfolding reads_def
proof (intro allI impI)
  fix d :: nat and p :: parser and t :: string
  assume h: "nodes p + filter_nodes e \<le> 128" "set_items p + filter_items e \<le> 256" "d + filter_depth 2 e \<le> 16"
    "rest p = print_filter 2 e @ t" "ends 2 t"
  let ?p = "p\<lparr>rest := print_filter 0 e @ CHR '')'' # t\<rparr>"
  have "eat CHR ''('' p = Some ?p" using h(4) assms(2) by (simp add: eat_def)
  moreover have "logical 0 (Suc d) ?p = Inr (e, after_expr e (CHR '')'' # t) ?p)"
  proof -
    have "ends 0 (CHR '')'' # t)" by (auto simp: ends_def separator_def)
    then show ?thesis using assms h by (simp add: reads_def)
  qed
  moreover have "eat CHR '')'' (after_expr e (CHR '')'' # t) ?p) = Some (after_expr e t p)"
    by (simp add: eat_def after_expr_def)
  ultimately show "logical 2 d p = Inr (e, after_expr e t p)"
    using h(3) assms(3) by (simp add: logical.simps [of 2] atom.simps [of d p])
qed

lemma more_reads:
  assumes "\<forall>e \<in> set es. reads (Suc k) e" "es \<noteq> []" "k < 2"
    and "nodes p + sum_list (map filter_nodes es) \<le> 128" "set_items p + sum_list (map filter_items es) \<le> 256"
    and "\<forall>e \<in> set es. d + filter_depth (Suc k) e \<le> 16"
    and "rest p = str_join (separator k) (map (print_filter (Suc k)) es) @ t" "ends k t"
  shows "more k d children p = Inr (children @ es, p\<lparr>rest := t,
    nodes := nodes p + sum_list (map filter_nodes es), set_items := set_items p + sum_list (map filter_items es)\<rparr>)"
  using assms
proof (induction es arbitrary: children p)
  case Nil
  then show ?case by simp
next
  case (Cons e es)
  show ?case
  proof (cases "es = []")
    case True
    then have "logical (Suc k) d p = Inr (e, after_expr e t p)"
      using Cons.prems ends_Suc by (simp add: reads_def)
    moreover have "eat (separator k) (after_expr e t p) = None"
      using Cons.prems(8,3) by (rule ends_eat) (simp add: after_expr_def)
    ultimately show ?thesis using True Cons.prems(3) by (subst more.simps) (simp add: after_expr_def)
  next
    case False
    let ?t = "str_join (separator k) (map (print_filter (Suc k)) es) @ t"
    let ?q = "after_expr e ?t p"
    have "ends (Suc k) (separator k # ?t)"
      using Cons.prems(3) by (auto simp: ends_def separator_def)
    then have "logical (Suc k) d p = Inr (e, after_expr e (separator k # ?t) p)"
      using Cons.prems False by (simp add: reads_def str_join_Cons)
    moreover have "eat (separator k) (after_expr e (separator k # ?t) p) = Some ?q"
      by (simp add: eat_def after_expr_def)
    moreover have "more k d (children @ [e]) ?q = Inr ((children @ [e]) @ es, ?q\<lparr>rest := t,
        nodes := nodes ?q + sum_list (map filter_nodes es), set_items := set_items ?q + sum_list (map filter_items es)\<rparr>)"
      using Cons.prems False by (intro Cons.IH) (simp_all add: after_expr_def)
    ultimately show ?thesis using Cons.prems(3) by (subst more.simps) (simp add: after_expr_def add.assoc)
  qed
qed

lemma reads_combine:
  assumes "\<forall>e \<in> set es. reads (Suc k) e" "2 \<le> length es" "k < 2"
  shows "reads k (combine k es)"
  unfolding reads_def
proof (intro allI impI)
  fix d :: nat and p :: parser and t :: string
  let ?e = "combine k es"
  assume h: "nodes p + filter_nodes ?e \<le> 128" "set_items p + filter_items ?e \<le> 256" "d + filter_depth k ?e \<le> 16"
    "rest p = print_filter k ?e @ t" "ends k t"
  obtain e es' where es: "es = e # es'" "es' \<noteq> []" using assms(2) by (cases es; cases "tl es") auto
  have dep: "\<forall>e \<in> set es. d + filter_depth (Suc k) e \<le> 16" using filter_depth_combine_ge [OF assms(3) h(3)] by blast
  let ?t = "str_join (separator k) (map (print_filter (Suc k)) es') @ t"
  let ?q = "after_expr e ?t p" and ?n = "\<lambda>q. q\<lparr>nodes := nodes q + 1\<rparr>"
  have "ends (Suc k) (separator k # ?t)" using assms(3) by (auto simp: ends_def separator_def)
  then have "logical (Suc k) d p = Inr (e, after_expr e (separator k # ?t) p)"
    using assms h dep es by (simp add: reads_def print_combine str_join_Cons combine_simps)
  moreover have "eat (separator k) (after_expr e (separator k # ?t) p) = Some ?q"
    by (simp add: eat_def after_expr_def)
  moreover have "nodes ?q < 128" using h(1) es by (simp add: combine_simps after_expr_def)
  moreover have "more k d [e] (?n ?q) = Inr ([e] @ es', (?n ?q)\<lparr>rest := t,
      nodes := nodes (?n ?q) + sum_list (map filter_nodes es'), set_items := set_items (?n ?q) + sum_list (map filter_items es')\<rparr>)"
    using assms(1,3) es dep h by (intro more_reads) (simp_all add: after_expr_def combine_simps)
  ultimately show "logical k d p = Inr (?e, after_expr ?e t p)"
    using assms(3) h(3) es by (subst logical.simps) (simp add: after_expr_def combine_simps add.assoc)
qed

lemma reads_all: "filter_shape e \<Longrightarrow> k \<le> 2 \<Longrightarrow> reads k e"
proof (induction e arbitrary: k)
  case (Compare f x vs)
  have r2: "reads 2 (Compare f x vs)" by (rule reads_compare) (rule Compare.prems(1))
  from r2 have r1: "reads 1 (Compare f x vs)" using reads_lift [of 1 "Compare f x vs"] by (simp add: numeral_2_eq_2)
  from r1 have r0: "reads 0 (Compare f x vs)" using reads_lift [of 0 "Compare f x vs"] by simp
  have "k = 0 \<or> k = 1 \<or> k = 2" using Compare.prems(2) by linarith
  then show ?case using r0 r1 r2 by (elim disjE) (simp_all only:)
next
  case (QAnd es)
  have "\<forall>e \<in> set es. reads (Suc 1) e" using QAnd by simp
  then have r1: "reads 1 (QAnd es)" using reads_combine [of es 1] QAnd.prems(1) by (simp add: combine_def)
  from r1 have r0: "reads 0 (QAnd es)" using reads_lift [of 0 "QAnd es"] by (simp add: paren_def)
  then have r2: "reads 2 (QAnd es)" by (rule reads_paren) (simp_all add: paren_def)
  have "k = 0 \<or> k = 1 \<or> k = 2" using QAnd.prems(2) by linarith
  then show ?case using r0 r1 r2 by (elim disjE) (simp_all only:)
next
  case (QOr es)
  have "\<forall>e \<in> set es. reads (Suc 0) e" using QOr by simp
  then have r0: "reads 0 (QOr es)" using reads_combine [of es 0] QOr.prems(1) by (simp add: combine_def)
  then have r2: "reads 2 (QOr es)" by (rule reads_paren) (simp_all add: paren_def)
  from r2 have r1: "reads 1 (QOr es)" using reads_lift [of 1 "QOr es"] by (simp add: paren_def numeral_2_eq_2)
  have "k = 0 \<or> k = 1 \<or> k = 2" using QOr.prems(2) by linarith
  then show ?case using r0 r1 r2 by (elim disjE) (simp_all only:)
qed

lemma parse_print:
  assumes "filter_ok e" "length (print_filter 0 e) \<le> max_filter_bytes"
  shows "parse_filter (print_filter 0 e) = Inr e"
proof -
  let ?p = "\<lparr>rest = print_filter 0 e, nodes = 0, set_items = 0\<rparr>"
  have "logical 0 0 ?p = Inr (e, after_expr e [] ?p)"
    using reads_all [of e 0] assms(1) by (simp add: reads_def filter_ok_def ends_def)
  then show ?thesis using assms(2) by (simp add: parse_filter_def after_expr_def)
qed

lemma parse_filter_no_panic: "no_panic (parse_filter s)"
  by (auto simp: parse_filter_def intro!: no_panic_intros logical_no_panic)

lemma parse_filter_ok:
  assumes "str_valid s" "parse_filter s = Inr e"
  shows "filter_ok e"
proof -
  from assms obtain q where "logical 0 0 \<lparr>rest = s, nodes = 0, set_items = 0\<rparr> = Inr (e, q)"
    by (auto simp: parse_filter_def split: if_splits)
  then have "parsed 0 0 \<lparr>rest = s, nodes = 0, set_items = 0\<rparr> e q"
    using assms(1) by (intro logical_ok) (simp_all add: parser_ok_def)
  then show ?thesis by (simp add: parsed_def filter_ok_def)
qed

section \<open>Properties\<close>

text \<open>A filter that is read stays within the budgets of the language: at most 128 nodes, 256 set
  members and 16 levels of parentheses; every group has at least two members, every comparison a
  bounded field name and as many values as its operator takes, each of at most 1024 bytes without
  control characters. No input makes the parser panic.\<close>

theorem query_filter_bounded:
  "no_panic (parse_filter s) \<and> (str_valid s \<and> parse_filter s = Inr e \<longrightarrow> filter_ok e)"
  using parse_filter_no_panic parse_filter_ok by blast

definition sample_filter :: "(string, string) expression" where
  "sample_filter = QOr [QAnd [Compare ''a'' QEq [''x''], QOr [Compare ''b'' QIn [''1'', ''2''], Compare ''c'' QLt [''y'']]],
     Compare ''d'' QNe [''it'' @ [CHR 0x27] @ ''s'']]"

lemma sample_filter_ok: "filter_ok sample_filter"
  by (simp add: sample_filter_def filter_ok_def field_ok_def filter_value_ok_def field_byte_def is_ascii_alphanumeric_def
      is_ascii_digit_def is_ascii_alpha_def operator_set_def str_valid_def has_control_def str_chars_def char_is_control_def)

lemma sample_filter_text:
  "length (print_filter 0 sample_filter) \<le> max_filter_bytes" "str_valid (print_filter 0 sample_filter)"
  by (simp_all add: sample_filter_def operator_set_def operator_token_def operator_tokens_def paren_def print_value_def
      escape_value.simps max_filter_bytes_def str_valid_def)

theorem query_filter_bounded_witness:
  "parse_filter (print_filter 0 sample_filter) = Inr sample_filter \<and> filter_ok sample_filter"
  using query_filter_bounded [of "print_filter 0 sample_filter" sample_filter] sample_filter_text
    parse_print [OF sample_filter_ok sample_filter_text(1)] by simp

text \<open>C19: Every filter expression within the budgets can be written, and reading it back gives the same
  expression: the parser inverts the printer with the least parentheses and quoted values, whatever
  characters the values contain. So two expressions within the budgets never share their text.\<close>

theorem query_filter_roundtrip:
  assumes "filter_ok e" "length (print_filter 0 e) \<le> max_filter_bytes"
  shows "parse_filter (print_filter 0 e) = Inr e \<and> (\<forall>e'. filter_ok e' \<and> print_filter 0 e' = print_filter 0 e \<longrightarrow> e' = e)"
  using parse_print [OF assms] parse_print assms(2) by (metis sum.inject(2))

theorem query_filter_roundtrip_witness:
  "filter_ok sample_filter \<and> parse_filter (print_filter 0 sample_filter) = Inr sample_filter"
  using query_filter_roundtrip [OF sample_filter_ok sample_filter_text(1)] sample_filter_ok by simp

end
