(* ===== verification/Query_Parameters.thy ===== *)
theory Query_Parameters
  imports Query_Parser
begin

text \<open>
  Strict decoding of a URL query, \<^verbatim>\<open>parameters.rs\<close> of \<^verbatim>\<open>crates/query\<close>, and the requests of fixed
  order, \<^verbatim>\<open>window.rs\<close>. \<^verbatim>\<open>PageCursor::parse\<close> belongs to the contract library and is the parameter
  \<open>parse_cursor\<close>; the base64 engine is the parameter \<open>base64_decode\<close>.
\<close>

definition default_page_limit :: nat where "default_page_limit = 1000"
definition max_page_limit :: nat where "max_page_limit = 1000"
definition max_raw_query_bytes :: nat where "max_raw_query_bytes = 16 * 1024"

record 'f sort =
  sort_field :: 'f
  descending :: bool

record 'c parameters =
  p_filter :: "string option"
  p_sort :: "string sort list"
  p_fields :: "string list option"
  p_limit :: "nat option"
  p_cursor :: "'c option"

section \<open>Decoding\<close>

text \<open>The product \<^verbatim>\<open>hi * 16 + lo\<close> of u8 stays below 256.\<close>

fun decode_bytes :: "string \<Rightarrow> string option" where
  "decode_bytes [] = Some []"
| "decode_bytes (b # s) =
    (if b = CHR ''+'' then map_option (Cons CHR '' '') (decode_bytes s)
     else if b = CHR ''%'' then
       (case s of
          hi # lo # r \<Rightarrow>
            (case (hex_value hi, hex_value lo) of
               (Some x, Some y) \<Rightarrow> map_option (Cons (char_of (x * 16 + y))) (decode_bytes r)
             | _ \<Rightarrow> None)
        | _ \<Rightarrow> None)
     else map_option (Cons b) (decode_bytes s))"

definition decode :: "string \<Rightarrow> string query_result" where
  "decode raw = bind_res (ok_or QInvalid (decode_bytes raw)) (\<lambda>bytes.
     if str_valid bytes then Inr bytes else Inl (Fail QInvalid))"

definition add_name :: "string \<Rightarrow> string list \<Rightarrow> string list query_result" where
  "add_name name names =
    (if length names = 16 then Inl (Fail QBudget)
     else if name = [] \<or> length name > 128 \<or> name \<in> set names then Inl (Fail QInvalid)
     else Inr (names @ [name]))"

definition names :: "string \<Rightarrow> string list query_result" where
  "names raw = fold_res add_name (str_split CHR '','' raw) []"

definition split_once :: "char \<Rightarrow> string \<Rightarrow> (string \<times> string) option" where
  "split_once d s = (if d \<in> set s then Some (takeWhile (\<lambda>c. c \<noteq> d) s, tl (dropWhile (\<lambda>c. c \<noteq> d) s)) else None)"

definition known_names :: "string list" where
  "known_names = [''filter'', ''sort'', ''fields'', ''limit'', ''cursor'']"

text \<open>One round of the loop over the pairs.\<close>

definition read_pair :: "string list \<Rightarrow> string \<Rightarrow> (string, string) btree_map \<Rightarrow> (string, string) btree_map query_result" where
  "read_pair context_names pair values =
    bind_res (ok_or QInvalid (split_once CHR ''='' pair)) (\<lambda>(key, value).
    bind_res (decode key) (\<lambda>key.
    if key \<notin> set known_names \<and> key \<notin> set context_names then Inl (Fail QInvalid)
    else bind_res (decode value) (\<lambda>value.
      case bm_put key value values of (values', old) \<Rightarrow>
      if value = [] \<or> old \<noteq> None then Inl (Fail QInvalid) else Inr values')))"

definition read_pairs :: "string list \<Rightarrow> string \<Rightarrow> (string, string) btree_map query_result" where
  "read_pairs context_names raw =
    (if raw = [] then Inr [] else fold_res (read_pair context_names) (str_split CHR ''&'' raw) [])"

definition bm_remove :: "'k \<Rightarrow> ('k, 'v) btree_map \<Rightarrow> ('k, 'v) btree_map" where
  "bm_remove k m = filter (\<lambda>(l, _). l \<noteq> k) m"

text \<open>The context entries in the order of the names, each removed from the values when found.\<close>

fun take_context :: "string list \<Rightarrow> (string, string) btree_map \<Rightarrow> (string \<times> string) list \<times> (string, string) btree_map" where
  "take_context [] values = ([], values)"
| "take_context (name # rest_names) values =
    (case bm_get values name of
       None \<Rightarrow> take_context rest_names values
     | Some v \<Rightarrow>
         (case take_context rest_names (bm_remove name values) of (found, left) \<Rightarrow> ((name, v) # found, left)))"

definition sort_of_name :: "string \<Rightarrow> string sort" where
  "sort_of_name name = (case name of
      c # r \<Rightarrow> if c = CHR ''-'' then \<lparr>sort_field = r, descending = True\<rparr> else \<lparr>sort_field = name, descending = False\<rparr>
    | [] \<Rightarrow> \<lparr>sort_field = [], descending = False\<rparr>)"

definition read_limit :: "string \<Rightarrow> nat query_result" where
  "read_limit s = (if \<not> list_all is_ascii_digit s then Inl (Fail QInvalid) else ok_or QInvalid (parse_u16 s))"

text \<open>\<^verbatim>\<open>Option::map(f).transpose()?\<close>.\<close>

definition transpose :: "('a \<Rightarrow> ('e, 'b) result) \<Rightarrow> 'a option \<Rightarrow> ('e, 'b option) result" where
  "transpose f x = (case x of None \<Rightarrow> Inr None | Some a \<Rightarrow> bind_res (f a) (\<lambda>b. Inr (Some b)))"

definition parse_with_context :: "(string \<Rightarrow> 'c option) \<Rightarrow> string \<Rightarrow> string list \<Rightarrow>
    ('c parameters \<times> (string, string) btree_map) query_result" where
  "parse_with_context parse_cursor raw context_names =
    (if length raw > max_raw_query_bytes then Inl (Fail QBudget)
     else bind_res (read_pairs context_names raw) (\<lambda>values.
       case take_context context_names values of (found, values) \<Rightarrow>
       let context = bm_of_list found; filter = bm_get values ''filter'' in
       if (case filter of Some v \<Rightarrow> length v > max_filter_bytes | None \<Rightarrow> False) then Inl (Fail QBudget)
       else bind_res (transpose names (bm_get values ''sort'')) (\<lambda>sort.
         bind_res (transpose names (bm_get values ''fields'')) (\<lambda>fields.
         bind_res (transpose read_limit (bm_get values ''limit'')) (\<lambda>limit.
         bind_res (transpose (\<lambda>s. ok_or QInvalid (parse_cursor s)) (bm_get values ''cursor'')) (\<lambda>cursor.
         Inr (\<lparr>p_filter = filter,
               p_sort = (case sort of None \<Rightarrow> [] | Some v \<Rightarrow> map sort_of_name v),
               p_fields = fields, p_limit = limit, p_cursor = cursor\<rparr>, context)))))))"

definition parse_parameters :: "(string \<Rightarrow> 'c option) \<Rightarrow> string \<Rightarrow> 'c parameters query_result" where
  "parse_parameters parse_cursor raw = bind_res (parse_with_context parse_cursor raw []) (\<lambda>(p, _). Inr p)"

section \<open>Catalog budgets\<close>

record catalog_query =
  cq_id :: string
  cq_catalog_resource :: string
  cq_max_fields :: nat
  cq_max_sort :: nat

definition catalog_validate :: "catalog_query \<Rightarrow> nat \<Rightarrow> nat \<Rightarrow> unit query_result" where
  "catalog_validate c field_count sorts =
    (if field_count > cq_max_fields c \<or> sorts > cq_max_sort c then Inl (Fail QBudget) else Inr ())"

section \<open>Requests of fixed order\<close>

text \<open>\<^verbatim>\<open>require_schema\<close> compares the address of a static schema; each schema has an identity of its own,
  and a schema is here the value it has.\<close>

record window_schema =
  ws_id :: string
  ws_default_limit :: nat
  ws_max_limit :: nat
  ws_order :: string
  ws_context :: "string list"

record window_query =
  wq_schema :: window_schema
  wq_limit :: nat
  wq_cursor :: "string option"

definition validate_token :: "(string \<Rightarrow> string option) \<Rightarrow> string \<Rightarrow> nat \<Rightarrow> unit query_result" where
  "validate_token base64_decode token max_bytes =
    (if length token > max_bytes then Inl (Fail QBudget)
     else if token = [] \<or> base64_decode token = None then Inl (Fail QInvalid)
     else Inr ())"

definition window_page :: "(string \<Rightarrow> string option) \<Rightarrow> window_schema \<Rightarrow> nat option \<Rightarrow> string option \<Rightarrow> nat \<Rightarrow>
    window_query query_result" where
  "window_page base64_decode schema limit cursor max_cursor_bytes =
    (if ws_order schema = [] \<or> ws_default_limit schema = 0 \<or> ws_default_limit schema > ws_max_limit schema
     then Inl (Fail QInvalid)
     else let limit = (case limit of None \<Rightarrow> ws_default_limit schema | Some n \<Rightarrow> n) in
       if \<not> (1 \<le> limit \<and> limit \<le> ws_max_limit schema) then Inl (Fail QInvalid)
       else bind_res (case cursor of Some token \<Rightarrow> validate_token base64_decode token max_cursor_bytes | None \<Rightarrow> Inr ()) (\<lambda>_.
         Inr \<lparr>wq_schema = schema, wq_limit = limit, wq_cursor = cursor\<rparr>))"

definition window_parse :: "(string \<Rightarrow> string option) \<Rightarrow> (string \<Rightarrow> 'c option) \<Rightarrow> ('c \<Rightarrow> string) \<Rightarrow> window_schema \<Rightarrow> string \<Rightarrow>
    (window_query \<times> (string, string) btree_map) query_result" where
  "window_parse base64_decode parse_cursor cursor_str schema raw =
    bind_res (parse_with_context parse_cursor raw (ws_context schema)) (\<lambda>(p, context).
    if p_filter p \<noteq> None \<or> p_sort p \<noteq> [] \<or> p_fields p \<noteq> None then Inl (Fail QInvalid)
    else bind_res (window_page base64_decode schema (p_limit p) (map_option cursor_str (p_cursor p)) 4096) (\<lambda>page.
      Inr (page, context)))"

end
