(* ===== verification/Query_Parameters_Properties.thy ===== *)
theory Query_Parameters_Properties
  imports Query_Parameters
begin

text \<open>
  Reading and writing of URL queries: the parameters a query can carry (\<open>params_ok\<close>), the text
  that carries them (\<open>print_params\<close>), and that the strict parser is the exact inverse.
\<close>

section \<open>Writing\<close>

definition hex_digit :: "nat \<Rightarrow> char" where
  "hex_digit n = char_of (if n < 10 then 48 + n else 87 + n)"

definition url_byte :: "char \<Rightarrow> string" where
  "url_byte c = (if is_ascii_alphanumeric c then [c]
     else [CHR ''%'', hex_digit (of_char c div 16), hex_digit (of_char c mod 16)])"

definition url_encode :: "string \<Rightarrow> string" where
  "url_encode s = concat (map url_byte s)"

definition sort_name :: "string sort \<Rightarrow> string" where
  "sort_name s = (if descending s then CHR ''-'' # sort_field s else sort_field s)"

definition opt_entry :: "string \<Rightarrow> string option \<Rightarrow> (string \<times> string) list" where
  "opt_entry k x = (case x of None \<Rightarrow> [] | Some v \<Rightarrow> [(k, v)])"

definition param_entries :: "('c \<Rightarrow> string) \<Rightarrow> 'c parameters \<Rightarrow> (string \<times> string) list" where
  "param_entries cursor_str p =
     opt_entry ''filter'' (p_filter p)
     @ opt_entry ''sort'' (if p_sort p = [] then None else Some (str_join CHR '','' (map sort_name (p_sort p))))
     @ opt_entry ''fields'' (map_option (str_join CHR '','') (p_fields p))
     @ opt_entry ''limit'' (map_option print_nat (p_limit p))
     @ opt_entry ''cursor'' (map_option cursor_str (p_cursor p))"

definition print_entry :: "string \<times> string \<Rightarrow> string" where
  "print_entry kv = (case kv of (k, v) \<Rightarrow> url_encode k @ CHR ''='' # url_encode v)"

definition print_params :: "('c \<Rightarrow> string) \<Rightarrow> 'c parameters \<Rightarrow> string" where
  "print_params cursor_str p = str_join CHR ''&'' (map print_entry (param_entries cursor_str p))"

section \<open>What can be carried\<close>

definition names_ok :: "string list \<Rightarrow> bool" where
  "names_ok ns \<longleftrightarrow> ns \<noteq> [] \<and> length ns \<le> 16 \<and> distinct ns \<and> str_valid (str_join CHR '','' ns)
     \<and> list_all (\<lambda>n. n \<noteq> [] \<and> length n \<le> 128 \<and> CHR '','' \<notin> set n) ns"

definition sort_ok :: "string sort \<Rightarrow> bool" where
  "sort_ok s \<longleftrightarrow> descending s \<or> (sort_field s \<noteq> [] \<and> hd (sort_field s) \<noteq> CHR ''-'')"

definition params_ok :: "(string \<Rightarrow> 'c option) \<Rightarrow> ('c \<Rightarrow> string) \<Rightarrow> 'c parameters \<Rightarrow> bool" where
  "params_ok parse_cursor cursor_str p \<longleftrightarrow>
     (case p_filter p of None \<Rightarrow> True | Some f \<Rightarrow> f \<noteq> [] \<and> length f \<le> max_filter_bytes \<and> str_valid f)
     \<and> (p_sort p \<noteq> [] \<longrightarrow> names_ok (map sort_name (p_sort p))) \<and> list_all sort_ok (p_sort p)
     \<and> (case p_fields p of None \<Rightarrow> True | Some ns \<Rightarrow> names_ok ns)
     \<and> (case p_limit p of None \<Rightarrow> True | Some n \<Rightarrow> n < 65536)
     \<and> (case p_cursor p of None \<Rightarrow> True | Some c \<Rightarrow>
          cursor_str c \<noteq> [] \<and> str_valid (cursor_str c) \<and> parse_cursor (cursor_str c) = Some c)"

section \<open>Bytes\<close>

lemma hex_digit_byte:
  assumes "n < 16"
  shows "hex_value (hex_digit n) = Some n" "hex_digit n \<noteq> CHR ''&''" "hex_digit n \<noteq> CHR ''=''"
proof -
  have o: "of_char (hex_digit n) = (if n < 10 then 48 + n else 87 + n)"
    using assms by (simp add: hex_digit_def)
  show "hex_value (hex_digit n) = Some n" using assms by (simp add: hex_value_def o Let_def)
  have "of_char (hex_digit n) \<noteq> (of_char CHR ''&'' :: nat)" "of_char (hex_digit n) \<noteq> (of_char CHR ''='' :: nat)"
    using assms by (simp_all add: o)
  then show "hex_digit n \<noteq> CHR ''&''" "hex_digit n \<noteq> CHR ''=''" by metis+
qed

lemma decode_bytes_encode: "decode_bytes (url_encode s) = Some s"
proof (induction s)
  case Nil
  then show ?case by (simp add: url_encode_def)
next
  case (Cons c s)
  have enc: "url_encode (c # s) = url_byte c @ url_encode s" by (simp add: url_encode_def)
  show ?case
  proof (cases "is_ascii_alphanumeric c")
    case True
    then have "c \<noteq> CHR ''+''" "c \<noteq> CHR ''%''"
      by (auto simp: is_ascii_alphanumeric_def is_ascii_digit_def is_ascii_alpha_def)
    with True Cons show ?thesis by (simp add: enc url_byte_def)
  next
    case False
    have "of_char c < (256::nat)" by simp
    then have "of_char c div 16 < (16::nat)" by linarith
    with False Cons show ?thesis by (simp add: enc url_byte_def hex_digit_byte)
  qed
qed

lemma url_byte_reserved:
  assumes "d \<in> {CHR ''&'', CHR ''=''}"
  shows "d \<notin> set (url_byte c)"
proof (cases "is_ascii_alphanumeric c")
  case True
  with assms show ?thesis
    by (auto simp: url_byte_def is_ascii_alphanumeric_def is_ascii_digit_def is_ascii_alpha_def)
next
  case False
  have b: "of_char c mod 16 < (16::nat)" "of_char c div 16 < (16::nat)"
    using of_char_of [of "of_char c :: nat"] by (simp_all add: less_mult_imp_div_less)
  have "d \<noteq> hex_digit n" if "n < 16" for n using assms hex_digit_byte(2,3) [OF that] by auto
  from this [OF b(1)] this [OF b(2)] False assms show ?thesis by (auto simp: url_byte_def)
qed

lemma url_encode_bytes: "CHR ''&'' \<notin> set (url_encode s)" "CHR ''='' \<notin> set (url_encode s)"
  using url_byte_reserved by (auto simp: url_encode_def)

lemma decode_encode: "str_valid s \<Longrightarrow> decode (url_encode s) = Inr s"
  by (simp add: decode_def decode_bytes_encode)

lemma str_split_append: "d \<notin> set w \<Longrightarrow> str_split d (w @ d # s) = w # str_split d s"
  by (induction w) auto

lemma str_split_single: "d \<notin> set w \<Longrightarrow> str_split d w = [w]"
  by (induction w) auto

lemma str_split_join: "ws \<noteq> [] \<Longrightarrow> (\<forall>w \<in> set ws. d \<notin> set w) \<Longrightarrow> str_split d (str_join d ws) = ws"
  by (induction d ws rule: str_join.induct) (auto simp: str_split_append str_split_single)

lemma split_once_append: "d \<notin> set a \<Longrightarrow> split_once d (a @ d # b) = Some (a, b)"
  by (auto simp: split_once_def takeWhile_append dropWhile_append)

section \<open>Names and numbers\<close>

lemma add_name_Inr:
  "add_name n ns = Inr ms \<longleftrightarrow> length ns \<noteq> 16 \<and> n \<noteq> [] \<and> length n \<le> 128 \<and> n \<notin> set ns \<and> ms = ns @ [n]"
  by (auto simp: add_name_def)

lemma fold_add_name:
  assumes "length ns \<le> 16"
  shows "fold_res add_name ms ns = Inr r \<longleftrightarrow>
    r = ns @ ms \<and> length (ns @ ms) \<le> 16 \<and> (distinct ns \<longrightarrow> distinct (ns @ ms)) \<and> distinct ms \<and> set ms \<inter> set ns = {}
      \<and> list_all (\<lambda>n. n \<noteq> [] \<and> length n \<le> 128) ms"
  using assms
proof (induction ms arbitrary: ns)
  case Nil
  then show ?case by auto
next
  case (Cons m ms)
  have "fold_res add_name (m # ms) ns = Inr r \<longleftrightarrow>
    length ns \<noteq> 16 \<and> m \<noteq> [] \<and> length m \<le> 128 \<and> m \<notin> set ns \<and> fold_res add_name ms (ns @ [m]) = Inr r"
    by (auto simp: add_name_Inr)
  also have "\<dots> \<longleftrightarrow> r = ns @ m # ms \<and> length (ns @ m # ms) \<le> 16 \<and> (distinct ns \<longrightarrow> distinct (ns @ m # ms))
     \<and> distinct (m # ms) \<and> set (m # ms) \<inter> set ns = {} \<and> list_all (\<lambda>n. n \<noteq> [] \<and> length n \<le> 128) (m # ms)"
    using Cons.IH [of "ns @ [m]"] Cons.prems by (cases "length ns = 16") auto
  finally show ?case .
qed

lemma names_exact:
  "str_valid s \<Longrightarrow> s \<noteq> [] \<Longrightarrow> names s = Inr ns \<Longrightarrow> names_ok ns \<and> str_join CHR '','' ns = s"
  using str_join_split [of "CHR '',''" s] str_split_no_sep [of _ "CHR '',''" s]
  by (auto simp: names_def fold_add_name names_ok_def list_all_iff)

lemma names_join: "names_ok ns \<Longrightarrow> names (str_join CHR '','' ns) = Inr ns"
  by (auto simp: names_def names_ok_def fold_add_name list_all_iff str_split_join)

lemma sort_name_inverse: "sort_ok s \<Longrightarrow> sort_of_name (sort_name s) = s"
  by (cases s) (auto simp: sort_ok_def sort_name_def sort_of_name_def split: list.splits)

lemma sort_of_name_ok: "n \<noteq> [] \<Longrightarrow> sort_ok (sort_of_name n) \<and> sort_name (sort_of_name n) = n"
  by (auto simp: sort_ok_def sort_name_def sort_of_name_def split: list.splits)

lemma digits_valid: "list_all is_ascii_digit s \<Longrightarrow> str_valid s"
  by (induction s) (auto simp: str_valid_ascii is_ascii_digit_def)

lemma read_limit_print: "n < 65536 \<Longrightarrow> read_limit (print_nat n) = Inr n"
proof -
  assume n: "n < 65536"
  note d = print_nat_digits [of n]
  obtain c r where cr: "print_nat n = c # r" using d by (cases "print_nat n") auto
  then have "c \<noteq> CHR ''+''" using d by (auto simp: is_ascii_digit_def)
  with n d cr show ?thesis by (simp add: read_limit_def parse_u16_def decimal_def digits_value_def Let_def)
qed

lemma read_limit_bound: "read_limit s = Inr n \<Longrightarrow> n < 65536"
  by (auto simp: read_limit_def parse_u16_def Let_def split: option.splits if_splits)

section \<open>Entries\<close>

lemma decode_valid: "decode s = Inr v \<Longrightarrow> str_valid v"
  by (auto simp: decode_def split: if_splits)

text \<open>A string in the map was decoded, and is not empty.\<close>

lemma read_pairs_values:
  assumes "read_pairs ctx raw = Inr m"
  shows "bm_wf m \<and> (\<forall>(k, v) \<in> set m. v \<noteq> [] \<and> str_valid v)"
proof (cases "raw = []")
  case True
  then show ?thesis using assms by (simp add: read_pairs_def)
next
  case False
  let ?P = "\<lambda>m. bm_wf m \<and> (\<forall>k v. bm_get m k = Some v \<longrightarrow> v \<noteq> [] \<and> str_valid v)"
  have "?P m"
  proof (rule fold_res_invariant [where P = ?P])
    show "fold_res (read_pair ctx) (str_split CHR ''&'' raw) [] = Inr m"
      using assms False by (simp add: read_pairs_def)
    show "?P v" if "?P u" "read_pair ctx x u = Inr v" for x u v
    proof -
      from that(2) obtain key val where v: "val \<noteq> []" "str_valid val" "v = bm_insert key val u"
        by (auto simp: read_pair_def bm_put_def dest: decode_valid split: if_splits)
      with that(1) show ?thesis by simp
    qed
  qed simp
  then show ?thesis using bm_get_Some_iff [of m] by blast
qed

lemma known_valid: "k \<in> set known_names \<Longrightarrow> str_valid k"
  by (auto simp: known_names_def str_valid_ascii)

lemma read_pair_print:
  assumes "k \<in> set known_names" "v \<noteq> []" "str_valid v" "bm_get m k = None"
  shows "read_pair ctx (print_entry (k, v)) m = Inr (bm_insert k v m)"
  using assms known_valid [OF assms(1)]
  by (simp add: read_pair_def print_entry_def split_once_append url_encode_bytes decode_encode bm_put_def)

lemma read_entries:
  assumes "distinct (map fst kvs)" "\<forall>(k, v) \<in> set kvs. k \<in> set known_names \<and> v \<noteq> [] \<and> str_valid v"
    "bm_wf m" "\<forall>k \<in> fst ` set kvs. bm_get m k = None"
  shows "fold_res (read_pair ctx) (map print_entry kvs) m = Inr (fold (\<lambda>(k, v). bm_insert k v) kvs m)"
  using assms
proof (induction kvs arbitrary: m)
  case Nil
  then show ?case by simp
next
  case (Cons kv kvs)
  obtain k v where kv: "kv = (k, v)" by (cases kv)
  have ok: "k \<in> set known_names" "v \<noteq> []" "str_valid v" "bm_get m k = None" using Cons.prems kv by auto
  have "\<forall>l \<in> fst ` set kvs. bm_get (bm_insert k v m) l = None" using Cons.prems kv by (auto simp: image_iff)
  moreover have "bm_wf (bm_insert k v m)" using Cons.prems by simp
  moreover have "distinct (map fst kvs)" "\<forall>(k, v) \<in> set kvs. k \<in> set known_names \<and> v \<noteq> [] \<and> str_valid v"
    using Cons.prems by auto
  ultimately show ?case using Cons.IH by (simp add: kv read_pair_print [OF ok] del: bm_get_insert)
qed

lemma map_of_rev_distinct: "distinct (map fst kvs) \<Longrightarrow> map_of (rev kvs) = map_of kvs"
proof (induction kvs)
  case Nil
  then show ?case by simp
next
  case (Cons kv kvs)
  then have "fst kv \<notin> dom (map_of (rev kvs))" by (simp add: dom_map_of_conv_image_fst)
  with Cons show ?case by (cases kv) (simp add: map_add_upd_left map_add_def fun_eq_iff dom_def split: option.splits)
qed

lemma read_pairs_print:
  assumes "distinct (map fst kvs)" "\<forall>(k, v) \<in> set kvs. k \<in> set known_names \<and> v \<noteq> [] \<and> str_valid v"
  shows "read_pairs ctx (str_join CHR ''&'' (map print_entry kvs)) = Inr (bm_of_list kvs)"
proof (cases kvs)
  case Nil
  then show ?thesis by (simp add: read_pairs_def bm_of_list_def)
next
  case (Cons kv rest)
  have "\<forall>w \<in> set (map print_entry kvs). CHR ''&'' \<notin> set w"
    using url_encode_bytes by (auto simp: print_entry_def)
  then have "str_split CHR ''&'' (str_join CHR ''&'' (map print_entry kvs)) = map print_entry kvs"
    using Cons by (intro str_split_join) simp_all
  moreover have "str_join CHR ''&'' (map print_entry kvs) \<noteq> []"
    using Cons by (cases rest) (auto simp: print_entry_def split: prod.splits)
  ultimately show ?thesis using read_entries [OF assms, of "[]" ctx]
    by (simp add: read_pairs_def bm_of_list_def)
qed

section \<open>Exact inverse\<close>

lemma param_entries_distinct: "distinct (map fst (param_entries cs p))"
  by (auto simp: param_entries_def opt_entry_def split: option.splits)

lemma names_text: "names_ok ns \<Longrightarrow> str_join CHR '','' ns \<noteq> [] \<and> str_valid (str_join CHR '','' ns)"
  by (cases ns; cases "tl ns") (auto simp: names_ok_def)

lemma param_entries_ok:
  assumes "params_ok pc cs p" "(k, v) \<in> set (param_entries cs p)"
  shows "k \<in> set known_names \<and> v \<noteq> [] \<and> str_valid v"
  using assms print_nat_digits digits_valid
  by (auto simp: param_entries_def opt_entry_def params_ok_def known_names_def
      split: option.splits if_splits dest: names_text)

lemma param_entries_get:
  "map_of (param_entries cs p) ''filter'' = p_filter p"
  "map_of (param_entries cs p) ''sort'' = (if p_sort p = [] then None else Some (str_join CHR '','' (map sort_name (p_sort p))))"
  "map_of (param_entries cs p) ''fields'' = map_option (str_join CHR '','') (p_fields p)"
  "map_of (param_entries cs p) ''limit'' = map_option print_nat (p_limit p)"
  "map_of (param_entries cs p) ''cursor'' = map_option cs (p_cursor p)"
  by (auto simp: param_entries_def opt_entry_def map_add_def split: option.splits)

lemma transpose_Inr: "transpose f x = Inr y \<longleftrightarrow>
    (case x of None \<Rightarrow> y = None | Some a \<Rightarrow> \<exists>b. f a = Inr b \<and> y = Some b)"
  by (auto simp: transpose_def split: option.splits)

lemma transpose_map: "(\<forall>a. x = Some a \<longrightarrow> f (g a) = Inr a) \<Longrightarrow> transpose f (map_option g x) = Inr x"
  by (cases x) (simp_all add: transpose_def)

lemma parse_print_params:
  assumes ok: "params_ok pc cs p" and len: "length (print_params cs p) \<le> max_raw_query_bytes"
  shows "parse_parameters pc (print_params cs p) = Inr p"
proof -
  let ?m = "bm_of_list (param_entries cs p)"
  have read: "read_pairs [] (print_params cs p) = Inr ?m"
    unfolding print_params_def using param_entries_distinct param_entries_ok [OF ok] by (intro read_pairs_print) auto
  have get: "bm_get ?m = map_of (param_entries cs p)"
    by (simp add: bm_get_of_list map_of_rev_distinct [OF param_entries_distinct])
  have sorts: "map sort_of_name (map sort_name (p_sort p)) = p_sort p"
    using ok by (auto simp: params_ok_def list_all_iff map_idI sort_name_inverse)
  have "transpose names (bm_get ?m ''sort'') = Inr (if p_sort p = [] then None else Some (map sort_name (p_sort p)))"
    using ok by (simp add: get param_entries_get transpose_def params_ok_def names_join)
  moreover have "transpose names (bm_get ?m ''fields'') = Inr (p_fields p)"
    unfolding get param_entries_get using ok by (intro transpose_map) (auto simp: params_ok_def names_join)
  moreover have "transpose read_limit (bm_get ?m ''limit'') = Inr (p_limit p)"
    unfolding get param_entries_get using ok by (intro transpose_map) (auto simp: params_ok_def read_limit_print)
  moreover have "transpose (\<lambda>s. ok_or QInvalid (pc s)) (bm_get ?m ''cursor'') = Inr (p_cursor p)"
    unfolding get param_entries_get using ok by (intro transpose_map) (auto simp: params_ok_def)
  moreover have "\<not> (case bm_get ?m ''filter'' of Some v \<Rightarrow> length v > max_filter_bytes | None \<Rightarrow> False)"
    using ok by (auto simp: get param_entries_get params_ok_def split: option.splits)
  ultimately show ?thesis
    using len sorts by (simp add: parse_parameters_def parse_with_context_def read get param_entries_get Let_def)
qed

lemma parse_parameters_ok:
  assumes "parse_parameters pc raw = Inr p" "\<And>s c. pc s = Some c \<Longrightarrow> cs c = s"
  shows "params_ok pc cs p"
proof -
  from assms(1) obtain m sort where m: "read_pairs [] raw = Inr m"
    and f: "p_filter p = bm_get m ''filter''" "\<not> (case bm_get m ''filter'' of Some v \<Rightarrow> length v > max_filter_bytes | None \<Rightarrow> False)"
    and s: "transpose names (bm_get m ''sort'') = Inr sort" "p_sort p = (case sort of None \<Rightarrow> [] | Some v \<Rightarrow> map sort_of_name v)"
    and r: "transpose names (bm_get m ''fields'') = Inr (p_fields p)" "transpose read_limit (bm_get m ''limit'') = Inr (p_limit p)"
      "transpose (\<lambda>s. ok_or QInvalid (pc s)) (bm_get m ''cursor'') = Inr (p_cursor p)"
    by (auto simp: parse_parameters_def parse_with_context_def Let_def split: if_splits prod.splits)
  note vals = read_pairs_values [OF m]
  have v: "x \<noteq> [] \<and> str_valid x" if "bm_get m k = Some x" for k x
    using vals that by (auto dest: map_of_SomeD)
  have sorts: "map sort_name (map sort_of_name ns) = ns \<and> list_all sort_ok (map sort_of_name ns)" if "names_ok ns" for ns
    using that by (auto simp: names_ok_def list_all_iff map_idI sort_of_name_ok)
  have "(p_sort p \<noteq> [] \<longrightarrow> names_ok (map sort_name (p_sort p))) \<and> list_all sort_ok (p_sort p)"
    using s v sorts by (auto simp: transpose_Inr split: option.splits dest!: names_exact [rotated 2])
  moreover have "case p_fields p of None \<Rightarrow> True | Some ns \<Rightarrow> names_ok ns"
    using r(1) v by (auto simp: transpose_Inr split: option.splits dest!: names_exact [rotated 2])
  moreover have "case p_limit p of None \<Rightarrow> True | Some n \<Rightarrow> n < 65536"
    using r(2) by (auto simp: transpose_Inr split: option.splits dest: read_limit_bound)
  moreover have "case p_cursor p of None \<Rightarrow> True | Some c \<Rightarrow> cs c \<noteq> [] \<and> str_valid (cs c) \<and> pc (cs c) = Some c"
    using r(3) v assms(2) by (auto simp: transpose_Inr split: option.splits)
  moreover have "case p_filter p of None \<Rightarrow> True | Some f \<Rightarrow> f \<noteq> [] \<and> length f \<le> max_filter_bytes \<and> str_valid f"
    using f v by (auto split: option.splits)
  ultimately show ?thesis by (simp add: params_ok_def)
qed

section \<open>Properties\<close>

definition sample_params :: "string parameters" where
  "sample_params = \<lparr>p_filter = Some ''name==a&b'', p_sort = [\<lparr>sort_field = ''name'', descending = True\<rparr>,
     \<lparr>sort_field = ''id'', descending = False\<rparr>], p_fields = Some [''id'', ''name''], p_limit = Some 50,
     p_cursor = Some ''YWJj''\<rparr>"

lemma sample_params_ok: "params_ok Some (\<lambda>c. c) sample_params"
  by (simp add: params_ok_def sample_params_def max_filter_bytes_def str_valid_ascii names_ok_def sort_name_def sort_ok_def)

lemma sample_params_length: "length (print_params (\<lambda>c. c) sample_params) \<le> max_raw_query_bytes"
  by (simp add: print_params_def param_entries_def opt_entry_def sample_params_def print_entry_def url_encode_def
      url_byte_def sort_name_def print_nat.simps max_raw_query_bytes_def is_ascii_alphanumeric_def is_ascii_digit_def
      is_ascii_alpha_def)

text \<open>The strict reader of URL queries is the exact inverse of writing them. Whatever it
  accepts is a request within the budgets (filter size, at most sixteen distinct names per list, a
  limit of sixteen bits, a cursor the contract accepts), and every such request whose text fits the
  budget of a raw query is read back unchanged from its percent-encoded text. \<open>pc\<close> and \<open>cs\<close> are
  \<^verbatim>\<open>PageCursor::parse\<close> and \<^verbatim>\<open>as_str\<close>; the hypothesis is that a parsed cursor keeps its text.\<close>

theorem query_parameters_roundtrip:
  assumes "\<And>s c. pc s = Some c \<Longrightarrow> cs c = s"
  shows "(\<forall>raw p. parse_parameters pc raw = Inr p \<longrightarrow> params_ok pc cs p) \<and>
    (\<forall>p. params_ok pc cs p \<and> length (print_params cs p) \<le> max_raw_query_bytes \<longrightarrow>
       parse_parameters pc (print_params cs p) = Inr p)"
  using parse_parameters_ok [of pc] parse_print_params assms by blast

theorem query_parameters_roundtrip_witness:
  "parse_parameters Some (print_params (\<lambda>c. c) sample_params) = Inr sample_params \<and> params_ok Some (\<lambda>c. c) sample_params"
proof -
  have "\<And>s c. Some s = Some c \<Longrightarrow> (\<lambda>c. c) c = (s :: string)" by simp
  from query_parameters_roundtrip [of Some "\<lambda>c. c", OF this] sample_params_ok sample_params_length
  show ?thesis by blast
qed

end
