(* ===== verification/Query_Cursor.thy ===== *)
theory Query_Cursor
  imports Query_Parameters
begin

text \<open>
  Authenticated continuations, \<^verbatim>\<open>cursor.rs\<close> of \<^verbatim>\<open>crates/query\<close>. The libraries are the record \<open>cursor_lib\<close>:
  the base64 engine, HMAC-SHA256 under the key of the codec, JSON of the payload, and the cursor type of
  the contract library. \<open>cursor_lib_ok\<close> names what the code relies on.
\<close>

record 'p payload =
  py_version :: nat
  py_context :: string
  py_position :: 'p

record ('p, 'c) cursor_lib =
  b64_encode :: "string \<Rightarrow> string"
  b64_decode :: "string \<Rightarrow> string option"
  hmac_sign :: "string \<Rightarrow> string"
  hmac_verify :: "string \<Rightarrow> string \<Rightarrow> bool"
  payload_to_json :: "'p payload \<Rightarrow> string option"
  payload_from_json :: "string \<Rightarrow> 'p payload option"
  cursor_parse :: "string \<Rightarrow> 'c option"
  cursor_str :: "'c \<Rightarrow> string"

text \<open>Base64 and the JSON of a payload are inverted by their decoders; a tag has 32 bytes, and verification
  accepts exactly the tag of the message; a parsed cursor keeps its text.\<close>

definition cursor_lib_ok :: "('p, 'c) cursor_lib \<Rightarrow> bool" where
  "cursor_lib_ok lib \<longleftrightarrow>
     (\<forall>s. b64_decode lib (b64_encode lib s) = Some s) \<and> (\<forall>t. length (hmac_sign lib t) = 32)
     \<and> (\<forall>m t. hmac_verify lib m t \<longleftrightarrow> t = hmac_sign lib m)
     \<and> (\<forall>p s. payload_to_json lib p = Some s \<longrightarrow> payload_from_json lib s = Some p)
     \<and> (\<forall>s c. cursor_parse lib s = Some c \<longrightarrow> cursor_str lib c = s)
     \<and> b64_decode lib [] = Some []"

definition cursor_domain :: string where
  "cursor_domain = ''rss-mdm/query-cursor/v1'' @ [CHR 0x00]"

text \<open>\<^verbatim>\<open>CursorCodec::new\<close> admits a key of 32 bytes.\<close>

definition codec_new :: "string \<Rightarrow> string query_result" where
  "codec_new secret = (if length secret \<noteq> 32 then Inl (Fail QInvalid) else Inr secret)"

definition fingerprint :: "('v \<Rightarrow> string option) \<Rightarrow> (string \<Rightarrow> string) \<Rightarrow> 'v \<Rightarrow> string query_result" where
  "fingerprint to_json sha256_hex value = bind_res (ok_or QInvalid (to_json value)) (\<lambda>bytes. Inr (sha256_hex bytes))"

definition encode_bounded :: "('p, 'c) cursor_lib \<Rightarrow> string \<Rightarrow> 'p \<Rightarrow> nat \<Rightarrow> string query_result" where
  "encode_bounded lib context position max_bytes =
    bind_res (ok_or QInvalid (payload_to_json lib \<lparr>py_version = 1, py_context = context, py_position = position\<rparr>)) (\<lambda>json.
    let bytes = cursor_domain @ json;
        token = b64_encode lib (bytes @ hmac_sign lib bytes) in
    if length token > max_bytes then Inl (Fail QBudget) else Inr token)"

definition cursor_encode :: "('p, 'c) cursor_lib \<Rightarrow> string \<Rightarrow> 'p \<Rightarrow> 'c query_result" where
  "cursor_encode lib context position =
    bind_res (encode_bounded lib context position 4096) (\<lambda>token. ok_or QBudget (cursor_parse lib token))"

text \<open>\<^verbatim>\<open>split_at(len - 32)\<close>: the message and its tag.\<close>

definition decode_bounded :: "('p, 'c) cursor_lib \<Rightarrow> string \<Rightarrow> string \<Rightarrow> nat \<Rightarrow> 'p query_result" where
  "decode_bounded lib token context max_bytes =
    bind_res (validate_token (b64_decode lib) token max_bytes) (\<lambda>_.
    bind_res (ok_or QInvalid (b64_decode lib token)) (\<lambda>bytes.
    if length bytes < 32 then Inl (Fail QCursorInvalidated)
    else let split = length bytes - 32; payload = take split bytes; tag = drop split bytes in
      if \<not> hmac_verify lib payload tag then Inl (Fail QCursorInvalidated)
      else if \<not> prefix cursor_domain payload then Inl (Fail QCursorInvalidated)
      else bind_res (ok_or QCursorInvalidated (payload_from_json lib (drop (length cursor_domain) payload))) (\<lambda>data.
        if py_version data \<noteq> 1 \<or> py_context data \<noteq> context then Inl (Fail QCursorInvalidated)
        else Inr (py_position data))))"

definition cursor_decode :: "('p, 'c) cursor_lib \<Rightarrow> 'c \<Rightarrow> string \<Rightarrow> 'p query_result" where
  "cursor_decode lib token context = decode_bounded lib (cursor_str lib token) context 4096"

section \<open>Lemmas\<close>

lemma cursor_libD:
  assumes "cursor_lib_ok lib"
  shows "b64_decode lib (b64_encode lib s) = Some s" "length (hmac_sign lib t) = 32"
    "hmac_verify lib m u \<longleftrightarrow> u = hmac_sign lib m"
    "payload_to_json lib p = Some j \<Longrightarrow> payload_from_json lib j = Some p"
    "cursor_parse lib s = Some c \<Longrightarrow> cursor_str lib c = s" "b64_decode lib [] = Some []"
  using assms by (auto simp: cursor_lib_ok_def)

text \<open>What a token stands for: the signed message and its parts.\<close>

lemma encode_bounded_Inr:
  "encode_bounded lib context position max_bytes = Inr token \<longleftrightarrow>
    (\<exists>json. payload_to_json lib \<lparr>py_version = 1, py_context = context, py_position = position\<rparr> = Some json
       \<and> token = b64_encode lib ((cursor_domain @ json) @ hmac_sign lib (cursor_domain @ json)) \<and> length token \<le> max_bytes)"
  by (cases "payload_to_json lib \<lparr>py_version = 1, py_context = context, py_position = position\<rparr>")
    (auto simp: encode_bounded_def Let_def)

lemma encoded_not_Nil:
  "cursor_lib_ok lib \<Longrightarrow> s \<noteq> [] \<Longrightarrow> b64_encode lib s \<noteq> []"
  by (metis cursor_libD(1,6) option.inject)

lemma decode_encoded:
  assumes lib: "cursor_lib_ok lib" and enc: "encode_bounded lib context position n = Inr token" "length token \<le> m"
  shows "decode_bounded lib token context' m =
    (if context' = context then Inr position else Inl (Fail QCursorInvalidated))"
proof -
  note l = cursor_libD [OF lib]
  from enc obtain json where j: "payload_to_json lib \<lparr>py_version = 1, py_context = context, py_position = position\<rparr> = Some json"
    and t: "token = b64_encode lib ((cursor_domain @ json) @ hmac_sign lib (cursor_domain @ json))"
    by (auto simp: encode_bounded_Inr)
  have "token \<noteq> []" unfolding t by (rule encoded_not_Nil [OF lib]) (simp add: cursor_domain_def)
  then have "validate_token (b64_decode lib) token m = Inr ()"
    using enc(2) l(1) by (simp add: validate_token_def t)
  moreover have "b64_decode lib token = Some ((cursor_domain @ json) @ hmac_sign lib (cursor_domain @ json))"
    by (simp add: t l(1))
  ultimately show ?thesis using l(4) [OF j]
    by (simp add: decode_bounded_def l(2,3) Let_def)
qed

lemma decode_bounded_Inr:
  assumes "cursor_lib_ok lib" "decode_bounded lib token context n = Inr position"
  obtains json data where "b64_decode lib token = Some ((cursor_domain @ json) @ hmac_sign lib (cursor_domain @ json))"
    "payload_from_json lib json = Some data" "py_version data = 1" "py_context data = context" "py_position data = position"
    "length token \<le> n"
proof -
  from assms(2) obtain bytes data where b: "b64_decode lib token = Some bytes" "\<not> length bytes < 32" "length token \<le> n"
    "hmac_verify lib (take (length bytes - 32) bytes) (drop (length bytes - 32) bytes)"
    "prefix cursor_domain (take (length bytes - 32) bytes)"
    "payload_from_json lib (drop (length cursor_domain) (take (length bytes - 32) bytes)) = Some data"
    "py_version data = 1" "py_context data = context" "py_position data = position"
    by (auto simp: decode_bounded_def validate_token_def Let_def split: if_splits)
  obtain json where j: "take (length bytes - 32) bytes = cursor_domain @ json" using b(5) by (auto simp: prefix_def)
  have "bytes = (cursor_domain @ json) @ hmac_sign lib (cursor_domain @ json)"
    using b(4) j cursor_libD(3) [OF assms(1)] by (metis append_take_drop_id)
  moreover have "payload_from_json lib json = Some data" using b(6) j by simp
  ultimately show thesis using b that by simp
qed

lemma cursor_roundtrip:
  assumes "cursor_lib_ok lib" "cursor_encode lib context position = Inr c"
  shows "cursor_decode lib c context = Inr position"
proof -
  from assms(2) obtain token where "encode_bounded lib context position 4096 = Inr token" "cursor_parse lib token = Some c"
    by (auto simp: cursor_encode_def)
  moreover from this have "length token \<le> 4096" by (auto simp: encode_bounded_Inr)
  ultimately show ?thesis using decode_encoded [OF assms(1)] cursor_libD(5) [OF assms(1)]
    by (simp add: cursor_decode_def)
qed

end
