(* ===== verification/Query_Directory.thy ===== *)
theory Query_Directory
  imports Query_Cursor Presentation
begin

text \<open>
  Checked directory queries, \<^verbatim>\<open>directory.rs\<close> of \<^verbatim>\<open>crates/query\<close>: schemas with typed fields, binding of a
  parsed filter to them, positions, projections and pages. \<^verbatim>\<open>uuid::Uuid::parse_str\<close> and \<^verbatim>\<open>to_string\<close> are the
  record \<open>uuid_lib\<close>; serialization of a typed row is the parameter \<open>to_value\<close>.
\<close>

record uuid_lib =
  uuid_parse :: "string \<Rightarrow> uuid option"
  uuid_str :: "uuid \<Rightarrow> string"

datatype field_kind = KText | KUuid | KInteger | KBoolean | KEnum "string list" | KEnumSet "string list"
  | KUuidSet | KObject

record field =
  f_name :: string
  f_kind :: field_kind
  f_filter :: bool
  f_sort :: bool
  f_output :: bool

definition field_scalar :: "string \<Rightarrow> field_kind \<Rightarrow> field" where
  "field_scalar name kind = \<lparr>f_name = name, f_kind = kind, f_filter = True, f_sort = True, f_output = True\<rparr>"

definition field_output :: "string \<Rightarrow> field" where
  "field_output name = \<lparr>f_name = name, f_kind = KObject, f_filter = False, f_sort = False, f_output = True\<rparr>"

definition field_filter_only :: "string \<Rightarrow> field_kind \<Rightarrow> field" where
  "field_filter_only name kind = \<lparr>f_name = name, f_kind = kind, f_filter = True, f_sort = False, f_output = False\<rparr>"

record schema =
  s_id :: string
  s_fields :: "field list"
  s_keys :: "string list"
  s_default_limit :: nat
  s_max_limit :: nat

definition schema_field :: "schema \<Rightarrow> string \<Rightarrow> field query_result" where
  "schema_field schema name = ok_or QInvalid (find (\<lambda>f. f_name f = name) (s_fields schema))"

section \<open>Values\<close>

fun as_str :: "json \<Rightarrow> string option" where
  "as_str (JString s) = Some s"
| "as_str _ = None"

fun as_i64 :: "json \<Rightarrow> int option" where
  "as_i64 (JNumber (JInt n)) = checked_i64 n"
| "as_i64 _ = None"

fun json_get :: "json \<Rightarrow> string \<Rightarrow> json option" where
  "json_get (JObject kvs) name = map_of kvs name"
| "json_get _ name = None"

definition valid :: "uuid_lib \<Rightarrow> field_kind \<Rightarrow> json \<Rightarrow> bool" where
  "valid lib kind value = (case kind of
      KText \<Rightarrow> (case as_str value of Some s \<Rightarrow> length s \<le> 4096 \<and> \<not> has_control s | None \<Rightarrow> False)
    | KUuid \<Rightarrow> (case as_str value of Some s \<Rightarrow>
        (case uuid_parse lib s of Some v \<Rightarrow> \<not> uuid_is_nil v \<and> uuid_str lib v = s | None \<Rightarrow> False) | None \<Rightarrow> False)
    | KUuidSet \<Rightarrow> (case as_str value of Some s \<Rightarrow>
        (case uuid_parse lib s of Some v \<Rightarrow> \<not> uuid_is_nil v \<and> uuid_str lib v = s | None \<Rightarrow> False) | None \<Rightarrow> False)
    | KInteger \<Rightarrow> as_i64 value \<noteq> None
    | KBoolean \<Rightarrow> (case value of JBool _ \<Rightarrow> True | _ \<Rightarrow> False)
    | KEnum values \<Rightarrow> (case as_str value of Some s \<Rightarrow> s \<in> set values | None \<Rightarrow> False)
    | KEnumSet values \<Rightarrow> (case as_str value of Some s \<Rightarrow> s \<in> set values | None \<Rightarrow> False)
    | KObject \<Rightarrow> False)"

definition scalar :: "uuid_lib \<Rightarrow> field_kind \<Rightarrow> string \<Rightarrow> json query_result" where
  "scalar lib kind input =
    bind_res (case kind of
        KInteger \<Rightarrow> bind_res (ok_or QInvalid (parse_i64 input)) (\<lambda>n. Inr (JNumber (JInt n)))
      | KBoolean \<Rightarrow>
          (if input = ''true'' then Inr (JBool True) else if input = ''false'' then Inr (JBool False)
           else Inl (Fail QInvalid))
      | KUuid \<Rightarrow> bind_res (ok_or QInvalid (uuid_parse lib input)) (\<lambda>u. Inr (JString (uuid_str lib u)))
      | KUuidSet \<Rightarrow> bind_res (ok_or QInvalid (uuid_parse lib input)) (\<lambda>u. Inr (JString (uuid_str lib u)))
      | _ \<Rightarrow> Inr (JString input)) (\<lambda>value.
    if valid lib kind value then Inr value else Inl (Fail QInvalid))"

section \<open>Binding a filter\<close>

definition directory_operators :: "query_operator set" where
  "directory_operators = {QEq, QNe, QLt, QLe, QGt, QGe, QIn, QOut, QIcontains}"

definition unordered_kind :: "field_kind \<Rightarrow> bool" where
  "unordered_kind kind \<longleftrightarrow> (case kind of KBoolean \<Rightarrow> True | KEnum _ \<Rightarrow> True | KEnumSet _ \<Rightarrow> True | KUuidSet \<Rightarrow> True | _ \<Rightarrow> False)"

definition comparison_ok :: "field \<Rightarrow> query_operator \<Rightarrow> bool" where
  "comparison_ok spec x \<longleftrightarrow> \<not> (x \<notin> directory_operators \<or> \<not> f_filter spec \<or> f_kind spec = KObject
     \<or> (operator_range x \<and> unordered_kind (f_kind spec)) \<or> (x = QIcontains \<and> f_kind spec \<noteq> KText))"

fun bind_filter :: "uuid_lib \<Rightarrow> schema \<Rightarrow> (string, string) expression \<Rightarrow> (string, json) expression query_result" where
  "bind_filter lib schema (Compare name x values) =
    bind_res (schema_field schema name) (\<lambda>spec.
    if \<not> comparison_ok spec x then Inl (Fail QInvalid)
    else bind_res (map_res (scalar lib (f_kind spec)) values) (\<lambda>vs. Inr (Compare name x vs)))"
| "bind_filter lib schema (QAnd es) = bind_res (map_res (bind_filter lib schema) es) (\<lambda>v. Inr (QAnd v))"
| "bind_filter lib schema (QOr es) = bind_res (map_res (bind_filter lib schema) es) (\<lambda>v. Inr (QOr v))"

section \<open>Queries\<close>

text \<open>A schema is static; \<^verbatim>\<open>require_schema\<close>, which compares addresses, is left to the caller's type.\<close>

record 'c query =
  q_schema :: schema
  q_filter :: "(string, json) expression option"
  q_sort :: "string sort list"
  q_fields :: "string list"
  q_limit :: nat
  q_cursor :: "'c option"

definition check_sort :: "schema \<Rightarrow> string sort \<Rightarrow> string sort list \<Rightarrow> string sort list query_result" where
  "check_sort schema s seen =
    bind_res (schema_field schema (sort_field s)) (\<lambda>f.
    if \<not> f_sort f \<or> list_ex (\<lambda>v. sort_field v = sort_field s) seen then Inl (Fail QInvalid) else Inr (seen @ [s]))"

definition add_key :: "schema \<Rightarrow> string \<Rightarrow> string sort list \<Rightarrow> string sort list query_result" where
  "add_key schema key order =
    bind_res (schema_field schema key) (\<lambda>f.
    if \<not> f_sort f then Inl (Fail QInvalid)
    else if \<not> list_ex (\<lambda>s. sort_field s = key) order then Inr (order @ [\<lparr>sort_field = key, descending = False\<rparr>])
    else Inr order)"

definition check_output :: "schema \<Rightarrow> string \<Rightarrow> unit \<Rightarrow> unit query_result" where
  "check_output schema name u =
    bind_res (schema_field schema name) (\<lambda>f. if \<not> f_output f then Inl (Fail QInvalid) else Inr ())"

definition query_new :: "uuid_lib \<Rightarrow> schema \<Rightarrow> 'c parameters \<Rightarrow> 'c query query_result" where
  "query_new lib schema p =
    (if s_keys schema = [] \<or> s_default_limit schema = 0 \<or> s_default_limit schema > s_max_limit schema
     then Inl (Fail QInvalid)
     else bind_res (transpose (\<lambda>s. bind_res (parse_filter s) (bind_filter lib schema)) (p_filter p)) (\<lambda>filter.
       bind_res (fold_res (check_sort schema) (p_sort p) []) (\<lambda>sort0.
       bind_res (fold_res (add_key schema) (s_keys schema) sort0) (\<lambda>sort1.
       let fields = (case p_fields p of Some ns \<Rightarrow> ns | None \<Rightarrow> map f_name (List.filter f_output (s_fields schema))) in
       bind_res (fold_res (check_output schema) fields ()) (\<lambda>_.
       let limit = (case p_limit p of Some n \<Rightarrow> n | None \<Rightarrow> s_default_limit schema) in
       if \<not> (1 \<le> limit \<and> limit \<le> s_max_limit schema) then Inl (Fail QInvalid)
       else Inr \<lparr>q_schema = schema, q_filter = filter, q_sort = sort1, q_fields = List.sort fields, q_limit = limit,
         q_cursor = p_cursor p\<rparr>)))))"

definition schema_parse :: "uuid_lib \<Rightarrow> (string \<Rightarrow> 'c option) \<Rightarrow> schema \<Rightarrow> string \<Rightarrow> 'c query query_result" where
  "schema_parse lib parse_cursor schema raw = bind_res (parse_parameters parse_cursor raw) (query_new lib schema)"

definition schema_statistics :: "uuid_lib \<Rightarrow> (string \<Rightarrow> 'c option) \<Rightarrow> schema \<Rightarrow> string \<Rightarrow> 'c query query_result" where
  "schema_statistics lib parse_cursor schema raw =
    bind_res (parse_parameters parse_cursor raw) (\<lambda>p.
    if p_cursor p \<noteq> None \<or> p_limit p \<noteq> None \<or> p_fields p \<noteq> None \<or> p_sort p \<noteq> [] then Inl (Fail QInvalid)
    else query_new lib schema p)"

definition selects :: "'c query \<Rightarrow> string \<Rightarrow> bool" where
  "selects q name \<longleftrightarrow> name \<in> set (q_fields q)"

fun walk :: "(string, 'v) expression \<Rightarrow> string \<Rightarrow> bool" where
  "walk (Compare field x vs) name = (field = name)"
| "walk (QAnd es) name = list_ex (\<lambda>e. walk e name) es"
| "walk (QOr es) name = list_ex (\<lambda>e. walk e name) es"

definition mentions :: "'c query \<Rightarrow> string \<Rightarrow> bool" where
  "mentions q name = (case q_filter q of None \<Rightarrow> False | Some e \<Rightarrow> walk e name)"

definition default_filter :: "uuid_lib \<Rightarrow> 'c query \<Rightarrow> string \<Rightarrow> string \<Rightarrow> 'c query query_result" where
  "default_filter lib q name value =
    (if \<not> mentions q name
     then bind_res (bind_filter lib (q_schema q) (Compare name QEq [value])) (\<lambda>e.
       Inr (q\<lparr>q_filter := Some (case q_filter q of Some f \<Rightarrow> QAnd [f, e] | None \<Rightarrow> e)\<rparr>))
     else Inr q)"

text \<open>The fingerprint of the effective query: \<open>digest\<close> stands for the SHA-256 of its JSON.\<close>

definition binding :: "(string \<times> 'a \<times> (string, json) expression option \<times> string sort list \<times> string list \<Rightarrow> string option) \<Rightarrow>
    (string \<Rightarrow> string) \<Rightarrow> 'c query \<Rightarrow> 'a \<Rightarrow> string query_result" where
  "binding to_json sha256_hex q authority =
    fingerprint to_json sha256_hex (s_id (q_schema q), authority, q_filter q, q_sort q, q_fields q)"

section \<open>Positions\<close>

type_synonym position = "json list"

definition check_component :: "uuid_lib \<Rightarrow> schema \<Rightarrow> string sort \<times> json \<Rightarrow> unit \<Rightarrow> unit query_result" where
  "check_component lib schema sv u = (case sv of (s, v) \<Rightarrow>
     if v \<noteq> JNull then bind_res (schema_field schema (sort_field s)) (\<lambda>f.
       if \<not> valid lib (f_kind f) v then Inl (Fail QCursorInvalidated) else Inr ())
     else Inr ())"

definition validate_position :: "uuid_lib \<Rightarrow> 'c query \<Rightarrow> position \<Rightarrow> unit query_result" where
  "validate_position lib q position =
    (if length position \<noteq> length (q_sort q) then Inl (Fail QCursorInvalidated)
     else fold_res (check_component lib (q_schema q)) (zip (q_sort q) position) ())"

definition after :: "uuid_lib \<Rightarrow> (position, 'c) cursor_lib \<Rightarrow> 'c query \<Rightarrow> string \<Rightarrow> position option query_result" where
  "after lib codec q bound =
    transpose (\<lambda>c. bind_res (cursor_decode codec c bound) (\<lambda>position.
      bind_res (validate_position lib q position) (\<lambda>_. Inr position))) (q_cursor q)"

definition query_position :: "uuid_lib \<Rightarrow> 'c query \<Rightarrow> json \<Rightarrow> position query_result" where
  "query_position lib q row =
    bind_res (map_res (\<lambda>s. ok_or QInvalid (json_get row (sort_field s))) (q_sort q)) (\<lambda>position.
    bind_res (validate_position lib q position) (\<lambda>_. Inr position))"

section \<open>Pages\<close>

record 'r page =
  pg_items :: "'r list"
  pg_next_cursor :: "string option"

definition project_field :: "json \<Rightarrow> string \<Rightarrow> (string, json) btree_map \<Rightarrow> (string, json) btree_map query_result" where
  "project_field row name result = bind_res (ok_or QInvalid (json_get row name)) (\<lambda>v. Inr (bm_insert name v result))"

definition project :: "'c query \<Rightarrow> json \<Rightarrow> json query_result" where
  "project q row = bind_res (fold_res (project_field row) (q_fields q) []) (\<lambda>result. Inr (JObject result))"

definition select :: "('r \<Rightarrow> json option) \<Rightarrow> 'r \<Rightarrow> string list \<Rightarrow> json query_result" where
  "select to_value row ns =
    bind_res (ok_or QInvalid (to_value row)) (\<lambda>row.
    bind_res (ok_or QInvalid (case row of JObject kvs \<Rightarrow> Some kvs | _ \<Rightarrow> None)) (\<lambda>object.
    bind_res (map_res (\<lambda>name. bind_res (ok_or QInvalid (map_of object name)) (\<lambda>v. Inr (name, v))) ns) (\<lambda>kvs.
    Inr (JObject (bm_of_list kvs)))))"

definition project_typed :: "('r \<Rightarrow> json option) \<Rightarrow> 'c query \<Rightarrow> 'r \<Rightarrow> json query_result" where
  "project_typed to_value q row = select to_value row (q_fields q)"

definition unprojected_page :: "uuid_lib \<Rightarrow> (position, 'c) cursor_lib \<Rightarrow> 'c query \<Rightarrow> json list \<Rightarrow> string \<Rightarrow> json page query_result" where
  "unprojected_page lib codec q rows bound =
    (let more = length rows > q_limit q; rows = take (q_limit q) rows in
     bind_res (if more then transpose (\<lambda>r. bind_res (query_position lib q r) (\<lambda>p.
                 bind_res (cursor_encode codec bound p) (\<lambda>c. Inr (cursor_str codec c))))
                 (if rows = [] then None else Some (last rows))
               else Inr None) (\<lambda>next_cursor.
     Inr \<lparr>pg_items = rows, pg_next_cursor = next_cursor\<rparr>))"

definition query_page :: "uuid_lib \<Rightarrow> (position, 'c) cursor_lib \<Rightarrow> 'c query \<Rightarrow> json list \<Rightarrow> string \<Rightarrow> json page query_result" where
  "query_page lib codec q rows bound =
    bind_res (unprojected_page lib codec q rows bound) (\<lambda>page.
    bind_res (map_res (project q) (pg_items page)) (\<lambda>items.
    Inr \<lparr>pg_items = items, pg_next_cursor = pg_next_cursor page\<rparr>))"

definition page_typed :: "('r \<Rightarrow> json option) \<Rightarrow> uuid_lib \<Rightarrow> (position, 'c) cursor_lib \<Rightarrow> 'c query \<Rightarrow> 'r list \<Rightarrow> string \<Rightarrow>
    json page query_result" where
  "page_typed to_value lib codec q rows bound =
    bind_res (map_res (\<lambda>r. ok_or QInvalid (to_value r)) rows) (\<lambda>rows. query_page lib codec q rows bound)"

end
