(* ===== verification/Query_Directory_Properties.thy ===== *)
theory Query_Directory_Properties
  imports Query_Directory Query_Parser_Properties Query_Parameters_Properties
begin

text \<open>
  Checked queries are well typed: what \<open>query_wf\<close> says of a query holds for every query the directory
  constructs. Continuations return to the row they were made from.
\<close>

section \<open>Well-formed queries\<close>

fun bound_ok :: "uuid_lib \<Rightarrow> schema \<Rightarrow> (string, json) expression \<Rightarrow> bool" where
  "bound_ok lib schema (Compare name x vs) \<longleftrightarrow>
     (case schema_field schema name of
        Inr spec \<Rightarrow> comparison_ok spec x \<and> list_all (valid lib (f_kind spec)) vs \<and> vs \<noteq> []
          \<and> (\<not> operator_set x \<longrightarrow> length vs = 1)
      | Inl _ \<Rightarrow> False)"
| "bound_ok lib schema (QAnd es) \<longleftrightarrow> 2 \<le> length es \<and> (\<forall>e \<in> set es. bound_ok lib schema e)"
| "bound_ok lib schema (QOr es) \<longleftrightarrow> 2 \<le> length es \<and> (\<forall>e \<in> set es. bound_ok lib schema e)"

definition field_has :: "(field \<Rightarrow> bool) \<Rightarrow> schema \<Rightarrow> string \<Rightarrow> bool" where
  "field_has P schema name \<longleftrightarrow> (case schema_field schema name of Inr f \<Rightarrow> P f | Inl _ \<Rightarrow> False)"

definition query_wf :: "uuid_lib \<Rightarrow> 'c query \<Rightarrow> bool" where
  "query_wf lib q \<longleftrightarrow>
     (case q_filter q of Some e \<Rightarrow> bound_ok lib (q_schema q) e | None \<Rightarrow> True)
     \<and> distinct (map sort_field (q_sort q)) \<and> list_all (\<lambda>s. field_has f_sort (q_schema q) (sort_field s)) (q_sort q)
     \<and> set (s_keys (q_schema q)) \<subseteq> sort_field ` set (q_sort q) \<and> s_keys (q_schema q) \<noteq> []
     \<and> sorted (q_fields q) \<and> list_all (field_has f_output (q_schema q)) (q_fields q)
     \<and> 1 \<le> q_limit q \<and> q_limit q \<le> s_max_limit (q_schema q)"

lemma query_wf_cursor [simp]: "query_wf lib (q\<lparr>q_cursor := c\<rparr>) = query_wf lib q"
  by (simp add: query_wf_def split: option.splits)

lemma schema_field_name: "schema_field schema name = Inr f \<Longrightarrow> f_name f = name \<and> f \<in> set (s_fields schema)"
  by (auto simp: schema_field_def find_Some_iff)

lemma scalar_valid: "scalar lib kind s = Inr v \<Longrightarrow> valid lib kind v"
  by (auto simp: scalar_def split: if_splits)

lemma bind_filter_ok:
  "filter_shape e \<Longrightarrow> bind_filter lib schema e = Inr e' \<Longrightarrow> bound_ok lib schema e'"
proof (induction e arbitrary: e')
  case (Compare name x vals)
  from Compare.prems(2) obtain spec vs where s: "schema_field schema name = Inr spec" "comparison_ok spec x"
    "map_res (scalar lib (f_kind spec)) vals = Inr vs" "e' = Compare name x vs"
    by (auto split: if_splits)
  have "list_all (valid lib (f_kind spec)) vs" "length vs = length vals"
    using map_res_all [OF s(3), of "valid lib (f_kind spec)"] scalar_valid by auto
  then show ?case using s Compare.prems(1) by (auto split: if_splits)
next
  case (QAnd es)
  then obtain vs where "map_res (bind_filter lib schema) es = Inr vs" "e' = QAnd vs" by auto
  with QAnd map_res_all [OF this(1), of "bound_ok lib schema"] show ?case by (auto simp: list_all_iff)
next
  case (QOr es)
  then obtain vs where "map_res (bind_filter lib schema) es = Inr vs" "e' = QOr vs" by auto
  with QOr map_res_all [OF this(1), of "bound_ok lib schema"] show ?case by (auto simp: list_all_iff)
qed

lemma sort_field_mem: "list_ex (\<lambda>v. sort_field v = n) ss \<longleftrightarrow> n \<in> sort_field ` set ss"
  by (auto simp: list_ex_iff image_iff intro: bexI)

lemma check_sort_Inr: "check_sort schema s seen = Inr r \<longleftrightarrow>
    field_has f_sort schema (sort_field s) \<and> sort_field s \<notin> sort_field ` set seen \<and> r = seen @ [s]"
  by (cases "schema_field schema (sort_field s)") (auto simp: check_sort_def field_has_def sort_field_mem)

lemma add_key_Inr: "add_key schema k order = Inr r \<longleftrightarrow> field_has f_sort schema k \<and>
    r = (if k \<in> sort_field ` set order then order else order @ [\<lparr>sort_field = k, descending = False\<rparr>])"
  by (cases "schema_field schema k") (auto simp: add_key_def field_has_def sort_field_mem)

lemma check_sort_fold:
  assumes "fold_res (check_sort schema) ss seen = Inr r" "distinct (map sort_field seen)"
    "list_all (\<lambda>s. field_has f_sort schema (sort_field s)) seen"
  shows "r = seen @ ss \<and> distinct (map sort_field r) \<and> list_all (\<lambda>s. field_has f_sort schema (sort_field s)) r"
  using assms
proof (induction ss arbitrary: seen)
  case Nil
  then show ?case by simp
next
  case (Cons s ss)
  from Cons.prems(1) have s: "fold_res (check_sort schema) ss (seen @ [s]) = Inr r" "field_has f_sort schema (sort_field s)"
    "sort_field s \<notin> sort_field ` set seen"
    by (simp_all add: check_sort_Inr)
  have "r = (seen @ [s]) @ ss \<and> distinct (map sort_field r) \<and> list_all (\<lambda>s. field_has f_sort schema (sort_field s)) r"
    by (rule Cons.IH [OF s(1)]) (use s Cons.prems in simp_all)
  then show ?case by (metis append.assoc append_Cons append_Nil)
qed

lemma add_key_fold:
  assumes "fold_res (add_key schema) ks order = Inr r" "distinct (map sort_field order)"
    "list_all (\<lambda>s. field_has f_sort schema (sort_field s)) order"
  shows "prefix order r \<and> distinct (map sort_field r) \<and> list_all (\<lambda>s. field_has f_sort schema (sort_field s)) r
    \<and> sort_field ` set r = set ks \<union> sort_field ` set order"
  using assms
proof (induction ks arbitrary: order)
  case Nil
  then show ?case by simp
next
  case (Cons k ks)
  let ?o = "if k \<in> sort_field ` set order then order else order @ [\<lparr>sort_field = k, descending = False\<rparr>]"
  from Cons.prems(1) have o: "fold_res (add_key schema) ks ?o = Inr r" "field_has f_sort schema k"
    by (simp_all add: add_key_Inr)
  from Cons.IH [OF o(1)] Cons.prems o(2) have "prefix ?o r" "distinct (map sort_field r)"
    "list_all (\<lambda>s. field_has f_sort schema (sort_field s)) r" "sort_field ` set r = set ks \<union> sort_field ` set ?o"
    by auto
  then show ?case by (auto split: if_splits dest: append_prefixD)
qed

lemma check_output_fold: "fold_res (check_output schema) ns () = Inr u \<Longrightarrow> list_all (field_has f_output schema) ns"
  by (induction ns) (auto simp: check_output_def field_has_def split: if_splits)

lemma query_new_Inr:
  assumes "query_new lib schema p = Inr q" "\<And>f. p_filter p = Some f \<Longrightarrow> str_valid f"
  shows "query_wf lib q \<and> q_schema q = schema \<and> prefix (p_sort p) (q_sort q) \<and> q_cursor q = p_cursor p"
proof -
  let ?fields = "case p_fields p of Some ns \<Rightarrow> ns | None \<Rightarrow> map f_name (filter f_output (s_fields schema))"
  from assms(1) obtain filter sort0 where q: "s_keys schema \<noteq> []"
    "transpose (\<lambda>s. bind_res (parse_filter s) (bind_filter lib schema)) (p_filter p) = Inr filter"
    "fold_res (check_sort schema) (p_sort p) [] = Inr sort0"
    "fold_res (add_key schema) (s_keys schema) sort0 = Inr (q_sort q)"
    "fold_res (check_output schema) ?fields () = Inr ()"
    "1 \<le> q_limit q" "q_limit q \<le> s_max_limit schema"
    "q_schema q = schema" "q_filter q = filter" "q_fields q = sort ?fields" "q_cursor q = p_cursor p"
    by (auto simp: query_new_def Let_def split: if_splits)
  have "case filter of Some e \<Rightarrow> bound_ok lib schema e | None \<Rightarrow> True"
    using q(2) assms(2)
    by (auto simp: transpose_Inr filter_ok_def split: option.splits dest!: parse_filter_ok intro: bind_filter_ok)
  moreover have s0: "sort0 = p_sort p" "distinct (map sort_field sort0)"
    "list_all (\<lambda>s. field_has f_sort schema (sort_field s)) sort0"
    using check_sort_fold [OF q(3)] by auto
  moreover note add_key_fold [OF q(4) s0(2,3)]
  moreover have "list_all (field_has f_output schema) (sort ?fields)"
    using check_output_fold [OF q(5)] by (simp add: list_all_iff)
  ultimately show ?thesis using q by (auto simp: query_wf_def split: option.splits)
qed

lemma parse_parameters_filter:
  assumes "parse_parameters pc raw = Inr p" "p_filter p = Some f"
  shows "str_valid f"
proof -
  from assms obtain m where "read_pairs [] raw = Inr m" "bm_get m ''filter'' = Some f"
    by (auto simp: parse_parameters_def parse_with_context_def Let_def split: if_splits prod.splits)
  with read_pairs_values show ?thesis by (fastforce dest: map_of_SomeD)
qed

lemma default_filter_wf:
  assumes "query_wf lib q" "default_filter lib q name value = Inr q'" "filter_value_ok value" "field_ok name"
  shows "query_wf lib q' \<and> mentions q' name"
proof (cases "mentions q name")
  case True
  then show ?thesis using assms by (simp add: default_filter_def)
next
  case False
  with assms obtain e where e: "bind_filter lib (q_schema q) (Compare name QEq [value]) = Inr e"
    "q' = q\<lparr>q_filter := Some (case q_filter q of Some f \<Rightarrow> QAnd [f, e] | None \<Rightarrow> e)\<rparr>"
    by (auto simp: default_filter_def simp del: bind_filter.simps)
  have "bound_ok lib (q_schema q) e"
    using bind_filter_ok [OF _ e(1)] assms(3,4) by (simp add: operator_set_def)
  moreover have "walk e name" using e(1) by (auto split: if_splits)
  ultimately show ?thesis using assms(1) e(2) by (auto simp: query_wf_def mentions_def split: option.splits)
qed

section \<open>Positions\<close>

lemma validate_position_Inr:
  assumes "validate_position lib q p = Inr u"
  shows "length p = length (q_sort q) \<and> (\<forall>i < length p. p ! i = JNull \<or>
    (\<exists>f. schema_field (q_schema q) (sort_field (q_sort q ! i)) = Inr f \<and> valid lib (f_kind f) (p ! i)))"
proof -
  have len: "length p = length (q_sort q)" and
    fold: "fold_res (check_component lib (q_schema q)) (zip (q_sort q) p) () = Inr u"
    using assms by (auto simp: validate_position_def split: if_splits)
  have "p ! i = JNull \<or> (\<exists>f. schema_field (q_schema q) (sort_field (q_sort q ! i)) = Inr f \<and> valid lib (f_kind f) (p ! i))"
    if i: "i < length p" for i
  proof -
    have "(q_sort q ! i, p ! i) \<in> set (zip (q_sort q) p)" using i len by (auto simp: in_set_zip)
    from fold_res_each [OF fold this] obtain v w
      where "check_component lib (q_schema q) (q_sort q ! i, p ! i) v = Inr w" .
    then show ?thesis by (auto simp: check_component_def split: if_splits)
  qed
  with len show ?thesis by simp
qed

lemma validate_position_cursor [simp]: "validate_position lib (q\<lparr>q_cursor := c\<rparr>) = validate_position lib q"
  by (intro ext) (simp add: validate_position_def)

lemma query_position_Inr:
  "query_position lib q row = Inr p \<Longrightarrow> validate_position lib q p = Inr () \<and>
    list_all2 (\<lambda>s v. json_get row (sort_field s) = Some v) (q_sort q) p"
  by (auto simp: query_position_def map_res_Inr)

text \<open>The token of a page leads back to the position of its last row.\<close>

lemma unprojected_page_next:
  assumes "cursor_lib_ok codec" "unprojected_page lib codec q rows bound = Inr page" "pg_next_cursor page = Some token"
    "cursor_parse codec token = Some c"
  obtains p where "query_position lib q (last (pg_items page)) = Inr p" "pg_items page \<noteq> []"
    "after lib codec (q\<lparr>q_cursor := Some c\<rparr>) bound = Inr (Some p)"
proof -
  from assms(2,3) obtain p c' where p: "query_position lib q (last (pg_items page)) = Inr p" "pg_items page \<noteq> []"
    "cursor_encode codec bound p = Inr c'" "token = cursor_str codec c'"
    by (auto simp: unprojected_page_def Let_def transpose_Inr split: if_splits option.splits)
  have "cursor_str codec c = cursor_str codec c'" using cursor_libD(5) [OF assms(1,4)] p(4) by simp
  then have "cursor_decode codec c bound = Inr p"
    using cursor_roundtrip [OF assms(1) p(3)] by (simp add: cursor_decode_def)
  then have "after lib codec (q\<lparr>q_cursor := Some c\<rparr>) bound = Inr (Some p)"
    using query_position_Inr [OF p(1)] by (simp add: after_def transpose_def)
  with p that show thesis by blast
qed

end
