(* ===== verification/Query_Sql.thy ===== *)
theory Query_Sql
  imports Query_Directory Three_Valued
begin

text \<open>
  The PostgreSQL adapter \<^verbatim>\<open>crates/query-postgres\<close>: the text of the predicate, of the continuation and of
  the order that a directory query appends to a statement. The buffer of \<^verbatim>\<open>QueryBuilder\<close> is the
  sequence of its characters and bound values. The trusted column expressions are the parameter
  \<open>columns\<close>.
\<close>

datatype sql_value = SText string | SBool bool | SInt int

type_synonym sql = "(char + sql_value) list"

definition push :: "string \<Rightarrow> sql \<Rightarrow> sql" where
  "push s b = b @ map Inl s"

definition push_bind :: "sql_value \<Rightarrow> sql \<Rightarrow> sql" where
  "push_bind v b = b @ [Inr v]"

fun sql_of_json :: "json \<Rightarrow> sql_value option" where
  "sql_of_json (JString s) = Some (SText s)"
| "sql_of_json (JBool b) = Some (SBool b)"
| "sql_of_json (JNumber n) = map_option SInt (as_i64 (JNumber n))"
| "sql_of_json _ = None"

definition sql_value_push :: "json \<Rightarrow> sql \<Rightarrow> sql query_result" where
  "sql_value_push v b = bind_res (ok_or QInvalid (sql_of_json v)) (\<lambda>x. Inr (push_bind x b))"

section \<open>Filters\<close>

definition set_kind :: "field_kind \<Rightarrow> bool" where
  "set_kind k \<longleftrightarrow> (case k of KEnumSet _ \<Rightarrow> True | KUuidSet \<Rightarrow> True | _ \<Rightarrow> False)"

definition operator_text :: "query_operator \<Rightarrow> string option" where
  "operator_text x = map_of [(QEq, '' = ''), (QNe, '' <> ''), (QLt, '' < ''), (QLe, '' <= ''), (QGt, '' > ''),
     (QGe, '' >= ''), (QIn, '' IN ''), (QOut, '' NOT IN '')] x"

definition push_member :: "string \<Rightarrow> nat \<times> json \<Rightarrow> sql \<Rightarrow> sql query_result" where
  "push_member column iv b = (case iv of (i, v) \<Rightarrow>
     bind_res (sql_value_push v (if i > 0 then push '' OR '' b else b)) (\<lambda>b.
     Inr (push '')'' (push column (push '' = ANY('' b)))))"

definition push_item :: "nat \<times> json \<Rightarrow> sql \<Rightarrow> sql query_result" where
  "push_item iv b = (case iv of (i, v) \<Rightarrow> sql_value_push v (if i > 0 then push '','' b else b))"

text \<open>One comparison, between the parentheses. \<^verbatim>\<open>&values[0]\<close> panics on an empty list.\<close>

definition push_compare :: "schema \<Rightarrow> (string \<Rightarrow> string) \<Rightarrow> string \<Rightarrow> query_operator \<Rightarrow> json list \<Rightarrow> sql \<Rightarrow> sql query_result" where
  "push_compare schema columns name x values b =
    bind_res (schema_field schema name) (\<lambda>spec.
    if set_kind (f_kind spec) then
      bind_res (fold_res (push_member (columns name)) (List.enumerate 0 values)
        (push (if x \<in> {QNe, QOut} then ''NOT ('' else ''('') b)) (\<lambda>b.
      Inr (push '')'' b))
    else if x = QIcontains then
      bind_res (or_panic (case values of v # _ \<Rightarrow> Some v | [] \<Rightarrow> None)) (\<lambda>v.
      bind_res (sql_value_push v (push ''),lower('' (push (columns name) (push ''strpos(lower('' b)))) (\<lambda>b.
      Inr (push ''))>0'' b)))
    else bind_res (ok_or QInvalid (operator_text x)) (\<lambda>t.
      let b = push t (push (columns name) b); b = (if operator_set x then push ''('' b else b) in
      bind_res (fold_res push_item (List.enumerate 0 values) b) (\<lambda>b.
      Inr (if operator_set x then push '')'' b else b))))"

fun sql_expression :: "schema \<Rightarrow> (string \<Rightarrow> string) \<Rightarrow> (string \<Rightarrow> bool) \<Rightarrow> (string, json) expression \<Rightarrow> sql \<Rightarrow> sql query_result"
and sql_children :: "schema \<Rightarrow> (string \<Rightarrow> string) \<Rightarrow> (string \<Rightarrow> bool) \<Rightarrow> string \<Rightarrow> nat \<Rightarrow> (string, json) expression list \<Rightarrow> sql \<Rightarrow> sql query_result" where
  "sql_expression schema columns available (Compare name x values) b =
    (if \<not> available name then Inr (push ''TRUE'' b)
     else bind_res (push_compare schema columns name x values (push ''('' b)) (\<lambda>b. Inr (push '')'' b)))"
| "sql_expression schema columns available (QAnd es) b =
    bind_res (sql_children schema columns available '' AND '' 0 es (push ''('' b)) (\<lambda>b. Inr (push '')'' b))"
| "sql_expression schema columns available (QOr es) b =
    bind_res (sql_children schema columns available '' OR '' 0 es (push ''('' b)) (\<lambda>b. Inr (push '')'' b))"
| "sql_children schema columns available sep i [] b = Inr b"
| "sql_children schema columns available sep i (e # es) b =
    bind_res (sql_expression schema columns available e (if i > 0 then push sep b else b))
      (sql_children schema columns available sep (i + 1) es)"

definition sql_prefilter :: "'c query \<Rightarrow> (string \<Rightarrow> string) \<Rightarrow> (string \<Rightarrow> bool) \<Rightarrow> sql \<Rightarrow> sql query_result" where
  "sql_prefilter q columns available b = (case q_filter q of
      Some e \<Rightarrow> sql_expression (q_schema q) columns available e (push '' AND '' b)
    | None \<Rightarrow> Inr b)"

definition sql_filter :: "'c query \<Rightarrow> (string \<Rightarrow> string) \<Rightarrow> sql \<Rightarrow> sql query_result" where
  "sql_filter q columns b = sql_prefilter q columns (\<lambda>_. True) b"

section \<open>Continuation and order\<close>

definition index :: "'a list \<Rightarrow> nat \<Rightarrow> ('e, 'a) result" where
  "index xs i = or_panic (if i < length xs then Some (xs ! i) else None)"

definition seek_equal :: "(string \<Rightarrow> string) \<Rightarrow> position \<Rightarrow> nat \<times> string sort \<Rightarrow> sql \<Rightarrow> sql query_result" where
  "seek_equal columns p js b = (case js of (j, s) \<Rightarrow>
     bind_res (index p j) (\<lambda>v.
     let b = push (columns (sort_field s)) b in
     bind_res (if v = JNull then Inr (push '' IS NULL'' b) else sql_value_push v (push '' IS NOT DISTINCT FROM '' b)) (\<lambda>b.
     Inr (push '' AND '' b))))"

definition seek_branch :: "(string \<Rightarrow> string) \<Rightarrow> string sort list \<Rightarrow> position \<Rightarrow> nat \<times> string sort \<Rightarrow> sql \<Rightarrow> sql query_result" where
  "seek_branch columns order p is b = (case is of (i, s) \<Rightarrow>
     let b = push ''('' (if i > 0 then push '' OR '' b else b) in
     bind_res (fold_res (seek_equal columns p) (List.enumerate 0 (take i order)) b) (\<lambda>b.
     bind_res (index p i) (\<lambda>v.
     bind_res (if v = JNull then Inr (push ''FALSE'' b)
       else bind_res (sql_value_push v (push (if descending s then '' < '' else '' > '')
           (push (columns (sort_field s)) (push ''('' b)))) (\<lambda>b.
         Inr (push '' IS NULL)'' (push (columns (sort_field s)) (push '' OR '' b))))) (\<lambda>b.
     Inr (push '')'' b)))))"

definition order_item :: "(string \<Rightarrow> string) \<Rightarrow> nat \<times> string sort \<Rightarrow> sql \<Rightarrow> sql" where
  "order_item columns is b = (case is of (i, s) \<Rightarrow>
     push (if descending s then '' DESC NULLS LAST'' else '' ASC NULLS LAST'')
       (push (columns (sort_field s)) (if i > 0 then push '','' b else b)))"

definition sql_order :: "'c query \<Rightarrow> (string \<Rightarrow> string) \<Rightarrow> sql \<Rightarrow> sql" where
  "sql_order q columns b = fold (order_item columns) (List.enumerate 0 (q_sort q)) (push '' ORDER BY '' b)"

definition page_limit :: "uuid_lib \<Rightarrow> 'c query \<Rightarrow> position option \<Rightarrow> (string \<Rightarrow> string) \<Rightarrow> nat \<Rightarrow> sql \<Rightarrow> sql query_result" where
  "page_limit lib q pos columns limit b =
    (let maximum = s_max_limit (q_schema q) + 1 in
     if \<not> (1 \<le> limit \<and> limit \<le> maximum) then Inl (Fail QBudget)
     else bind_res (case pos of
         Some p \<Rightarrow> bind_res (validate_position lib q p) (\<lambda>_.
           bind_res (fold_res (seek_branch columns (q_sort q) p) (List.enumerate 0 (q_sort q)) (push '' AND ('' b)) (\<lambda>b.
           Inr (push '')'' b)))
       | None \<Rightarrow> Inr b) (\<lambda>b.
       Inr (push_bind (SInt (int limit)) (push '' LIMIT '' (sql_order q columns b)))))"

definition sql_page :: "uuid_lib \<Rightarrow> 'c query \<Rightarrow> position option \<Rightarrow> (string \<Rightarrow> string) \<Rightarrow> sql \<Rightarrow> sql query_result" where
  "sql_page lib q pos columns b = page_limit lib q pos columns (q_limit q + 1) b"

definition sql_append :: "uuid_lib \<Rightarrow> 'c query \<Rightarrow> position option \<Rightarrow> (string \<Rightarrow> string) \<Rightarrow> sql \<Rightarrow> sql query_result" where
  "sql_append lib q pos columns b = bind_res (sql_filter q columns b) (sql_page lib q pos columns)"

definition within_budget :: "nat \<Rightarrow> nat \<Rightarrow> nat \<Rightarrow> nat \<Rightarrow> bool" where
  "within_budget rows bytes max_rows max_bytes \<longleftrightarrow> rows \<le> max_rows \<and> bytes \<le> max_bytes"

section \<open>The fragment of SQL\<close>

text \<open>
  Search conditions of the shape the adapter writes, their concrete syntax (\<open>render\<close>) and their
  meaning in the three-valued logic of SQL. A column of a row is null, a value or an array. The
  order of values is the order of the database (it depends on the collation) and a parameter, as is
  the case-insensitive containment \<^verbatim>\<open>strpos(lower(a), lower(b)) > 0\<close>.
\<close>

datatype condition =
    CTrue
  | CFalse
  | CIsNull string
  | CNotDistinct string sql_value
  | CCompare string query_operator sql_value
  | CIn bool string "sql_value list"
  | CEqAny sql_value string
  | CStrpos string sql_value
  | CAll "condition list"
  | CAny "condition list"
  | CNot condition
  | CPar condition

definition text_sql :: "string \<Rightarrow> sql" where
  "text_sql s = map Inl s"

fun join_sql :: "string \<Rightarrow> sql list \<Rightarrow> sql" where
  "join_sql sep [] = []"
| "join_sql sep [x] = x"
| "join_sql sep (x # xs) = x @ text_sql sep @ join_sql sep xs"

fun render :: "condition \<Rightarrow> sql" where
  "render CTrue = text_sql ''TRUE''"
| "render CFalse = text_sql ''FALSE''"
| "render (CIsNull c) = text_sql c @ text_sql '' IS NULL''"
| "render (CNotDistinct c v) = text_sql c @ text_sql '' IS NOT DISTINCT FROM '' @ [Inr v]"
| "render (CCompare c x v) = text_sql c @ text_sql (case operator_text x of Some t \<Rightarrow> t | None \<Rightarrow> []) @ [Inr v]"
| "render (CIn neg c vs) = text_sql c @ text_sql (if neg then '' NOT IN '' else '' IN '') @ text_sql ''(''
     @ join_sql '','' (map (\<lambda>v. [Inr v]) vs) @ text_sql '')''"
| "render (CEqAny v c) = [Inr v] @ text_sql '' = ANY('' @ text_sql c @ text_sql '')''"
| "render (CStrpos c v) = text_sql ''strpos(lower('' @ text_sql c @ text_sql ''),lower('' @ [Inr v] @ text_sql ''))>0''"
| "render (CAll ps) = text_sql ''('' @ join_sql '' AND '' (map render ps) @ text_sql '')''"
| "render (CAny ps) = text_sql ''('' @ join_sql '' OR '' (map render ps) @ text_sql '')''"
| "render (CNot p) = text_sql ''NOT '' @ render p"
| "render (CPar p) = text_sql ''('' @ render p @ text_sql '')''"

datatype cell = Null | Cell sql_value | Cells "sql_value list"

text \<open>The order of the database and its case-insensitive containment.\<close>

record database =
  db_less :: "sql_value \<Rightarrow> sql_value \<Rightarrow> bool"
  db_icontains :: "sql_value \<Rightarrow> sql_value \<Rightarrow> bool"

definition db_ok :: "database \<Rightarrow> bool" where
  "db_ok db \<longleftrightarrow> (\<forall>a. \<not> db_less db a a) \<and> (\<forall>a b c. db_less db a b \<and> db_less db b c \<longrightarrow> db_less db a c)
     \<and> (\<forall>a b. db_less db a b \<or> a = b \<or> db_less db b a)"

interpretation sql3: three_valued "Some True" "Some False" "None :: bool option"
  by unfold_locales auto

definition compare_cell :: "database \<Rightarrow> query_operator \<Rightarrow> sql_value \<Rightarrow> sql_value \<Rightarrow> bool" where
  "compare_cell db x w v = (case x of QEq \<Rightarrow> w = v | QNe \<Rightarrow> w \<noteq> v | QLt \<Rightarrow> db_less db w v | QLe \<Rightarrow> db_less db w v \<or> w = v
     | QGt \<Rightarrow> db_less db v w | QGe \<Rightarrow> db_less db v w \<or> w = v | _ \<Rightarrow> False)"

definition on_cell :: "cell \<Rightarrow> (sql_value \<Rightarrow> bool) \<Rightarrow> bool option" where
  "on_cell c f = (case c of Cell w \<Rightarrow> Some (f w) | _ \<Rightarrow> None)"

fun eval :: "database \<Rightarrow> (string \<Rightarrow> cell) \<Rightarrow> condition \<Rightarrow> bool option" where
  "eval db row CTrue = Some True"
| "eval db row CFalse = Some False"
| "eval db row (CIsNull c) = Some (row c = Null)"
| "eval db row (CNotDistinct c v) = Some (row c = Cell v)"
| "eval db row (CCompare c x v) = on_cell (row c) (\<lambda>w. compare_cell db x w v)"
| "eval db row (CIn neg c vs) = on_cell (row c) (\<lambda>w. (w \<in> set vs) \<noteq> neg)"
| "eval db row (CEqAny v c) = (case row c of Cells ws \<Rightarrow> Some (v \<in> set ws) | _ \<Rightarrow> None)"
| "eval db row (CStrpos c v) = on_cell (row c) (\<lambda>w. db_icontains db w v)"
| "eval db row (CAll ps) = sql3.all3 (map (eval db row) ps)"
| "eval db row (CAny ps) = sql3.any3 (map (eval db row) ps)"
| "eval db row (CNot p) = sql3.neg3 (eval db row p)"
| "eval db row (CPar p) = eval db row p"

end
