(* ===== verification/Query_Sql_Properties.thy ===== *)
theory Query_Sql_Properties
  imports Query_Sql Query_Directory_Properties
begin

text \<open>
  What the appended text means. \<open>filter_condition\<close> and \<open>seek_condition\<close> are the search conditions of a
  query and of a continuation; the adapter writes exactly their text. Their meaning in SQL is
  the meaning of the filter and the strict order of the rows with nulls last.
\<close>

section \<open>Conditions\<close>

definition sql_values :: "json list \<Rightarrow> sql_value list" where
  "sql_values vs = map (\<lambda>v. the (sql_of_json v)) vs"

definition compare_condition :: "schema \<Rightarrow> (string \<Rightarrow> string) \<Rightarrow> string \<Rightarrow> query_operator \<Rightarrow> json list \<Rightarrow> condition" where
  "compare_condition schema columns name x vs =
    (let c = columns name; ws = sql_values vs in
     CPar (if field_has (\<lambda>f. set_kind (f_kind f)) schema name
       then (let m = CAny (map (\<lambda>w. CEqAny w c) ws) in if x \<in> {QNe, QOut} then CNot m else m)
       else if x = QIcontains then CStrpos c (hd ws)
       else if operator_set x then CIn (x = QOut) c ws
       else CCompare c x (hd ws)))"

fun filter_condition :: "schema \<Rightarrow> (string \<Rightarrow> string) \<Rightarrow> (string \<Rightarrow> bool) \<Rightarrow> (string, json) expression \<Rightarrow> condition" where
  "filter_condition schema columns available (Compare name x vs) =
    (if \<not> available name then CTrue else compare_condition schema columns name x vs)"
| "filter_condition schema columns available (QAnd es) = CAll (map (filter_condition schema columns available) es)"
| "filter_condition schema columns available (QOr es) = CAny (map (filter_condition schema columns available) es)"

definition equal_condition :: "string \<Rightarrow> json \<Rightarrow> condition" where
  "equal_condition c v = (if v = JNull then CIsNull c else CNotDistinct c (the (sql_of_json v)))"

definition beyond_condition :: "string \<Rightarrow> bool \<Rightarrow> json \<Rightarrow> condition" where
  "beyond_condition c desc v = (if v = JNull then CFalse
     else CAny [CCompare c (if desc then QLt else QGt) (the (sql_of_json v)), CIsNull c])"

definition branch_condition :: "(string \<Rightarrow> string) \<Rightarrow> string sort list \<Rightarrow> position \<Rightarrow> nat \<Rightarrow> condition" where
  "branch_condition columns order p i = CAll (map (\<lambda>j. equal_condition (columns (sort_field (order ! j))) (p ! j)) [0..<i]
     @ [beyond_condition (columns (sort_field (order ! i))) (descending (order ! i)) (p ! i)])"

definition seek_condition :: "(string \<Rightarrow> string) \<Rightarrow> string sort list \<Rightarrow> position \<Rightarrow> condition" where
  "seek_condition columns order p = CAny (map (branch_condition columns order p) [0..<length order])"

definition render_order :: "(string \<Rightarrow> string) \<Rightarrow> string sort list \<Rightarrow> sql" where
  "render_order columns order = text_sql '' ORDER BY '' @ join_sql '','' (map (\<lambda>s. text_sql (columns (sort_field s))
     @ text_sql (if descending s then '' DESC NULLS LAST'' else '' ASC NULLS LAST'')) order)"

section \<open>The text of a condition\<close>

lemma push_text: "push s b = b @ text_sql s"
  by (simp add: push_def text_sql_def)

lemma text_sql_append: "text_sql (s @ t) = text_sql s @ text_sql t"
  by (simp add: text_sql_def)

lemma join_sql_Cons: "join_sql sep (x # xs) = x @ (if xs \<noteq> [] then text_sql sep else []) @ join_sql sep xs"
  by (cases xs) simp_all

declare join_sql.simps(2,3) [simp del]

text \<open>A loop that writes a separator before every item but the first.\<close>

lemma fold_res_join:
  assumes "\<And>i x b. x \<in> set xs \<Longrightarrow> f (i, x) b = Inr ((if i > (0::nat) then push sep b else b) @ g x)"
  shows "fold_res f (List.enumerate n xs) b =
    Inr (b @ (if n > 0 \<and> xs \<noteq> [] then text_sql sep else []) @ join_sql sep (map g xs))"
  using assms
proof (induction xs arbitrary: n b)
  case Nil
  then show ?case by simp
next
  case (Cons x xs)
  then have "fold_res f (List.enumerate (Suc n) xs) b =
      Inr (b @ (if xs \<noteq> [] then text_sql sep else []) @ join_sql sep (map g xs))" for b by simp
  then show ?case using Cons.prems by (simp add: push_text join_sql_Cons)
qed

lemma valid_sql: "valid lib kind v \<Longrightarrow> \<exists>w. sql_of_json v = Some w"
  by (cases v rule: sql_of_json.cases)
    (auto simp: valid_def split: field_kind.splits option.splits json_number.splits)

lemma sql_value_push_valid: "valid lib kind v \<Longrightarrow> sql_value_push v b = Inr (b @ [Inr (the (sql_of_json v))])"
  by (auto simp: sql_value_push_def push_bind_def dest: valid_sql)

lemma operator_text_ok:
  "x \<in> directory_operators \<Longrightarrow> x \<noteq> QIcontains \<Longrightarrow> \<exists>t. operator_text x = Some t"
  by (auto simp: directory_operators_def operator_text_def)

lemma push_compare_render:
  assumes "bound_ok lib schema (Compare name x vs)"
  shows "push_compare schema columns name x vs (b @ text_sql ''('') =
    Inr (b @ text_sql ''('' @ render (case compare_condition schema columns name x vs of CPar p \<Rightarrow> p | p \<Rightarrow> p))"
proof -
  obtain spec where spec: "schema_field schema name = Inr spec" "comparison_ok spec x"
    "list_all (valid lib (f_kind spec)) vs" "vs \<noteq> []" "\<not> operator_set x \<Longrightarrow> length vs = 1"
    using assms by (cases "schema_field schema name") auto
  have sets: "field_has (\<lambda>f. set_kind (f_kind f)) schema name = set_kind (f_kind spec)"
    by (simp add: field_has_def spec)
  have all: "v \<in> set vs \<Longrightarrow> sql_value_push v b = Inr (b @ [Inr (the (sql_of_json v))])" for v b
    using spec(3) sql_value_push_valid [of lib "f_kind spec"] by (simp add: list_all_iff)
  have members: "fold_res (push_member c) (List.enumerate 0 vs) b =
      Inr (b @ join_sql '' OR '' (map (\<lambda>v. render (CEqAny (the (sql_of_json v)) c)) vs))" for c b
    using fold_res_join [of vs "push_member c" "'' OR ''" "\<lambda>v. render (CEqAny (the (sql_of_json v)) c)" 0 b]
    by (simp add: push_member_def all push_text)
  have items: "fold_res push_item (List.enumerate 0 vs) b = Inr (b @ join_sql '','' (map (\<lambda>v. [Inr (the (sql_of_json v))]) vs))" for b
    using fold_res_join [of vs push_item "'',''" "\<lambda>v. [Inr (the (sql_of_json v))]" 0 b]
    by (simp add: push_item_def all)
  obtain v r where vs: "vs = v # r" using spec(4) by (cases vs) auto
  consider "set_kind (f_kind spec)" | "\<not> set_kind (f_kind spec)" "x = QIcontains"
    | "\<not> set_kind (f_kind spec)" "x \<noteq> QIcontains" "operator_set x"
    | "\<not> set_kind (f_kind spec)" "x \<noteq> QIcontains" "\<not> operator_set x" by blast
  then show ?thesis
  proof cases
    case 1
    then show ?thesis
      by (simp add: push_compare_def spec(1) compare_condition_def sets Let_def members push_text sql_values_def comp_def text_sql_def)
  next
    case 2
    then show ?thesis
      using all [of v] by (simp add: push_compare_def spec(1) compare_condition_def sets Let_def push_text sql_values_def vs)
  next
    case 3
    then have "x = QIn \<or> x = QOut" using spec(2) by (auto simp: comparison_ok_def directory_operators_def operator_set_def)
    with 3 show ?thesis
      by (auto simp: push_compare_def spec(1) compare_condition_def sets Let_def push_text sql_values_def items comp_def
          operator_text_def)
  next
    case 4
    then obtain t where "operator_text x = Some t" using operator_text_ok spec(2) by (auto simp: comparison_ok_def)
    moreover have "r = []" using spec(5) 4 vs by simp
    ultimately show ?thesis using 4 items
      by (simp add: push_compare_def spec(1) compare_condition_def sets Let_def push_text sql_values_def vs join_sql_Cons)
  qed
qed

lemma sql_expression_render:
  "bound_ok lib schema e \<Longrightarrow>
    sql_expression schema columns available e b = Inr (b @ render (filter_condition schema columns available e))"
  "\<forall>e \<in> set es. bound_ok lib schema e \<Longrightarrow> sql_children schema columns available sep i es b =
    Inr (b @ (if i > 0 \<and> es \<noteq> [] then text_sql sep else [])
      @ join_sql sep (map (\<lambda>e. render (filter_condition schema columns available e)) es))"
proof (induction schema columns available e b and schema columns available sep i es b rule: sql_expression_sql_children.induct)
  case (1 schema columns available name x vals b)
  have "\<exists>p. compare_condition schema columns name x vals = CPar p" by (simp add: compare_condition_def Let_def)
  then show ?case using push_compare_render [OF "1.prems", of columns b] by (auto simp: push_text)
next
  case (2 schema columns available es b)
  then show ?case by (simp add: push_text comp_def)
next
  case (3 schema columns available es b)
  then show ?case by (simp add: push_text comp_def)
next
  case (4 schema columns available sep i b)
  then show ?case by simp
next
  case (5 schema columns available sep i e es b)
  then show ?case by (simp add: push_text join_sql_Cons)
qed

section \<open>The text of a continuation\<close>

definition position_sql :: "position \<Rightarrow> bool" where
  "position_sql p \<longleftrightarrow> (\<forall>v \<in> set p. v = JNull \<or> sql_of_json v \<noteq> None)"

lemma validate_position_sql: "validate_position lib q p = Inr u \<Longrightarrow> length p = length (q_sort q) \<and> position_sql p"
  unfolding position_sql_def using validate_position_Inr [of lib q p u] valid_sql [of lib]
  by (metis in_set_conv_nth option.distinct(1))

lemma position_sql_push:
  "position_sql p \<Longrightarrow> i < length p \<Longrightarrow> p ! i \<noteq> JNull \<Longrightarrow> sql_value_push (p ! i) b = Inr (b @ [Inr (the (sql_of_json (p ! i)))])"
  by (auto simp: position_sql_def sql_value_push_def push_bind_def)

lemma join_sql_snoc: "join_sql sep (xs @ [y]) = concat (map (\<lambda>x. x @ text_sql sep) xs) @ y"
  by (induction xs) (simp_all add: join_sql_Cons)

lemma seek_equal_render:
  assumes "position_sql p" "j < length p"
  shows "seek_equal columns p (j, s) b = Inr (b @ render (equal_condition (columns (sort_field s)) (p ! j)) @ text_sql '' AND '')"
  using assms by (simp add: seek_equal_def index_def Let_def equal_condition_def push_text position_sql_push)

lemma enumerate_take: "i \<le> length xs \<Longrightarrow> List.enumerate 0 (take i xs) = map (\<lambda>j. (j, xs ! j)) [0..<i]"
  by (simp add: list_eq_iff_nth_eq nth_enumerate_eq)

lemma seek_equal_fold:
  assumes "position_sql p" "\<forall>j \<in> set js. j < length p"
  shows "fold_res (seek_equal columns p) (map (\<lambda>j. (j, order ! j)) js) b =
    Inr (b @ concat (map (\<lambda>j. render (equal_condition (columns (sort_field (order ! j))) (p ! j)) @ text_sql '' AND '') js))"
  using assms(2) by (induction js arbitrary: b) (simp_all add: seek_equal_render [OF assms(1)])

lemma seek_branch_render:
  assumes "position_sql p" "length p = length order" "i < length order"
  shows "seek_branch columns order p (i, order ! i) b =
    Inr ((if i > 0 then push '' OR '' b else b) @ render (branch_condition columns order p i))"
proof -
  have i: "i < length p" "i \<le> length order" "\<forall>j \<in> set [0..<i]. j < length p" using assms by simp_all
  note eq = seek_equal_fold [OF assms(1) i(3)]
  show ?thesis
    using i(1) assms(1)
    by (simp add: seek_branch_def Let_def enumerate_take [OF i(2)] eq index_def branch_condition_def beyond_condition_def
        push_text position_sql_push comp_def join_sql_snoc operator_text_def join_sql_Cons text_sql_def)
qed

lemma seek_fold_render:
  assumes "position_sql p" "length p = length order" "n \<le> length order"
  shows "fold_res (seek_branch columns order p) (map (\<lambda>i. (i, order ! i)) [n..<length order]) b =
    Inr (b @ (if n > 0 \<and> n < length order then text_sql '' OR '' else [])
      @ join_sql '' OR '' (map (\<lambda>i. render (branch_condition columns order p i)) [n..<length order]))"
  using assms(3)
proof (induction "length order - n" arbitrary: n b)
  case 0
  then show ?case by simp
next
  case (Suc k)
  then have n: "n < length order" by simp
  then have "[n..<length order] = n # [Suc n..<length order]" by (simp add: upt_conv_Cons)
  with Suc.hyps(1) [of "Suc n"] Suc.hyps(2) n show ?case
    by (simp add: seek_branch_render [OF assms(1,2)] push_text join_sql_Cons del: upt_Suc)
qed

lemma sql_order_render: "sql_order q columns b = b @ render_order columns (q_sort q)"
proof -
  have "fold (order_item columns) (List.enumerate n ss) b = b @ (if n > 0 \<and> ss \<noteq> [] then text_sql '','' else [])
    @ join_sql '','' (map (\<lambda>s. text_sql (columns (sort_field s))
       @ text_sql (if descending s then '' DESC NULLS LAST'' else '' ASC NULLS LAST'')) ss)" for n ss b
    by (induction ss arbitrary: n b) (simp_all add: order_item_def push_text join_sql_Cons)
  then show ?thesis by (simp add: sql_order_def render_order_def push_text)
qed

definition seek_text :: "(string \<Rightarrow> string) \<Rightarrow> string sort list \<Rightarrow> position option \<Rightarrow> sql" where
  "seek_text columns order pos = (case pos of None \<Rightarrow> [] | Some p \<Rightarrow> text_sql '' AND '' @ render (seek_condition columns order p))"

lemma page_limit_render:
  assumes "1 \<le> limit" "limit \<le> s_max_limit (q_schema q) + 1" "\<And>p. pos = Some p \<Longrightarrow> validate_position lib q p = Inr ()"
  shows "page_limit lib q pos columns limit b =
    Inr (b @ seek_text columns (q_sort q) pos @ render_order columns (q_sort q) @ text_sql '' LIMIT '' @ [Inr (SInt (int limit))])"
proof (cases pos)
  case None
  then show ?thesis using assms by (simp add: page_limit_def seek_text_def sql_order_render push_text push_bind_def Let_def)
next
  case (Some p)
  from assms(3) [OF Some] have v: "validate_position lib q p = Inr ()" "length p = length (q_sort q)" "position_sql p"
    using validate_position_sql by auto
  have split: "text_sql '' AND ('' = text_sql '' AND '' @ text_sql ''(''" by (simp add: text_sql_def)
  show ?thesis
    using assms(1,2) Some v seek_fold_render [of p "q_sort q" 0 columns]
    by (simp add: page_limit_def seek_text_def seek_condition_def sql_order_render push_text push_bind_def Let_def
        enumerate_take [of "length (q_sort q)" "q_sort q", simplified] comp_def split)
qed

definition filter_text :: "'c query \<Rightarrow> (string \<Rightarrow> string) \<Rightarrow> (string \<Rightarrow> bool) \<Rightarrow> sql" where
  "filter_text q columns available = (case q_filter q of None \<Rightarrow> []
     | Some e \<Rightarrow> text_sql '' AND '' @ render (filter_condition (q_schema q) columns available e))"

lemma sql_prefilter_render:
  "query_wf lib q \<Longrightarrow> sql_prefilter q columns available b = Inr (b @ filter_text q columns available)"
  by (auto simp: sql_prefilter_def filter_text_def query_wf_def push_text sql_expression_render split: option.splits)

end
