(* ===== verification/Query_Order.thy ===== *)
theory Query_Order
  imports Query_Sql_Properties
begin

text \<open>
  The order of rows, \<^verbatim>\<open>ORDER BY ... NULLS LAST\<close> with a direction per column, and that the continuation of
  a position selects exactly the rows strictly after it. Filters collapse to two values at the top, and a
  prefilter never loses a row.
\<close>

section \<open>Order\<close>

definition cell_before :: "database \<Rightarrow> bool \<Rightarrow> cell \<Rightarrow> cell \<Rightarrow> bool" where
  "cell_before db desc a b = (case a of
      Cell v \<Rightarrow> (case b of Null \<Rightarrow> True | Cell w \<Rightarrow> if desc then db_less db w v else db_less db v w | Cells _ \<Rightarrow> False)
    | _ \<Rightarrow> False)"

fun key_before :: "database \<Rightarrow> bool list \<Rightarrow> cell list \<Rightarrow> cell list \<Rightarrow> bool" where
  "key_before db (d # ds) (a # as) (b # bs) = (cell_before db d a b \<or> (a = b \<and> key_before db ds as bs))"
| "key_before db _ _ _ = False"

definition scalar_cell :: "cell \<Rightarrow> bool" where
  "scalar_cell c \<longleftrightarrow> (case c of Cells _ \<Rightarrow> False | _ \<Rightarrow> True)"

lemma db_okD:
  assumes "db_ok db"
  shows "\<not> db_less db a a" "db_less db a b \<Longrightarrow> db_less db b c \<Longrightarrow> db_less db a c"
    "db_less db a b \<or> a = b \<or> db_less db b a"
  using assms unfolding db_ok_def by blast+

lemma cell_before_irrefl: "db_ok db \<Longrightarrow> \<not> cell_before db d a a"
  by (cases a) (simp_all add: cell_before_def db_okD(1))

lemma cell_before_trans:
  "db_ok db \<Longrightarrow> cell_before db d a b \<Longrightarrow> cell_before db d b c \<Longrightarrow> cell_before db d a c"
  by (cases a; cases b; cases c) (auto simp: cell_before_def split: if_splits dest: db_okD(2))

lemma cell_before_total:
  "db_ok db \<Longrightarrow> scalar_cell a \<Longrightarrow> scalar_cell b \<Longrightarrow> cell_before db d a b \<or> a = b \<or> cell_before db d b a"
  using db_okD(3) [of db] by (cases a; cases b) (auto simp: cell_before_def scalar_cell_def)

lemma key_before_irrefl: "db_ok db \<Longrightarrow> \<not> key_before db ds as as"
proof (induction ds arbitrary: as)
  case Nil
  then show ?case by simp
next
  case (Cons d ds)
  then show ?case by (cases as) (simp_all add: cell_before_irrefl)
qed

lemma key_before_trans:
  assumes "db_ok db"
  shows "key_before db ds as bs \<Longrightarrow> key_before db ds bs cs \<Longrightarrow> key_before db ds as cs"
proof (induction ds arbitrary: as bs cs)
  case Nil
  then show ?case by simp
next
  case (Cons d ds)
  obtain a as' b bs' c cs' where l: "as = a # as'" "bs = b # bs'" "cs = c # cs'"
    using Cons.prems by (cases as; cases bs; cases cs) auto
  with Cons show ?case using cell_before_trans [OF assms] by auto
qed

lemma key_before_total:
  assumes "db_ok db" "list_all scalar_cell as" "list_all scalar_cell bs" "length as = length ds" "length bs = length ds"
  shows "key_before db ds as bs \<or> as = bs \<or> key_before db ds bs as"
  using assms(2-)
proof (induction ds arbitrary: as bs)
  case Nil
  then show ?case by simp
next
  case (Cons d ds)
  obtain a as' b bs' where l: "as = a # as'" "bs = b # bs'" using Cons.prems by (cases as; cases bs) auto
  with Cons have "key_before db ds as' bs' \<or> as' = bs' \<or> key_before db ds bs' as'" by simp
  with cell_before_total [OF assms(1), of a b d] l Cons.prems show ?case by auto
qed

text \<open>The first differing column decides.\<close>

lemma key_before_nth:
  assumes "length as = length ds" "length bs = length ds"
  shows "key_before db ds as bs \<longleftrightarrow>
    (\<exists>i < length ds. (\<forall>j < i. as ! j = bs ! j) \<and> cell_before db (ds ! i) (as ! i) (bs ! i))"
  using assms
proof (induction ds arbitrary: as bs)
  case Nil
  then show ?case by simp
next
  case (Cons d ds)
  obtain a as' b bs' where l: "as = a # as'" "bs = b # bs'" using Cons.prems by (cases as; cases bs) auto
  have split: "(\<exists>i < Suc n. P i) \<longleftrightarrow> P 0 \<or> (\<exists>i < n. P (Suc i))" for n and P :: "nat \<Rightarrow> bool"
    using less_Suc_eq_0_disj by auto
  have all: "(\<forall>j < Suc i. Q j) \<longleftrightarrow> Q 0 \<and> (\<forall>j < i. Q (Suc j))" for i and Q :: "nat \<Rightarrow> bool"
    using less_Suc_eq_0_disj by auto
  show ?case using Cons l by (auto simp: split all)
qed

section \<open>The continuation\<close>

definition json_cell :: "json \<Rightarrow> cell" where
  "json_cell v = (if v = JNull then Null else (case sql_of_json v of Some w \<Rightarrow> Cell w | None \<Rightarrow> Null))"

definition row_key :: "(string \<Rightarrow> string) \<Rightarrow> string sort list \<Rightarrow> (string \<Rightarrow> cell) \<Rightarrow> cell list" where
  "row_key columns order row = map (\<lambda>s. row (columns (sort_field s))) order"

lemma all3_Some: "sql3.all3 (map Some bs) = Some (\<forall>b \<in> set bs. b)"
  by (auto simp: sql3.all3_def)

lemma any3_Some: "sql3.any3 (map Some bs) = Some (\<exists>b \<in> set bs. b)"
  by (auto simp: sql3.any3_def)

lemma eval_equal:
  assumes "v = JNull \<or> sql_of_json v \<noteq> None"
  shows "eval db row (equal_condition c v) = Some (json_cell v = row c)"
  using assms by (auto simp: equal_condition_def json_cell_def)

lemma eval_beyond:
  assumes "v = JNull \<or> sql_of_json v \<noteq> None" "scalar_cell (row c)"
  shows "eval db row (beyond_condition c desc v) = Some (cell_before db desc (json_cell v) (row c))"
  using assms
  by (cases "row c") (auto simp: beyond_condition_def json_cell_def cell_before_def scalar_cell_def on_cell_def compare_cell_def
      sql3.any3_def split: if_splits)

lemma eval_seek:
  assumes "position_sql p" "length p = length order" "list_all scalar_cell (row_key columns order row)"
  shows "eval db row (seek_condition columns order p) =
    Some (key_before db (map descending order) (map json_cell p) (row_key columns order row))"
proof -
  have v: "p ! i = JNull \<or> sql_of_json (p ! i) \<noteq> None" if "i < length order" for i
    using assms(1,2) that by (auto simp: position_sql_def)
  have c: "scalar_cell (row (columns (sort_field (order ! i))))" if "i < length order" for i
    using assms(3) that by (auto simp: row_key_def list_all_iff)
  have branch: "eval db row (branch_condition columns order p i) =
      Some ((\<forall>j < i. json_cell (p ! j) = row_key columns order row ! j)
        \<and> cell_before db (descending (order ! i)) (json_cell (p ! i)) (row_key columns order row ! i))"
    if i: "i < length order" for i
  proof -
    let ?eqs = "map (\<lambda>j. json_cell (p ! j) = row (columns (sort_field (order ! j)))) [0..<i]"
    have "map (\<lambda>j. eval db row (equal_condition (columns (sort_field (order ! j))) (p ! j))) [0..<i] = map Some ?eqs"
      using v i by (auto simp: eval_equal)
    then have "map (eval db row) (map (\<lambda>j. equal_condition (columns (sort_field (order ! j))) (p ! j)) [0..<i]
        @ [beyond_condition (columns (sort_field (order ! i))) (descending (order ! i)) (p ! i)]) =
      map Some (?eqs @ [cell_before db (descending (order ! i)) (json_cell (p ! i)) (row (columns (sort_field (order ! i))))])"
      using eval_beyond [where row = row and db = db, OF v [OF i] c [OF i]] by (simp add: comp_def)
    then have "eval db row (branch_condition columns order p i) =
      Some (\<forall>b \<in> set (?eqs @ [cell_before db (descending (order ! i)) (json_cell (p ! i)) (row (columns (sort_field (order ! i))))]). b)"
      unfolding branch_condition_def eval.simps by (simp only: all3_Some)
    then show ?thesis using i by (auto simp: row_key_def)
  qed
  have "map (eval db row) (map (branch_condition columns order p) [0..<length order]) =
    map Some (map (\<lambda>i. (\<forall>j < i. json_cell (p ! j) = row_key columns order row ! j)
        \<and> cell_before db (descending (order ! i)) (json_cell (p ! i)) (row_key columns order row ! i)) [0..<length order])"
    using branch by simp
  then have "eval db row (seek_condition columns order p) = Some (\<exists>i < length order.
      (\<forall>j < i. json_cell (p ! j) = row_key columns order row ! j)
        \<and> cell_before db (descending (order ! i)) (json_cell (p ! i)) (row_key columns order row ! i))"
    unfolding seek_condition_def eval.simps by (simp only: any3_Some) auto
  moreover have "key_before db (map descending order) (map json_cell p) (row_key columns order row) \<longleftrightarrow>
      (\<exists>i < length order. (\<forall>j < i. json_cell (p ! j) = row_key columns order row ! j)
        \<and> cell_before db (descending (order ! i)) (json_cell (p ! i)) (row_key columns order row ! i))"
    using assms(2) by (subst key_before_nth) (auto simp: row_key_def)
  ultimately show ?thesis by simp
qed

section \<open>Filters\<close>

text \<open>A bound filter with a test for its comparisons: the two-valued meaning, in which an unknown
  comparison does not hold.\<close>

fun holds :: "(string \<Rightarrow> query_operator \<Rightarrow> 'v list \<Rightarrow> bool) \<Rightarrow> (string, 'v) expression \<Rightarrow> bool" where
  "holds test (Compare name x vs) = test name x vs"
| "holds test (QAnd es) = list_all (holds test) es"
| "holds test (QOr es) = list_ex (holds test) es"

text \<open>The meaning of one comparison: a set field holds one of the values or (\<^verbatim>\<open>!=\<close>, \<^verbatim>\<open>=out=\<close>) none of them, a
  scalar field compares; a null column satisfies no comparison.\<close>

definition compare_holds :: "database \<Rightarrow> schema \<Rightarrow> (string \<Rightarrow> cell) \<Rightarrow> string \<Rightarrow> query_operator \<Rightarrow> json list \<Rightarrow> bool" where
  "compare_holds db schema cells name x vs =
    (let ws = sql_values vs in
     if field_has (\<lambda>f. set_kind (f_kind f)) schema name
     then (case cells name of Cells members \<Rightarrow> (set ws \<inter> set members \<noteq> {}) \<noteq> (x \<in> {QNe, QOut}) | _ \<Rightarrow> False)
     else (case cells name of Cell w \<Rightarrow>
         if x = QIcontains then db_icontains db w (hd ws)
         else if x = QIn then w \<in> set ws else if x = QOut then w \<notin> set ws
         else compare_cell db x w (hd ws)
       | _ \<Rightarrow> False))"

lemma any3_True: "sql3.any3 (map f xs) = Some True \<longleftrightarrow> (\<exists>x \<in> set xs. f x = Some True)"
  by (force simp: sql3.any3_def)

lemma any_EqAny:
  assumes "ws \<noteq> []"
  shows "sql3.any3 (map (\<lambda>w. case cell of Cells members \<Rightarrow> Some (w \<in> set members) | _ \<Rightarrow> None) ws) =
    (case cell of Cells members \<Rightarrow> Some (set ws \<inter> set members \<noteq> {}) | _ \<Rightarrow> None)"
  using assms by (cases cell; cases ws) (auto simp: sql3.any3_def)

lemma eval_compare:
  assumes "bound_ok lib schema (Compare name x vs)"
  shows "eval db row (compare_condition schema columns name x vs) = Some True \<longleftrightarrow>
    compare_holds db schema (\<lambda>n. row (columns n)) name x vs"
proof -
  obtain spec where spec: "schema_field schema name = Inr spec" "comparison_ok spec x" "vs \<noteq> []"
    using assms by (cases "schema_field schema name") auto
  have ws: "sql_values vs \<noteq> []" using spec(3) by (simp add: sql_values_def)
  show ?thesis
  proof (cases "set_kind (f_kind spec)")
    case True
    have m: "eval db row (CAny (map (\<lambda>w. CEqAny w (columns name)) (sql_values vs))) =
        (case row (columns name) of Cells members \<Rightarrow> Some (set (sql_values vs) \<inter> set members \<noteq> {}) | _ \<Rightarrow> None)"
      using any_EqAny [OF ws, of "row (columns name)"] by (simp add: comp_def)
    with True show ?thesis
      by (cases "row (columns name)")
        (simp_all add: compare_condition_def compare_holds_def field_has_def spec(1) Let_def sql3.neg3_def del: eval.simps(10))
  next
    case False
    have "x \<in> directory_operators" using spec(2) by (simp add: comparison_ok_def)
    with False show ?thesis
      by (cases "row (columns name)")
        (auto simp: compare_condition_def compare_holds_def field_has_def spec(1) Let_def on_cell_def operator_set_def
          directory_operators_def)
  qed
qed

lemma eval_filter:
  "bound_ok lib schema e \<Longrightarrow> eval db row (filter_condition schema columns available e) = Some True \<longleftrightarrow>
    holds (\<lambda>name x vs. available name \<longrightarrow> compare_holds db schema (\<lambda>n. row (columns n)) name x vs) e"
proof (induction e)
  case (Compare name x vs)
  then show ?case using eval_compare [OF Compare, of db row columns] by simp
next
  case (QAnd es)
  then show ?case by (auto simp: sql3.all3_yes_iff list_all_iff)
next
  case (QOr es)
  then show ?case by (simp add: any3_True list_ex_iff)
qed

lemma holds_mono: "(\<And>n x vs. test n x vs \<Longrightarrow> test' n x vs) \<Longrightarrow> holds test e \<Longrightarrow> holds test' e"
  by (induction e) (auto simp: list_all_iff list_ex_iff)

end
