(* ===== verification/Query_Paging.thy ===== *)
theory Query_Paging
  imports Query_Order Ordered_Lists
begin

text \<open>
  Pages end to end: a directory query is appended to a statement, the database answers with the matching
  rows in order up to the limit, and the page carries the token for the next request. Following the
  tokens reaches the end and delivers every matching row exactly once, in order.
\<close>

section \<open>The answer of the database\<close>

definition row_before :: "database \<Rightarrow> (string \<Rightarrow> string) \<Rightarrow> string sort list \<Rightarrow> ('r \<Rightarrow> string \<Rightarrow> cell) \<Rightarrow> 'r \<Rightarrow> 'r \<Rightarrow> bool" where
  "row_before db columns order cells a b =
    key_before db (map descending order) (row_key columns order (cells a)) (row_key columns order (cells b))"

definition row_matches :: "database \<Rightarrow> (string \<Rightarrow> string) \<Rightarrow> 'c query \<Rightarrow> (string \<Rightarrow> cell) \<Rightarrow> bool" where
  "row_matches db columns q row = (case q_filter q of None \<Rightarrow> True
     | Some e \<Rightarrow> eval db row (filter_condition (q_schema q) columns (\<lambda>_. True) e) = Some True)"

definition row_beyond :: "database \<Rightarrow> (string \<Rightarrow> string) \<Rightarrow> 'c query \<Rightarrow> position option \<Rightarrow> (string \<Rightarrow> cell) \<Rightarrow> bool" where
  "row_beyond db columns q pos row = (case pos of None \<Rightarrow> True
     | Some p \<Rightarrow> eval db row (seek_condition columns (q_sort q) p) = Some True)"

text \<open>The rows of \<^verbatim>\<open>WHERE ... AND filter AND seek ORDER BY ... LIMIT n\<close>, the conditions and the order being
  those of \<open>filter_text\<close>, \<open>seek_text\<close> and \<open>render_order\<close>.\<close>

definition run_statement :: "database \<Rightarrow> (string \<Rightarrow> string) \<Rightarrow> ('r \<Rightarrow> string \<Rightarrow> cell) \<Rightarrow> 'c query \<Rightarrow> position option \<Rightarrow> nat \<Rightarrow>
    'r list \<Rightarrow> 'r list" where
  "run_statement db columns cells q pos limit rows =
    take limit (order_by (row_before db columns (q_sort q) cells)
      (filter (\<lambda>r. row_matches db columns q (cells r) \<and> row_beyond db columns q pos (cells r)) rows))"

section \<open>A request and the client\<close>

record ('r, 'c) directory =
  d_uuid :: uuid_lib
  d_codec :: "(position, 'c) cursor_lib"
  d_database :: database
  d_columns :: "string \<Rightarrow> string"
  d_cells :: "'r \<Rightarrow> string \<Rightarrow> cell"
  d_value :: "'r \<Rightarrow> json"
  d_rows :: "'r list"

text \<open>The order of calls of a directory handler: the position of the cursor, the statement, the page.\<close>

definition serve :: "('r, 'c) directory \<Rightarrow> string \<Rightarrow> sql \<Rightarrow> 'c query \<Rightarrow> json page query_result" where
  "serve d bound base q =
    bind_res (after (d_uuid d) (d_codec d) q bound) (\<lambda>pos.
    bind_res (sql_append (d_uuid d) q pos (d_columns d) base) (\<lambda>_.
    unprojected_page (d_uuid d) (d_codec d) q
      (map (d_value d) (run_statement (d_database d) (d_columns d) (d_cells d) q pos (q_limit q + 1) (d_rows d))) bound))"

text \<open>A client that follows the tokens; \<open>None\<close> when it has not reached the end after \<open>n\<close> requests.\<close>

fun follow :: "nat \<Rightarrow> ('r, 'c) directory \<Rightarrow> string \<Rightarrow> sql \<Rightarrow> 'c query \<Rightarrow> 'c option \<Rightarrow> json list list query_result option" where
  "follow 0 d bound base q c = None"
| "follow (Suc n) d bound base q c =
    (case serve d bound base (q\<lparr>q_cursor := c\<rparr>) of
       Inl e \<Rightarrow> Some (Inl e)
     | Inr page \<Rightarrow>
         (case pg_next_cursor page of
            None \<Rightarrow> Some (Inr [pg_items page])
          | Some token \<Rightarrow>
              (case cursor_parse (d_codec d) token of
                 None \<Rightarrow> Some (Inl (Fail QInvalid))
               | Some c' \<Rightarrow>
                   map_option (\<lambda>m. bind_res m (\<lambda>pages. Inr (pg_items page # pages))) (follow n d bound base q (Some c')))))"

section \<open>Following the pages\<close>

text \<open>What a directory owes its pages: the sort columns of a row are scalars, its value shows them and fits
  a token, and the key is unique.\<close>

definition row_ok :: "('r, 'c) directory \<Rightarrow> string \<Rightarrow> 'c query \<Rightarrow> 'r \<Rightarrow> bool" where
  "row_ok d bound q r \<longleftrightarrow> (let key = row_key (d_columns d) (q_sort q) (d_cells d r) in
     list_all scalar_cell key \<and>
     (case query_position (d_uuid d) q (d_value d r) of
        Inr p \<Rightarrow> map json_cell p = key \<and> is_ok (cursor_encode (d_codec d) bound p)
      | Inl _ \<Rightarrow> False))"

lemma row_okE:
  assumes "row_ok d bound q r"
  obtains p c where "query_position (d_uuid d) q (d_value d r) = Inr p" "cursor_encode (d_codec d) bound p = Inr c"
    "map json_cell p = row_key (d_columns d) (q_sort q) (d_cells d r)"
    "list_all scalar_cell (row_key (d_columns d) (q_sort q) (d_cells d r))"
  using assms by (cases "query_position (d_uuid d) q (d_value d r)") (auto simp: row_ok_def Let_def is_ok_conv)

definition table_ok :: "('r, 'c) directory \<Rightarrow> string \<Rightarrow> 'c query \<Rightarrow> bool" where
  "table_ok d bound q \<longleftrightarrow> list_all (row_ok d bound q) (d_rows d) \<and>
     distinct (map (\<lambda>r. row_key (d_columns d) (q_sort q) (d_cells d r)) (d_rows d))"

abbreviation before :: "('r, 'c) directory \<Rightarrow> 'c query \<Rightarrow> 'r \<Rightarrow> 'r \<Rightarrow> bool" where
  "before d q \<equiv> row_before (d_database d) (d_columns d) (q_sort q) (d_cells d)"

definition matching :: "('r, 'c) directory \<Rightarrow> 'c query \<Rightarrow> 'r list" where
  "matching d q = filter (\<lambda>r. row_matches (d_database d) (d_columns d) q (d_cells d r)) (d_rows d)"

definition listing :: "('r, 'c) directory \<Rightarrow> 'c query \<Rightarrow> 'r list" where
  "listing d q = order_by (before d q) (matching d q)"

lemma before_order: "db_ok (d_database d) \<Longrightarrow> transp (before d q)" "db_ok (d_database d) \<Longrightarrow> irreflp (before d q)"
  by (auto simp: row_before_def transp_def irreflp_def key_before_irrefl intro: key_before_trans)

lemma before_total:
  assumes "db_ok (d_database d)" "table_ok d bound q"
  shows "\<forall>x \<in> set (d_rows d). \<forall>y \<in> set (d_rows d). x \<noteq> y \<longrightarrow> before d q x y \<or> before d q y x"
proof (intro ballI impI)
  fix x y
  assume xy: "x \<in> set (d_rows d)" "y \<in> set (d_rows d)" "x \<noteq> y"
  let ?key = "\<lambda>r. row_key (d_columns d) (q_sort q) (d_cells d r)"
  have "list_all scalar_cell (?key x)" "list_all scalar_cell (?key y)"
    using assms(2) xy by (auto simp: table_ok_def row_ok_def list_all_iff Let_def)
  moreover have "?key x \<noteq> ?key y" using assms(2) xy by (auto simp: table_ok_def distinct_map inj_on_def)
  ultimately show "before d q x y \<or> before d q y x"
    using key_before_total [OF assms(1), of "?key x" "?key y" "map descending (q_sort q)"]
    by (auto simp: row_before_def row_key_def)
qed

lemma table_distinct: "table_ok d bound q \<Longrightarrow> distinct (d_rows d)"
  by (simp add: table_ok_def distinct_map)

lemma listing_sorted:
  assumes "db_ok (d_database d)" "table_ok d bound q"
  shows "sorted_wrt (before d q) (listing d q)" "set (listing d q) \<subseteq> set (d_rows d)"
    "mset (listing d q) = mset (matching d q)"
proof -
  show "sorted_wrt (before d q) (listing d q)" unfolding listing_def
  proof (rule order_by_sorted)
    show "\<forall>x \<in> set (matching d q). \<forall>y \<in> set (matching d q). x \<noteq> y \<longrightarrow> before d q x y \<or> before d q y x"
      using before_total [OF assms] by (auto simp: matching_def)
    show "distinct (matching d q)" using table_distinct [OF assms(2)] by (simp add: matching_def)
  qed (rule before_order [OF assms(1)])
  show "set (listing d q) \<subseteq> set (d_rows d)" by (auto simp: listing_def matching_def)
  show "mset (listing d q) = mset (matching d q)" by (simp add: listing_def)
qed

lemma run_statement_cursor [simp]:
  "run_statement db columns cells (q\<lparr>q_cursor := c\<rparr>) pos n rows = run_statement db columns cells q pos n rows"
  by (simp add: run_statement_def row_matches_def row_beyond_def cong: option.case_cong)

lemma run_statement_start:
  "run_statement (d_database d) (d_columns d) (d_cells d) q None n (d_rows d) = take n (listing d q)"
  by (simp add: run_statement_def row_beyond_def listing_def matching_def)

lemma run_statement_next:
  assumes "db_ok (d_database d)" "table_ok d bound q" "k < length (listing d q)"
    and p: "query_position (d_uuid d) q (d_value d (listing d q ! k)) = Inr p"
  shows "run_statement (d_database d) (d_columns d) (d_cells d) q (Some p) n (d_rows d) = take n (drop (Suc k) (listing d q))"
proof -
  let ?x = "listing d q ! k" and ?key = "\<lambda>r. row_key (d_columns d) (q_sort q) (d_cells d r)"
  have x: "?x \<in> set (d_rows d)" using listing_sorted(2) [OF assms(1,2)] assms(3) nth_mem by blast
  with assms(2) p have px: "map json_cell p = ?key ?x" by (auto simp: table_ok_def row_ok_def list_all_iff Let_def split: sum.splits)
  have sql: "position_sql p" "length p = length (q_sort q)"
    using query_position_Inr [OF p] validate_position_sql [of "d_uuid d" q p "()"] by auto
  have beyond: "row_beyond (d_database d) (d_columns d) q (Some p) (d_cells d r) = before d q ?x r" if "r \<in> set (d_rows d)" for r
  proof -
    have "list_all scalar_cell (?key r)" using assms(2) that by (auto simp: table_ok_def row_ok_def list_all_iff Let_def)
    from eval_seek [OF sql this] show ?thesis by (simp add: row_beyond_def px row_before_def)
  qed
  have "filter (\<lambda>r. row_matches (d_database d) (d_columns d) q (d_cells d r) \<and>
      row_beyond (d_database d) (d_columns d) q (Some p) (d_cells d r)) (d_rows d) = filter (before d q ?x) (matching d q)"
    unfolding matching_def filter_filter by (rule filter_cong) (auto simp: beyond)
  moreover have "order_by (before d q) (filter (before d q ?x) (matching d q)) = filter (before d q ?x) (listing d q)"
    unfolding listing_def using before_order [OF assms(1)] before_total [OF assms(1,2)] table_distinct [OF assms(2)]
    by (intro order_by_filter) (auto simp: matching_def)
  moreover have "filter (before d q ?x) (listing d q) = drop (Suc k) (listing d q)"
    by (rule filter_after) (use before_order [OF assms(1)] listing_sorted [OF assms(1,2)] assms(3) in auto)
  ultimately show ?thesis by (simp add: run_statement_def)
qed

text \<open>The cursor that stands before the \<open>i\<close>-th row of the listing.\<close>

definition at_cursor :: "('r, 'c) directory \<Rightarrow> string \<Rightarrow> 'c query \<Rightarrow> nat \<Rightarrow> 'c option \<Rightarrow> bool" where
  "at_cursor d bound q i c \<longleftrightarrow> (i = 0 \<and> c = None) \<or>
     (\<exists>k p. i = Suc k \<and> k < length (listing d q) \<and> query_position (d_uuid d) q (d_value d (listing d q ! k)) = Inr p
        \<and> c \<noteq> None \<and> after (d_uuid d) (d_codec d) (q\<lparr>q_cursor := c\<rparr>) bound = Inr (Some p))"

lemma position_at_cursor:
  assumes "db_ok (d_database d)" "table_ok d bound q" "at_cursor d bound q i c"
  obtains pos where "after (d_uuid d) (d_codec d) (q\<lparr>q_cursor := c\<rparr>) bound = Inr pos"
    "run_statement (d_database d) (d_columns d) (d_cells d) q pos n (d_rows d) = take n (drop i (listing d q))"
    "\<And>p. pos = Some p \<Longrightarrow> validate_position (d_uuid d) q p = Inr ()"
  using assms(3) unfolding at_cursor_def
proof (elim disjE exE conjE)
  assume "i = 0" "c = None"
  then show thesis using that [of None] run_statement_start [of d q n] by (simp add: after_def transpose_def)
next
  fix k p
  assume k: "i = Suc k" "k < length (listing d q)" "query_position (d_uuid d) q (d_value d (listing d q ! k)) = Inr p"
    "after (d_uuid d) (d_codec d) (q\<lparr>q_cursor := c\<rparr>) bound = Inr (Some p)"
  show thesis
    using that [OF k(4)] run_statement_next [OF assms(1,2) k(2,3), of n] k query_position_Inr [OF k(3)] by simp
qed

lemma sql_append_ok:
  assumes "query_wf lib q" "\<And>p. pos = Some p \<Longrightarrow> validate_position lib q p = Inr ()"
  shows "sql_append lib (q\<lparr>q_cursor := c\<rparr>) pos columns b =
    Inr (b @ filter_text q columns (\<lambda>_. True) @ seek_text columns (q_sort q) pos @ render_order columns (q_sort q)
      @ text_sql '' LIMIT '' @ [Inr (SInt (int (q_limit q + 1)))])"
proof -
  let ?q = "q\<lparr>q_cursor := c\<rparr>"
  have "sql_filter ?q columns b = Inr (b @ filter_text ?q columns (\<lambda>_. True))"
    unfolding sql_filter_def using assms(1) by (intro sql_prefilter_render) simp
  moreover have "filter_text ?q columns (\<lambda>_. True) = filter_text q columns (\<lambda>_. True)" by (simp add: filter_text_def cong: option.case_cong)
  ultimately show ?thesis
    using assms page_limit_render [of "q_limit q + 1" ?q pos lib columns] by (simp add: sql_append_def sql_page_def query_wf_def)
qed

lemma serve_at:
  assumes wf: "query_wf (d_uuid d) q" and lib: "cursor_lib_ok (d_codec d)" and db: "db_ok (d_database d)"
    and table: "table_ok d bound q" and at: "at_cursor d bound q i c"
  obtains page where "serve d bound base (q\<lparr>q_cursor := c\<rparr>) = Inr page"
    "pg_items page = map (d_value d) (take (q_limit q) (drop i (listing d q)))"
    "if length (listing d q) - i > q_limit q
     then \<exists>token c'. pg_next_cursor page = Some token \<and> cursor_parse (d_codec d) token = Some c'
       \<and> at_cursor d bound q (i + q_limit q) (Some c')
     else pg_next_cursor page = None"
proof -
  let ?l = "q_limit q" and ?L = "listing d q" and ?q = "q\<lparr>q_cursor := c\<rparr>"
  have l: "1 \<le> ?l" using wf by (simp add: query_wf_def)
  obtain pos where pos: "after (d_uuid d) (d_codec d) ?q bound = Inr pos"
    "run_statement (d_database d) (d_columns d) (d_cells d) q pos (?l + 1) (d_rows d) = take (?l + 1) (drop i ?L)"
    "\<And>p. pos = Some p \<Longrightarrow> validate_position (d_uuid d) q p = Inr ()"
    using position_at_cursor [OF db table at, of "?l + 1"] by blast
  let ?rows = "map (d_value d) (take (?l + 1) (drop i ?L))"
  have serve: "serve d bound base ?q = unprojected_page (d_uuid d) (d_codec d) ?q ?rows bound"
    using pos by (simp add: serve_def sql_append_ok [OF wf])
  have items: "take ?l ?rows = map (d_value d) (take ?l (drop i ?L))" by (simp add: take_map min_def)
  show thesis
  proof (cases "length ?L - i > ?l")
    case False
    then have "serve d bound base ?q = Inr \<lparr>pg_items = take ?l ?rows, pg_next_cursor = None\<rparr>"
      by (simp add: serve unprojected_page_def Let_def)
    then show thesis by (rule that) (use False items in simp_all)
  next
    case True
    let ?k = "i + ?l - 1"
    have k: "?k < length ?L" "i + ?l = Suc ?k" using True l by auto
    have ne: "take ?l ?rows \<noteq> []" using True l by auto
    have last: "last (take ?l ?rows) = d_value d (?L ! ?k)"
      using True l by (subst last_conv_nth [OF ne]) (auto simp: min_def add.commute)
    have "?L ! ?k \<in> set (d_rows d)" using listing_sorted(2) [OF db table] k(1) nth_mem by blast
    then have "row_ok d bound q (?L ! ?k)" using table by (simp add: table_ok_def list_all_iff)
    then obtain p c' where p: "query_position (d_uuid d) q (d_value d (?L ! ?k)) = Inr p"
      "cursor_encode (d_codec d) bound p = Inr c'"
      by (rule row_okE)
    have q: "query_position (d_uuid d) ?q = query_position (d_uuid d) q" by (intro ext) (simp add: query_position_def)
    let ?page = "\<lparr>pg_items = take ?l ?rows, pg_next_cursor = Some (cursor_str (d_codec d) c')\<rparr>"
    have page: "serve d bound base ?q = Inr ?page"
      using True p ne last by (simp add: serve unprojected_page_def Let_def q transpose_def)
    from p(2) obtain token where "cursor_parse (d_codec d) token = Some c'" by (auto simp: cursor_encode_def)
    then have parse: "cursor_parse (d_codec d) (cursor_str (d_codec d) c') = Some c'" using cursor_libD(5) [OF lib] by metis
    have unp: "unprojected_page (d_uuid d) (d_codec d) ?q ?rows bound = Inr ?page" using page serve by simp
    obtain p' where p': "query_position (d_uuid d) ?q (last (pg_items ?page)) = Inr p'"
      "after (d_uuid d) (d_codec d) (?q\<lparr>q_cursor := Some c'\<rparr>) bound = Inr (Some p')"
      using unprojected_page_next [OF lib unp _ parse] by auto
    have "p' = p" using p'(1) p(1) last by (simp add: q)
    with p'(2) have "after (d_uuid d) (d_codec d) (q\<lparr>q_cursor := Some c'\<rparr>) bound = Inr (Some p)" by simp
    then have "at_cursor d bound q (i + ?l) (Some c')" unfolding at_cursor_def using k p(1) by auto
    then show thesis using True that [OF page] parse items by simp
  qed
qed

lemma follow_from:
  assumes "query_wf (d_uuid d) q" "cursor_lib_ok (d_codec d)" "db_ok (d_database d)" "table_ok d bound q"
  shows "at_cursor d bound q i c \<Longrightarrow> n > length (listing d q) - i \<Longrightarrow>
    \<exists>pages. follow n d bound base q c = Some (Inr pages) \<and> pages \<noteq> [] \<and>
      concat pages = map (d_value d) (drop i (listing d q)) \<and>
      (\<forall>page \<in> set (butlast pages). length page = q_limit q) \<and> length (last pages) \<le> q_limit q"
proof (induction n arbitrary: i c)
  case 0
  then show ?case by simp
next
  case (Suc n)
  let ?l = "q_limit q" and ?L = "listing d q"
  have l: "1 \<le> ?l" using assms(1) by (simp add: query_wf_def)
  obtain page where page: "serve d bound base (q\<lparr>q_cursor := c\<rparr>) = Inr page"
    "pg_items page = map (d_value d) (take ?l (drop i ?L))"
    "if length ?L - i > ?l
     then \<exists>token c'. pg_next_cursor page = Some token \<and> cursor_parse (d_codec d) token = Some c'
       \<and> at_cursor d bound q (i + ?l) (Some c')
     else pg_next_cursor page = None"
    using serve_at [OF assms Suc.prems(1)] by blast
  show ?case
  proof (cases "length ?L - i > ?l")
    case False
    then show ?thesis using page by (intro exI [of _ "[pg_items page]"]) simp
  next
    case True
    with page(3) obtain token c' where t: "pg_next_cursor page = Some token" "cursor_parse (d_codec d) token = Some c'"
      "at_cursor d bound q (i + ?l) (Some c')" by auto
    have "n > length ?L - (i + ?l)" using Suc.prems(2) True l by linarith
    from Suc.IH [OF t(3) this] obtain pages where pages: "follow n d bound base q (Some c') = Some (Inr pages)" "pages \<noteq> []"
      "concat pages = map (d_value d) (drop (i + ?l) ?L)" "\<forall>page \<in> set (butlast pages). length page = ?l"
      "length (last pages) \<le> ?l" by blast
    have "concat (pg_items page # pages) = map (d_value d) (drop i ?L)"
    proof -
      have "drop (i + ?l) ?L = drop ?l (drop i ?L)" by (simp add: add.commute)
      then show ?thesis using pages(3) page(2) by (metis append_take_drop_id concat.simps(2) map_append)
    qed
    moreover have "length (pg_items page) = ?l" using page(2) True by simp
    ultimately show ?thesis using page(1) t pages
      by (intro exI [of _ "pg_items page # pages"]) auto
  qed
qed

end
