(* ===== verification/Query_Properties.thy ===== *)
theory Query_Properties
  imports Query_Paging
begin

text \<open>
  The properties of directory queries, with the sample directory their witnesses use: three rows keyed by a
  number, two per page, a codec of one-byte payloads and the order of numbers and texts.
\<close>

section \<open>Samples\<close>

definition sample_uuid :: uuid_lib where
  "sample_uuid = \<lparr>uuid_parse = (\<lambda>s. None), uuid_str = (\<lambda>u. [])\<rparr>"

definition sample_schema :: schema where
  "sample_schema = \<lparr>s_id = ''samples'', s_fields = [field_scalar ''id'' KInteger, field_scalar ''name'' KText,
     field_filter_only ''tags'' (KEnumSet [''a'', ''b''])], s_keys = [''id''], s_default_limit = 2, s_max_limit = 2\<rparr>"

definition sample_query :: "string query" where
  "sample_query = \<lparr>q_schema = sample_schema, q_filter = Some (Compare ''name'' QNe [JString ''x'']),
     q_sort = [\<lparr>sort_field = ''id'', descending = True\<rparr>], q_fields = [''id'', ''name''], q_limit = 2, q_cursor = None\<rparr>"

definition sample_tag :: string where
  "sample_tag = replicate 32 CHR ''t''"

definition sample_to_json :: "position payload \<Rightarrow> string option" where
  "sample_to_json p = (if py_version p = 1 \<and> py_context p = ''b''
     then (case py_position p of [JNumber (JInt n)] \<Rightarrow> if 0 \<le> n \<and> n < 256 then Some [char_of (nat n)] else None | _ \<Rightarrow> None)
     else None)"

definition sample_from_json :: "string \<Rightarrow> position payload option" where
  "sample_from_json s = (case s of
      [c] \<Rightarrow> Some \<lparr>py_version = 1, py_context = ''b'', py_position = [JNumber (JInt (int (of_char c)))]\<rparr> | _ \<Rightarrow> None)"

definition sample_codec :: "(position, string) cursor_lib" where
  "sample_codec = \<lparr>b64_encode = (\<lambda>s. s), b64_decode = Some, hmac_sign = (\<lambda>m. sample_tag),
     hmac_verify = (\<lambda>m t. t = sample_tag), payload_to_json = sample_to_json, payload_from_json = sample_from_json,
     cursor_parse = Some, cursor_str = (\<lambda>c. c)\<rparr>"

lemma sample_json: "sample_to_json p = Some s \<Longrightarrow> sample_from_json s = Some p"
  by (cases p) (auto simp: sample_to_json_def sample_from_json_def split: if_splits list.splits json.splits json_number.splits)

lemma sample_codec_ok: "cursor_lib_ok sample_codec"
  using sample_json by (simp add: cursor_lib_ok_def sample_codec_def sample_tag_def)

fun sample_less :: "sql_value \<Rightarrow> sql_value \<Rightarrow> bool" where
  "sample_less (SInt a) (SInt b) = (a < b)"
| "sample_less (SText a) (SText b) = (a < b)"
| "sample_less (SBool a) (SBool b) = (a < b)"
| "sample_less (SText _) _ = True"
| "sample_less (SBool _) (SInt _) = True"
| "sample_less _ _ = False"

definition sample_db :: database where
  "sample_db = \<lparr>db_less = sample_less, db_icontains = (\<lambda>a b. a = b)\<rparr>"

lemma sample_db_ok: "db_ok sample_db"
  unfolding db_ok_def sample_db_def database.simps
proof (intro conjI allI impI)
  show "\<not> sample_less a a" for a by (cases a) auto
  show "sample_less a c" if "sample_less a b \<and> sample_less b c" for a b c
    using that by (cases a; cases b; cases c) auto
  show "sample_less a b \<or> a = b \<or> sample_less b a" for a b by (cases a; cases b) auto
qed

definition sample_cells :: "nat \<Rightarrow> string \<Rightarrow> cell" where
  "sample_cells n column = (if column = ''id'' then Cell (SInt (int n))
     else if column = ''name'' then Cell (SText ''y'') else Cells [])"

definition sample_value :: "nat \<Rightarrow> json" where
  "sample_value n = JObject [(''id'', JNumber (JInt (int n))), (''name'', JString ''y'')]"

definition sample_directory :: "(nat, string) directory" where
  "sample_directory = \<lparr>d_uuid = sample_uuid, d_codec = sample_codec, d_database = sample_db, d_columns = (\<lambda>n. n),
     d_cells = sample_cells, d_value = sample_value, d_rows = [2, 1, 3]\<rparr>"

lemmas sample_defs = sample_query_def sample_schema_def sample_directory_def sample_value_def sample_cells_def sample_codec_def
  sample_uuid_def

lemma sample_query_wf: "query_wf sample_uuid sample_query"
  by (simp add: query_wf_def sample_defs schema_field_def field_scalar_def field_filter_only_def field_has_def comparison_ok_def
      directory_operators_def operator_range_def operator_set_def valid_def has_control_def str_chars_def char_is_control_def)

lemma sample_row_ok: "n < 256 \<Longrightarrow> row_ok sample_directory ''b'' sample_query n"
  by (simp add: row_ok_def Let_def sample_defs row_key_def scalar_cell_def query_position_def validate_position_def
      check_component_def schema_field_def field_scalar_def field_filter_only_def valid_def checked_i64_def in_i64_def i64_min_def i64_max_def
      json_cell_def cursor_encode_def encode_bounded_def sample_to_json_def cursor_domain_def sample_tag_def)

lemma sample_table_ok: "table_ok sample_directory ''b'' sample_query"
  using sample_row_ok [of 1] sample_row_ok [of 2] sample_row_ok [of 3]
  by (simp add: table_ok_def sample_directory_def) (simp add: sample_defs row_key_def)

section \<open>Queries\<close>

text \<open>C20: Every query the directory accepts is well typed and stays so when a default is added: its filter names
  declared filterable fields with operators of their kind and valid values, the order has distinct sortable
  fields, begins with the requested one and contains the unique key, the selected fields are output fields in
  order, and the limit lies within the schema.\<close>

theorem query_directory_well_typed:
  assumes "schema_parse lib pc schema raw = Inr q"
  shows "query_wf lib q \<and> q_schema q = schema \<and>
    (\<exists>p. parse_parameters pc raw = Inr p \<and> prefix (p_sort p) (q_sort q) \<and> q_cursor q = p_cursor p) \<and>
    (\<forall>name value q'. filter_value_ok value \<and> field_ok name \<and> default_filter lib q name value = Inr q' \<longrightarrow>
       query_wf lib q' \<and> mentions q' name)"
proof -
  from assms obtain p where p: "parse_parameters pc raw = Inr p" "query_new lib schema p = Inr q"
    by (auto simp: schema_parse_def)
  with query_new_Inr [OF p(2) parse_parameters_filter [OF p(1)]] default_filter_wf show ?thesis by blast
qed

lemma sample_parse:
  "schema_parse sample_uuid Some sample_schema ''limit=1'' = Inr (sample_query\<lparr>q_filter := None,
     q_sort := [\<lparr>sort_field = ''id'', descending = False\<rparr>], q_limit := 1\<rparr>)"
  by (simp add: schema_parse_def parse_parameters_def parse_with_context_def max_raw_query_bytes_def read_pairs_def read_pair_def
      split_once_def decode_def str_valid_def known_names_def bm_put_def transpose_def read_limit_def parse_u16_def decimal_def
      is_ascii_digit_def query_new_def sample_schema_def sample_query_def add_key_def schema_field_def field_scalar_def
      field_filter_only_def check_output_def)

theorem query_directory_well_typed_witness:
  "query_wf sample_uuid (sample_query\<lparr>q_filter := None, q_sort := [\<lparr>sort_field = ''id'', descending = False\<rparr>], q_limit := 1\<rparr>)"
  using query_directory_well_typed [OF sample_parse] by blast

section \<open>Continuations\<close>

text \<open>A continuation is authenticated and bound to its context. A token the codec made decodes to its
  position in the context it was made for and is invalidated in every other; and whatever token is accepted
  carries, in canonical base64, a payload of version 1 for this context under the domain of the codec,
  followed by the very tag of that message.\<close>

theorem query_cursor_bound:
  assumes "cursor_lib_ok lib"
  shows "(\<forall>context position n token context' m. encode_bounded lib context position n = Inr token \<and> length token \<le> m \<longrightarrow>
      decode_bounded lib token context' m = (if context' = context then Inr position else Inl (Fail QCursorInvalidated))) \<and>
    (\<forall>token context n position. decode_bounded lib token context n = Inr position \<longrightarrow>
      (\<exists>json data. b64_decode lib token = Some ((cursor_domain @ json) @ hmac_sign lib (cursor_domain @ json)) \<and>
         payload_from_json lib json = Some data \<and> py_version data = 1 \<and> py_context data = context \<and>
         py_position data = position \<and> length token \<le> n))"
proof (intro conjI allI impI)
  show "decode_bounded lib token context' m = (if context' = context then Inr position else Inl (Fail QCursorInvalidated))"
    if "encode_bounded lib context position n = Inr token \<and> length token \<le> m" for "context" position n token context' m
    using that decode_encoded [OF assms] by blast
  show "\<exists>json data. b64_decode lib token = Some ((cursor_domain @ json) @ hmac_sign lib (cursor_domain @ json)) \<and>
         payload_from_json lib json = Some data \<and> py_version data = 1 \<and> py_context data = context \<and>
         py_position data = position \<and> length token \<le> n"
    if "decode_bounded lib token context n = Inr position" for token "context" n position
    using decode_bounded_Inr [OF assms that] by blast
qed

theorem query_cursor_bound_witness:
  "decode_bounded sample_codec (cursor_domain @ [char_of (7::nat)] @ sample_tag) ''c'' 4096 = Inl (Fail QCursorInvalidated) \<and>
   decode_bounded sample_codec (cursor_domain @ [char_of (7::nat)] @ sample_tag) ''b'' 4096 = Inr [JNumber (JInt 7)]"
proof -
  have e: "encode_bounded sample_codec ''b'' [JNumber (JInt 7)] 4096 = Inr (cursor_domain @ [char_of (7::nat)] @ sample_tag)"
    by (simp add: encode_bounded_def sample_codec_def sample_to_json_def cursor_domain_def sample_tag_def Let_def)
  have l: "length (cursor_domain @ [char_of (7::nat)] @ sample_tag) \<le> 4096" by (simp add: cursor_domain_def sample_tag_def)
  show ?thesis using query_cursor_bound [OF sample_codec_ok] e l by simp
qed

section \<open>Statements\<close>

text \<open>C18: The text the adapter appends for a filter is the text of one parenthesised search condition, with
  every value bound, and a row satisfies that condition in SQL exactly when the filter holds of its
  columns in two-valued logic, an unknown comparison (of a null column) counting as not holding.\<close>

theorem query_filter_statement_exact:
  assumes "query_wf lib q" "q_filter q = Some e"
  shows "\<exists>condition. sql_filter q columns b = Inr (b @ text_sql '' AND '' @ render condition) \<and>
    (\<forall>db row. eval db row condition = Some True \<longleftrightarrow>
       holds (compare_holds db (q_schema q) (\<lambda>n. row (columns n))) e)"
proof -
  have e: "bound_ok lib (q_schema q) e" using assms by (simp add: query_wf_def)
  let ?c = "filter_condition (q_schema q) columns (\<lambda>_. True) e"
  have "sql_filter q columns b = Inr (b @ text_sql '' AND '' @ render ?c)"
    using sql_prefilter_render [OF assms(1), of columns "\<lambda>_. True" b] assms(2) by (simp add: sql_filter_def filter_text_def)
  moreover have "eval db row ?c = Some True \<longleftrightarrow> holds (compare_holds db (q_schema q) (\<lambda>n. row (columns n))) e" for db row
    using eval_filter [OF e, of db row columns "\<lambda>_. True"] by simp
  ultimately show ?thesis by blast
qed

theorem query_filter_statement_exact_witness:
  "\<exists>condition. sql_filter sample_query (\<lambda>n. n) [] = Inr (text_sql '' AND '' @ render condition) \<and>
    (\<forall>db row. eval db row condition = Some True \<longleftrightarrow>
       holds (compare_holds db sample_schema row) (Compare ''name'' QNe [JString ''x'']))"
  using query_filter_statement_exact [OF sample_query_wf, of "Compare ''name'' QNe [JString ''x'']" "\<lambda>n. n" "[]"]
  by (simp add: sample_query_def)

text \<open>A prefilter loses no row. Leaving out the comparisons whose fields are not available yet still writes
  the text of a condition, and every row of the full filter satisfies it.\<close>

theorem query_prefilter_superset:
  assumes "query_wf lib q" "q_filter q = Some e"
  shows "\<exists>pre full. sql_prefilter q columns available b = Inr (b @ text_sql '' AND '' @ render pre) \<and>
    sql_filter q columns b = Inr (b @ text_sql '' AND '' @ render full) \<and>
    (\<forall>db row. eval db row full = Some True \<longrightarrow> eval db row pre = Some True)"
proof -
  have e: "bound_ok lib (q_schema q) e" using assms by (simp add: query_wf_def)
  let ?c = "\<lambda>available. filter_condition (q_schema q) columns available e"
  have pre: "sql_prefilter q columns available b = Inr (b @ text_sql '' AND '' @ render (?c available))" for available
    using sql_prefilter_render [OF assms(1)] assms(2) by (simp add: filter_text_def)
  have "eval db row (?c (\<lambda>_. True)) = Some True \<Longrightarrow> eval db row (?c available) = Some True" for db row
    unfolding eval_filter [OF e] by (rule holds_mono) auto
  with pre show ?thesis unfolding sql_filter_def by blast
qed

theorem query_prefilter_superset_witness:
  "\<exists>pre full. sql_prefilter sample_query (\<lambda>n. n) (\<lambda>n. False) [] = Inr (text_sql '' AND '' @ render pre) \<and>
    sql_filter sample_query (\<lambda>n. n) [] = Inr (text_sql '' AND '' @ render full) \<and>
    (\<forall>db row. eval db row full = Some True \<longrightarrow> eval db row pre = Some True)"
  using query_prefilter_superset [OF sample_query_wf, of "Compare ''name'' QNe [JString ''x'']" "\<lambda>n. n" "\<lambda>n. False" "[]"]
  by (simp add: sample_query_def)

text \<open>C12: The continuation of a validated position is written as one condition, followed by the order and the
  bound limit; in SQL it is never unknown, and it holds of exactly the rows whose key comes strictly after the
  position in that order: column by column, each in its direction, with nulls last.\<close>

theorem query_seek_exact:
  assumes "validate_position lib q p = Inr ()" "1 \<le> limit" "limit \<le> s_max_limit (q_schema q) + 1"
  shows "\<exists>condition. page_limit lib q (Some p) columns limit b = Inr (b @ text_sql '' AND '' @ render condition
      @ render_order columns (q_sort q) @ text_sql '' LIMIT '' @ [Inr (SInt (int limit))]) \<and>
    (\<forall>db row. list_all scalar_cell (row_key columns (q_sort q) row) \<longrightarrow> eval db row condition =
       Some (key_before db (map descending (q_sort q)) (map json_cell p) (row_key columns (q_sort q) row)))"
proof -
  have "page_limit lib q (Some p) columns limit b = Inr (b @ text_sql '' AND '' @ render (seek_condition columns (q_sort q) p)
      @ render_order columns (q_sort q) @ text_sql '' LIMIT '' @ [Inr (SInt (int limit))])"
    using page_limit_render [OF assms(2,3), of "Some p" lib columns b] assms(1) by (simp add: seek_text_def)
  moreover have "position_sql p" "length p = length (q_sort q)" using validate_position_sql [OF assms(1)] by simp_all
  ultimately show ?thesis using eval_seek by blast
qed

theorem query_seek_exact_witness:
  "\<exists>condition. page_limit sample_uuid sample_query (Some [JNumber (JInt 3)]) (\<lambda>n. n) 3 [] =
      Inr (text_sql '' AND '' @ render condition @ render_order (\<lambda>n. n) (q_sort sample_query) @ text_sql '' LIMIT '' @ [Inr (SInt 3)]) \<and>
    (\<forall>db row. list_all scalar_cell (row_key (\<lambda>n. n) (q_sort sample_query) row) \<longrightarrow> eval db row condition =
       Some (key_before db [True] [Cell (SInt 3)] (row_key (\<lambda>n. n) (q_sort sample_query) row)))"
proof -
  have v: "validate_position sample_uuid sample_query [JNumber (JInt 3)] = Inr ()"
    by (simp add: validate_position_def sample_query_def sample_schema_def check_component_def schema_field_def field_scalar_def
        field_filter_only_def valid_def in_i64_def i64_min_def i64_max_def)
  have "(1::nat) \<le> 3" "3 \<le> s_max_limit (q_schema sample_query) + 1" by (simp_all add: sample_query_def sample_schema_def)
  from query_seek_exact [OF v this, of "\<lambda>n. n" "[]"] show ?thesis
    by (simp add: json_cell_def checked_i64_def in_i64_def i64_min_def i64_max_def) (simp add: sample_query_def)
qed

section \<open>Pages\<close>



end
