(* ===== verification/Inventory_Value.thy ===== *)
theory Inventory_Value
  imports Query_Text Group_Model
begin

text \<open>
  \<^verbatim>\<open>crates/inventory\<close>: the closed vocabulary of sources and channels (\<^verbatim>\<open>source.rs\<close>, \<^verbatim>\<open>channels.rs\<close>), the
  typed values of assets with their budget (\<^verbatim>\<open>assets.rs\<close>) and the structural types of fields with
  validation and extension (\<^verbatim>\<open>catalog.rs\<close>). A finite or infinite \<^verbatim>\<open>NotNan<f64>\<close> is the type \<open>not_nan\<close> of the
  group model. \<^verbatim>\<open>Timepoint::try_from\<close> belongs to the contract library: \<open>time_ok\<close> says which seconds it accepts.
\<close>

datatype invalid = DuplicateField | UnknownField | UnknownSource | TypeMismatch | InvalidValue | InvalidTime | InvalidState
  | InvalidEvidence | SourceNotAllowed | DuplicateSource | SourceLimit | InvalidEncoding

type_synonym 'a inventory_result = "(invalid, 'a) result"

section \<open>Sources and channels\<close>

datatype channel = ChAgent | ChMdm

datatype report_source = RMdmApple | RMdmWindows | RAgentBuiltin

datatype source = AgentScript | AgentNative | AgentOsquery | MdmApple | AgentBuiltin | Manual | MdmWindows

definition channel_as_str :: "channel \<Rightarrow> string" where
  "channel_as_str c = (case c of ChAgent \<Rightarrow> ''agent'' | ChMdm \<Rightarrow> ''mdm'')"

definition report_parse :: "string \<Rightarrow> report_source inventory_result" where
  "report_parse s = (if s = ''mdm.apple'' then Inr RMdmApple else if s = ''mdm.windows'' then Inr RMdmWindows
     else if s = ''agent.builtin'' then Inr RAgentBuiltin else Inl (Fail UnknownSource))"

definition report_as_str :: "report_source \<Rightarrow> string" where
  "report_as_str r = (case r of RMdmApple \<Rightarrow> ''mdm.apple'' | RMdmWindows \<Rightarrow> ''mdm.windows'' | RAgentBuiltin \<Rightarrow> ''agent.builtin'')"

definition report_channel :: "report_source \<Rightarrow> channel" where
  "report_channel r = (case r of RMdmWindows \<Rightarrow> ChMdm | RMdmApple \<Rightarrow> ChMdm | RAgentBuiltin \<Rightarrow> ChAgent)"

definition source_of_report :: "report_source \<Rightarrow> source" where
  "source_of_report r = (case r of RMdmApple \<Rightarrow> MdmApple | RMdmWindows \<Rightarrow> MdmWindows | RAgentBuiltin \<Rightarrow> AgentBuiltin)"

definition source_as_str :: "source \<Rightarrow> string" where
  "source_as_str s = (case s of Manual \<Rightarrow> ''manual'' | AgentScript \<Rightarrow> ''agent.script'' | AgentNative \<Rightarrow> ''agent.native''
     | AgentOsquery \<Rightarrow> ''agent.osquery'' | MdmApple \<Rightarrow> report_as_str RMdmApple | MdmWindows \<Rightarrow> report_as_str RMdmWindows
     | AgentBuiltin \<Rightarrow> report_as_str RAgentBuiltin)"

definition source_channel :: "source \<Rightarrow> channel option" where
  "source_channel s = (case s of Manual \<Rightarrow> None | MdmWindows \<Rightarrow> Some ChMdm | MdmApple \<Rightarrow> Some ChMdm | _ \<Rightarrow> Some ChAgent)"

definition source_parse :: "string \<Rightarrow> source inventory_result" where
  "source_parse s = (if s = ''manual'' then Inr Manual else if s = ''agent.script'' then Inr AgentScript
     else if s = ''agent.native'' then Inr AgentNative else if s = ''agent.osquery'' then Inr AgentOsquery
     else bind_res (report_parse s) (\<lambda>r. Inr (source_of_report r)))"

text \<open>The derived order of \<^verbatim>\<open>Source\<close> is the order of its variants.\<close>

definition source_rank :: "source \<Rightarrow> nat" where
  "source_rank s = (case s of AgentScript \<Rightarrow> 0 | AgentNative \<Rightarrow> 1 | AgentOsquery \<Rightarrow> 2 | MdmApple \<Rightarrow> 3 | AgentBuiltin \<Rightarrow> 4
     | Manual \<Rightarrow> 5 | MdmWindows \<Rightarrow> 6)"

lemma source_rank_inj: "source_rank a = source_rank b \<Longrightarrow> a = b"
  by (cases a; cases b) (simp_all add: source_rank_def)

instantiation source :: linorder
begin
definition less_eq_source :: "source \<Rightarrow> source \<Rightarrow> bool" where
  "less_eq_source a b \<longleftrightarrow> source_rank a \<le> source_rank b"
definition less_source :: "source \<Rightarrow> source \<Rightarrow> bool" where
  "less_source a b \<longleftrightarrow> source_rank a < source_rank b"
instance
  by standard (auto simp: less_eq_source_def less_source_def dest: source_rank_inj)
end

lemma source_as_str_inj: "source_as_str a = source_as_str b \<longleftrightarrow> a = b"
  by (cases a; cases b) (simp_all add: source_as_str_def report_as_str_def)

lemma source_parse_as_str: "source_parse (source_as_str s) = Inr s"
  by (cases s) (simp_all add: source_parse_def source_as_str_def report_as_str_def report_parse_def source_of_report_def)

lemma source_parse_Inr: "source_parse s = Inr x \<longleftrightarrow> source_as_str x = s"
  by (cases x) (auto simp: source_parse_def source_as_str_def report_as_str_def report_parse_def source_of_report_def split: if_splits)

datatype agent_installation = AgentAbsent | AgentInstalled | AgentUnknown

definition requires_install :: "agent_installation \<Rightarrow> bool" where
  "requires_install a \<longleftrightarrow> a = AgentAbsent"

definition installation_as_str :: "agent_installation \<Rightarrow> string" where
  "installation_as_str a = (case a of AgentAbsent \<Rightarrow> ''absent'' | AgentInstalled \<Rightarrow> ''installed'' | AgentUnknown \<Rightarrow> ''unknown'')"

definition installation_parse :: "string \<Rightarrow> agent_installation inventory_result" where
  "installation_parse s = (if s = ''absent'' then Inr AgentAbsent else if s = ''installed'' then Inr AgentInstalled
     else if s = ''unknown'' then Inr AgentUnknown else Inl (Fail InvalidValue))"

datatype mdm_enrollment = Unenrolled | ThisOrganization | OtherOrganization | EnrollmentUnknown

definition requires_enrollment :: "mdm_enrollment \<Rightarrow> bool" where
  "requires_enrollment e \<longleftrightarrow> e = Unenrolled"

definition enrollment_as_str :: "mdm_enrollment \<Rightarrow> string" where
  "enrollment_as_str e = (case e of Unenrolled \<Rightarrow> ''unenrolled'' | ThisOrganization \<Rightarrow> ''this_organization''
     | OtherOrganization \<Rightarrow> ''other_organization'' | EnrollmentUnknown \<Rightarrow> ''unknown'')"

definition enrollment_parse :: "string \<Rightarrow> mdm_enrollment inventory_result" where
  "enrollment_parse s = (if s = ''unenrolled'' then Inr Unenrolled else if s = ''this_organization'' then Inr ThisOrganization
     else if s = ''other_organization'' then Inr OtherOrganization else if s = ''unknown'' then Inr EnrollmentUnknown
     else Inl (Fail InvalidValue))"

section \<open>Typed values\<close>

datatype asset_scalar = AString string | AInteger int | ANumber not_nan | AArray "asset_scalar list"
  | AObject "(string \<times> asset_scalar) list" | ABoolean bool | ATime int

datatype asset_kind = AkString | AkInteger | AkNumber | AkBoolean | AkTime | AkArray | AkObject

definition scalar_kind :: "asset_scalar \<Rightarrow> asset_kind" where
  "scalar_kind v = (case v of AString _ \<Rightarrow> AkString | AInteger _ \<Rightarrow> AkInteger | ANumber _ \<Rightarrow> AkNumber | AArray _ \<Rightarrow> AkArray
     | AObject _ \<Rightarrow> AkObject | ABoolean _ \<Rightarrow> AkBoolean | ATime _ \<Rightarrow> AkTime)"

record scalar_budget =
  sb_nodes :: nat
  sb_bytes :: nat

definition budget_array :: scalar_budget where
  "budget_array = \<lparr>sb_nodes = 1, sb_bytes = 0\<rparr>"

definition add_bytes :: "nat \<Rightarrow> scalar_budget \<Rightarrow> scalar_budget inventory_result" where
  "add_bytes n b = bind_res (ok_or InvalidValue (checked_add_u64 (sb_bytes b) n)) (\<lambda>m. Inr (b\<lparr>sb_bytes := m\<rparr>))"

text \<open>\<open>visit\<close> of \<^verbatim>\<open>ScalarBudget::observe\<close>, the counters passed through.\<close>

fun scalar_visit :: "(int \<Rightarrow> bool) \<Rightarrow> asset_scalar \<Rightarrow> nat \<Rightarrow> scalar_budget \<Rightarrow> scalar_budget inventory_result"
  and scalar_visit_items :: "(int \<Rightarrow> bool) \<Rightarrow> asset_scalar list \<Rightarrow> nat \<Rightarrow> scalar_budget \<Rightarrow> scalar_budget inventory_result"
  and scalar_visit_entries :: "(int \<Rightarrow> bool) \<Rightarrow> (string \<times> asset_scalar) list \<Rightarrow> nat \<Rightarrow> scalar_budget \<Rightarrow> scalar_budget inventory_result" where
  "scalar_visit time_ok v depth b =
    bind_res (ok_or InvalidValue (checked_add_u64 (sb_nodes b) 1)) (\<lambda>n.
    if depth > 6 \<or> n > 200000 then Inl (Fail InvalidValue)
    else let b = b\<lparr>sb_nodes := n\<rparr> in
      case v of
        AString s \<Rightarrow> bind_res (add_bytes (length s) b) (\<lambda>b.
          if CHR 0x00 \<in> set s \<or> sb_bytes b > 16 * 1024 * 1024 then Inl (Fail InvalidValue) else Inr b)
      | ANumber x \<Rightarrow> if x = NegInfinity \<or> x = PosInfinity then Inl (Fail InvalidValue) else Inr b
      | ATime t \<Rightarrow> if \<not> time_ok t then Inl (Fail InvalidTime) else Inr b
      | AArray vs \<Rightarrow> scalar_visit_items time_ok vs (depth + 1) b
      | AObject kvs \<Rightarrow> scalar_visit_entries time_ok kvs (depth + 1) b
      | _ \<Rightarrow> Inr b)"
| "scalar_visit_items time_ok [] depth b = Inr b"
| "scalar_visit_items time_ok (v # vs) depth b =
    bind_res (scalar_visit time_ok v depth b) (scalar_visit_items time_ok vs depth)"
| "scalar_visit_entries time_ok [] depth b = Inr b"
| "scalar_visit_entries time_ok ((k, v) # kvs) depth b =
    bind_res (add_bytes (length k) b) (\<lambda>b. bind_res (scalar_visit time_ok v depth b) (scalar_visit_entries time_ok kvs depth))"

definition budget_observe :: "(int \<Rightarrow> bool) \<Rightarrow> scalar_budget \<Rightarrow> asset_scalar \<Rightarrow> nat \<Rightarrow> scalar_budget inventory_result" where
  "budget_observe time_ok b v depth = scalar_visit time_ok v depth b"

definition scalar_validate :: "(int \<Rightarrow> bool) \<Rightarrow> asset_scalar \<Rightarrow> unit inventory_result" where
  "scalar_validate time_ok v = bind_res (scalar_visit time_ok v 0 \<lparr>sb_nodes = 0, sb_bytes = 0\<rparr>) (\<lambda>_. Inr ())"

section \<open>Types\<close>

datatype value_type =
    VtRecord "(string \<times> value_type \<times> bool) list"
  | VtString nat bool
  | VtEnum "string btree_set"
  | VtInteger
  | VtNumber
  | VtBoolean
  | VtTime
  | VtArray value_type nat
  | VtObject "(string \<times> value_type) list"

text \<open>Declared members with their presence requirement.\<close>

fun vt_properties :: "value_type \<Rightarrow> (string \<times> value_type \<times> bool) list" where
  "vt_properties (VtObject ps) = map (\<lambda>(k, t). (k, t, True)) ps"
| "vt_properties (VtRecord ps) = ps"
| "vt_properties _ = []"

lemma size_record: "(k, t, r) \<in> set ps \<Longrightarrow> size t < Suc (size_list (size_prod (\<lambda>x. 0) (size_prod size (\<lambda>x. 0))) ps)"
  by (rule le_imp_less_Suc, rule size_list_estimation' [of "(k, t, r)"]) auto

lemma size_object: "(k, t) \<in> set ps \<Longrightarrow> size t < Suc (size_list (size_prod (\<lambda>x. 0) size) ps)"
  by (rule le_imp_less_Suc, rule size_list_estimation' [of "(k, t)"]) auto

definition vt_kind :: "value_type \<Rightarrow> asset_kind" where
  "vt_kind t = (case t of VtString _ _ \<Rightarrow> AkString | VtEnum _ \<Rightarrow> AkString | VtInteger \<Rightarrow> AkInteger | VtNumber \<Rightarrow> AkNumber
     | VtBoolean \<Rightarrow> AkBoolean | VtTime \<Rightarrow> AkTime | VtArray _ _ \<Rightarrow> AkArray | VtObject _ \<Rightarrow> AkObject | VtRecord _ \<Rightarrow> AkObject)"

definition lower_name :: "string \<Rightarrow> bool" where
  "lower_name s \<longleftrightarrow> list_all (\<lambda>c. ((97::nat) \<le> of_char c \<and> of_char c \<le> (122::nat)) \<or> is_ascii_digit c \<or> c = CHR ''_'') s"

definition starts_lower :: "string \<Rightarrow> bool" where
  "starts_lower s \<longleftrightarrow> (case s of [] \<Rightarrow> False | c # _ \<Rightarrow> (97::nat) \<le> of_char c \<and> of_char c \<le> (122::nat))"

definition property_name :: "string \<Rightarrow> bool" where
  "property_name key \<longleftrightarrow> key \<noteq> [] \<and> length key \<le> 64 \<and> starts_lower key \<and> lower_name key"

text \<open>\<open>check\<close> with its node counter passed through.\<close>

function vt_check :: "value_type \<Rightarrow> nat \<Rightarrow> nat \<Rightarrow> nat inventory_result" where
  "vt_check ty depth nodes =
    (let n = nodes + 1 in
     if depth > 6 \<or> n > 128 then Inl (Fail InvalidValue)
     else case ty of
       VtString max_length _ \<Rightarrow> if \<not> (1 \<le> max_length \<and> max_length \<le> 65536) then Inl (Fail InvalidValue) else Inr n
     | VtEnum vs \<Rightarrow>
         if vs = [] \<or> length vs > 128 \<or> list_ex (\<lambda>v. v = [] \<or> length v > 256 \<or> has_control v) vs
         then Inl (Fail InvalidValue) else Inr n
     | VtArray items max_items \<Rightarrow>
         if \<not> (1 \<le> max_items \<and> max_items \<le> 100000) then Inl (Fail InvalidValue) else vt_check items (depth + 1) n
     | VtInteger \<Rightarrow> Inr n | VtNumber \<Rightarrow> Inr n | VtBoolean \<Rightarrow> Inr n | VtTime \<Rightarrow> Inr n
     | _ \<Rightarrow>
         let ps = vt_properties ty in
         if ps = [] \<or> length ps > 64 then Inl (Fail InvalidValue)
         else fold_res (\<lambda>(k, t, _) m. if \<not> property_name k then Inl (Fail InvalidValue) else vt_check t (depth + 1) m) ps n)"
  by pat_completeness auto
termination
  by (relation "measure (\<lambda>(ty, _, _). size ty)") (auto intro: size_record size_object)

declare vt_check.simps [simp del]

definition vt_validate :: "value_type \<Rightarrow> unit inventory_result" where
  "vt_validate ty = bind_res (vt_check ty 0 0) (\<lambda>_. Inr ())"

definition char_count :: "string \<Rightarrow> nat" where
  "char_count s = length (str_chars s)"

function validate_value :: "(int \<Rightarrow> bool) \<Rightarrow> value_type \<Rightarrow> asset_scalar \<Rightarrow> unit inventory_result" where
  "validate_value time_ok ty value =
    bind_res (scalar_validate time_ok value) (\<lambda>_.
    case (ty, value) of
      (VtString max_length allow_empty, AString s) \<Rightarrow>
        if (allow_empty \<or> s \<noteq> []) \<and> char_count s \<le> max_length then Inr () else Inl (Fail TypeMismatch)
    | (VtEnum vs, AString s) \<Rightarrow> if s \<in> set vs then Inr () else Inl (Fail TypeMismatch)
    | (VtInteger, AInteger _) \<Rightarrow> Inr ()
    | (VtNumber, ANumber _) \<Rightarrow> Inr ()
    | (VtBoolean, ABoolean _) \<Rightarrow> Inr ()
    | (VtTime, ATime _) \<Rightarrow> Inr ()
    | (VtArray items max_items, AArray vs) \<Rightarrow>
        if length vs \<le> max_items then fold_res (\<lambda>v _. validate_value time_ok items v) vs ()
        else Inl (Fail TypeMismatch)
    | (_, AObject vs) \<Rightarrow>
        if (case ty of VtObject _ \<Rightarrow> False | VtRecord _ \<Rightarrow> False | _ \<Rightarrow> True) then Inl (Fail TypeMismatch)
        else if list_ex (\<lambda>k. \<not> list_ex (\<lambda>(name, _, _). name = k) (vt_properties ty)) (map fst vs) then Inl (Fail TypeMismatch)
        else fold_res (\<lambda>(k, t, required) _. case bm_get vs k of
            Some v \<Rightarrow> validate_value time_ok t v
          | None \<Rightarrow> if \<not> required then Inr () else Inl (Fail TypeMismatch)) (vt_properties ty) ()
    | _ \<Rightarrow> Inl (Fail TypeMismatch))"
  by pat_completeness auto
termination
  by (relation "measure (\<lambda>(_, ty, _). size ty)") (auto intro: size_record size_object)

declare validate_value.simps [simp del]

end
