(* ===== verification/Inventory_Catalog.thy ===== *)
theory Inventory_Catalog
  imports Inventory_Value Ordered_Lists Presentation
begin

text \<open>
  The field catalog of \<^verbatim>\<open>crates/inventory\<close>: type extension, field keys, definitions with their validation,
  canonical values, paths and decoding (\<^verbatim>\<open>catalog.rs\<close>), history bindings (\<^verbatim>\<open>time_series.rs\<close>, \<^verbatim>\<open>telemetry.rs\<close>,
  \<^verbatim>\<open>retention.rs\<close>), hardware identities (\<^verbatim>\<open>hardware.rs\<close>) and installations (\<^verbatim>\<open>software.rs\<close>). The libraries
  it uses are the record \<open>inventory_lib\<close>. A \<^verbatim>\<open>FieldKey\<close> is its text: the order of the padded bytes is the
  order of the texts, which contain no zero byte.
\<close>

record inventory_lib =
  il_time_ok :: "int \<Rightarrow> bool"
  il_uuid_parse :: "string \<Rightarrow> uuid option"
  il_uuid_str :: "uuid \<Rightarrow> string"
  il_uppercase :: "string \<Rightarrow> string"
  il_series_id_ok :: "string \<Rightarrow> bool"
  il_json_f64 :: "json_number \<Rightarrow> not_nan option"

section \<open>Type extension\<close>

function vt_extends :: "value_type \<Rightarrow> value_type \<Rightarrow> bool" where
  "vt_extends new old = (case (new, old) of
      (VtEnum n, VtEnum o') \<Rightarrow> set o' \<subseteq> set n
    | (VtString n new_empty, VtString o' old_empty) \<Rightarrow> n \<ge> o' \<and> (\<not> old_empty \<or> new_empty)
    | (VtArray n new_count, VtArray o' old_count) \<Rightarrow> new_count \<ge> old_count \<and> vt_extends n o'
    | (VtObject n, VtObject o') \<Rightarrow> length n = length o' \<and>
        list_all (\<lambda>(k, t). case map_of n k of Some v \<Rightarrow> vt_extends v t | None \<Rightarrow> False) o'
    | (VtRecord n, VtRecord o') \<Rightarrow>
        list_all (\<lambda>(k, t, required). case map_of n k of
            Some (v, r) \<Rightarrow> (\<not> r \<or> required) \<and> vt_extends v t | None \<Rightarrow> False) o'
        \<and> list_all (\<lambda>(k, _, r). k \<in> fst ` set o' \<or> \<not> r) n
    | (VtRecord n, VtObject o') \<Rightarrow>
        list_all (\<lambda>(k, t). case map_of n k of Some (v, _) \<Rightarrow> vt_extends v t | None \<Rightarrow> False) o'
        \<and> list_all (\<lambda>(k, _, r). k \<in> fst ` set o' \<or> \<not> r) n
    | _ \<Rightarrow> new = old)"
  by pat_completeness auto
termination
  by (relation "measure (\<lambda>(_, old). size old)") (auto intro: size_record size_object)

declare vt_extends.simps [simp del]

section \<open>Field keys\<close>

definition key_part :: "string \<Rightarrow> bool" where
  "key_part part \<longleftrightarrow> part \<noteq> [] \<and> starts_lower part \<and> lower_name part"

definition key_parse :: "string \<Rightarrow> string inventory_result" where
  "key_parse value = (case str_split CHR ''.'' value of
      first # parts \<Rightarrow>
        if length value > 128 \<or> first \<notin> {''device'', ''custom'', ''channel''} then Inl (Fail UnknownField)
        else if \<not> list_all key_part parts \<or> parts = [] then Inl (Fail UnknownField)
        else Inr value
    | [] \<Rightarrow> Inl (Fail UnknownField))"

section \<open>Definitions\<close>

datatype telemetry_kind = Gauge | CumulativeCounter | DeltaCounter | StateSeries

datatype telemetry_aggregation = TaMin | TaMax | TaSum | TaCount | TaMean | TaIncrease | TaRate | TaTimeline | TaTransitions
  | TaCoverage

record telemetry_dimension =
  td_path :: "string list"
  td_values :: "string btree_set"

record retention_reference =
  rr_key :: string
  rr_revision :: nat

record time_series_binding =
  ts_kind :: telemetry_kind
  ts_value_path :: "string list"
  ts_interval_start_path :: "string list option"
  ts_dimensions :: "(string, telemetry_dimension) btree_map"
  ts_aggregations :: "telemetry_aggregation list"
  ts_retention :: retention_reference
  ts_max_resources :: nat

datatype asset_platform = AWindows | AMacos

datatype sensitivity = Standard | Sensitive | Secret

record field_definition =
  fd_time_series :: "time_series_binding option"
  fd_key :: string
  fd_version :: nat
  fd_value_type :: value_type
  fd_nullable :: bool
  fd_manual :: bool
  fd_sources :: "(source, nat) btree_map"
  fd_platforms :: "asset_platform list"
  fd_sensitivity :: sensitivity
  fd_unit :: "string option"
  fd_searchable :: bool
  fd_item_key :: "string option"

definition i64_max_nat :: nat where
  "i64_max_nat = 9223372036854775807"

subsection \<open>History\<close>

definition series_path :: "string list \<Rightarrow> bool" where
  "series_path v \<longleftrightarrow> length v \<le> 6 \<and> list_all property_name v"

definition counter_kind :: "telemetry_kind \<Rightarrow> bool" where
  "counter_kind k \<longleftrightarrow> k = CumulativeCounter \<or> k = DeltaCounter"

definition check_dimension :: "string \<times> telemetry_dimension \<Rightarrow> nat \<times> nat \<Rightarrow> (nat \<times> nat) inventory_result" where
  "check_dimension kd cv = (case kd of (key, d) \<Rightarrow> case cv of (combinations, vocabulary_bytes) \<Rightarrow>
     if \<not> property_name key \<or> td_path d = [] \<or> \<not> series_path (td_path d) \<or> td_values d = [] \<or> length (td_values d) > 256
     then Inl (Fail InvalidValue)
     else bind_res (ok_or InvalidValue (checked_mul_u64 combinations (length (td_values d)))) (\<lambda>combinations.
       if list_ex (\<lambda>v. v = [] \<or> length v > 256 \<or> has_control v) (td_values d) then Inl (Fail InvalidValue)
       else Inr (combinations, vocabulary_bytes + sum_list (map length (td_values d)))))"

definition aggregation_allowed :: "telemetry_kind \<Rightarrow> telemetry_aggregation \<Rightarrow> bool" where
  "aggregation_allowed k a = (case k of
      Gauge \<Rightarrow> a \<in> {TaMin, TaMax, TaSum, TaCount, TaMean}
    | CumulativeCounter \<Rightarrow> a \<in> {TaIncrease, TaRate}
    | DeltaCounter \<Rightarrow> a \<in> {TaSum, TaRate}
    | StateSeries \<Rightarrow> a \<in> {TaTimeline, TaTransitions, TaCoverage})"

definition binding_validate :: "time_series_binding \<Rightarrow> unit inventory_result" where
  "binding_validate b =
    (if \<not> series_path (ts_value_path b)
       \<or> (case ts_interval_start_path b of Some v \<Rightarrow> v = [] \<or> \<not> series_path v \<or> \<not> counter_kind (ts_kind b) | None \<Rightarrow> False)
       \<or> length (ts_dimensions b) > 64 \<or> ts_aggregations b = [] \<or> \<not> property_name (rr_key (ts_retention b))
       \<or> rr_revision (ts_retention b) = 0 \<or> rr_revision (ts_retention b) > i64_max_nat
       \<or> \<not> (1 \<le> ts_max_resources b \<and> ts_max_resources b \<le> 4096)
     then Inl (Fail InvalidValue)
     else bind_res (fold_res check_dimension (ts_dimensions b) (ts_max_resources b, 0)) (\<lambda>(combinations, vocabulary_bytes).
       if combinations > 4096 \<or> vocabulary_bytes > 32768 then Inl (Fail InvalidValue)
       else if list_ex (\<lambda>a. \<not> aggregation_allowed (ts_kind b) a) (ts_aggregations b) then Inl (Fail InvalidValue)
       else Inr ()))"

definition select_type :: "value_type \<Rightarrow> string list \<Rightarrow> value_type inventory_result" where
  "select_type root_type path = fold_res (\<lambda>part ty.
     bind_res (ok_or TypeMismatch (find (\<lambda>(name, _, required). name = part \<and> required) (vt_properties ty))) (\<lambda>(_, t, _). Inr t))
     path root_type"

text \<open>Identifiers and metrics of the time-series library; \<open>il_series_id_ok\<close> says which identifiers it accepts.\<close>

datatype number_kind = I64 | F64

datatype temporality = Cumulative | Delta

datatype series_metric = MGauge number_kind | MCounter number_kind temporality | MBool | MState "string list"

definition series_id :: "inventory_lib \<Rightarrow> string \<Rightarrow> string inventory_result" where
  "series_id lib s = (if il_series_id_ok lib s then Inr s else Inl (Fail InvalidValue))"

definition metric :: "inventory_lib \<Rightarrow> value_type \<Rightarrow> telemetry_kind \<Rightarrow> series_metric inventory_result" where
  "metric lib ty kind =
    (let number = (case ty of VtInteger \<Rightarrow> Some I64 | VtNumber \<Rightarrow> Some F64 | _ \<Rightarrow> None) in
     case kind of
       Gauge \<Rightarrow> bind_res (ok_or TypeMismatch number) (\<lambda>n. Inr (MGauge n))
     | CumulativeCounter \<Rightarrow> bind_res (ok_or TypeMismatch number) (\<lambda>n. Inr (MCounter n Cumulative))
     | DeltaCounter \<Rightarrow> bind_res (ok_or TypeMismatch number) (\<lambda>n. Inr (MCounter n Delta))
     | StateSeries \<Rightarrow> (case ty of
           VtBoolean \<Rightarrow> Inr MBool
         | VtEnum vs \<Rightarrow> bind_res (map_res (series_id lib) vs) (\<lambda>members. Inr (MState members))
         | _ \<Rightarrow> Inl (Fail TypeMismatch)))"

definition dimension_value_ok :: "value_type \<Rightarrow> string \<Rightarrow> bool" where
  "dimension_value_ok ty v = (case ty of
      VtEnum vs \<Rightarrow> v \<in> set vs
    | VtBoolean \<Rightarrow> v \<in> {''true'', ''false''}
    | VtInteger \<Rightarrow> (case parse_i64 v of
        Some n \<Rightarrow> (if n < 0 then CHR ''-'' # print_nat (nat (- n)) else print_nat (nat n)) = v | None \<Rightarrow> False)
    | VtString max_length _ \<Rightarrow> char_count v \<le> max_length
    | _ \<Rightarrow> False)"

definition device_report :: "source \<Rightarrow> bool" where
  "device_report s \<longleftrightarrow> s \<in> {AgentBuiltin, AgentNative, AgentScript, AgentOsquery}"

definition validate_time_series :: "inventory_lib \<Rightarrow> field_definition \<Rightarrow> unit inventory_result" where
  "validate_time_series lib f = (case fd_time_series f of
      None \<Rightarrow> Inr ()
    | Some b \<Rightarrow>
        bind_res (binding_validate b) (\<lambda>_.
        if \<not> list_ex device_report (map fst (fd_sources f)) then Inl (Fail SourceNotAllowed)
        else bind_res (case fd_value_type f of
            VtArray items max_items \<Rightarrow>
              if fd_item_key f = None \<or> ts_max_resources b > max_items then Inl (Fail InvalidValue) else Inr items
          | ty \<Rightarrow> if ts_max_resources b \<noteq> 1 then Inl (Fail InvalidValue) else Inr ty) (\<lambda>root.
        bind_res (select_type root (ts_value_path b)) (\<lambda>ty.
        bind_res (metric lib ty (ts_kind b)) (\<lambda>_.
        bind_res (case ts_interval_start_path b of
            Some path \<Rightarrow> bind_res (select_type root path) (\<lambda>ty. if ty \<noteq> VtInteger then Inl (Fail TypeMismatch) else Inr ())
          | None \<Rightarrow> if fd_item_key f \<noteq> None \<and> counter_kind (ts_kind b) then Inl (Fail InvalidValue) else Inr ()) (\<lambda>_.
        fold_res (\<lambda>(_, d) _. bind_res (select_type root (td_path d)) (\<lambda>ty.
          if list_ex (\<lambda>v. \<not> dimension_value_ok ty v) (td_values d) then Inl (Fail TypeMismatch) else Inr ()))
          (ts_dimensions b) ()))))))"

definition time_series_extends :: "field_definition \<Rightarrow> field_definition \<Rightarrow> bool" where
  "time_series_extends f previous = (case (fd_time_series f, fd_time_series previous) of
      (_, None) \<Rightarrow> True
    | (Some n, Some o') \<Rightarrow>
        ts_kind n = ts_kind o' \<and> ts_value_path n = ts_value_path o' \<and> ts_interval_start_path n = ts_interval_start_path o'
        \<and> length (ts_dimensions n) = length (ts_dimensions o')
        \<and> list_all (\<lambda>(k, d). case bm_get (ts_dimensions n) k of
              Some e \<Rightarrow> td_path e = td_path d \<and> set (td_values d) \<subseteq> set (td_values e) | None \<Rightarrow> False) (ts_dimensions o')
        \<and> set (ts_aggregations o') \<subseteq> set (ts_aggregations n) \<and> ts_max_resources n \<ge> ts_max_resources o'
    | (None, Some _) \<Rightarrow> False)"

record retention_policy =
  rp_key :: string
  rp_revision :: nat
  rp_raw_seconds :: nat
  rp_summary_seconds :: nat
  rp_restore_seconds :: nat

definition retention_validate :: "retention_policy \<Rightarrow> unit inventory_result" where
  "retention_validate p =
    (if rp_key p = [] \<or> length (rp_key p) > 64 \<or> \<not> starts_lower (rp_key p) \<or> \<not> lower_name (rp_key p)
       \<or> rp_revision p = 0 \<or> rp_revision p > i64_max_nat \<or> rp_raw_seconds p = 0
       \<or> rp_summary_seconds p < rp_raw_seconds p \<or> rp_restore_seconds p > rp_raw_seconds p
     then Inl (Fail InvalidValue) else Inr ())"

subsection \<open>Definitions of fields\<close>

definition item_key_type_ok :: "string \<Rightarrow> value_type \<Rightarrow> bool" where
  "item_key_type_ok key items = (case find (\<lambda>(name, _, required). name = key \<and> required) (vt_properties items) of
      Some (_, VtString _ allow_empty, _) \<Rightarrow> \<not> allow_empty
    | Some (_, VtInteger, _) \<Rightarrow> True
    | _ \<Rightarrow> False)"

definition definition_validate :: "inventory_lib \<Rightarrow> field_definition \<Rightarrow> unit inventory_result" where
  "definition_validate lib f =
    bind_res (vt_validate (fd_value_type f)) (\<lambda>_.
    bind_res (validate_time_series lib f) (\<lambda>_.
    if fd_sensitivity f = Secret \<and> (fd_manual f \<or> fd_searchable f \<or> fd_time_series f \<noteq> None) then Inl (Fail InvalidValue)
    else if fd_version f = 0 \<or> fd_version f > i64_max_nat \<or> fd_sources f = [] \<or> fd_platforms f = []
       \<or> fd_manual f \<noteq> (Manual \<in> fst ` set (fd_sources f))
       \<or> (case fd_unit f of Some u \<Rightarrow> u = [] \<or> length u > 64 \<or> has_control u | None \<Rightarrow> False) then Inl (Fail InvalidValue)
    else (case fd_item_key f of
        None \<Rightarrow> Inr ()
      | Some key \<Rightarrow>
          (case fd_value_type f of
             VtArray items _ \<Rightarrow> if item_key_type_ok key items then Inr () else Inl (Fail TypeMismatch)
           | _ \<Rightarrow> Inl (Fail TypeMismatch)))))"

subsection \<open>The series of a field\<close>

record dimension_rules =
  dr_max_count :: nat
  dr_allowed :: "string list"
  dr_required :: "string list"
  dr_max_value_bytes :: nat
  dr_max_total_bytes :: nat

record 'scope definition_spec =
  ds_scope :: 'scope
  ds_key :: string
  ds_version :: nat
  ds_unit :: string
  ds_metric :: series_metric
  ds_dimensions :: dimension_rules

text \<open>\<^verbatim>\<open>Definition::new\<close> belongs to the time-series library: \<open>new_definition\<close> is its answer.\<close>

definition time_series_definition ::
  "inventory_lib \<Rightarrow> ('scope definition_spec \<Rightarrow> 'd option) \<Rightarrow> field_definition \<Rightarrow> 'scope \<Rightarrow> 'd inventory_result" where
  "time_series_definition lib new_definition f scope =
    bind_res (definition_validate lib f) (\<lambda>_.
    bind_res (ok_or InvalidValue (fd_time_series f)) (\<lambda>b.
    let root = (case fd_value_type f of VtArray items _ \<Rightarrow> items | ty \<Rightarrow> ty) in
    bind_res (map_res (series_id lib) (bm_keys (ts_dimensions b))) (\<lambda>keys.
    bind_res (series_id lib (fd_key f)) (\<lambda>key.
    bind_res (series_id lib (case fd_unit f of Some u \<Rightarrow> u | None \<Rightarrow> ''1'')) (\<lambda>unit'.
    bind_res (select_type root (ts_value_path b)) (\<lambda>ty.
    bind_res (metric lib ty (ts_kind b)) (\<lambda>m.
    ok_or InvalidValue (new_definition \<lparr>ds_scope = scope, ds_key = key, ds_version = fd_version f, ds_unit = unit', ds_metric = m,
      ds_dimensions = \<lparr>dr_max_count = length keys mod 65536, dr_allowed = keys, dr_required = keys,
        dr_max_value_bytes = 256, dr_max_total_bytes = 32768\<rparr>\<rparr>))))))))"

section \<open>Values of fields\<close>

text \<open>The characters of a string with their bytes, and \<^verbatim>\<open>str::trim\<close>.\<close>

function char_pieces :: "string \<Rightarrow> (nat \<times> string) list" where
  "char_pieces s = (case next_char s of None \<Rightarrow> [] | Some (c, n) \<Rightarrow> (c, take n s) # char_pieces (drop n s))"
  by pat_completeness auto
termination
  by (relation "measure length") (auto dest: next_char_bounds)

declare char_pieces.simps [simp del]

definition str_trim :: "string \<Rightarrow> string" where
  "str_trim s = concat (map snd (rev (dropWhile (\<lambda>(c, _). char_is_whitespace c)
     (rev (dropWhile (\<lambda>(c, _). char_is_whitespace c) (char_pieces s))))))"

definition placeholders :: "string list" where
  "placeholders = [''UNKNOWN'', ''NONE'', ''NULL'', ''N/A'', ''NA'', ''NOT SPECIFIED'', ''NOT APPLICABLE'', ''DEFAULT STRING'',
     ''SYSTEM SERIAL NUMBER'', ''TO BE FILLED BY O.E.M.'', ''TO BE FILLED BY OEM'']"

definition hardware_text :: "inventory_lib \<Rightarrow> string \<Rightarrow> string inventory_result" where
  "hardware_text lib v = (let value = il_uppercase lib (str_trim v) in
     if value = [] \<or> length value > 256 \<or> has_control value \<or> value \<in> set placeholders
       \<or> list_all (\<lambda>c. c = CHR ''0'' \<or> c = CHR ''-'' \<or> c = CHR '' '') value
     then Inl (Fail InvalidValue) else Inr value)"

definition normalize_serial_number :: "inventory_lib \<Rightarrow> string \<Rightarrow> string inventory_result" where
  "normalize_serial_number lib v = hardware_text lib v"

definition normalize_hardware_uuid :: "inventory_lib \<Rightarrow> string \<Rightarrow> string inventory_result" where
  "normalize_hardware_uuid lib v =
    bind_res (hardware_text lib v) (\<lambda>t.
    bind_res (ok_or InvalidValue (il_uuid_parse lib t)) (\<lambda>u.
    if uuid_is_nil u \<or> u = - 1 \<or> u = 0x03000200040005000006000700080009 then Inl (Fail InvalidValue)
    else Inr (il_uuid_str lib u)))"

definition hardware_value :: "inventory_lib \<Rightarrow> field_definition \<Rightarrow> asset_scalar \<Rightarrow> string option inventory_result" where
  "hardware_value lib f value =
    (if fd_key f = ''device.serial_number'' then
       (case value of AString s \<Rightarrow> bind_res (normalize_serial_number lib s) (\<lambda>t. Inr (Some t)) | _ \<Rightarrow> Inl (Fail TypeMismatch))
     else if fd_key f = ''device.hardware_uuid'' then
       (case value of AString s \<Rightarrow> bind_res (normalize_hardware_uuid lib s) (\<lambda>t. Inr (Some t)) | _ \<Rightarrow> Inl (Fail TypeMismatch))
     else Inr None)"

subsection \<open>Installations\<close>

definition software_sid :: "string \<Rightarrow> bool" where
  "software_sid v \<longleftrightarrow> prefix ''S-1-'' v \<and>
     (case str_split CHR ''-'' (drop 4 v) of
        authority # parts \<Rightarrow> canonical_decimal u64_max authority
          \<and> (case parse_unsigned u64_max authority of Some n \<Rightarrow> n < 2 ^ 48 | None \<Rightarrow> False)
          \<and> list_all (canonical_decimal 4294967295) parts \<and> 1 \<le> length parts \<and> length parts \<le> 15
      | [] \<Rightarrow> False)"

definition row_text :: "(string \<times> asset_scalar) list \<Rightarrow> string \<Rightarrow> string inventory_result" where
  "row_text row key = (case bm_get row key of Some (AString v) \<Rightarrow> Inr v | _ \<Rightarrow> Inl (Fail InvalidValue))"

definition software_validate :: "asset_scalar \<Rightarrow> unit inventory_result" where
  "software_validate item = (case item of
      AObject row \<Rightarrow>
        bind_res (row_text row ''installation_state'') (\<lambda>state.
        bind_res (row_text row ''scope'') (\<lambda>scope.
        bind_res (row_text row ''owner'') (\<lambda>owner.
        bind_res (row_text row ''origin'') (\<lambda>origin.
        if \<not> ((scope = ''device'' \<and> owner = []) \<or> (scope = ''user'' \<and> owner \<noteq> [])) then Inl (Fail InvalidValue)
        else let windows = prefix ''win32.'' origin \<or> prefix ''msix.'' origin in
          if windows \<and> scope = ''user'' \<and> \<not> software_sid owner then Inl (Fail InvalidValue)
          else if (if origin = ''win32.uninstall.32'' \<or> origin = ''win32.uninstall.64'' then state = ''installed''
              else if origin = ''msix.registered'' then state = ''registered'' \<and> scope = ''user''
              else if origin = ''msix.provisioned'' then state = ''provisioned'' \<and> scope = ''device''
              else if windows then False else state = ''installed'') then Inr ()
          else Inl (Fail InvalidValue)))))
    | _ \<Rightarrow> Inl (Fail TypeMismatch))"

subsection \<open>Validation and canonical form\<close>

definition validate_item :: "inventory_lib \<Rightarrow> field_definition \<Rightarrow> asset_scalar \<Rightarrow> unit inventory_result" where
  "validate_item lib f value =
    (if fd_sensitivity f = Secret then Inl (Fail InvalidValue)
     else case fd_value_type f of
       VtArray items _ \<Rightarrow>
         bind_res (validate_value (il_time_ok lib) items value) (\<lambda>_.
         if fd_key f = ''device.software.installations'' then software_validate value else Inr ())
     | _ \<Rightarrow> Inl (Fail TypeMismatch))"

text \<open>The set of identities seen so far, as a list; an insertion that finds its element fails.\<close>

definition note_identity :: "string \<Rightarrow> asset_scalar \<Rightarrow> asset_scalar list \<Rightarrow> asset_scalar list inventory_result" where
  "note_identity key item seen = (case item of
      AObject properties \<Rightarrow> bind_res (ok_or InvalidValue (bm_get properties key)) (\<lambda>i.
        if i \<in> set seen then Inl (Fail InvalidValue) else Inr (i # seen))
    | _ \<Rightarrow> Inl (Fail TypeMismatch))"

definition validate_scalar :: "inventory_lib \<Rightarrow> field_definition \<Rightarrow> asset_scalar \<Rightarrow> unit inventory_result" where
  "validate_scalar lib f value =
    (if fd_sensitivity f = Secret then Inl (Fail InvalidValue)
     else bind_res (validate_value (il_time_ok lib) (fd_value_type f) value) (\<lambda>_.
       bind_res (hardware_value lib f value) (\<lambda>_.
       bind_res (case value of AArray items \<Rightarrow> fold_res (\<lambda>item _. validate_item lib f item) items () | _ \<Rightarrow> Inr ()) (\<lambda>_.
       (case (fd_item_key f, value) of
          (Some key, AArray items) \<Rightarrow> bind_res (fold_res (note_identity key) items []) (\<lambda>_. Inr ())
        | _ \<Rightarrow> Inr ())))))"

text \<open>The derived order of \<^verbatim>\<open>Scalar\<close>: first the variant, then the contents.\<close>

definition scalar_rank :: "asset_scalar \<Rightarrow> nat" where
  "scalar_rank v = (case v of AString _ \<Rightarrow> 0 | AInteger _ \<Rightarrow> 1 | ANumber _ \<Rightarrow> 2 | AArray _ \<Rightarrow> 3 | AObject _ \<Rightarrow> 4 | ABoolean _ \<Rightarrow> 5
     | ATime _ \<Rightarrow> 6)"

fun scalar_less :: "asset_scalar \<Rightarrow> asset_scalar \<Rightarrow> bool"
  and scalars_less :: "asset_scalar list \<Rightarrow> asset_scalar list \<Rightarrow> bool"
  and entries_less :: "(string \<times> asset_scalar) list \<Rightarrow> (string \<times> asset_scalar) list \<Rightarrow> bool" where
  "scalar_less (AString a) (AString b) = (a < b)"
| "scalar_less (AInteger a) (AInteger b) = (a < b)"
| "scalar_less (ANumber a) (ANumber b) = (a < b)"
| "scalar_less (AArray a) (AArray b) = scalars_less a b"
| "scalar_less (AObject a) (AObject b) = entries_less a b"
| "scalar_less (ABoolean a) (ABoolean b) = (a < b)"
| "scalar_less (ATime a) (ATime b) = (a < b)"
| "scalar_less a b = (scalar_rank a < scalar_rank b)"
| "scalars_less _ [] = False"
| "scalars_less [] (_ # _) = True"
| "scalars_less (a # as) (b # bs) = (scalar_less a b \<or> (a = b \<and> scalars_less as bs))"
| "entries_less _ [] = False"
| "entries_less [] (_ # _) = True"
| "entries_less ((k, a) # as) ((l, b) # bs) = (k < l \<or> (k = l \<and> (scalar_less a b \<or> (a = b \<and> entries_less as bs))))"

text \<open>The comparison of two items by their key property; \<open>None\<close> for the unreachable arm.\<close>

definition item_less :: "string \<Rightarrow> asset_scalar \<Rightarrow> asset_scalar \<Rightarrow> bool" where
  "item_less key a b = (case (a, b) of
      (AObject x, AObject y) \<Rightarrow>
        (case (bm_get x key, bm_get y key) of
           (None, Some _) \<Rightarrow> True | (Some v, Some w) \<Rightarrow> scalar_less v w | _ \<Rightarrow> False)
    | _ \<Rightarrow> False)"

definition is_object :: "asset_scalar \<Rightarrow> bool" where
  "is_object v = (case v of AObject _ \<Rightarrow> True | _ \<Rightarrow> False)"

definition canonical_value :: "inventory_lib \<Rightarrow> field_definition \<Rightarrow> asset_scalar \<Rightarrow> asset_scalar inventory_result" where
  "canonical_value lib f value0 =
    bind_res (hardware_value lib f value0) (\<lambda>h.
    let value = (case h of Some t \<Rightarrow> AString t | None \<Rightarrow> value0) in
    bind_res (validate_scalar lib f value) (\<lambda>_.
    case (fd_item_key f, value) of
      (Some key, AArray items) \<Rightarrow>
        if length items > 1 \<and> \<not> list_all is_object items then Inl Panic else Inr (AArray (order_by (item_less key) items))
    | _ \<Rightarrow> Inr value))"

datatype asset_operator = OpEq | OpNe | OpIn | OpNotIn | OpLt | OpLe | OpGt | OpGe | OpContains | OpNotContains | OpContainsAny
  | OpContainsAll | OpIsNull | OpIsNotNull

definition structured :: "value_type \<Rightarrow> bool" where
  "structured t = (case t of VtObject _ \<Rightarrow> True | VtRecord _ \<Rightarrow> True | _ \<Rightarrow> False)"

definition operations :: "field_definition \<Rightarrow> asset_operator list" where
  "operations f =
    (let ty = fd_value_type f in
     if \<not> fd_searchable f \<or> structured ty
       \<or> (case ty of VtArray items _ \<Rightarrow> structured items \<or> (case items of VtArray _ _ \<Rightarrow> True | _ \<Rightarrow> False) | _ \<Rightarrow> False)
     then []
     else (case ty of VtArray _ _ \<Rightarrow> [OpContainsAny, OpContainsAll] | VtObject _ \<Rightarrow> [] | VtRecord _ \<Rightarrow> [] | _ \<Rightarrow> [OpEq, OpNe, OpIn, OpNotIn])
       @ (case vt_kind ty of
            AkString \<Rightarrow> (case ty of VtEnum _ \<Rightarrow> [] | _ \<Rightarrow> [OpContains, OpNotContains])
          | AkInteger \<Rightarrow> [OpLt, OpLe, OpGt, OpGe] | AkNumber \<Rightarrow> [OpLt, OpLe, OpGt, OpGe] | AkTime \<Rightarrow> [OpLt, OpLe, OpGt, OpGe]
          | _ \<Rightarrow> [])
       @ (if fd_nullable f then [OpIsNull, OpIsNotNull] else []))"

section \<open>The catalog\<close>

type_synonym catalog = "(string, field_definition) btree_map"

definition dot_prefixes :: "string \<Rightarrow> string list" where
  "dot_prefixes name = map (\<lambda>i. take i name) (filter (\<lambda>i. name ! i = CHR ''.'') [0..<length name])"

definition add_definition :: "inventory_lib \<Rightarrow> field_definition \<Rightarrow> catalog \<Rightarrow> catalog inventory_result" where
  "add_definition lib d cat =
    bind_res (definition_validate lib d) (\<lambda>_.
    case bm_put (fd_key d) d cat of (cat2, old) \<Rightarrow>
      if old \<noteq> None then Inl (Fail DuplicateField) else Inr cat2)"

definition catalog_new :: "inventory_lib \<Rightarrow> field_definition list \<Rightarrow> catalog inventory_result" where
  "catalog_new lib definitions =
    (if length definitions > 1024 then Inl (Fail InvalidValue)
     else bind_res (fold_res (add_definition lib) definitions []) (\<lambda>cat.
       if list_ex (\<lambda>name. list_ex (\<lambda>parent. is_ok (key_parse parent) \<and> bm_get cat parent \<noteq> None) (dot_prefixes name)) (bm_keys cat)
       then Inl (Fail DuplicateField) else Inr cat))"

definition catalog_definition :: "catalog \<Rightarrow> string \<Rightarrow> field_definition inventory_result" where
  "catalog_definition cat key = ok_or UnknownField (bm_get cat key)"

subsection \<open>Paths\<close>

record field_path =
  fp_root :: field_definition
  fp_value_type :: value_type
  fp_many :: bool
  fp_segments :: "string list"

fun strip_arrays :: "value_type \<Rightarrow> bool \<Rightarrow> value_type \<times> bool" where
  "strip_arrays (VtArray items _) many = strip_arrays items True"
| "strip_arrays ty many = (ty, many)"

definition path_step :: "string \<Rightarrow> value_type \<times> bool \<Rightarrow> (value_type \<times> bool) inventory_result" where
  "path_step part tm = (case strip_arrays (fst tm) (snd tm) of (ty, many) \<Rightarrow>
     bind_res (ok_or UnknownField (find (\<lambda>(key, _, _). key = part) (vt_properties ty))) (\<lambda>(_, t, _). Inr (t, many)))"

text \<open>The longest registered field that is a prefix of the key, and the rest after its dot. \<^verbatim>\<open>max_by_key\<close> keeps
  the last of the longest.\<close>

definition path_candidates :: "catalog \<Rightarrow> string \<Rightarrow> (field_definition \<times> string) list" where
  "path_candidates cat key = map (\<lambda>f. (f, drop (length (fd_key f) + 1) key))
     (filter (\<lambda>f. prefix (fd_key f @ [CHR ''.'']) key) (bm_values cat))"

definition longest_candidate :: "(field_definition \<times> string) list \<Rightarrow> (field_definition \<times> string) option" where
  "longest_candidate cs = foldl (\<lambda>best c. case best of None \<Rightarrow> Some c
     | Some b \<Rightarrow> if length (fd_key (fst c)) \<ge> length (fd_key (fst b)) then Some c else Some b) None cs"

definition catalog_path :: "catalog \<Rightarrow> string \<Rightarrow> field_path inventory_result" where
  "catalog_path cat key =
    bind_res (case bm_get cat key of
        Some f \<Rightarrow> Inr (f, [])
      | None \<Rightarrow> ok_or UnknownField (longest_candidate (path_candidates cat key))) (\<lambda>(f, suffix).
    let segments = (if suffix = [] then [] else str_split CHR ''.'' suffix) in
    bind_res (fold_res path_step segments (fd_value_type f, False)) (\<lambda>(ty, many).
    case strip_arrays ty many of (ty, many) \<Rightarrow>
      Inr \<lparr>fp_root = f, fp_value_type = ty, fp_many = many, fp_segments = segments\<rparr>))"

lemma size_entry: "map_of kvs k = Some v \<Longrightarrow> size v < Suc (size_list (size_prod (\<lambda>x. 0) size) kvs)"
  by (drule map_of_SomeD, rule le_imp_less_Suc, rule size_list_estimation' [of "(k, v)"]) auto

lemma size_item: "v \<in> set vs \<Longrightarrow> size v < Suc (size_list size vs)"
  by (rule le_imp_less_Suc, rule size_list_estimation') auto

lemma find_member: "find P xs = Some x \<Longrightarrow> x \<in> set xs \<and> P x"
  by (auto simp: find_Some_iff)

function collect_leaves :: "asset_scalar \<Rightarrow> string list \<Rightarrow> asset_scalar list inventory_result" where
  "collect_leaves value parts = (case value of
      AArray vs \<Rightarrow> bind_res (map_res (\<lambda>v. collect_leaves v parts) vs) (\<lambda>ls. Inr (concat ls))
    | _ \<Rightarrow>
        (case parts of
           [] \<Rightarrow> Inr [value]
         | part # rest_parts \<Rightarrow>
             (case value of
                AObject kvs \<Rightarrow> (case bm_get kvs part of Some v \<Rightarrow> collect_leaves v rest_parts | None \<Rightarrow> Inr [])
              | _ \<Rightarrow> Inl (Fail TypeMismatch))))"
  by pat_completeness auto
termination
  by (relation "measure (\<lambda>(v, ps). size v)") (auto intro: size_entry size_item)

declare collect_leaves.simps [simp del]

definition path_values :: "inventory_lib \<Rightarrow> field_path \<Rightarrow> asset_scalar \<Rightarrow> asset_scalar list inventory_result" where
  "path_values lib p value = bind_res (validate_scalar lib (fp_root p) value) (\<lambda>_. collect_leaves value (fp_segments p))"

definition path_item_values :: "inventory_lib \<Rightarrow> field_path \<Rightarrow> asset_scalar \<Rightarrow> asset_scalar list inventory_result" where
  "path_item_values lib p value = bind_res (validate_item lib (fp_root p) value) (\<lambda>_. collect_leaves value (fp_segments p))"

subsection \<open>Decoding\<close>

text \<open>The value of a JSON document under a type, checked against the type at every level.\<close>

function decode_value :: "inventory_lib \<Rightarrow> value_type \<Rightarrow> json \<Rightarrow> asset_scalar inventory_result" where
  "decode_value lib ty j =
    bind_res (case (ty, j) of
        (VtString _ _, JString s) \<Rightarrow> Inr (AString s)
      | (VtEnum _, JString s) \<Rightarrow> Inr (AString s)
      | (VtInteger, JNumber (JInt n)) \<Rightarrow> bind_res (ok_or TypeMismatch (checked_i64 n)) (\<lambda>n. Inr (AInteger n))
      | (VtNumber, JNumber n) \<Rightarrow> bind_res (ok_or TypeMismatch (il_json_f64 lib n)) (\<lambda>x. Inr (ANumber x))
      | (VtBoolean, JBool b) \<Rightarrow> Inr (ABoolean b)
      | (VtTime, JNumber (JInt n)) \<Rightarrow> bind_res (ok_or TypeMismatch (checked_i64 n)) (\<lambda>n. Inr (ATime n))
      | (VtArray items max_items, JArray vs) \<Rightarrow>
          if length vs \<le> max_items
          then bind_res (map_res (decode_value lib items) vs) (\<lambda>xs. Inr (AArray xs)) else Inl (Fail TypeMismatch)
      | (_, JObject kvs) \<Rightarrow>
          if structured ty
          then bind_res (map_res (\<lambda>(k, v).
              case find (\<lambda>(name, _, _). name = k) (vt_properties ty) of
                Some (_, t, _) \<Rightarrow> bind_res (decode_value lib t v) (\<lambda>x. Inr (k, x))
              | None \<Rightarrow> Inl (Fail TypeMismatch)) kvs) (\<lambda>xs. Inr (AObject (bm_of_list xs)))
          else Inl (Fail TypeMismatch)
      | _ \<Rightarrow> Inl (Fail TypeMismatch)) (\<lambda>x.
    bind_res (validate_value (il_time_ok lib) ty x) (\<lambda>_. Inr x))"
  by pat_completeness auto
termination
  by (relation "measure (\<lambda>(_, ty, _). size ty)") (auto simp: structured_def intro: size_record size_object split: value_type.splits dest!: find_member)

declare decode_value.simps [simp del]

end
