(* ===== verification/Inventory_Catalog_Properties.thy ===== *)
theory Inventory_Catalog_Properties
  imports Inventory_Catalog
begin

text \<open>
  Types, paths and canonical values: an extended type keeps every old value, the leaves of a path have the
  type of the path, and a keyed list has one canonical form whatever the order of its items.
\<close>

section \<open>Valid values\<close>

abbreviation value_ok :: "(int \<Rightarrow> bool) \<Rightarrow> value_type \<Rightarrow> asset_scalar \<Rightarrow> bool" where
  "value_ok time_ok ty v \<equiv> validate_value time_ok ty v = Inr ()"

lemma fold_res_unit: "fold_res (\<lambda>x (_::unit). f x) xs () = Inr () \<longleftrightarrow> (\<forall>x \<in> set xs. f x = Inr ())"
  by (induction xs) auto

lemma if_Inl_conv: "(if c then Inl e else m) = Inr x \<longleftrightarrow> \<not> c \<and> m = Inr x"
  by simp

lemma value_ok_string:
  "value_ok tm ty (AString s) \<longleftrightarrow> scalar_validate tm (AString s) = Inr () \<and>
    ((\<exists>n e. ty = VtString n e \<and> (e \<or> s \<noteq> []) \<and> char_count s \<le> n) \<or> (\<exists>vs. ty = VtEnum vs \<and> s \<in> set vs))"
  by (subst validate_value.simps) (auto split: value_type.splits)

lemma value_ok_array:
  "value_ok tm ty (AArray vs) \<longleftrightarrow> scalar_validate tm (AArray vs) = Inr () \<and>
    (\<exists>items n. ty = VtArray items n \<and> length vs \<le> n \<and> (\<forall>v \<in> set vs. value_ok tm items v))"
  by (subst validate_value.simps) (auto simp: fold_res_unit split: value_type.splits)

lemma value_ok_object:
  "value_ok tm ty (AObject vs) \<longleftrightarrow> scalar_validate tm (AObject vs) = Inr () \<and> structured ty \<and>
    fst ` set vs \<subseteq> fst ` set (vt_properties ty) \<and>
    (\<forall>(k, t, r) \<in> set (vt_properties ty). case bm_get vs k of Some v \<Rightarrow> value_ok tm t v | None \<Rightarrow> \<not> r)"
proof -
  let ?f = "\<lambda>(k, t, required). case bm_get vs k of Some v \<Rightarrow> validate_value tm t v
      | None \<Rightarrow> if \<not> required then Inr () else Inl (Fail TypeMismatch)"
  have fold: "fold_res (\<lambda>(k, t, required) _. case bm_get vs k of Some v \<Rightarrow> validate_value tm t v
      | None \<Rightarrow> if \<not> required then Inr () else Inl (Fail TypeMismatch)) ps () = Inr () \<longleftrightarrow>
    (\<forall>(k, t, r) \<in> set ps. case bm_get vs k of Some v \<Rightarrow> value_ok tm t v | None \<Rightarrow> \<not> r)" for ps
  proof -
    have "(\<lambda>(k, t, required) (_::unit). case bm_get vs k of Some v \<Rightarrow> validate_value tm t v
        | None \<Rightarrow> if \<not> required then Inr () else Inl (Fail TypeMismatch)) = (\<lambda>x _. ?f x)"
      by (auto simp: fun_eq_iff)
    then have "fold_res (\<lambda>(k, t, required) _. case bm_get vs k of Some v \<Rightarrow> validate_value tm t v
      | None \<Rightarrow> if \<not> required then Inr () else Inl (Fail TypeMismatch)) ps () = fold_res (\<lambda>x _. ?f x) ps ()" by simp
    also have "\<dots> = Inr () \<longleftrightarrow> (\<forall>x \<in> set ps. ?f x = Inr ())" by (rule fold_res_unit)
    also have "\<dots> \<longleftrightarrow> (\<forall>(k, t, r) \<in> set ps. case bm_get vs k of Some v \<Rightarrow> value_ok tm t v | None \<Rightarrow> \<not> r)"
      by (intro ball_cong) (auto split: option.splits)
    finally show ?thesis .
  qed
  have key: "list_ex (\<lambda>(name, _, _). name = k) ps \<longleftrightarrow> k \<in> fst ` set ps" for k and ps :: "(string \<times> value_type \<times> bool) list"
    by (induction ps) auto
  have keys: "list_ex (\<lambda>k. \<not> list_ex (\<lambda>(name, _, _). name = k) ps) (map fst vs) \<longleftrightarrow> \<not> fst ` set vs \<subseteq> fst ` set ps"
    for ps :: "(string \<times> value_type \<times> bool) list"
    unfolding key by (simp only: list_ex_iff set_map subset_iff) blast
  show ?thesis
    by (subst validate_value.simps, cases ty) (simp_all only: structured_def fold keys value_type.case asset_scalar.case prod.case
        bind_res_Inr_conv if_Inl_conv simp_thms if_True if_False sum.distinct, auto)
qed

section \<open>Extension\<close>

text \<open>Member names are the keys of a map.\<close>

function vt_wf :: "value_type \<Rightarrow> bool" where
  "vt_wf ty \<longleftrightarrow> (case ty of
      VtArray items _ \<Rightarrow> vt_wf items
    | VtObject ps \<Rightarrow> distinct (map fst ps) \<and> list_all (\<lambda>(_, t). vt_wf t) ps
    | VtRecord ps \<Rightarrow> distinct (map fst ps) \<and> list_all (\<lambda>(_, t, _). vt_wf t) ps
    | _ \<Rightarrow> True)"
  by pat_completeness auto
termination
  by (relation "measure size") (auto intro: size_record size_object)

declare vt_wf.simps [simp del]

lemma vt_wf_cases:
  "vt_wf (VtArray items n) \<longleftrightarrow> vt_wf items"
  "vt_wf (VtObject ps) \<longleftrightarrow> distinct (map fst ps) \<and> (\<forall>(k, t) \<in> set ps. vt_wf t)"
  "vt_wf (VtRecord rs) \<longleftrightarrow> distinct (map fst rs) \<and> (\<forall>(k, t, r) \<in> set rs. vt_wf t)"
  by (subst vt_wf.simps, simp add: list_all_iff)+

lemma extends_array: "vt_extends new (VtArray items n) \<longleftrightarrow> (\<exists>items' m. new = VtArray items' m \<and> m \<ge> n \<and> vt_extends items' items)"
  by (subst vt_extends.simps) (cases new, auto)

lemma case_option_ex: "(case x of Some v \<Rightarrow> P v | None \<Rightarrow> False) \<longleftrightarrow> (\<exists>v. x = Some v \<and> P v)"
  by (cases x) auto

lemma extends_object_object:
  "vt_extends (VtObject new) (VtObject old) \<longleftrightarrow> length new = length old \<and>
    (\<forall>(k, t) \<in> set old. \<exists>v. map_of new k = Some v \<and> vt_extends v t)"
  by (subst vt_extends.simps) (simp add: list_all_iff case_option_ex)

lemma extends_record_object:
  "vt_extends (VtRecord new) (VtObject old) \<longleftrightarrow>
    (\<forall>(k, t) \<in> set old. \<exists>v r. map_of new k = Some (v, r) \<and> vt_extends v t) \<and>
    (\<forall>(k, t, r) \<in> set new. k \<in> fst ` set old \<or> \<not> r)"
  by (subst vt_extends.simps) (simp add: list_all_iff case_option_ex case_prod_beta)

lemma extends_record_record:
  "vt_extends (VtRecord new) (VtRecord old) \<longleftrightarrow>
    (\<forall>(k, t, q) \<in> set old. \<exists>v r. map_of new k = Some (v, r) \<and> (\<not> r \<or> q) \<and> vt_extends v t) \<and>
    (\<forall>(k, t, r) \<in> set new. k \<in> fst ` set old \<or> \<not> r)"
  by (subst vt_extends.simps) (simp add: list_all_iff case_option_ex case_prod_beta)

lemma extends_structured:
  assumes "vt_extends new old" "structured old"
  shows "(\<exists>n o'. new = VtObject n \<and> old = VtObject o') \<or> (\<exists>n o'. new = VtRecord n \<and> old = VtObject o')
    \<or> (\<exists>n o'. new = VtRecord n \<and> old = VtRecord o')"
  using assms by (subst (asm) vt_extends.simps) (cases new; cases old; simp add: structured_def)

text \<open>All three cases in terms of the members: every old member is kept, and a new one is optional.\<close>

lemma map_of_ex: "distinct (map fst ps) \<Longrightarrow> (\<exists>v. map_of ps k = Some v \<and> P v) \<longleftrightarrow> (\<exists>v. (k, v) \<in> set ps \<and> P v)"
  by (simp add: map_of_eq_Some_iff)

lemma object_object_optional:
  assumes "length n = length o'" "distinct (map fst n)" "distinct (map fst o')" "fst ` set o' \<subseteq> fst ` set n"
  shows "fst ` set n = fst ` set o'"
  using assms by (metis List.finite_set card_subset_eq distinct_card finite_imageI length_map set_map)

lemma vt_properties_keys: "fst ` set (vt_properties (VtObject ps)) = fst ` set ps"
  by force

lemma extends_properties:
  assumes "vt_extends new old" "structured old" "vt_wf new" "vt_wf old"
  shows "structured new \<and> distinct (map fst (vt_properties new)) \<and> (\<forall>(k, x, r) \<in> set (vt_properties new). vt_wf x) \<and>
    (\<forall>(k, t, q) \<in> set (vt_properties old). \<exists>x r. (k, x, r) \<in> set (vt_properties new) \<and> (r \<longrightarrow> q) \<and> vt_extends x t) \<and>
    (\<forall>(k, x, r) \<in> set (vt_properties new). k \<in> fst ` set (vt_properties old) \<or> \<not> r)"
  using extends_structured [OF assms(1,2)]
proof (elim disjE exE conjE)
  fix n o' assume e: "new = VtObject n" "old = VtObject o'"
  have wf: "distinct (map fst n)" "distinct (map fst o')" "\<forall>(k, t) \<in> set n. vt_wf t" using assms(3,4) e by (simp_all add: vt_wf_cases)
  note ext = assms(1) [unfolded e extends_object_object map_of_ex [OF wf(1)]]
  have "k \<in> fst ` set n" if "(k, t) \<in> set o'" for k t
    using bspec [OF conjunct2 [OF ext] that] by (auto intro: rev_image_eqI)
  then have "fst ` set o' \<subseteq> fst ` set n" by auto
  then have eq: "fst ` set n = fst ` set o'" using ext wf by (intro object_object_optional) auto
  have "map fst (vt_properties new) = map fst n" by (simp add: e comp_def case_prod_beta)
  then have "distinct (map fst (vt_properties new))" using wf(1) by simp
  moreover have "\<forall>(k, x, r) \<in> set (vt_properties new). k \<in> fst ` set (vt_properties old)"
    using eq unfolding e vt_properties_keys by force
  moreover have "\<forall>(k, t, q) \<in> set (vt_properties old). \<exists>x r. (k, x, r) \<in> set (vt_properties new) \<and> (r \<longrightarrow> q) \<and> vt_extends x t"
    using ext unfolding e by force
  moreover have "\<forall>(k, x, r) \<in> set (vt_properties new). vt_wf x" using wf(3) unfolding e by auto
  moreover have "structured new" by (simp add: e structured_def)
  ultimately show ?thesis by blast
next
  fix n o' assume e: "new = VtRecord n" "old = VtObject o'"
  have wf: "distinct (map fst n)" "\<forall>(k, t, r) \<in> set n. vt_wf t" using assms(3) e by (simp_all add: vt_wf_cases)
  note ext = assms(1) [unfolded e extends_record_object]
  have "\<forall>(k, t, q) \<in> set (vt_properties old). \<exists>x r. (k, x, r) \<in> set (vt_properties new) \<and> (r \<longrightarrow> q) \<and> vt_extends x t"
    using ext unfolding e by (fastforce dest: map_of_SomeD)
  moreover have "\<forall>(k, x, r) \<in> set (vt_properties new). k \<in> fst ` set (vt_properties old) \<or> \<not> r"
    using ext unfolding e vt_properties_keys by simp
  ultimately show ?thesis using wf by (simp add: e structured_def)
next
  fix n o' assume e: "new = VtRecord n" "old = VtRecord o'"
  have wf: "distinct (map fst n)" "\<forall>(k, t, r) \<in> set n. vt_wf t" using assms(3) e by (simp_all add: vt_wf_cases)
  note ext = assms(1) [unfolded e extends_record_record]
  have "\<forall>(k, t, q) \<in> set o'. \<exists>x r. (k, x, r) \<in> set n \<and> (r \<longrightarrow> q) \<and> vt_extends x t"
    using ext by (fastforce dest: map_of_SomeD)
  then show ?thesis using wf ext by (simp add: e structured_def)
qed

lemma size_properties: "(k, t, r) \<in> set (vt_properties ty) \<Longrightarrow> size t < size ty"
  by (cases ty) (auto intro: size_record size_object)

lemma vt_wf_properties: "vt_wf ty \<Longrightarrow> (k, t, r) \<in> set (vt_properties ty) \<Longrightarrow> vt_wf t"
  by (cases ty) (auto simp: vt_wf_cases)

lemma extends_object_value:
  assumes ext: "vt_extends new old" and wf: "vt_wf new" "vt_wf old" and ok: "value_ok tm old (AObject vs)"
    and sub: "\<And>k t q x v. (k, t, q) \<in> set (vt_properties old) \<Longrightarrow> vt_extends x t \<Longrightarrow> vt_wf x \<Longrightarrow> value_ok tm t v \<Longrightarrow> value_ok tm x v"
  shows "value_ok tm new (AObject vs)"
proof -
  let ?new = "set (vt_properties new)" and ?old = "set (vt_properties old)"
  have old: "scalar_validate tm (AObject vs) = Inr ()" "structured old" "fst ` set vs \<subseteq> fst ` ?old"
    "\<forall>(k, t, r) \<in> ?old. case bm_get vs k of Some v \<Rightarrow> value_ok tm t v | None \<Rightarrow> \<not> r"
    using ok by (simp_all add: value_ok_object)
  have new: "structured new" "distinct (map fst (vt_properties new))" "\<forall>(k, x, r) \<in> ?new. vt_wf x"
    "\<forall>(k, t, q) \<in> ?old. \<exists>x r. (k, x, r) \<in> ?new \<and> (r \<longrightarrow> q) \<and> vt_extends x t"
    "\<forall>(k, x, r) \<in> ?new. k \<in> fst ` ?old \<or> \<not> r"
    using extends_properties [OF ext old(2) wf] by blast+
  have unique: "x = y \<and> r = s" if "(k, x, r) \<in> ?new" "(k, y, s) \<in> ?new" for k x y r s
    using eq_key_imp_eq_value [OF new(2)] that by fastforce
  have kept: "\<exists>t q. (k, t, q) \<in> ?old \<and> (r \<longrightarrow> q) \<and> vt_extends x t" if "(k, x, r) \<in> ?new" "k \<in> fst ` ?old" for k x r
  proof -
    from that(2) obtain t q where tq: "(k, t, q) \<in> ?old" by force
    from bspec [OF new(4) tq] obtain y s where "(k, y, s) \<in> ?new" "s \<longrightarrow> q" "vt_extends y t" by auto
    with unique [OF that(1)] tq show ?thesis by blast
  qed
  have "k \<in> fst ` ?new" if "(k, t, q) \<in> ?old" for k t q
    using bspec [OF new(4) that] by (auto intro: rev_image_eqI)
  then have "fst ` ?old \<subseteq> fst ` ?new" by auto
  with old(3) have "fst ` set vs \<subseteq> fst ` ?new" by blast
  moreover have "case bm_get vs k of Some v \<Rightarrow> value_ok tm x v | None \<Rightarrow> \<not> r" if p: "(k, x, r) \<in> ?new" for k x r
  proof (cases "bm_get vs k")
    case None
    show ?thesis
    proof (cases "k \<in> fst ` ?old")
      case True
      with kept [OF p] obtain t q where tq: "(k, t, q) \<in> ?old" "r \<longrightarrow> q" by blast
      from bspec [OF old(4) tq(1)] tq(2) None show ?thesis by simp
    next
      case False
      from bspec [OF new(5) p] False None show ?thesis by simp
    qed
  next
    case (Some v)
    then have "k \<in> fst ` ?old" using old(3) by (metis domI dom_map_of_conv_image_fst subsetD)
    with kept [OF p] obtain t q where t: "(k, t, q) \<in> ?old" "vt_extends x t" by blast
    from bspec [OF old(4) t(1)] Some have "value_ok tm t v" by simp
    moreover have "vt_wf x" using bspec [OF new(3) p] by simp
    ultimately show ?thesis using sub t Some by simp
  qed
  ultimately show ?thesis using old(1) new(1) by (auto simp: value_ok_object)
qed

lemma extends_value_ok:
  "vt_extends new old \<Longrightarrow> vt_wf new \<Longrightarrow> vt_wf old \<Longrightarrow> value_ok tm old v \<Longrightarrow> value_ok tm new v"
proof (induction "size old" arbitrary: new old v rule: less_induct)
  case less
  show ?case
  proof (cases v)
    case (AString s)
    with less.prems(4) have old: "scalar_validate tm (AString s) = Inr ()"
      "(\<exists>n e. old = VtString n e \<and> (e \<or> s \<noteq> []) \<and> char_count s \<le> n) \<or> (\<exists>vs. old = VtEnum vs \<and> s \<in> set vs)"
      by (simp_all add: value_ok_string)
    have "(\<exists>n e. new = VtString n e \<and> (e \<or> s \<noteq> []) \<and> char_count s \<le> n) \<or> (\<exists>vs. new = VtEnum vs \<and> s \<in> set vs)"
      using less.prems(1) old(2) by (subst (asm) vt_extends.simps) (cases new, auto)
    then show ?thesis using old(1) by (simp add: AString value_ok_string)
  next
    case (AArray vs)
    with less.prems(4) obtain items n where o': "old = VtArray items n" "length vs \<le> n" "\<forall>v \<in> set vs. value_ok tm items v"
      "scalar_validate tm (AArray vs) = Inr ()"
      by (auto simp: value_ok_array)
    with less.prems(1) obtain items' m where n': "new = VtArray items' m" "m \<ge> n" "vt_extends items' items"
      by (auto simp: extends_array)
    have "value_ok tm items' v" if "v \<in> set vs" for v
      using less.hyps [of items items' v] n' o' that less.prems(2,3) by (simp add: vt_wf_cases)
    then show ?thesis using n' o' by (auto simp: AArray value_ok_array)
  next
    case (AObject kvs)
    show ?thesis unfolding AObject
    proof (rule extends_object_value [OF less.prems(1-3)])
      show "value_ok tm old (AObject kvs)" using less.prems(4) AObject by simp
      show "value_ok tm x w" if "(k, t, q) \<in> set (vt_properties old)" "vt_extends x t" "vt_wf x" "value_ok tm t w" for k t q x w
        using less.hyps [OF size_properties [OF that(1)] that(2,3) _ that(4)] vt_wf_properties [OF less.prems(3) that(1)] by blast
    qed
  qed (use less.prems in \<open>subst (asm) vt_extends.simps, subst (asm) validate_value.simps, subst validate_value.simps,
      cases old; cases new; simp\<close>)+
qed

section \<open>Paths\<close>

lemma value_ok_plain:
  assumes "value_ok tm ty v" "\<And>vs. v \<noteq> AArray vs"
  shows "strip_arrays ty m = (ty, m)"
  using assms by (subst (asm) validate_value.simps) (cases ty; cases v; auto)

lemma value_ok_leaf:
  assumes "value_ok tm ty v" "\<And>vs. v \<noteq> AArray vs" "\<And>kvs. v \<noteq> AObject kvs"
  shows "vt_properties ty = []"
  using assms by (subst (asm) validate_value.simps) (cases ty; cases v; auto)

text \<open>The type at the end of a path.\<close>

definition path_type :: "value_type \<Rightarrow> string list \<Rightarrow> value_type \<Rightarrow> bool" where
  "path_type ty parts leaf \<longleftrightarrow> (\<exists>m t m'. fold_res path_step parts (ty, m) = Inr (t, m') \<and> leaf = fst (strip_arrays t m'))"

lemma strip_arrays_fst: "fst (strip_arrays ty m) = fst (strip_arrays ty m')"
  by (induction ty m rule: strip_arrays.induct) simp_all

lemma path_step_Inr: "path_step part (ty, m) = Inr (t, m') \<longleftrightarrow>
    (\<exists>name r. find (\<lambda>(key, _, _). key = part) (vt_properties (fst (strip_arrays ty m))) = Some (name, t, r)) \<and> m' = snd (strip_arrays ty m)"
  by (auto simp: path_step_def case_prod_beta)

lemma path_type_Nil: "path_type ty [] leaf \<longleftrightarrow> leaf = fst (strip_arrays ty False)"
  unfolding path_type_def using strip_arrays_fst by auto

lemma path_type_Cons:
  assumes "path_type ty (part # parts) leaf"
  obtains name t r where "find (\<lambda>(key, _, _). key = part) (vt_properties (fst (strip_arrays ty False))) = Some (name, t, r)"
    "path_type t parts leaf"
proof -
  from assms obtain m t m' t1 m1 where "path_step part (ty, m) = Inr (t1, m1)" "fold_res path_step parts (t1, m1) = Inr (t, m')"
    "leaf = fst (strip_arrays t m')"
    by (auto simp: path_type_def)
  then show thesis
    using that unfolding path_step_Inr strip_arrays_fst [of ty m False] path_type_def by blast
qed

lemma path_type_array: "path_type (VtArray items n) parts leaf \<Longrightarrow> path_type items parts leaf"
proof (cases parts)
  case Nil
  assume "path_type (VtArray items n) parts leaf"
  then show ?thesis by (simp add: Nil path_type_Nil strip_arrays_fst [of items True False])
next
  case (Cons part rest)
  assume "path_type (VtArray items n) parts leaf"
  then obtain m t m' where "fold_res path_step parts (VtArray items n, m) = Inr (t, m')" "leaf = fst (strip_arrays t m')"
    by (auto simp: path_type_def)
  moreover have "fold_res path_step parts (VtArray items n, m) = fold_res path_step parts (items, True)"
    by (simp add: Cons path_step_def)
  ultimately show ?thesis unfolding path_type_def by metis
qed

lemma leaves_sound:
  "value_ok tm ty v \<Longrightarrow> path_type ty parts leaf \<Longrightarrow>
    \<exists>ls. collect_leaves v parts = Inr ls \<and> (\<forall>l \<in> set ls. value_ok tm leaf l)"
proof (induction "size v" arbitrary: v ty parts rule: less_induct)
  case less
  show ?case
  proof (cases "\<exists>vs. v = AArray vs")
    case True
    then obtain vs where v: "v = AArray vs" by blast
    with less.prems(1) obtain items n where ty: "ty = VtArray items n" "\<forall>w \<in> set vs. value_ok tm items w" by (auto simp: value_ok_array)
    have part: "path_type items parts leaf" using less.prems(2) ty(1) path_type_array by blast
    have each: "\<exists>ls. collect_leaves w parts = Inr ls \<and> (\<forall>l \<in> set ls. value_ok tm leaf l)" if "w \<in> set vs" for w
      using less.hyps [of w items parts] size_item [OF that] v ty(2) that part by auto
    define g where "g w = (SOME ls. collect_leaves w parts = Inr ls)" for w
    have g: "collect_leaves w parts = Inr (g w) \<and> (\<forall>l \<in> set (g w). value_ok tm leaf l)" if "w \<in> set vs" for w
      using each [OF that] unfolding g_def by (metis (mono_tags, lifting) Inr_inject someI_ex)
    have "map_res (\<lambda>w. collect_leaves w parts) vs = Inr (map g vs)" using g by (intro map_res_total) blast
    then have "collect_leaves v parts = Inr (concat (map g vs))" by (subst collect_leaves.simps) (simp add: v)
    then show ?thesis using g by auto
  next
    case False
    then have strip: "strip_arrays ty m = (ty, m)" for m using value_ok_plain [OF less.prems(1)] by blast
    show ?thesis
    proof (cases parts)
      case Nil
      then have "leaf = ty" using less.prems(2) strip by (simp add: path_type_Nil)
      moreover have "collect_leaves v parts = Inr [v]" using False Nil by (subst collect_leaves.simps) (cases v, auto)
      ultimately show ?thesis using less.prems(1) by simp
    next
      case (Cons part rest)
      with less.prems(2) obtain name t r where f: "find (\<lambda>(key, _, _). key = part) (vt_properties ty) = Some (name, t, r)"
        "path_type t rest leaf"
        using path_type_Cons strip by (metis fst_conv)
      from find_member [OF f(1)] have mem: "(part, t, r) \<in> set (vt_properties ty)" by auto
      then obtain kvs where v: "v = AObject kvs" using value_ok_leaf [OF less.prems(1)] False by fastforce
      show ?thesis
      proof (cases "bm_get kvs part")
        case None
        then have "collect_leaves v parts = Inr []" by (subst collect_leaves.simps) (simp add: v Cons)
        then show ?thesis by simp
      next
        case (Some w)
        have "\<forall>(k, t, r) \<in> set (vt_properties ty). case bm_get kvs k of Some v \<Rightarrow> value_ok tm t v | None \<Rightarrow> \<not> r"
          using less.prems(1) v by (simp add: value_ok_object)
        from bspec [OF this mem] Some have "value_ok tm t w" by simp
        moreover have "size w < size v" using size_entry [OF Some] v by simp
        ultimately have "\<exists>ls. collect_leaves w rest = Inr ls \<and> (\<forall>l \<in> set ls. value_ok tm leaf l)"
          using less.hyps f(2) by blast
        moreover have "collect_leaves v parts = collect_leaves w rest"
          by (subst collect_leaves.simps) (simp add: v Cons Some)
        ultimately show ?thesis by simp
      qed
    qed
  qed
qed

lemma catalog_path_type:
  assumes "catalog_path cat key = Inr p"
  shows "path_type (fd_value_type (fp_root p)) (fp_segments p) (fp_value_type p)"
proof -
  from assms obtain f segments t m where "fold_res path_step segments (fd_value_type f, False) = Inr (t, m)"
    "p = \<lparr>fp_root = f, fp_value_type = fst (strip_arrays t m), fp_many = snd (strip_arrays t m), fp_segments = segments\<rparr>"
    by (auto simp: catalog_path_def Let_def case_prod_beta split: option.splits if_splits)
  then show ?thesis unfolding path_type_def by auto
qed

section \<open>Keyed lists\<close>

text \<open>Identities are texts or integers, and on these the derived order is a strict linear order.\<close>

definition item_identity :: "string \<Rightarrow> asset_scalar \<Rightarrow> asset_scalar option" where
  "item_identity key item = (case item of AObject kvs \<Rightarrow> bm_get kvs key | _ \<Rightarrow> None)"

definition plain_identity :: "asset_scalar \<Rightarrow> bool" where
  "plain_identity v = (case v of AString _ \<Rightarrow> True | AInteger _ \<Rightarrow> True | _ \<Rightarrow> False)"

definition identity_less :: "string \<Rightarrow> asset_scalar \<Rightarrow> asset_scalar \<Rightarrow> bool" where
  "identity_less key a b = (case (item_identity key a, item_identity key b) of
     (Some x, Some y) \<Rightarrow> plain_identity x \<and> plain_identity y \<and> scalar_less x y | _ \<Rightarrow> False)"

lemma plain_trans: "plain_identity x \<Longrightarrow> plain_identity y \<Longrightarrow> plain_identity z \<Longrightarrow> scalar_less x y \<Longrightarrow> scalar_less y z \<Longrightarrow> scalar_less x z"
  by (cases x; cases y; cases z) (auto simp: plain_identity_def scalar_rank_def)

lemma plain_irrefl: "plain_identity x \<Longrightarrow> \<not> scalar_less x x"
  by (cases x) (auto simp: plain_identity_def)

lemma plain_total: "plain_identity x \<Longrightarrow> plain_identity y \<Longrightarrow> scalar_less x y \<or> x = y \<or> scalar_less y x"
  by (cases x; cases y) (auto simp: plain_identity_def scalar_rank_def)

lemma identity_less_order: "transp (identity_less key)" "irreflp (identity_less key)"
proof -
  show "transp (identity_less key)"
    by (rule transpI) (auto simp: identity_less_def split: option.splits dest: plain_trans)
  show "irreflp (identity_less key)"
    by (rule irreflpI) (auto simp: identity_less_def plain_irrefl split: option.splits)
qed

text \<open>What validation says of the items of a keyed list.\<close>

lemma keyed_item:
  assumes "item_key_type_ok key items" "value_ok tm items item"
  shows "\<exists>i. item_identity key item = Some i \<and> plain_identity i"
proof -
  from assms(1) obtain name t r where f: "find (\<lambda>(name, _, required). name = key \<and> required) (vt_properties items) = Some (name, t, r)"
    and t: "(\<exists>n. t = VtString n False) \<or> t = VtInteger"
    by (auto simp: item_key_type_ok_def split: option.splits value_type.splits)
  from find_member [OF f] have mem: "(key, t, True) \<in> set (vt_properties items)" by auto
  then have "structured items" by (cases items) (auto simp: structured_def)
  then obtain kvs where item: "item = AObject kvs"
    using assms(2) by (subst (asm) validate_value.simps) (cases items; cases item; auto simp: structured_def)
  have "\<forall>(k, t, r) \<in> set (vt_properties items). case bm_get kvs k of Some v \<Rightarrow> value_ok tm t v | None \<Rightarrow> \<not> r"
    using assms(2) item by (simp add: value_ok_object)
  from bspec [OF this mem] obtain i where i: "bm_get kvs key = Some i" "value_ok tm t i" by (auto split: option.splits)
  have "plain_identity i" using i(2) t by (subst (asm) validate_value.simps) (cases i; auto simp: plain_identity_def)
  with i item show ?thesis by (simp add: item_identity_def)
qed

lemma note_identity_Inr: "note_identity key item seen = Inr r \<longleftrightarrow>
    (\<exists>i. item_identity key item = Some i \<and> i \<notin> set seen \<and> r = i # seen)"
  by (cases item) (auto simp: note_identity_def item_identity_def)

lemma note_identity_fold:
  assumes "fold_res (note_identity key) items seen = Inr r" "distinct seen"
  shows "distinct (map (item_identity key) items) \<and> (\<forall>item \<in> set items. item_identity key item \<notin> Some ` set seen)"
  using assms
proof (induction items arbitrary: seen)
  case Nil
  then show ?case by simp
next
  case (Cons item items)
  from Cons.prems(1) obtain i where i: "item_identity key item = Some i" "i \<notin> set seen"
    "fold_res (note_identity key) items (i # seen) = Inr r"
    by (auto simp: note_identity_Inr)
  with Cons.IH [OF i(3)] Cons.prems(2) show ?case by (force simp: image_iff)
qed

lemma order_by_cong: "(\<And>x y. x \<in> set xs \<Longrightarrow> y \<in> set xs \<Longrightarrow> lt x y = lt' x y) \<Longrightarrow> order_by lt xs = order_by lt' xs"
proof (induction xs)
  case Nil
  then show ?case by (simp add: order_by_def)
next
  case (Cons x xs)
  have "insert_by lt x ys = insert_by lt' x ys" if "set ys \<subseteq> set xs" for ys
    using that Cons.prems by (induction ys) auto
  with Cons show ?case by (simp add: order_by_def) (metis order_by_def order_refl set_order_by)
qed

lemma canonical_keyed:
  assumes "definition_validate lib f = Inr ()" "fd_item_key f = Some key" "canonical_value lib f (AArray xs) = Inr w"
  shows "w = AArray (order_by (identity_less key) xs) \<and> distinct xs \<and>
    (\<forall>x \<in> set xs. \<forall>y \<in> set xs. x \<noteq> y \<longrightarrow> identity_less key x y \<or> identity_less key y x)"
proof -
  obtain items n where ty: "fd_value_type f = VtArray items n" "item_key_type_ok key items"
    using assms(1,2) by (auto simp: definition_validate_def split: value_type.splits if_splits)
  have h: "hardware_value lib f (AArray xs) = Inr None" "validate_scalar lib f (AArray xs) = Inr ()"
    "w = AArray (order_by (item_less key) xs)"
    using assms(2,3) by (auto simp: canonical_value_def hardware_value_def Let_def split: if_splits)
  have items: "\<forall>x \<in> set xs. value_ok (il_time_ok lib) items x" and seen: "\<exists>r. fold_res (note_identity key) xs [] = Inr r"
    using h(2) assms(2) ty(1) by (auto simp: validate_scalar_def value_ok_array split: if_splits)
  have ident: "\<exists>i. item_identity key x = Some i \<and> plain_identity i" if "x \<in> set xs" for x
    using keyed_item [OF ty(2)] items that by blast
  have d: "distinct (map (item_identity key) xs)" using seen note_identity_fold by force
  have "item_less key x y = identity_less key x y" if "x \<in> set xs" "y \<in> set xs" for x y
    using ident [OF that(1)] ident [OF that(2)]
    by (cases x; cases y) (auto simp: item_less_def identity_less_def item_identity_def)
  then have "order_by (item_less key) xs = order_by (identity_less key) xs" by (rule order_by_cong)
  moreover have "identity_less key x y \<or> identity_less key y x" if "x \<in> set xs" "y \<in> set xs" "x \<noteq> y" for x y
  proof -
    have "item_identity key x \<noteq> item_identity key y" using d that by (auto simp: distinct_map inj_on_def)
    with ident [OF that(1)] ident [OF that(2)] show ?thesis by (auto simp: identity_less_def dest: plain_total)
  qed
  ultimately show ?thesis using h(3) d by (auto simp: distinct_map)
qed

section \<open>Properties\<close>

definition sample_lib :: inventory_lib where
  "sample_lib = \<lparr>il_time_ok = (\<lambda>t. True), il_uuid_parse = (\<lambda>s. None), il_uuid_str = (\<lambda>u. []), il_uppercase = (\<lambda>s. s),
     il_series_id_ok = (\<lambda>s. True), il_json_f64 = (\<lambda>n. None)\<rparr>"

definition disk_type :: value_type where
  "disk_type = VtObject [(''name'', VtString 8 False), (''size'', VtInteger)]"

definition disk_field :: field_definition where
  "disk_field = \<lparr>fd_time_series = None, fd_key = ''device.disks'', fd_version = 1, fd_value_type = VtArray disk_type 4,
     fd_nullable = False, fd_manual = False, fd_sources = [(AgentNative, 1)], fd_platforms = [AMacos],
     fd_sensitivity = Standard, fd_unit = None, fd_searchable = True, fd_item_key = Some ''name''\<rparr>"

definition disk :: "string \<Rightarrow> int \<Rightarrow> asset_scalar" where
  "disk name n = AObject [(''name'', AString name), (''size'', AInteger n)]"

lemma disk_type_ok: "vt_validate (VtArray disk_type 4) = Inr ()"
  by (simp add: vt_validate_def disk_type_def vt_check.simps property_name_def starts_lower_def lower_name_def is_ascii_digit_def)

lemma disk_field_ok: "definition_validate sample_lib disk_field = Inr ()"
  using disk_type_ok
  by (simp add: definition_validate_def disk_field_def validate_time_series_def i64_max_nat_def)
    (simp add: disk_type_def item_key_type_ok_def)

lemmas scalar_evaluations = scalar_validate_def add_bytes_def checked_add_u64_def ok_or_def u64_max_def

lemma disk_name_ok: "name = ''a'' \<or> name = ''b'' \<Longrightarrow> value_ok tm (VtString 8 False) (AString name)"
  by (elim disjE) (auto simp: value_ok_string scalar_evaluations char_count_def str_chars_def)

lemma integer_ok: "value_ok tm VtInteger (AInteger n)"
  by (subst validate_value.simps) (simp add: scalar_evaluations)

lemma disk_scalar: "name = ''a'' \<or> name = ''b'' \<Longrightarrow> scalar_validate tm (disk name n) = Inr ()"
  by (elim disjE) (simp_all add: scalar_evaluations disk_def)

lemma disk_valid: "name = ''a'' \<or> name = ''b'' \<Longrightarrow> value_ok tm disk_type (disk name n)"
  using disk_scalar [of name tm n] disk_name_ok [of name tm] integer_ok [of tm n]
  unfolding disk_def disk_type_def value_ok_object by (simp add: structured_def)

lemma disks_valid: "value_ok tm (VtArray disk_type 4) (AArray [disk ''a'' m, disk ''b'' n])"
  "value_ok tm (VtArray disk_type 4) (AArray [disk ''b'' n, disk ''a'' m])"
  by (auto simp: value_ok_array disk_valid) (simp_all add: scalar_evaluations disk_def)

lemma disks_scalar:
  "validate_scalar sample_lib disk_field (AArray [disk ''a'' m, disk ''b'' n]) = Inr ()"
  "validate_scalar sample_lib disk_field (AArray [disk ''b'' n, disk ''a'' m]) = Inr ()"
  using disks_valid
  by (simp_all add: validate_scalar_def hardware_value_def disk_field_def validate_item_def disk_valid)
    (simp_all add: note_identity_def disk_def ok_or_def)

lemma disk_canonical:
  "canonical_value sample_lib disk_field (AArray [disk ''b'' 1, disk ''a'' 2]) = Inr (AArray [disk ''a'' 2, disk ''b'' 1])"
  "canonical_value sample_lib disk_field (AArray [disk ''a'' 2, disk ''b'' 1]) = Inr (AArray [disk ''a'' 2, disk ''b'' 1])"
  using disks_scalar
  by (simp_all add: canonical_value_def hardware_value_def disk_field_def)
    (simp_all add: disk_def is_object_def order_by_def item_less_def)

text \<open>C27: A field type that extends an earlier one keeps its values: whatever was valid under the old version is
  valid under the new one, at every depth of arrays, objects and records. Member names are the distinct keys of
  a map.\<close>

theorem inventory_extension_keeps_values:
  assumes "vt_extends new old" "vt_wf new" "vt_wf old" "validate_value time_ok old v = Inr ()"
  shows "validate_value time_ok new v = Inr ()"
  using extends_value_ok [OF assms] .

theorem inventory_extension_keeps_values_witness:
  "validate_value (\<lambda>t. True) (VtRecord [(''name'', VtString 9 False, True), (''note'', VtString 5 True, False), (''size'', VtInteger, True)])
     (disk ''a'' 3) = Inr ()"
proof (rule inventory_extension_keeps_values)
  show "vt_extends (VtRecord [(''name'', VtString 9 False, True), (''note'', VtString 5 True, False), (''size'', VtInteger, True)]) disk_type"
    by (simp add: disk_type_def vt_extends.simps)
  show "vt_wf (VtRecord [(''name'', VtString 9 False, True), (''note'', VtString 5 True, False), (''size'', VtInteger, True)])"
    by (simp add: vt_wf.simps)
  show "vt_wf disk_type" by (simp add: disk_type_def vt_wf.simps)
  show "validate_value (\<lambda>t. True) disk_type (disk ''a'' 3) = Inr ()" by (simp add: disk_valid)
qed

text \<open>Reading along a registered path is typed and total: for every value that passes validation the
  leaves of the path can be read, and each of them is a valid value of the type the path announces, through
  any nesting of arrays and members.\<close>

theorem inventory_path_typed:
  assumes "catalog_path cat key = Inr p" "validate_scalar lib (fp_root p) v = Inr ()"
  shows "\<exists>leaves. path_values lib p v = Inr leaves \<and> (\<forall>l \<in> set leaves. validate_value (il_time_ok lib) (fp_value_type p) l = Inr ())"
proof -
  have "value_ok (il_time_ok lib) (fd_value_type (fp_root p)) v" using assms(2) by (auto simp: validate_scalar_def split: if_splits)
  from leaves_sound [OF this catalog_path_type [OF assms(1)]] assms(2) show ?thesis by (auto simp: path_values_def)
qed

theorem inventory_path_typed_witness:
  "\<exists>p leaves. catalog_path [(''device.disks'', disk_field)] ''device.disks.size'' = Inr p \<and>
     path_values sample_lib p (AArray [disk ''a'' 2, disk ''b'' 1]) = Inr leaves \<and>
     (\<forall>l \<in> set leaves. validate_value (il_time_ok sample_lib) (fp_value_type p) l = Inr ())"
proof -
  let ?p = "\<lparr>fp_root = disk_field, fp_value_type = VtInteger, fp_many = True, fp_segments = [''size'']\<rparr>"
  have "catalog_path [(''device.disks'', disk_field)] ''device.disks.size'' = Inr ?p"
  proof -
    have "path_candidates [(''device.disks'', disk_field)] ''device.disks.size'' = [(disk_field, ''size'')]"
      by (simp add: path_candidates_def bm_values_def disk_field_def)
    moreover have "str_split CHR ''.'' ''size'' = [''size'']" by simp
    moreover have "path_step ''size'' (VtArray disk_type 4, False) = Inr (VtInteger, True)"
      by (simp add: path_step_def disk_type_def ok_or_def)
    moreover have "fd_value_type disk_field = VtArray disk_type 4" by (simp add: disk_field_def)
    ultimately show ?thesis by (simp add: catalog_path_def longest_candidate_def ok_or_def)
  qed
  moreover have "validate_scalar sample_lib (fp_root ?p) (AArray [disk ''a'' 2, disk ''b'' 1]) = Inr ()"
    by (simp add: disks_scalar)
  ultimately show ?thesis using inventory_path_typed by blast
qed

text \<open>A keyed list has one canonical form. Two accepted reports of the same items in any order have the same
  canonical value, and the canonical value of a canonical value is itself, so the order of a report never makes
  sources disagree.\<close>

theorem inventory_keyed_list_canonical:
  assumes "definition_validate lib f = Inr ()" "fd_item_key f = Some key"
    "canonical_value lib f (AArray xs) = Inr v" "canonical_value lib f (AArray ys) = Inr w"
  shows "(mset xs = mset ys \<longrightarrow> v = w) \<and> (\<forall>zs. v = AArray zs \<longrightarrow> mset zs = mset xs \<and> (ys = zs \<longrightarrow> w = v))"
proof -
  note x = canonical_keyed [OF assms(1-3)] and y = canonical_keyed [OF assms(1,2,4)]
  have "v = w" if "mset xs = mset ys"
    using x y order_by_perm [OF identity_less_order _ _ that, of key] by simp
  moreover have "mset zs = mset xs \<and> (ys = zs \<longrightarrow> w = v)" if "v = AArray zs" for zs
  proof -
    have zs: "zs = order_by (identity_less key) xs" using x that by simp
    have "sorted_wrt (identity_less key) zs" unfolding zs using x by (intro order_by_sorted identity_less_order) auto
    then have "order_by (identity_less key) zs = zs" by (rule order_by_sorted_id) (rule identity_less_order)+
    then show ?thesis using y zs that by auto
  qed
  ultimately show ?thesis by blast
qed

theorem inventory_keyed_list_canonical_witness:
  "mset [disk ''b'' 1, disk ''a'' 2] = mset [disk ''a'' 2, disk ''b'' 1] \<and>
   canonical_value sample_lib disk_field (AArray [disk ''b'' 1, disk ''a'' 2]) =
     canonical_value sample_lib disk_field (AArray [disk ''a'' 2, disk ''b'' 1])"
proof -
  have "fd_item_key disk_field = Some ''name''" by (simp add: disk_field_def)
  moreover have "mset [disk ''b'' 1, disk ''a'' 2] = mset [disk ''a'' 2, disk ''b'' 1]" by simp
  ultimately show ?thesis using inventory_keyed_list_canonical [OF disk_field_ok _ disk_canonical] disk_canonical by auto
qed

end
