(* ===== verification/Inventory_Facts.thy ===== *)
theory Inventory_Facts
  imports Inventory_Catalog
begin

text \<open>
  Facts of \<^verbatim>\<open>crates/inventory\<close>: the namespaces of collected assets (\<^verbatim>\<open>collection_scope.rs\<close>), provenance,
  source facts and their resolution into one state (\<^verbatim>\<open>assets.rs\<close>), and the same resolution over
  summaries of arrays (\<^verbatim>\<open>array.rs\<close>). \<^verbatim>\<open>State\<close> and \<^verbatim>\<open>ArrayState\<close> have the same variants and are one type here,
  with the type of known values as parameter; the resolutions are translated separately.
\<close>

section \<open>Namespaces\<close>

datatype application_root = RootLocal | RootSystem | RootUser

datatype brew_package = Formula | Cask

datatype local_account_identity = AccountWindows (account_sid: string) | AccountMacos (account_uid: nat) (account_generated_uid: string)

definition canonical_uuid :: "inventory_lib \<Rightarrow> string \<Rightarrow> bool" where
  "canonical_uuid lib s \<longleftrightarrow> (case il_uuid_parse lib s of Some u \<Rightarrow> \<not> uuid_is_nil u \<and> il_uuid_str lib u = s | None \<Rightarrow> False)"

definition account_validate :: "inventory_lib \<Rightarrow> local_account_identity \<Rightarrow> bool" where
  "account_validate lib a = (case a of
      AccountWindows sid \<Rightarrow> length sid \<le> 184 \<and> prefix ''S-1-'' sid \<and> length (drop 2 (str_split CHR ''-'' sid)) \<ge> 2
        \<and> list_all (canonical_decimal u64_max) (drop 2 (str_split CHR ''-'' sid))
    | AccountMacos uid generated_uid \<Rightarrow> uid > 0 \<and> canonical_uuid lib generated_uid)"

definition account_platform :: "local_account_identity \<Rightarrow> asset_platform" where
  "account_platform a = (case a of AccountWindows _ \<Rightarrow> AWindows | AccountMacos _ _ \<Rightarrow> AMacos)"

datatype collection_scope =
    NativeCertificates asset_platform "local_account_identity option" string
  | NativeAccounts asset_platform "string btree_set"
  | NativeApplication asset_platform string "local_account_identity option"
  | NativeUser local_account_identity
  | ScDevice
  | AppleUser string
  | MacosApplications application_root "nat option"
  | MacosBrew nat string brew_package "string btree_set"

definition owner_ok :: "inventory_lib \<Rightarrow> asset_platform \<Rightarrow> local_account_identity option \<Rightarrow> bool" where
  "owner_ok lib platform owner = (case owner of None \<Rightarrow> True
     | Some o' \<Rightarrow> account_validate lib o' \<and> account_platform o' = platform)"

definition certificate_stores :: "asset_platform \<Rightarrow> string list" where
  "certificate_stores p = (case p of AWindows \<Rightarrow> [''my'', ''root'', ''ca'', ''trusted_publisher'']
     | AMacos \<Rightarrow> [''system'', ''system_roots'', ''login''])"

definition apple_user_byte :: "nat \<Rightarrow> char \<Rightarrow> bool" where
  "apple_user_byte i c = (if i \<in> {8, 13, 18, 23} then c = CHR ''-''
     else is_ascii_digit c \<or> ((97::nat) \<le> of_char c \<and> of_char c \<le> (102::nat)))"

definition path_part :: "string \<Rightarrow> bool" where
  "path_part p \<longleftrightarrow> p \<noteq> [] \<and> p \<noteq> ''.'' \<and> p \<noteq> ''..''"

definition tap_part :: "string \<Rightarrow> bool" where
  "tap_part p \<longleftrightarrow> path_part p \<and> list_all (\<lambda>c. ((97::nat) \<le> of_char c \<and> of_char c \<le> (122::nat)) \<or> is_ascii_digit c
     \<or> c \<in> set ''._-'') p"

definition tap_ok :: "string \<Rightarrow> bool" where
  "tap_ok tap \<longleftrightarrow> length tap \<le> 255 \<and> length (str_split CHR ''/'' tap) = 2 \<and> list_all tap_part (str_split CHR ''/'' tap)"

definition scope_executable :: "inventory_lib \<Rightarrow> collection_scope \<Rightarrow> bool" where
  "scope_executable lib s = (case s of
      NativeCertificates platform owner store \<Rightarrow>
        store \<in> set (certificate_stores platform) \<and> owner_ok lib platform owner
        \<and> (platform \<noteq> AMacos \<or> (store = ''login'') = (owner \<noteq> None))
    | NativeAccounts platform identities \<Rightarrow>
        length identities \<le> 256 \<and> list_all (\<lambda>s. case platform of
            AWindows \<Rightarrow> account_validate lib (AccountWindows s) | AMacos \<Rightarrow> canonical_uuid lib s) identities
    | NativeApplication platform identity owner \<Rightarrow>
        identity \<noteq> [] \<and> length identity \<le> 4096 \<and> \<not> has_control identity \<and> owner_ok lib platform owner
    | NativeUser owner \<Rightarrow> account_validate lib owner
    | ScDevice \<Rightarrow> True
    | AppleUser identity \<Rightarrow>
        length identity = 36 \<and> list_all (\<lambda>(i, c). apple_user_byte i c) (enumerate 0 identity)
        \<and> identity \<noteq> ''00000000-0000-0000-0000-000000000000''
    | MacosApplications app_root uid \<Rightarrow>
        (case (app_root, uid) of (RootUser, Some u) \<Rightarrow> u > 0 | (RootLocal, None) \<Rightarrow> True | (RootSystem, None) \<Rightarrow> True | _ \<Rightarrow> False)
    | MacosBrew uid pre _ taps \<Rightarrow>
        uid > 0 \<and> length pre \<le> 4096 \<and> prefix ''/'' pre \<and> \<not> has_control pre
        \<and> list_all path_part (str_split CHR ''/'' (drop 1 pre)) \<and> length taps \<le> 64 \<and> list_all tap_ok taps)"

definition validate_executable :: "inventory_lib \<Rightarrow> collection_scope \<Rightarrow> unit inventory_result" where
  "validate_executable lib s = (if scope_executable lib s then Inr () else Inl (Fail InvalidValue))"

definition validate_source :: "inventory_lib \<Rightarrow> collection_scope \<Rightarrow> source \<Rightarrow> unit inventory_result" where
  "validate_source lib s src =
    bind_res (validate_executable lib s) (\<lambda>_.
    if (case s of ScDevice \<Rightarrow> src \<noteq> Manual | AppleUser _ \<Rightarrow> src = MdmApple | _ \<Rightarrow> src = AgentNative)
    then Inr () else Inl (Fail SourceNotAllowed))"

text \<open>The JSON text of a namespace is a parameter.\<close>

definition scope_canonical :: "inventory_lib \<Rightarrow> (collection_scope \<Rightarrow> string option) \<Rightarrow> collection_scope \<Rightarrow> string inventory_result" where
  "scope_canonical lib to_json s = bind_res (validate_executable lib s) (\<lambda>_. ok_or InvalidEncoding (to_json s))"

section \<open>Facts\<close>

datatype unknown_reason = UnorderedConflict | IncompleteBaseline | NativeStatus | EvidenceLimit

datatype 'v field_state = StUnknown unknown_reason | StKnown 'v | StNull | StMissing | StUnsupported | StDeleted | StConflict

record evidence =
  ev_scope :: collection_scope
  ev_source :: source
  ev_dataset :: "string option"
  ev_registration :: "string option"
  ev_registration_generation :: "nat option"
  ev_epoch :: "string option"
  ev_snapshot_id :: string
  ev_observed_at :: int
  ev_received_at :: int
  ev_actor :: "string option"

record 'v known_value =
  kv_value :: 'v
  kv_evidence :: evidence

record 'v source_fact =
  sf_state :: "'v field_state"
  sf_last_known :: "'v known_value option"
  sf_evidence :: evidence

record 'v resolved_field =
  rf_field :: string
  rf_state :: "'v field_state"
  rf_sources :: "'v source_fact list"

record 'v endpoint_source_fact =
  ef_endpoint :: string
  ef_fact :: "'v source_fact"

record 'v resolved_device_field =
  rd_field :: string
  rd_state :: "'v field_state"
  rd_sources :: "'v endpoint_source_fact list"

definition bounded :: "string \<Rightarrow> bool" where
  "bounded s \<longleftrightarrow> s \<noteq> [] \<and> length s \<le> 256 \<and> \<not> has_control s"

definition opt_bounded :: "string option \<Rightarrow> bool" where
  "opt_bounded s = (case s of None \<Rightarrow> False | Some t \<Rightarrow> bounded t)"

definition validate_evidence :: "inventory_lib \<Rightarrow> field_definition \<Rightarrow> evidence \<Rightarrow> unit inventory_result" where
  "validate_evidence lib f e =
    bind_res (if ev_source e = Manual then (if ev_scope e \<noteq> ScDevice then Inl (Fail InvalidEvidence) else Inr ())
       else validate_source lib (ev_scope e) (ev_source e)) (\<lambda>_.
    if bm_get (fd_sources f) (ev_source e) = None then Inl (Fail SourceNotAllowed)
    else if \<not> bounded (ev_snapshot_id e) \<or> \<not> il_time_ok lib (ev_observed_at e) \<or> \<not> il_time_ok lib (ev_received_at e)
      \<or> (if ev_source e = Manual then
           ev_dataset e \<noteq> None \<or> ev_registration e \<noteq> None \<or> ev_registration_generation e \<noteq> None \<or> ev_epoch e \<noteq> None
           \<or> \<not> opt_bounded (ev_actor e)
         else \<not> opt_bounded (ev_dataset e) \<or> \<not> opt_bounded (ev_registration e) \<or> \<not> opt_bounded (ev_epoch e)
           \<or> ev_actor e \<noteq> None \<or> ev_registration_generation e = Some 0)
    then Inl (Fail InvalidEvidence) else Inr ())"

text \<open>States that can be the current value of a source, and the smallest of the priorities.\<close>

definition selectable :: "'v field_state \<Rightarrow> bool" where
  "selectable s = (case s of StKnown _ \<Rightarrow> True | StNull \<Rightarrow> True | StUnknown _ \<Rightarrow> True | _ \<Rightarrow> False)"

definition is_unknown :: "'v field_state \<Rightarrow> bool" where
  "is_unknown s = (case s of StUnknown _ \<Rightarrow> True | _ \<Rightarrow> False)"

definition opt_min :: "nat list \<Rightarrow> nat option" where
  "opt_min ps = (case ps of [] \<Rightarrow> None | p # qs \<Rightarrow> Some (fold min qs p))"

definition check_state :: "('v \<Rightarrow> unit inventory_result) \<Rightarrow> field_definition \<Rightarrow> 'v source_fact \<Rightarrow> unit inventory_result" where
  "check_state check f fct = (case sf_state fct of
      StKnown v \<Rightarrow> check v
    | StNull \<Rightarrow> if \<not> fd_nullable f then Inl (Fail InvalidState) else Inr ()
    | StMissing \<Rightarrow> Inl (Fail InvalidState)
    | StConflict \<Rightarrow> Inl (Fail InvalidState)
    | StUnsupported \<Rightarrow> if ev_source (sf_evidence fct) = Manual then Inl (Fail InvalidState) else Inr ()
    | _ \<Rightarrow> Inr ())"

definition same_stream :: "evidence \<Rightarrow> evidence \<Rightarrow> bool" where
  "same_stream e old \<longleftrightarrow> ev_scope e = ev_scope old \<and> ev_source e = ev_source old \<and> ev_registration e = ev_registration old
     \<and> ev_registration_generation e = ev_registration_generation old \<and> ev_epoch e = ev_epoch old \<and> ev_dataset e = ev_dataset old"

definition check_last_known ::
  "inventory_lib \<Rightarrow> ('v \<Rightarrow> unit inventory_result) \<Rightarrow> field_definition \<Rightarrow> 'v source_fact \<Rightarrow> unit inventory_result" where
  "check_last_known lib check f fct = (case sf_last_known fct of
      None \<Rightarrow> Inr ()
    | Some old \<Rightarrow>
        bind_res (check (kv_value old)) (\<lambda>_.
        bind_res (validate_evidence lib f (kv_evidence old)) (\<lambda>_.
        if \<not> same_stream (sf_evidence fct) (kv_evidence old) then Inl (Fail InvalidEvidence) else Inr ())))"

section \<open>Resolution\<close>

definition check_fact :: "inventory_lib \<Rightarrow> field_definition \<Rightarrow> asset_scalar source_fact \<Rightarrow> unit inventory_result" where
  "check_fact lib f fct =
    bind_res (validate_executable lib (ev_scope (sf_evidence fct))) (\<lambda>_.
    bind_res (validate_evidence lib f (sf_evidence fct)) (\<lambda>_.
    bind_res (check_state (validate_scalar lib f) f fct) (\<lambda>_.
    check_last_known lib (validate_scalar lib f) f fct)))"

definition canonical_state :: "inventory_lib \<Rightarrow> field_definition \<Rightarrow> asset_scalar field_state \<Rightarrow> asset_scalar field_state inventory_result" where
  "canonical_state lib f s = (case s of
      StKnown v \<Rightarrow> bind_res (canonical_value lib f v) (\<lambda>w. Inr (StKnown w)) | _ \<Rightarrow> Inr s)"

definition unknown_of :: "'v field_state list \<Rightarrow> 'v field_state" where
  "unknown_of vs = StUnknown (if list_ex (\<lambda>v. case v of StUnknown r \<Rightarrow> r = UnorderedConflict | _ \<Rightarrow> False) vs then UnorderedConflict
     else NativeStatus)"

definition absent_state :: "'v source_fact list \<Rightarrow> 'v field_state" where
  "absent_state facts =
    (if list_ex (\<lambda>s. case sf_state s of StDeleted \<Rightarrow> True | _ \<Rightarrow> False) facts then StDeleted
     else if list_ex (\<lambda>s. case sf_state s of StUnsupported \<Rightarrow> True | _ \<Rightarrow> False) facts then StUnsupported
     else StMissing)"

definition fact_priority :: "field_definition \<Rightarrow> 'v source_fact \<Rightarrow> nat option" where
  "fact_priority f s = bm_get (fd_sources f) (ev_source (sf_evidence s))"

definition selected_priority :: "field_definition \<Rightarrow> 'v source_fact list \<Rightarrow> nat option" where
  "selected_priority f facts = opt_min (List.map_filter (fact_priority f) (filter (\<lambda>s. selectable (sf_state s)) facts))"

definition resolve_state :: "inventory_lib \<Rightarrow> field_definition \<Rightarrow> asset_scalar source_fact list \<Rightarrow> asset_scalar field_state inventory_result" where
  "resolve_state lib f facts =
    (if length facts > 256 then Inl (Fail SourceLimit)
     else bind_res (definition_validate lib f) (\<lambda>_.
     if (case facts of [] \<Rightarrow> False
         | first # _ \<Rightarrow> list_ex (\<lambda>s. ev_scope (sf_evidence s) \<noteq> ev_scope (sf_evidence first)) facts) then Inl (Fail InvalidEvidence)
     else bind_res (fold_res (\<lambda>s _. check_fact lib f s) facts ()) (\<lambda>_.
     bind_res (map_res (\<lambda>s. canonical_state lib f (sf_state s))
        (filter (\<lambda>s. selectable (sf_state s) \<and> fact_priority f s = selected_priority f facts) facts)) (\<lambda>vs.
     Inr (case vs of
         first # _ \<Rightarrow>
           if list_ex is_unknown vs then unknown_of vs
           else if list_ex (\<lambda>v. v \<noteq> first) vs then StConflict
           else first
       | [] \<Rightarrow> absent_state facts)))))"

definition fact_key :: "'v source_fact \<Rightarrow> source \<times> string option" where
  "fact_key s = (ev_source (sf_evidence s), ev_dataset (sf_evidence s))"

definition resolve :: "inventory_lib \<Rightarrow> field_definition \<Rightarrow> asset_scalar source_fact list \<Rightarrow> asset_scalar resolved_field inventory_result" where
  "resolve lib f facts =
    (if length facts > 128 then Inl (Fail SourceLimit)
     else let facts = sort_key fact_key facts in
       if adjacent_equal fact_key facts then Inl (Fail DuplicateSource)
       else bind_res (resolve_state lib f facts) (\<lambda>st.
         Inr \<lparr>rf_field = fd_key f, rf_state = st, rf_sources = facts\<rparr>))"

definition endpoint_ok :: "'v endpoint_source_fact \<Rightarrow> bool" where
  "endpoint_ok s \<longleftrightarrow> ef_endpoint s \<noteq> [] \<and> length (ef_endpoint s) \<le> 256 \<and> \<not> has_control (ef_endpoint s)"

definition endpoint_key :: "'v endpoint_source_fact \<Rightarrow> string \<times> source \<times> string option" where
  "endpoint_key s = (ef_endpoint s, ev_source (sf_evidence (ef_fact s)), ev_dataset (sf_evidence (ef_fact s)))"

definition resolve_device ::
  "inventory_lib \<Rightarrow> field_definition \<Rightarrow> asset_scalar endpoint_source_fact list \<Rightarrow> asset_scalar resolved_device_field inventory_result" where
  "resolve_device lib f facts =
    (if list_ex (\<lambda>s. \<not> endpoint_ok s) facts then Inl (Fail InvalidEvidence)
     else let facts = sort_key endpoint_key facts in
       if adjacent_equal endpoint_key facts then Inl (Fail DuplicateSource)
       else bind_res (resolve_state lib f (map ef_fact facts)) (\<lambda>st.
         Inr \<lparr>rd_field = fd_key f, rd_state = st, rd_sources = facts\<rparr>))"

section \<open>Summaries of arrays\<close>

record array_value =
  av_version :: string
  av_count :: nat
  av_bytes :: nat
  av_digest :: string

text \<open>\<^verbatim>\<open>PartialEq\<close> of \<^verbatim>\<open>ArrayValue\<close> ignores the storage version; the derived equality of states uses it.\<close>

definition array_content :: "array_value \<Rightarrow> nat \<times> nat \<times> string" where
  "array_content v = (av_count v, av_bytes v, av_digest v)"

definition array_state_eq :: "array_value field_state \<Rightarrow> array_value field_state \<Rightarrow> bool" where
  "array_state_eq a b \<longleftrightarrow> map_field_state array_content a = map_field_state array_content b"

definition hex64 :: "string \<Rightarrow> bool" where
  "hex64 s \<longleftrightarrow> length s = 64 \<and> list_all (\<lambda>c. is_ascii_digit c \<or> ((97::nat) \<le> of_char c \<and> of_char c \<le> (102::nat))) s"

definition array_validate_value :: "field_definition \<Rightarrow> array_value \<Rightarrow> unit inventory_result" where
  "array_validate_value f v = (case fd_value_type f of
      VtArray _ max_items \<Rightarrow>
        if av_count v > max_items \<or> av_bytes v < 27 \<or> \<not> hex64 (av_version v) \<or> \<not> hex64 (av_digest v)
          \<or> (av_count v = 0 \<and> av_bytes v \<noteq> 27)
        then Inl (Fail InvalidValue) else Inr ()
    | _ \<Rightarrow> Inl (Fail InvalidValue))"

definition check_array_fact :: "inventory_lib \<Rightarrow> field_definition \<Rightarrow> array_value source_fact list \<Rightarrow> array_value source_fact \<Rightarrow> unit inventory_result" where
  "check_array_fact lib f facts fct =
    bind_res (validate_evidence lib f (sf_evidence fct)) (\<lambda>_.
    if (case facts of [] \<Rightarrow> False | first # _ \<Rightarrow> ev_scope (sf_evidence first) \<noteq> ev_scope (sf_evidence fct))
    then Inl (Fail InvalidEvidence)
    else bind_res (check_state (array_validate_value f) f fct) (\<lambda>_.
    check_last_known lib (array_validate_value f) f fct))"

definition is_array_type :: "value_type \<Rightarrow> bool" where
  "is_array_type t = (case t of VtArray _ _ \<Rightarrow> True | _ \<Rightarrow> False)"

definition array_state :: "inventory_lib \<Rightarrow> field_definition \<Rightarrow> array_value source_fact list \<Rightarrow> array_value field_state inventory_result" where
  "array_state lib f facts =
    bind_res (definition_validate lib f) (\<lambda>_.
    if \<not> is_array_type (fd_value_type f) then Inl (Fail InvalidValue)
    else bind_res (fold_res (\<lambda>s _. check_array_fact lib f facts s) facts ()) (\<lambda>_.
    let vs = map sf_state (filter (\<lambda>s. fact_priority f s = selected_priority f facts) (filter (\<lambda>s. selectable (sf_state s)) facts)) in
    Inr (case vs of
        first # _ \<Rightarrow>
          if list_ex is_unknown vs then unknown_of vs
          else if list_ex (\<lambda>v. \<not> array_state_eq v first) vs then StConflict
          else first
      | [] \<Rightarrow> absent_state facts)))"

definition resolve_array :: "inventory_lib \<Rightarrow> field_definition \<Rightarrow> array_value source_fact list \<Rightarrow> array_value resolved_field inventory_result" where
  "resolve_array lib f facts =
    (if length facts > 128 then Inl (Fail SourceLimit)
     else let facts = sort_key fact_key facts in
       if adjacent_equal fact_key facts then Inl (Fail DuplicateSource)
       else bind_res (array_state lib f facts) (\<lambda>st.
         Inr \<lparr>rf_field = fd_key f, rf_state = st, rf_sources = facts\<rparr>))"

definition resolve_device_array ::
  "inventory_lib \<Rightarrow> field_definition \<Rightarrow> array_value endpoint_source_fact list \<Rightarrow> array_value resolved_device_field inventory_result" where
  "resolve_device_array lib f facts =
    (if length facts > 256 then Inl (Fail SourceLimit)
     else if list_ex (\<lambda>s. \<not> endpoint_ok s) facts then Inl (Fail InvalidEvidence)
     else let facts = sort_key endpoint_key facts in
       if adjacent_equal endpoint_key facts then Inl (Fail DuplicateSource)
       else bind_res (array_state lib f (map ef_fact facts)) (\<lambda>st.
         Inr \<lparr>rd_field = fd_key f, rd_state = st, rd_sources = facts\<rparr>))"

end
