(* ===== verification/Inventory_Facts_Properties.thy ===== *)
theory Inventory_Facts_Properties
  imports Inventory_Facts Inventory_Catalog_Properties
begin

text \<open>
  What the resolution of facts computes: the agreement of the current sources of the best priority. The
  specification \<open>consensus\<close> is about the set of observations; both resolutions, over values and over
  summaries of arrays, meet it, and what follows from it is proved once.
\<close>

section \<open>Consensus\<close>

type_synonym 'w observation = "nat \<times> 'w field_state"

definition best :: "'w observation set \<Rightarrow> 'w field_state set" where
  "best C = {s. \<exists>p. (p, s) \<in> C \<and> selectable s \<and> (\<forall>(q, t) \<in> C. selectable t \<longrightarrow> p \<le> q)}"

definition consensus :: "'w observation set \<Rightarrow> 'w field_state \<Rightarrow> bool" where
  "consensus C st = (case st of
      StKnown v \<Rightarrow> best C = {StKnown v}
    | StNull \<Rightarrow> best C = {StNull}
    | StUnknown r \<Rightarrow> (\<exists>q. StUnknown q \<in> best C) \<and> r = (if StUnknown UnorderedConflict \<in> best C then UnorderedConflict else NativeStatus)
    | StConflict \<Rightarrow> (\<forall>s \<in> best C. \<not> is_unknown s) \<and> (\<exists>s \<in> best C. \<exists>t \<in> best C. s \<noteq> t)
    | StDeleted \<Rightarrow> best C = {} \<and> StDeleted \<in> snd ` C
    | StUnsupported \<Rightarrow> best C = {} \<and> StDeleted \<notin> snd ` C \<and> StUnsupported \<in> snd ` C
    | StMissing \<Rightarrow> best C = {} \<and> StDeleted \<notin> snd ` C \<and> StUnsupported \<notin> snd ` C)"

lemma consensus_unique: "consensus C a \<Longrightarrow> consensus C b \<Longrightarrow> a = b"
  by (cases a; cases b) (auto simp: consensus_def is_unknown_def split: if_splits)

lemma selectable_simps [simp]:
  "selectable (StKnown v)" "selectable StNull" "selectable (StUnknown r)" "\<not> selectable StMissing"
  "\<not> selectable StUnsupported" "\<not> selectable StDeleted" "\<not> selectable StConflict"
  by (simp_all add: selectable_def)

lemma map_state_iff [simp]:
  "StDeleted = map_field_state g s \<longleftrightarrow> s = StDeleted" "StUnsupported = map_field_state g s \<longleftrightarrow> s = StUnsupported"
  "StUnknown r = map_field_state g s \<longleftrightarrow> s = StUnknown r" "StNull = map_field_state g s \<longleftrightarrow> s = StNull"
  "selectable (map_field_state g s) = selectable s" "is_unknown (map_field_state g s) = is_unknown s"
  by (cases s, auto simp: is_unknown_def)+

lemma case_state_iff:
  "(case s of StDeleted \<Rightarrow> True | _ \<Rightarrow> False) \<longleftrightarrow> s = StDeleted" "(case s of StUnsupported \<Rightarrow> True | _ \<Rightarrow> False) \<longleftrightarrow> s = StUnsupported"
  "(case s of StUnknown r \<Rightarrow> r = q | _ \<Rightarrow> False) \<longleftrightarrow> s = StUnknown q"
  by (cases s; simp)+

lemma is_unknown_conv: "is_unknown s \<longleftrightarrow> (\<exists>r. s = StUnknown r)"
  by (cases s) (simp_all add: is_unknown_def)

lemma best_selectable: "s \<in> best C \<Longrightarrow> selectable s"
  by (auto simp: best_def)

lemma best_add_unselectable: "\<not> selectable t \<Longrightarrow> best (insert (q, t) C) = best C"
  by (auto simp: best_def)

lemma best_add_dominated:
  assumes "(p, s) \<in> C" "selectable s" "p < q"
  shows "best (insert (q, t) C) = best C"
  using assms by (fastforce simp: best_def)

text \<open>A state that rests on current sources depends on the best ones only.\<close>

lemma consensus_best:
  assumes "best C = best D" "best C \<noteq> {}" "consensus C st"
  shows "consensus D st"
  using assms by (cases st) (simp_all add: consensus_def)

section \<open>The interface of a resolution\<close>

locale source_resolution =
  fixes settle :: "'v source_fact list \<Rightarrow> 'v field_state inventory_result"
    and priority :: "'v source_fact \<Rightarrow> nat option"
    and seen :: "'v \<Rightarrow> 'w"
    and result_view :: "'v \<Rightarrow> 'w"
  assumes settle_consensus: "settle facts = Inr st \<Longrightarrow>
      consensus ((\<lambda>s. (the (priority s), map_field_state seen (sf_state s))) ` set facts) (map_field_state result_view st)"
begin

definition observe :: "'v source_fact \<Rightarrow> 'w observation" where
  "observe s = (the (priority s), map_field_state seen (sf_state s))"

lemma settle_order:
  assumes "settle xs = Inr a" "settle ys = Inr b" "set xs = set ys"
  shows "map_field_state result_view a = map_field_state result_view b"
  using settle_consensus [OF assms(1)] settle_consensus [OF assms(2)] assms(3) by (metis consensus_unique)

lemma settle_extra:
  assumes "settle xs = Inr a" "settle ys = Inr b" "set ys = insert x (set xs)" "\<exists>y \<in> set xs. selectable (sf_state y)"
    "\<not> selectable (sf_state x) \<or> (\<exists>y \<in> set xs. selectable (sf_state y) \<and> the (priority y) < the (priority x))"
  shows "map_field_state result_view b = map_field_state result_view a"
proof -
  let ?C = "observe ` set xs"
  have a: "consensus ?C (map_field_state result_view a)" and b: "consensus (insert (observe x) ?C) (map_field_state result_view b)"
    using settle_consensus [OF assms(1)] settle_consensus [OF assms(2)] assms(3) by (simp_all add: observe_def image_image)
  have best: "best (insert (observe x) ?C) = best ?C"
  proof (cases "selectable (sf_state x)")
    case True
    with assms(5) obtain y where y: "y \<in> set xs" "selectable (sf_state y)" "the (priority y) < the (priority x)" by blast
    then have "(the (priority y), map_field_state seen (sf_state y)) \<in> ?C" by (auto simp: observe_def)
    from best_add_dominated [OF this _ y(3)] y(2) show ?thesis unfolding observe_def [of x] map_state_iff by blast
  next
    case False
    then have "\<not> selectable (map_field_state seen (sf_state x))" unfolding map_state_iff .
    from best_add_unselectable [OF this] show ?thesis unfolding observe_def [of x] .
  qed
  have "best ?C \<noteq> {}"
  proof -
    let ?S = "{y \<in> set xs. selectable (sf_state y)}"
    have S: "finite ?S" "?S \<noteq> {}" using assms(4) by auto
    obtain y where y: "y \<in> ?S" "\<forall>z \<in> ?S. the (priority y) \<le> the (priority z)"
      using arg_min_if_finite [OF S, of "\<lambda>y. the (priority y)"] by (meson not_less)
    then have "map_field_state seen (sf_state y) \<in> best ?C"
      by (auto simp: best_def observe_def)
    then show ?thesis by blast
  qed
  with a best show ?thesis by (metis b consensus_best consensus_unique)
qed

end

section \<open>Both resolutions meet it\<close>

lemma opt_min_Some: "opt_min ps = Some p \<longleftrightarrow> p \<in> set ps \<and> (\<forall>q \<in> set ps. p \<le> q)"
proof (cases ps)
  case Nil
  then show ?thesis by (simp add: opt_min_def)
next
  case (Cons x xs)
  have "fold min xs x = Min (set ps)" unfolding Cons by (rule Min.set_eq_fold [symmetric])
  then have "opt_min ps = Some p \<longleftrightarrow> Min (set ps) = p" using Cons by (simp add: opt_min_def)
  also have "\<dots> \<longleftrightarrow> p \<in> set ps \<and> (\<forall>q \<in> set ps. p \<le> q)"
    using Cons by (subst Min_eq_iff) auto
  finally show ?thesis .
qed

lemma opt_min_None: "opt_min ps = None \<longleftrightarrow> ps = []"
  by (simp add: opt_min_def split: list.splits)

definition settled_by :: "field_definition \<Rightarrow> 'v source_fact list \<Rightarrow> 'v source_fact list" where
  "settled_by f facts = filter (\<lambda>s. selectable (sf_state s) \<and> fact_priority f s = selected_priority f facts) facts"

lemma settled_best:
  assumes "\<forall>s \<in> set facts. fact_priority f s \<noteq> None" "\<And>s. selectable (g s) = selectable (sf_state s)"
  shows "g ` set (settled_by f facts) = best ((\<lambda>s. (the (fact_priority f s), g s)) ` set facts)"
proof -
  let ?ps = "List.map_filter (fact_priority f) (filter (\<lambda>s. selectable (sf_state s)) facts)"
  have ps: "set ?ps = {the (fact_priority f s) | s. s \<in> set facts \<and> selectable (sf_state s)}"
    using assms(1) by (auto simp: map_filter_def image_iff)
  have "fact_priority f s = selected_priority f facts \<longleftrightarrow>
      (\<forall>t \<in> set facts. selectable (sf_state t) \<longrightarrow> the (fact_priority f s) \<le> the (fact_priority f t))"
    if s: "s \<in> set facts" "selectable (sf_state s)" for s
  proof -
    obtain p where p: "fact_priority f s = Some p" using assms(1) s by blast
    then have "p \<in> set ?ps" unfolding ps using s by force
    then show ?thesis using p unfolding selected_priority_def opt_min_Some [of ?ps p, symmetric, THEN iffD1]
      by (auto simp: eq_commute [of "Some p"] opt_min_Some ps)
  qed
  then show ?thesis by (auto simp: settled_by_def best_def assms(2))
qed

lemma absent_state_consensus:
  assumes "best ((\<lambda>s. (p s, map_field_state g (sf_state s))) ` set facts) = {}"
  shows "consensus ((\<lambda>s. (p s, map_field_state g (sf_state s))) ` set facts) (map_field_state h (absent_state facts))"
proof -
  show ?thesis using assms
    by (auto simp: absent_state_def consensus_def list_ex_iff image_iff case_state_iff)
qed

text \<open>The verdict over the selected states, up to what the two codes compare.\<close>

lemma verdict_consensus:
  assumes "map (map_field_state h) vs \<noteq> []" "set (map (map_field_state h) vs) = best C"
    "\<And>v w. v \<in> set vs \<Longrightarrow> w \<in> set vs \<Longrightarrow> eq v w \<longleftrightarrow> map_field_state h v = map_field_state h w"
  shows "consensus C (map_field_state h (case vs of
      first # _ \<Rightarrow> if list_ex is_unknown vs then unknown_of vs
        else if list_ex (\<lambda>v. \<not> eq v first) vs then StConflict else first
    | [] \<Rightarrow> other))"
proof -
  obtain first more where vs: "vs = first # more" using assms(1) by (cases vs) auto
  have img: "best C = map_field_state h ` set vs" using assms(2) by simp
  have u: "list_ex is_unknown vs \<longleftrightarrow> (\<exists>q. StUnknown q \<in> best C)"
    unfolding img list_ex_iff is_unknown_conv by (auto simp: image_iff)
  have uc: "list_ex (\<lambda>v. case v of StUnknown r \<Rightarrow> r = UnorderedConflict | _ \<Rightarrow> False) vs \<longleftrightarrow> StUnknown UnorderedConflict \<in> best C"
    unfolding img list_ex_iff case_state_iff by (auto simp: image_iff)
  consider "list_ex is_unknown vs" | "\<not> list_ex is_unknown vs" "list_ex (\<lambda>v. \<not> eq v first) vs"
    | "\<not> list_ex is_unknown vs" "\<not> list_ex (\<lambda>v. \<not> eq v first) vs" by blast
  then show ?thesis
  proof cases
    case 1
    then show ?thesis using u uc by (simp add: vs unknown_of_def consensus_def)
  next
    case 2
    then obtain v where "v \<in> set vs" "map_field_state h v \<noteq> map_field_state h first"
      using assms(3) [of _ first] by (auto simp: list_ex_iff vs)
    moreover have "\<forall>s \<in> best C. \<not> is_unknown s" using 2(1) by (auto simp: img list_ex_iff)
    ultimately show ?thesis using 2 by (auto simp: vs consensus_def img)
  next
    case 3
    then have "best C = {map_field_state h first}"
      using assms(3) [of _ first] by (auto simp: img list_ex_iff vs)
    moreover have "selectable (map_field_state h first)" using calculation best_selectable by blast
    moreover have "\<not> is_unknown first" using 3(1) by (simp add: vs)
    ultimately show ?thesis using 3 by (cases first) (simp_all add: vs consensus_def is_unknown_def)
  qed
qed

lemma validate_evidence_source: "validate_evidence lib f e = Inr u \<Longrightarrow> bm_get (fd_sources f) (ev_source e) \<noteq> None"
  by (auto simp: validate_evidence_def split: if_splits)

definition canonical_of :: "inventory_lib \<Rightarrow> field_definition \<Rightarrow> asset_scalar \<Rightarrow> asset_scalar" where
  "canonical_of lib f v = (case canonical_value lib f v of Inr w \<Rightarrow> w | Inl _ \<Rightarrow> v)"

lemma canonical_state_Inr: "canonical_state lib f s = Inr t \<Longrightarrow> t = map_field_state (canonical_of lib f) s"
  by (cases s) (auto simp: canonical_state_def canonical_of_def bind_res_Inr_conv)

lemma resolve_state_Inr:
  assumes "resolve_state lib f facts = Inr st"
  defines "vs \<equiv> map (\<lambda>s. map_field_state (canonical_of lib f) (sf_state s)) (settled_by f facts)"
  shows "\<forall>s \<in> set facts. check_fact lib f s = Inr ()"
    "st = (case vs of first # _ \<Rightarrow> if list_ex is_unknown vs then unknown_of vs
        else if list_ex (\<lambda>v. v \<noteq> first) vs then StConflict else first
      | [] \<Rightarrow> absent_state facts)"
    "\<forall>s \<in> set (settled_by f facts). \<exists>t. canonical_state lib f (sf_state s) = Inr t"
proof -
  obtain ws where c: "fold_res (\<lambda>s _. check_fact lib f s) facts () = Inr ()"
    and w: "map_res (\<lambda>s. canonical_state lib f (sf_state s)) (settled_by f facts) = Inr ws"
    and st: "st = (case ws of first # _ \<Rightarrow> if list_ex is_unknown ws then unknown_of ws
        else if list_ex (\<lambda>v. v \<noteq> first) ws then StConflict else first | [] \<Rightarrow> absent_state facts)"
    using assms(1) by (auto simp: resolve_state_def settled_by_def bind_res_Inr_conv split: if_splits)
  show "\<forall>s \<in> set facts. check_fact lib f s = Inr ()" using c by (simp add: fold_res_unit)
  have each: "list_all2 (\<lambda>s t. canonical_state lib f (sf_state s) = Inr t) (settled_by f facts) ws"
    using w by (simp add: map_res_Inr)
  have "ws = vs" unfolding vs_def using each
    by (induction rule: list_all2_induct) (auto dest: canonical_state_Inr)
  then show "st = (case vs of first # _ \<Rightarrow> if list_ex is_unknown vs then unknown_of vs
        else if list_ex (\<lambda>v. v \<noteq> first) vs then StConflict else first | [] \<Rightarrow> absent_state facts)" using st by (simp only:)
  show "\<forall>s \<in> set (settled_by f facts). \<exists>t. canonical_state lib f (sf_state s) = Inr t"
    using each by (auto simp: list_all2_conv_all_nth in_set_conv_nth)
qed

lemma check_fact_priority: "check_fact lib f s = Inr u \<Longrightarrow> fact_priority f s \<noteq> None"
  by (auto simp: check_fact_def fact_priority_def bind_res_Inr_conv dest: validate_evidence_source)

interpretation scalar_facts: source_resolution "resolve_state lib f" "fact_priority f" "canonical_of lib f" id
  for lib f
proof
  fix facts st
  assume a: "resolve_state lib f facts = Inr st"
  let ?g = "\<lambda>s. map_field_state (canonical_of lib f) (sf_state s)"
  let ?vs = "map ?g (settled_by f facts)"
  let ?C = "(\<lambda>s. (the (fact_priority f s), ?g s)) ` set facts"
  have "\<forall>s \<in> set facts. fact_priority f s \<noteq> None"
    using resolve_state_Inr(1) [OF a] by (blast dest: check_fact_priority)
  then have set: "set ?vs = best ?C" using settled_best [of facts f ?g] by simp
  show "consensus ?C (map_field_state id st)"
  proof (cases "?vs = []")
    case True
    with set have "best ?C = {}" by (metis list.set(1))
    moreover have "st = absent_state facts" using resolve_state_Inr(2) [OF a] True by simp
    ultimately show ?thesis using absent_state_consensus by fastforce
  next
    case False
    then show ?thesis unfolding resolve_state_Inr(2) [OF a]
      by (intro verdict_consensus [where eq = "(=)"]) (use set in \<open>simp_all add: field_state.map_id0 field_state.map_id\<close>)
  qed
qed

lemma array_state_Inr:
  assumes "array_state lib f facts = Inr st"
  defines "vs \<equiv> map sf_state (settled_by f facts)"
  shows "\<forall>s \<in> set facts. check_array_fact lib f facts s = Inr ()"
    "st = (case vs of first # _ \<Rightarrow> if list_ex is_unknown vs then unknown_of vs
        else if list_ex (\<lambda>v. \<not> array_state_eq v first) vs then StConflict else first
      | [] \<Rightarrow> absent_state facts)"
  using assms by (auto simp: array_state_def settled_by_def Let_def fold_res_unit bind_res_Inr_conv conj_commute split: if_splits)

lemma check_array_fact_priority: "check_array_fact lib f facts s = Inr u \<Longrightarrow> fact_priority f s \<noteq> None"
  by (auto simp: check_array_fact_def fact_priority_def bind_res_Inr_conv dest: validate_evidence_source)

interpretation array_facts: source_resolution "array_state lib f" "fact_priority f" array_content array_content
  for lib f
proof
  fix facts st
  assume a: "array_state lib f facts = Inr st"
  let ?g = "\<lambda>s. map_field_state array_content (sf_state s)"
  let ?vs = "map sf_state (settled_by f facts)"
  let ?C = "(\<lambda>s. (the (fact_priority f s), ?g s)) ` set facts"
  have "\<forall>s \<in> set facts. fact_priority f s \<noteq> None"
    using array_state_Inr(1) [OF a] by (blast dest: check_array_fact_priority)
  then have set: "map_field_state array_content ` set ?vs = best ?C"
    using settled_best [of facts f ?g] by (simp add: image_image)
  show "consensus ?C (map_field_state array_content st)"
  proof (cases "?vs = []")
    case True
    with set have "best ?C = {}" by (metis image_empty list.set(1))
    moreover have "st = absent_state facts" using array_state_Inr(2) [OF a] True by simp
    ultimately show ?thesis using absent_state_consensus by fastforce
  next
    case False
    then show ?thesis unfolding array_state_Inr(2) [OF a]
      by (intro verdict_consensus [where eq = array_state_eq]) (use set in \<open>simp_all add: array_state_eq_def image_image\<close>)
  qed
qed

section \<open>Simulation\<close>

text \<open>Renaming the known values of all observations by a function that keeps them apart renames the consensus.\<close>

lemma best_map:
  "best (map_prod id (map_field_state g) ` C) = map_field_state g ` best C"
  by (force simp: best_def image_iff)

lemma map_state_inj:
  assumes "inj_on g (\<Union>s \<in> S. set_field_state s)" "s \<in> S" "t \<in> S" "map_field_state g s = map_field_state g t"
  shows "s = t"
  using field_state.inj_map_strong [of s t g g] assms by (auto dest: inj_onD)

lemma consensus_map:
  assumes "inj_on g (\<Union>s \<in> best C. set_field_state s)" "consensus C st"
  shows "consensus (map_prod id (map_field_state g) ` C) (map_field_state g st)"
proof -
  have m: "StUnknown r \<in> map_field_state g ` B \<longleftrightarrow> StUnknown r \<in> B" for r B
    by (auto simp: image_iff)
  have d: "StDeleted \<in> snd ` map_prod id (map_field_state g) ` C \<longleftrightarrow> StDeleted \<in> snd ` C"
    "StUnsupported \<in> snd ` map_prod id (map_field_state g) ` C \<longleftrightarrow> StUnsupported \<in> snd ` C"
    by (force simp: image_iff)+
  show ?thesis
  proof (cases st)
    case StConflict
    then obtain s t where st: "s \<in> best C" "t \<in> best C" "s \<noteq> t" and nu: "\<forall>s \<in> best C. \<not> is_unknown s"
      using assms(2) by (auto simp: consensus_def)
    then have "map_field_state g s \<noteq> map_field_state g t" using map_state_inj [OF assms(1)] by blast
    then show ?thesis using StConflict st nu by (auto simp: consensus_def best_map)
  qed (use assms(2) in \<open>simp_all add: consensus_def best_map d m\<close>)
qed

text \<open>The summary of a fact: its canonical values are replaced by their summaries.\<close>

definition summarize_state :: "('v \<Rightarrow> 'a) \<Rightarrow> 'v source_fact \<Rightarrow> 'a source_fact" where
  "summarize_state g s = \<lparr>sf_state = map_field_state g (sf_state s),
     sf_last_known = map_option (\<lambda>k. \<lparr>kv_value = g (kv_value k), kv_evidence = kv_evidence k\<rparr>) (sf_last_known s),
     sf_evidence = sf_evidence s\<rparr>"

lemma summarize_sel [simp]:
  "sf_state (summarize_state g s) = map_field_state g (sf_state s)" "sf_evidence (summarize_state g s) = sf_evidence s"
  "fact_key (summarize_state g s) = fact_key s" "fact_priority f (summarize_state g s) = fact_priority f s"
  by (simp_all add: summarize_state_def fact_key_def fact_priority_def)

section \<open>Properties\<close>

lemma resolve_Inr:
  "resolve lib f facts = Inr r \<longleftrightarrow> length facts \<le> 128 \<and> distinct (map fact_key facts) \<and>
    (\<exists>st. resolve_state lib f (sort_key fact_key facts) = Inr st \<and>
      r = \<lparr>rf_field = fd_key f, rf_state = st, rf_sources = sort_key fact_key facts\<rparr>)"
  by (auto simp: resolve_def Let_def bind_res_Inr_conv)

lemma resolve_array_Inr:
  "resolve_array lib f facts = Inr r \<longleftrightarrow> length facts \<le> 128 \<and> distinct (map fact_key facts) \<and>
    (\<exists>st. array_state lib f (sort_key fact_key facts) = Inr st \<and>
      r = \<lparr>rf_field = fd_key f, rf_state = st, rf_sources = sort_key fact_key facts\<rparr>)"
  by (auto simp: resolve_array_def Let_def bind_res_Inr_conv)

definition stream :: "string \<Rightarrow> evidence" where
  "stream dataset = \<lparr>ev_scope = ScDevice, ev_source = AgentNative, ev_dataset = Some dataset, ev_registration = Some ''r'',
     ev_registration_generation = None, ev_epoch = Some ''e'', ev_snapshot_id = ''s'', ev_observed_at = 0, ev_received_at = 0,
     ev_actor = None\<rparr>"

definition reports :: "string \<Rightarrow> 'v field_state \<Rightarrow> 'v source_fact" where
  "reports dataset st = \<lparr>sf_state = st, sf_last_known = None, sf_evidence = stream dataset\<rparr>"

definition disks_ab :: asset_scalar where "disks_ab = AArray [disk ''a'' 2, disk ''b'' 1]"
definition disks_ba :: asset_scalar where "disks_ba = AArray [disk ''b'' 1, disk ''a'' 2]"

lemma stream_valid: "dataset = ''x'' \<or> dataset = ''y'' \<or> dataset = ''z'' \<Longrightarrow> validate_evidence sample_lib disk_field (stream dataset) = Inr ()"
  by (elim disjE)
    (simp_all add: validate_evidence_def stream_def validate_source_def validate_executable_def scope_executable_def disk_field_def
      opt_bounded_def bounded_def has_control_def str_chars_def char_is_control_def sample_lib_def)

lemma reports_sel [simp]:
  "sf_state (reports d st) = st" "sf_last_known (reports d st) = None" "sf_evidence (reports d st) = stream d"
  "fact_key (reports d st) = (AgentNative, Some d)" "fact_priority disk_field (reports d st) = Some 1"
  by (simp_all add: reports_def stream_def fact_key_def fact_priority_def disk_field_def)

lemma reports_ok:
  assumes "d = ''x'' \<or> d = ''y'' \<or> d = ''z''" "st = StKnown disks_ab \<or> st = StKnown disks_ba \<or> st = StDeleted"
  shows "check_fact sample_lib disk_field (reports d st) = Inr ()"
  using assms stream_valid [of d]
  by (auto simp: check_fact_def check_state_def check_last_known_def validate_executable_def scope_executable_def
      disks_ab_def disks_ba_def disks_scalar) (simp_all add: stream_def)

lemmas sample_resolution = reports_ok resolve_Inr resolve_state_def selected_priority_def opt_min_def map_filter_simps
  canonical_state_def is_unknown_def disk_field_ok

lemma sample_canonical:
  "canonical_value sample_lib disk_field disks_ab = Inr disks_ab" "canonical_value sample_lib disk_field disks_ba = Inr disks_ab"
  using disk_canonical by (simp_all add: disks_ab_def disks_ba_def)

lemma sample_key: "fd_key disk_field = ''device.disks''" "ev_scope (stream d) = ScDevice"
  by (simp_all add: disk_field_def stream_def)

lemma disks_resolve:
  "resolve sample_lib disk_field [reports ''x'' (StKnown disks_ba), reports ''y'' (StKnown disks_ab)] =
    Inr \<lparr>rf_field = ''device.disks'', rf_state = StKnown disks_ab,
      rf_sources = [reports ''x'' (StKnown disks_ba), reports ''y'' (StKnown disks_ab)]\<rparr>"
  by (simp add: sample_resolution sample_canonical sample_key)

lemma disks_resolve_deleted:
  "resolve sample_lib disk_field [reports ''z'' StDeleted, reports ''x'' (StKnown disks_ba), reports ''y'' (StKnown disks_ab)] =
    Inr \<lparr>rf_field = ''device.disks'', rf_state = StKnown disks_ab,
      rf_sources = [reports ''x'' (StKnown disks_ba), reports ''y'' (StKnown disks_ab), reports ''z'' StDeleted]\<rparr>"
  by (simp add: sample_resolution sample_canonical sample_key)

text \<open>C13: A resolved field is the agreement of its best current sources. The state is a value exactly when all
  current sources of the smallest priority number report that value (in canonical form), a conflict when they
  report different definite states, unknown as soon as one of them is unknown, and without a current source the
  strongest of deletion, missing support and absence. Every source is kept, in the order of source and dataset.\<close>

theorem inventory_resolution_consensus:
  assumes "resolve lib f facts = Inr r"
  shows "consensus ((\<lambda>s. (the (fact_priority f s), map_field_state (canonical_of lib f) (sf_state s))) ` set facts) (rf_state r)
    \<and> mset (rf_sources r) = mset facts \<and> sorted_wrt (<) (map fact_key (rf_sources r))"
proof -
  obtain st where st: "resolve_state lib f (sort_key fact_key facts) = Inr st" "distinct (map fact_key facts)"
    and r: "r = \<lparr>rf_field = fd_key f, rf_state = st, rf_sources = sort_key fact_key facts\<rparr>"
    using assms by (auto simp: resolve_Inr)
  have "distinct (map fact_key (sort_key fact_key facts))" using st(2) by (metis adjacent_equal_sort_key adjacent_equal_sorted sorted_sort_key)
  then have "sorted_wrt (<) (map fact_key (sort_key fact_key facts))"
    by (simp add: strict_sorted_iff)
  then show ?thesis using scalar_facts.settle_consensus [OF st(1)] by (simp add: r field_state.map_id0 field_state.map_id)
qed

theorem inventory_resolution_consensus_witness:
  "consensus ((\<lambda>s. (the (fact_priority disk_field s), map_field_state (canonical_of sample_lib disk_field) (sf_state s))) `
      set [reports ''x'' (StKnown disks_ba), reports ''y'' (StKnown disks_ab)]) (StKnown disks_ab)"
  using inventory_resolution_consensus [OF disks_resolve] by simp

text \<open>C17: The order in which sources arrive is irrelevant: for every permutation of the facts, resolution over values
  and over summaries of arrays returns the same field with the same sources, or the same error.\<close>

theorem inventory_resolution_order_free:
  assumes "mset xs = mset ys" "mset as = mset bs"
  shows "resolve lib f xs = resolve lib f ys \<and> resolve_array lib f as = resolve_array lib f bs"
proof -
  have "length xs = length ys" "length as = length bs" using assms by (metis size_mset)+
  moreover have "distinct (map fact_key xs) \<longleftrightarrow> distinct (map fact_key ys)" "distinct (map fact_key as) \<longleftrightarrow> distinct (map fact_key bs)"
    using assms by (metis mset_eq_imp_distinct_iff mset_map)+
  moreover have "distinct (map fact_key xs) \<Longrightarrow> sort_key fact_key xs = sort_key fact_key ys"
    "distinct (map fact_key as) \<Longrightarrow> sort_key fact_key as = sort_key fact_key bs"
    using assms by (auto intro: sort_key_canonical)
  ultimately show ?thesis by (cases "distinct (map fact_key xs)"; cases "distinct (map fact_key as)") (simp_all add: resolve_def resolve_array_def Let_def)
qed

theorem inventory_resolution_order_free_witness:
  "resolve sample_lib disk_field [reports ''y'' (StKnown disks_ab), reports ''x'' (StKnown disks_ba)] =
    Inr \<lparr>rf_field = ''device.disks'', rf_state = StKnown disks_ab,
      rf_sources = [reports ''x'' (StKnown disks_ba), reports ''y'' (StKnown disks_ab)]\<rparr>"
  using inventory_resolution_order_free [of "[reports ''y'' (StKnown disks_ab), reports ''x'' (StKnown disks_ba)]"
      "[reports ''x'' (StKnown disks_ba), reports ''y'' (StKnown disks_ab)]" "[]" "[]" sample_lib disk_field] disks_resolve
  by simp

text \<open>A tombstone, a source without support and a source of worse priority never change the value of a field
  that a current source provides: adding such a source to the facts leaves the resolved state as it was.\<close>

theorem inventory_resolution_conservative:
  assumes "resolve lib f facts = Inr a" "resolve lib f (x # facts) = Inr b" "\<exists>y \<in> set facts. selectable (sf_state y)"
    "\<not> selectable (sf_state x) \<or> (\<exists>y \<in> set facts. selectable (sf_state y) \<and> the (fact_priority f y) < the (fact_priority f x))"
  shows "rf_state b = rf_state a"
proof -
  obtain st where st: "resolve_state lib f (sort_key fact_key facts) = Inr st" "rf_state a = st"
    using assms(1) by (auto simp: resolve_Inr)
  obtain st' where st': "resolve_state lib f (sort_key fact_key (x # facts)) = Inr st'" "rf_state b = st'"
    using assms(2) unfolding resolve_Inr by auto
  have "set (sort_key fact_key (x # facts)) = insert x (set (sort_key fact_key facts))"
    by (simp del: sort_key_simps)
  from scalar_facts.settle_extra [OF st(1) st'(1) this] assms(3,4) st(2) st'(2)
  show ?thesis by (simp add: field_state.map_id0 field_state.map_id)
qed

theorem inventory_resolution_conservative_witness:
  "\<exists>a b. resolve sample_lib disk_field [reports ''x'' (StKnown disks_ba), reports ''y'' (StKnown disks_ab)] = Inr a \<and>
    resolve sample_lib disk_field (reports ''z'' StDeleted # [reports ''x'' (StKnown disks_ba), reports ''y'' (StKnown disks_ab)]) = Inr b \<and>
    rf_state b = rf_state a"
  using inventory_resolution_conservative [OF disks_resolve disks_resolve_deleted] disks_resolve disks_resolve_deleted by auto

text \<open>C16: Resolving the summaries of arrays simulates resolving the arrays. When every value is replaced by the count,
  size and digest of its canonical form, and these distinguish the canonical values at hand, the resolved summary
  is the summary of the resolved value: large inventories can be resolved without reading their items.\<close>

theorem inventory_array_simulates_values:
  assumes "resolve lib f facts = Inr r" "resolve_array lib f (map (summarize_state (\<lambda>v. summary (canonical_of lib f v))) facts) = Inr a"
    "inj_on (\<lambda>w. array_content (summary w)) {canonical_of lib f v | s v. s \<in> set facts \<and> sf_state s = StKnown v}"
  shows "map_field_state array_content (rf_state a) = map_field_state (\<lambda>w. array_content (summary w)) (rf_state r)"
proof -
  let ?g = "\<lambda>w. array_content (summary w)"
  let ?sum = "summarize_state (\<lambda>v. summary (canonical_of lib f v))"
  let ?C = "(\<lambda>s. (the (fact_priority f s), map_field_state (canonical_of lib f) (sf_state s))) ` set facts"
  obtain st where st: "resolve_state lib f (sort_key fact_key facts) = Inr st" "rf_state r = st"
    using assms(1) by (auto simp: resolve_Inr)
  obtain st' where st': "array_state lib f (sort_key fact_key (map ?sum facts)) = Inr st'" "rf_state a = st'"
    using assms(2) unfolding resolve_array_Inr by auto
  have c: "consensus ?C (rf_state r)"
    using scalar_facts.settle_consensus [OF st(1)] st(2) by (simp add: field_state.map_id0 field_state.map_id)
  have "(\<lambda>s. (the (fact_priority f s), map_field_state array_content (sf_state s))) ` ?sum ` set facts = map_prod id (map_field_state ?g) ` ?C"
    by (simp add: image_image field_state.map_comp comp_def)
  then have d: "consensus (map_prod id (map_field_state ?g) ` ?C) (map_field_state array_content (rf_state a))"
    using array_facts.settle_consensus [OF st'(1)] st'(2) by simp
  have "(\<Union>s \<in> best ?C. set_field_state s) \<subseteq> {canonical_of lib f v | s v. s \<in> set facts \<and> sf_state s = StKnown v}"
  proof
    fix w
    assume "w \<in> (\<Union>s \<in> best ?C. set_field_state s)"
    then obtain s where "s \<in> set facts" "w \<in> set_field_state (map_field_state (canonical_of lib f) (sf_state s))"
      by (auto simp: best_def)
    then show "w \<in> {canonical_of lib f v | s v. s \<in> set facts \<and> sf_state s = StKnown v}"
      by (cases "sf_state s") auto
  qed
  then have "consensus (map_prod id (map_field_state ?g) ` ?C) (map_field_state ?g (rf_state r))"
    by (intro consensus_map [OF _ c]) (rule inj_on_subset [OF assms(3)])
  from consensus_unique [OF d this] show ?thesis .
qed

definition sample_summary :: "asset_scalar \<Rightarrow> array_value" where
  "sample_summary v = \<lparr>av_version = replicate 64 CHR ''0'', av_count = (case v of AArray xs \<Rightarrow> length xs | _ \<Rightarrow> 0), av_bytes = 100,
     av_digest = replicate 64 CHR ''a''\<rparr>"

lemma sample_canonical_of: "canonical_of sample_lib disk_field disks_ab = disks_ab" "canonical_of sample_lib disk_field disks_ba = disks_ab"
  by (simp_all add: canonical_of_def sample_canonical)

lemma summarize_reports: "summarize_state g (reports d st) = reports d (map_field_state g st)"
  by (simp add: summarize_state_def reports_def)

lemma sample_summary_ok: "array_validate_value disk_field (sample_summary disks_ab) = Inr ()"
  by (simp add: array_validate_value_def disk_field_def sample_summary_def disks_ab_def hex64_def list_all_iff is_ascii_digit_def)

lemma disks_resolve_array:
  "resolve_array sample_lib disk_field (map (summarize_state (\<lambda>v. sample_summary (canonical_of sample_lib disk_field v)))
      [reports ''x'' (StKnown disks_ba), reports ''y'' (StKnown disks_ab)]) =
    Inr \<lparr>rf_field = ''device.disks'', rf_state = StKnown (sample_summary disks_ab),
      rf_sources = [reports ''x'' (StKnown (sample_summary disks_ab)), reports ''y'' (StKnown (sample_summary disks_ab))]\<rparr>"
proof -
  have "check_array_fact sample_lib disk_field facts (reports d (StKnown (sample_summary disks_ab))) = Inr ()"
    if "d = ''x'' \<or> d = ''y''" "facts = reports e (StKnown (sample_summary disks_ab)) # more" for d e facts more
    using that stream_valid [of d] sample_summary_ok
    by (auto simp: check_array_fact_def check_state_def check_last_known_def sample_key)
  moreover have "is_array_type (fd_value_type disk_field)" by (simp add: is_array_type_def disk_field_def)
  ultimately show ?thesis
    by (simp add: summarize_reports sample_canonical_of resolve_array_Inr array_state_def selected_priority_def opt_min_def
        map_filter_simps is_unknown_def disk_field_ok array_state_eq_def sample_key)
qed

theorem inventory_array_simulates_values_witness:
  "map_field_state array_content (StKnown (sample_summary disks_ab)) =
    map_field_state (\<lambda>w. array_content (sample_summary w)) (StKnown disks_ab)"
proof -
  have "inj_on (\<lambda>w. array_content (sample_summary w))
      {canonical_of sample_lib disk_field v | s v. s \<in> set [reports ''x'' (StKnown disks_ba), reports ''y'' (StKnown disks_ab)] \<and> sf_state s = StKnown v}"
    by (rule inj_on_subset [of _ "{disks_ab}"]) (auto simp: sample_canonical_of)
  from inventory_array_simulates_values [OF disks_resolve disks_resolve_array this] show ?thesis by simp
qed

end
