(* ===== verification/Inventory_Collection.thy ===== *)
theory Inventory_Collection
  imports Inventory_Facts
begin

text \<open>
  Collections of \<^verbatim>\<open>crates/inventory\<close>: typed collected values (\<^verbatim>\<open>collected.rs\<close>), frozen definitions
  (\<^verbatim>\<open>collection.rs\<close>), the progress of one collection field by field (\<^verbatim>\<open>progress.rs\<close>) and the coordinates of
  committed history (\<^verbatim>\<open>cut.rs\<close>). JSON, SHA-256 in hexadecimal, identifiers and the report types of the observation
  library enter through \<open>collection_lib\<close>; \<open>cl_changes\<close> is the library's list of changes of a report body.
\<close>

section \<open>Collected values\<close>

datatype collected_value = CvUnknown unknown_reason | CvValue asset_scalar | CvNull | CvDeleted | CvUnsupported

record collection_field =
  cf_definition :: field_definition
  cf_scope :: collection_scope

record collection_definition =
  cd_dataset :: string
  cd_version :: string
  cd_source :: source
  cd_fields :: "collection_field list"

record change =
  ch_key :: string
  ch_value :: "string option"

datatype report_body = BodySnapshot "change list" | BodyPartial "change list" | BodyFailed string

record collection_lib =
  cl_inventory :: inventory_lib
  cl_to_json :: "collected_value \<Rightarrow> string option"
  cl_from_json :: "string \<Rightarrow> collected_value option"
  cl_sha_hex :: "string \<Rightarrow> string"
  cl_id_ok :: "string \<Rightarrow> bool"
  cl_definition_json :: "collection_definition \<Rightarrow> string option"
  cl_changes :: "report_body \<Rightarrow> change list"

definition collected_validate :: "inventory_lib \<Rightarrow> field_definition \<Rightarrow> collected_value \<Rightarrow> unit inventory_result" where
  "collected_validate lib f v = (case v of
      CvValue s \<Rightarrow> validate_scalar lib f s
    | CvNull \<Rightarrow> if \<not> fd_nullable f then Inl (Fail TypeMismatch) else Inr ()
    | _ \<Rightarrow> Inr ())"

definition collected_encode :: "collection_lib \<Rightarrow> field_definition \<Rightarrow> collected_value \<Rightarrow> string inventory_result" where
  "collected_encode L f v =
    bind_res (collected_validate (cl_inventory L) f v) (\<lambda>_. ok_or InvalidEncoding (cl_to_json L v))"

definition collected_decode :: "collection_lib \<Rightarrow> field_definition \<Rightarrow> string \<Rightarrow> collected_value inventory_result" where
  "collected_decode L f bytes =
    bind_res (ok_or InvalidEncoding (cl_from_json L bytes)) (\<lambda>v.
    bind_res (collected_validate (cl_inventory L) f v) (\<lambda>_. Inr v))"

section \<open>Definitions\<close>

definition field_key :: "collection_field \<Rightarrow> string" where
  "field_key f = fd_key (cf_definition f)"

definition observation_id :: "collection_lib \<Rightarrow> string \<Rightarrow> string inventory_result" where
  "observation_id L s = (if cl_id_ok L s then Inr s else Inl (Fail InvalidValue))"

definition collection_new ::
  "collection_lib \<Rightarrow> string \<Rightarrow> string \<Rightarrow> source \<Rightarrow> collection_field list \<Rightarrow> collection_definition inventory_result" where
  "collection_new L dataset version src fs =
    bind_res (observation_id L dataset) (\<lambda>_.
    bind_res (observation_id L version) (\<lambda>_.
    if length dataset > 128 \<or> length version > 128 \<or> src = Manual \<or> fs = [] \<or> length fs > 128 then Inl (Fail InvalidValue)
    else bind_res (catalog_new (cl_inventory L) (map cf_definition fs)) (\<lambda>_.
    bind_res (fold_res (\<lambda>f _. validate_source (cl_inventory L) (cf_scope f) src) fs ()) (\<lambda>_.
    if list_ex (\<lambda>f. bm_get (fd_sources (cf_definition f)) src = None \<or> fd_sensitivity (cf_definition f) = Secret) fs
    then Inl (Fail SourceNotAllowed)
    else Inr \<lparr>cd_dataset = dataset, cd_version = version, cd_source = src, cd_fields = sort_key field_key fs\<rparr>))))"

definition definition_field :: "collection_definition \<Rightarrow> string \<Rightarrow> field_definition inventory_result" where
  "definition_field d key = ok_or UnknownField (map_option cf_definition (find (\<lambda>f. field_key f = key) (cd_fields d)))"

definition field_scope :: "collection_definition \<Rightarrow> string \<Rightarrow> collection_scope inventory_result" where
  "field_scope d key = ok_or UnknownField (map_option cf_scope (find (\<lambda>f. field_key f = key) (cd_fields d)))"

definition fingerprint :: "collection_lib \<Rightarrow> collection_definition \<Rightarrow> string inventory_result" where
  "fingerprint L d = bind_res (ok_or InvalidEncoding (cl_definition_json L d)) (\<lambda>bytes. Inr (cl_sha_hex L bytes))"

type_synonym coverage = "string \<times> string \<times> string \<times> string"

definition collection_coverage :: "collection_lib \<Rightarrow> collection_definition \<Rightarrow> coverage inventory_result" where
  "collection_coverage L d =
    bind_res (observation_id L (cd_dataset d)) (\<lambda>dataset.
    bind_res (observation_id L (cd_version d)) (\<lambda>version.
    bind_res (bind_res (fingerprint L d) (observation_id L)) (\<lambda>digest.
    bind_res (observation_id L ''typed-fields-v1'') (\<lambda>schema.
    Inr (dataset, version, digest, schema)))))"

definition collection_validate_scope :: "collection_definition \<Rightarrow> string \<Rightarrow> string \<Rightarrow> unit inventory_result" where
  "collection_validate_scope d src dataset =
    (if src \<noteq> source_as_str (cd_source d) \<or> dataset \<noteq> cd_dataset d then Inl (Fail SourceNotAllowed) else Inr ())"

definition check_change :: "collection_lib \<Rightarrow> collection_definition \<Rightarrow> change \<Rightarrow> string btree_set \<Rightarrow> string btree_set inventory_result" where
  "check_change L d c seen =
    bind_res (key_parse (ch_key c)) (\<lambda>key.
    bind_res (definition_field d key) (\<lambda>f.
    if key \<in> set seen then Inl (Fail DuplicateField)
    else bind_res (case ch_value c of Some bytes \<Rightarrow> bind_res (collected_decode L f bytes) (\<lambda>_. Inr ()) | None \<Rightarrow> Inr ()) (\<lambda>_.
    Inr (bs_insert key seen))))"

definition collection_validate :: "collection_lib \<Rightarrow> collection_definition \<Rightarrow> coverage \<Rightarrow> report_body \<Rightarrow> unit inventory_result" where
  "collection_validate L d cov body =
    bind_res (collection_coverage L d) (\<lambda>own.
    if cov \<noteq> own then Inl (Fail InvalidEvidence)
    else bind_res (fold_res (check_change L d) (cl_changes L body) []) (\<lambda>_. Inr ()))"

subsection \<open>References to results\<close>

record collection_reference =
  cr_format :: nat
  cr_digest :: string

text \<open>\<open>to_json\<close> and \<open>from_json\<close> of the envelope are parameters, \<open>new_batch\<close> is \<^verbatim>\<open>Batch::new\<close> of the observation library.\<close>

definition reference_batch ::
  "collection_lib \<Rightarrow> (collection_reference \<Rightarrow> string option) \<Rightarrow> (coverage \<Rightarrow> report_body \<Rightarrow> 'b option) \<Rightarrow>
    collection_definition \<Rightarrow> string \<Rightarrow> 'b inventory_result" where
  "reference_batch L to_json new_batch d digest =
    (if \<not> hex64 digest then Inl (Fail InvalidEvidence)
     else bind_res (ok_or InvalidEncoding (to_json \<lparr>cr_format = 1, cr_digest = digest\<rparr>)) (\<lambda>bytes.
     bind_res (collection_coverage L d) (\<lambda>cov.
     bind_res (observation_id L ''collection_result'') (\<lambda>key.
     ok_or InvalidEvidence (new_batch cov (BodySnapshot [\<lparr>ch_key = key, ch_value = Some bytes\<rparr>]))))))"

definition reference_from_batch ::
  "collection_lib \<Rightarrow> (string \<Rightarrow> collection_reference option) \<Rightarrow> collection_definition \<Rightarrow> coverage \<Rightarrow> report_body \<Rightarrow>
    collection_reference inventory_result" where
  "reference_from_batch L from_json d cov body = (case body of
      BodySnapshot changes \<Rightarrow>
        (case changes of
           [c] \<Rightarrow>
             if ch_key c \<noteq> ''collection_result'' then Inl (Fail InvalidEvidence)
             else bind_res (collection_coverage L d) (\<lambda>own.
               if cov \<noteq> own then Inl (Fail InvalidEvidence)
               else bind_res (ok_or InvalidEvidence (ch_value c)) (\<lambda>bytes.
               if length bytes > 256 then Inl (Fail InvalidEvidence)
               else bind_res (ok_or InvalidEncoding (from_json bytes)) (\<lambda>r.
               if cr_format r \<noteq> 1 \<or> \<not> hex64 (cr_digest r) then Inl (Fail InvalidEvidence) else Inr r)))
         | _ \<Rightarrow> Inl (Fail InvalidEvidence))
    | _ \<Rightarrow> Inl (Fail InvalidEvidence))"

section \<open>Progress\<close>

datatype quality = QlUnknown | QlPending | QlSuccess | QlUnsupported | QlFailed | QlInvalid | QlMissing | QlDeleted

record field_attempt =
  fa_status :: "nat option"
  fa_reason :: "string option"
  fa_quality :: quality
  fa_received_at :: "int option"
  fa_value :: "collected_value option"
  fa_digest :: "string option"
  fa_confirmed :: bool
  fa_terminal :: "quality option"
  fa_items :: "quality list"

definition attempt_default :: field_attempt where
  "attempt_default = \<lparr>fa_status = None, fa_reason = None, fa_quality = QlPending, fa_received_at = None, fa_value = None,
     fa_digest = None, fa_confirmed = False, fa_terminal = None, fa_items = []\<rparr>"

record progress =
  pr_definition :: collection_definition
  pr_fields :: "(string, field_attempt) btree_map"
  pr_finished :: bool
  pr_complete_coverage :: bool

definition success_code :: "nat \<Rightarrow> bool" where
  "success_code c \<longleftrightarrow> 200 \<le> c \<and> c < 300"

definition attempt_quality :: "field_attempt \<Rightarrow> bool \<Rightarrow> quality" where
  "attempt_quality f finished = (case fa_terminal f of
      Some terminal \<Rightarrow> terminal
    | None \<Rightarrow>
        if fa_confirmed f \<and> (case fa_value f of Some (CvUnknown _) \<Rightarrow> True | _ \<Rightarrow> False) then QlUnknown
        else if fa_confirmed f \<and> fa_value f = Some CvDeleted then QlDeleted
        else if fa_status f = Some 501 \<or> (fa_confirmed f \<and> fa_value f = Some CvUnsupported) then QlUnsupported
        else if (case fa_status f of Some c \<Rightarrow> \<not> success_code c | None \<Rightarrow> False) then QlFailed
        else if fa_digest f \<noteq> None \<and> fa_value f = None then QlInvalid
        else if fa_confirmed f \<and> fa_value f \<noteq> None then QlSuccess
        else if finished then QlMissing
        else QlPending)"

definition closed_reasons :: "string list" where
  "closed_reasons = [''complete'', ''unsupported'', ''denied'', ''timeout'', ''truncated'', ''missing'', ''invalid'', ''untrusted'',
     ''owner_mismatch'', ''failed'', ''partial'', ''not_scanned'', ''source_unavailable'', ''user_absent'', ''store_unavailable'',
     ''incomplete'']"

definition successes :: "quality list \<Rightarrow> nat" where
  "successes qs = length (filter (\<lambda>q. q = QlSuccess) qs)"

definition row_quality :: "quality \<Rightarrow> bool" where
  "row_quality q \<longleftrightarrow> q = QlSuccess \<or> q = QlInvalid"

definition array_items :: "collected_value option \<Rightarrow> asset_scalar list option" where
  "array_items v = (case v of Some (CvValue (AArray vs)) \<Rightarrow> Some vs | _ \<Rightarrow> None)"

definition is_hex :: "char \<Rightarrow> bool" where
  "is_hex c \<longleftrightarrow> is_ascii_digit c \<or> ((97::nat) \<le> of_char c \<and> of_char c \<le> (102::nat)) \<or> ((65::nat) \<le> of_char c \<and> of_char c \<le> (70::nat))"

text \<open>The checks on one field when a document is restored.\<close>

definition check_items :: "field_definition \<Rightarrow> field_attempt \<Rightarrow> unit inventory_result" where
  "check_items definition f =
    (if fa_items f = [] then Inr ()
     else case fd_value_type definition of
       VtArray _ max_items \<Rightarrow>
         if length (fa_items f) > max_items \<or> list_ex (\<lambda>q. \<not> row_quality q) (fa_items f) then Inl (Fail InvalidEvidence)
         else if (case array_items (fa_value f) of
              Some vs \<Rightarrow> (length vs = length (fa_items f) \<and> list_all (\<lambda>q. q = QlSuccess) (fa_items f))
                \<or> (fa_terminal f = Some QlInvalid \<and> QlInvalid \<in> set (fa_items f) \<and> length vs = successes (fa_items f))
            | None \<Rightarrow> fa_value f = None \<and> fa_terminal f = Some QlInvalid \<and> QlInvalid \<in> set (fa_items f))
         then Inr () else Inl (Fail InvalidEvidence)
     | _ \<Rightarrow> Inl (Fail InvalidEvidence))"

definition check_attempt :: "collection_lib \<Rightarrow> collection_definition \<Rightarrow> bool \<Rightarrow> string \<times> field_attempt \<Rightarrow> unit inventory_result" where
  "check_attempt L d finished kf = (case kf of (key, f) \<Rightarrow>
    bind_res (definition_field d key) (\<lambda>definition.
    if (case fa_reason f of Some r \<Rightarrow> r \<notin> set closed_reasons | None \<Rightarrow> False) then Inl (Fail InvalidEvidence)
    else if (case array_items (fa_value f) of
        Some vs \<Rightarrow> length vs \<noteq> (if fa_terminal f = Some QlInvalid then successes (fa_items f) else length (fa_items f))
      | None \<Rightarrow> False) then Inl (Fail InvalidEvidence)
    else bind_res (check_items definition f) (\<lambda>_.
    bind_res (case fa_value f of
        Some v \<Rightarrow> bind_res (collected_encode L definition v) (\<lambda>bytes.
          if fa_digest f \<noteq> Some (cl_sha_hex L bytes) then Inl (Fail InvalidEvidence) else Inr ())
      | None \<Rightarrow> Inr ()) (\<lambda>_.
    if (case fa_terminal f of Some q \<Rightarrow> q \<notin> {QlMissing, QlFailed, QlInvalid, QlDeleted} | None \<Rightarrow> False)
      \<or> (fa_terminal f \<noteq> None \<and> (fa_confirmed f
          \<or> (fa_value f \<noteq> None \<and> \<not> (fa_terminal f = Some QlInvalid \<and> QlInvalid \<in> set (fa_items f)))))
    then Inl (Fail InvalidEvidence)
    else if (case fa_received_at f of Some t \<Rightarrow> \<not> il_time_ok (cl_inventory L) t | None \<Rightarrow> False)
      \<or> (case fa_digest f of Some s \<Rightarrow> length s \<noteq> 64 \<or> \<not> list_all is_hex s | None \<Rightarrow> False)
      \<or> fa_quality f \<noteq> attempt_quality f finished
    then Inl (Fail InvalidEvidence) else Inr ()))))"

definition progress_restore :: "collection_lib \<Rightarrow> progress \<Rightarrow> progress inventory_result" where
  "progress_restore L p =
    (if length (pr_fields p) \<noteq> length (cd_fields (pr_definition p)) then Inl (Fail InvalidEvidence)
     else bind_res (fold_res (\<lambda>kf _. check_attempt L (pr_definition p) (pr_finished p) kf) (pr_fields p) ()) (\<lambda>_. Inr p))"

subsection \<open>Operations\<close>

definition progress_new :: "collection_definition \<Rightarrow> progress" where
  "progress_new d = \<lparr>pr_definition = d, pr_fields = bm_of_list (map (\<lambda>f. (field_key f, attempt_default)) (cd_fields d)),
     pr_finished = False, pr_complete_coverage = True\<rparr>"

text \<open>Writing through the reference that \<^verbatim>\<open>get_mut\<close> returned.\<close>

definition put_attempt :: "string \<Rightarrow> field_attempt \<Rightarrow> progress \<Rightarrow> progress" where
  "put_attempt key f p = p\<lparr>pr_fields := map (\<lambda>(k, g). (k, if k = key then f else g)) (pr_fields p)\<rparr>"

definition get_attempt :: "progress \<Rightarrow> string \<Rightarrow> field_attempt inventory_result" where
  "get_attempt p key = ok_or UnknownField (bm_get (pr_fields p) key)"

definition time_check :: "collection_lib \<Rightarrow> int \<Rightarrow> unit inventory_result" where
  "time_check L now = (if il_time_ok (cl_inventory L) now then Inr () else Inl (Fail InvalidTime))"

definition observe_status :: "collection_lib \<Rightarrow> string \<Rightarrow> nat \<Rightarrow> int \<Rightarrow> progress \<Rightarrow> progress inventory_result" where
  "observe_status L key code now p =
    bind_res (time_check L now) (\<lambda>_.
    if pr_finished p \<or> \<not> (100 \<le> code \<and> code < 600) then Inl (Fail InvalidState)
    else bind_res (get_attempt p key) (\<lambda>f.
    if fa_terminal f \<noteq> None \<or> (case fa_status f of Some old \<Rightarrow> old \<noteq> code | None \<Rightarrow> False)
      \<or> (\<not> success_code code \<and> fa_digest f \<noteq> None) then Inl (Fail InvalidEvidence)
    else let f = f\<lparr>fa_status := Some code, fa_confirmed := success_code code, fa_received_at := Some now\<rparr> in
      Inr (put_attempt key (f\<lparr>fa_quality := attempt_quality f False\<rparr>) p)))"

definition attempt_bytes :: "collection_lib \<Rightarrow> field_definition \<Rightarrow> collected_value option \<Rightarrow> nat inventory_result" where
  "attempt_bytes L definition v = (case v of
      None \<Rightarrow> Inr 0 | Some x \<Rightarrow> bind_res (collected_encode L definition x) (\<lambda>bytes. Inr (length bytes)))"

definition value_bytes :: "collection_lib \<Rightarrow> progress \<Rightarrow> nat inventory_result" where
  "value_bytes L p = fold_res (\<lambda>(key, f) total.
     bind_res (case fa_value f of
         None \<Rightarrow> Inr 0
       | Some v \<Rightarrow> bind_res (definition_field (pr_definition p) key) (\<lambda>definition. attempt_bytes L definition (Some v))) (\<lambda>n.
     ok_or InvalidValue (checked_add_u64 total n))) (pr_fields p) 0"

definition accepted_value :: "collection_lib \<Rightarrow> field_definition \<Rightarrow> collected_value \<Rightarrow> collected_value option" where
  "accepted_value L definition v = (if is_ok (collected_encode L definition v) then Some v else None)"

definition observe_value :: "collection_lib \<Rightarrow> string \<Rightarrow> collected_value \<Rightarrow> int \<Rightarrow> progress \<Rightarrow> progress inventory_result" where
  "observe_value L key v now p =
    bind_res (time_check L now) (\<lambda>_.
    if pr_finished p then Inl (Fail InvalidState)
    else bind_res (definition_field (pr_definition p) key) (\<lambda>definition.
    bind_res (ok_or InvalidEncoding (cl_to_json L v)) (\<lambda>bytes.
    bind_res (attempt_bytes L definition (case bm_get (pr_fields p) key of Some f \<Rightarrow> fa_value f | None \<Rightarrow> None)) (\<lambda>previous.
    bind_res (value_bytes L p) (\<lambda>total.
    if saturating_add_u64 (total - previous) (length bytes) > 16 * 1024 * 1024 then Inl (Fail InvalidValue)
    else let digest = cl_sha_hex L bytes in
    bind_res (get_attempt p key) (\<lambda>f.
    if fa_terminal f \<noteq> None \<or> (case fa_digest f of Some old \<Rightarrow> old \<noteq> digest | None \<Rightarrow> False)
      \<or> (case fa_status f of Some c \<Rightarrow> \<not> success_code c | None \<Rightarrow> False) then Inl (Fail InvalidEvidence)
    else let w = accepted_value L definition v;
        f = f\<lparr>fa_value := w, fa_items := (case array_items w of Some vs \<Rightarrow> replicate (length vs) QlSuccess | None \<Rightarrow> []),
          fa_digest := Some digest, fa_received_at := Some now\<rparr> in
      Inr (put_attempt key (f\<lparr>fa_quality := attempt_quality f False\<rparr>) p)))))))"

definition progress_reason :: "string \<Rightarrow> string \<Rightarrow> progress \<Rightarrow> progress inventory_result" where
  "progress_reason key r p =
    (if r \<notin> set closed_reasons then Inl (Fail InvalidEvidence)
     else bind_res (ok_or InvalidEvidence (bm_get (pr_fields p) key)) (\<lambda>f.
       Inr (put_attempt key (f\<lparr>fa_reason := Some r\<rparr>) p)))"

definition progress_complete :: "progress \<Rightarrow> bool" where
  "progress_complete p \<longleftrightarrow> list_all (\<lambda>f. fa_quality f \<noteq> QlPending) (bm_values (pr_fields p))"

definition progress_finish :: "progress \<Rightarrow> progress" where
  "progress_finish p = p\<lparr>pr_finished := True,
     pr_fields := map (\<lambda>(k, f). (k, f\<lparr>fa_quality := attempt_quality f True\<rparr>)) (pr_fields p)\<rparr>"

definition observe_invalid :: "collection_lib \<Rightarrow> string \<Rightarrow> int \<Rightarrow> progress \<Rightarrow> progress inventory_result" where
  "observe_invalid L key now p =
    bind_res (time_check L now) (\<lambda>_.
    bind_res (get_attempt p key) (\<lambda>f.
    if pr_finished p \<or> fa_value f \<noteq> None \<or> fa_terminal f \<noteq> None then Inl (Fail InvalidEvidence)
    else let f = f\<lparr>fa_confirmed := False, fa_received_at := Some now, fa_terminal := Some QlInvalid\<rparr> in
      Inr (put_attempt key (f\<lparr>fa_quality := attempt_quality f False\<rparr>) p)))"

definition observe_invalid_items ::
  "collection_lib \<Rightarrow> string \<Rightarrow> quality list \<Rightarrow> asset_scalar list \<Rightarrow> int \<Rightarrow> progress \<Rightarrow> progress inventory_result" where
  "observe_invalid_items L key items vs now p =
    bind_res (definition_field (pr_definition p) key) (\<lambda>definition.
    case fd_value_type definition of
      VtArray _ max_items \<Rightarrow>
        if length items > max_items \<or> QlInvalid \<notin> set items \<or> list_ex (\<lambda>q. \<not> row_quality q) items then Inl (Fail InvalidEvidence)
        else if length vs \<noteq> successes items then Inl (Fail InvalidEvidence)
        else bind_res (collected_encode L definition (CvValue (AArray vs))) (\<lambda>bytes.
          bind_res (observe_invalid L key now p) (\<lambda>p.
          bind_res (get_attempt p key) (\<lambda>f.
          Inr (put_attempt key (f\<lparr>fa_items := items, fa_digest := Some (cl_sha_hex L bytes), fa_value := Some (CvValue (AArray vs))\<rparr>) p))))
    | _ \<Rightarrow> Inl (Fail TypeMismatch))"

definition definite :: "quality \<Rightarrow> bool" where
  "definite q \<longleftrightarrow> q = QlSuccess \<or> q = QlUnsupported \<or> q = QlDeleted"

definition coverage_complete :: "progress \<Rightarrow> bool" where
  "coverage_complete p \<longleftrightarrow> pr_finished p \<and> pr_complete_coverage p \<and> list_all (\<lambda>f. definite (fa_quality f)) (bm_values (pr_fields p))"

definition emitted :: "bool \<Rightarrow> field_attempt \<Rightarrow> collected_value option" where
  "emitted full f = (case fa_quality f of
      QlSuccess \<Rightarrow> fa_value f
    | QlUnknown \<Rightarrow> fa_value f
    | QlUnsupported \<Rightarrow> Some CvUnsupported
    | QlDeleted \<Rightarrow> if \<not> full then Some CvDeleted else None
    | _ \<Rightarrow> None)"

definition emit :: "collection_lib \<Rightarrow> progress \<Rightarrow> bool \<Rightarrow> string \<times> field_attempt \<Rightarrow> change list \<Rightarrow> change list inventory_result" where
  "emit L p full kf changes = (case kf of (key, f) \<Rightarrow>
     case emitted full f of
       None \<Rightarrow> Inr changes
     | Some v \<Rightarrow>
         bind_res (observation_id L key) (\<lambda>i.
         bind_res (bind_res (definition_field (pr_definition p) key) (\<lambda>definition. collected_encode L definition v)) (\<lambda>bytes.
         Inr (changes @ [\<lparr>ch_key = i, ch_value = Some bytes\<rparr>]))))"

definition progress_body :: "collection_lib \<Rightarrow> progress \<Rightarrow> report_body option inventory_result" where
  "progress_body L p =
    (if list_all (\<lambda>f. fa_received_at f = None) (bm_values (pr_fields p)) then Inr None
     else let full = (pr_complete_coverage p \<and> list_all (\<lambda>f. definite (fa_quality f)) (bm_values (pr_fields p))) in
       bind_res (fold_res (emit L p full) (pr_fields p) []) (\<lambda>changes.
       if full then Inr (Some (BodySnapshot changes))
       else if changes = [] \<and> list_ex (\<lambda>f. fa_quality f = QlFailed \<or> fa_quality f = QlInvalid) (bm_values (pr_fields p))
       then bind_res (observation_id L ''collection_failed'') (\<lambda>code. Inr (Some (BodyFailed code)))
       else Inr (Some (BodyPartial changes))))"

subsection \<open>Native and reported results\<close>

datatype native_value = NvValue collected_value | NvInvalidItems "quality list" "asset_scalar list" | NvInvalid | NvMissing | NvFailed

definition confirm :: "string \<Rightarrow> progress \<Rightarrow> progress inventory_result" where
  "confirm key p = bind_res (get_attempt p key) (\<lambda>f.
     let f = f\<lparr>fa_confirmed := True\<rparr> in Inr (put_attempt key (f\<lparr>fa_quality := attempt_quality f False\<rparr>) p))"

definition terminate :: "collection_lib \<Rightarrow> string \<Rightarrow> quality \<Rightarrow> int \<Rightarrow> progress \<Rightarrow> progress inventory_result" where
  "terminate L key q now p =
    bind_res (time_check L now) (\<lambda>_.
    bind_res (get_attempt p key) (\<lambda>f.
    let f = f\<lparr>fa_received_at := Some now, fa_terminal := Some q\<rparr> in
      Inr (put_attempt key (f\<lparr>fa_quality := attempt_quality f False\<rparr>) p)))"

definition native_field :: "collection_lib \<Rightarrow> (string, native_value) btree_map \<Rightarrow> int \<Rightarrow> string \<Rightarrow> progress \<Rightarrow> progress inventory_result" where
  "native_field L nvs now key p = (case (case bm_get nvs key of Some v \<Rightarrow> v | None \<Rightarrow> NvMissing) of
      NvValue v \<Rightarrow>
        (case observe_value L key v now p of
           Inr p \<Rightarrow> confirm key p
         | Inl (Fail InvalidValue) \<Rightarrow> observe_invalid L key now p
         | Inl e \<Rightarrow> Inl e)
    | NvInvalidItems items vs \<Rightarrow> observe_invalid_items L key items vs now p
    | NvInvalid \<Rightarrow> terminate L key QlInvalid now p
    | NvFailed \<Rightarrow> terminate L key QlFailed now p
    | NvMissing \<Rightarrow> terminate L key QlMissing now p)"

definition progress_native :: "collection_lib \<Rightarrow> collection_definition \<Rightarrow> (string, native_value) btree_map \<Rightarrow> int \<Rightarrow> progress inventory_result" where
  "progress_native L d nvs now =
    bind_res (fold_res (\<lambda>key _. bind_res (definition_field d key) (\<lambda>_. Inr ())) (bm_keys nvs) ()) (\<lambda>_.
    bind_res (fold_res (native_field L nvs now) (bm_keys (pr_fields (progress_new d))) (progress_new d)) (\<lambda>p.
    Inr (progress_finish p)))"

definition native_partial :: "collection_lib \<Rightarrow> collection_definition \<Rightarrow> (string, native_value) btree_map \<Rightarrow> int \<Rightarrow> progress inventory_result" where
  "native_partial L d nvs now = bind_res (progress_native L d nvs now) (\<lambda>p. Inr (p\<lparr>pr_complete_coverage := False\<rparr>))"

definition read_change :: "collection_lib \<Rightarrow> collection_definition \<Rightarrow> change \<Rightarrow> (string, native_value) btree_map \<Rightarrow>
    (string, native_value) btree_map inventory_result" where
  "read_change L d c nvs =
    bind_res (key_parse (ch_key c)) (\<lambda>key.
    bind_res (definition_field d key) (\<lambda>f.
    bind_res (case ch_value c of
        Some bytes \<Rightarrow> bind_res (collected_decode L f bytes) (\<lambda>v. Inr (NvValue v)) | None \<Rightarrow> Inr NvMissing) (\<lambda>v.
    if bm_get nvs key \<noteq> None then Inl (Fail DuplicateField) else Inr (bm_insert key v nvs))))"

definition is_snapshot :: "report_body \<Rightarrow> bool" where
  "is_snapshot b = (case b of BodySnapshot _ \<Rightarrow> True | _ \<Rightarrow> False)"

definition reported_deleted :: "collection_lib \<Rightarrow> report_body \<Rightarrow> string \<Rightarrow> bool" where
  "reported_deleted L body key \<longleftrightarrow>
    (is_snapshot body \<and> \<not> list_ex (\<lambda>c. ch_key c = key) (cl_changes L body))
    \<or> list_ex (\<lambda>c. ch_key c = key \<and> ch_value c = None) (cl_changes L body)"

definition progress_reported :: "collection_lib \<Rightarrow> collection_definition \<Rightarrow> report_body \<Rightarrow> int \<Rightarrow> progress inventory_result" where
  "progress_reported L d body now =
    bind_res (fold_res (read_change L d) (cl_changes L body) []) (\<lambda>read.
    let nvs = (case body of BodyFailed _ \<Rightarrow> bm_of_list (map (\<lambda>f. (field_key f, NvFailed)) (cd_fields d)) | _ \<Rightarrow> read) in
    bind_res (progress_native L d nvs now) (\<lambda>p.
    Inr (p\<lparr>pr_complete_coverage := is_snapshot body,
      pr_fields := map (\<lambda>(k, f). (k, if reported_deleted L body k then f\<lparr>fa_terminal := Some QlDeleted, fa_quality := QlDeleted\<rparr> else f))
        (pr_fields p)\<rparr>)))"

subsection \<open>Lists of native rows\<close>

text \<open>The vectors of qualities and values and the map of identities, extended row by row.\<close>

type_synonym rows_state = "quality list \<times> asset_scalar option list \<times> (asset_scalar \<times> nat) list"

definition add_row :: "inventory_lib \<Rightarrow> field_definition \<Rightarrow> asset_scalar inventory_result \<Rightarrow> rows_state \<Rightarrow> rows_state inventory_result" where
  "add_row lib f row st = (case st of (qs, vs, ids) \<Rightarrow>
     let index = length qs in
     case bind_res row (\<lambda>v. bind_res (validate_item lib f v) (\<lambda>_. Inr v)) of
       Inl _ \<Rightarrow> Inr (qs @ [QlInvalid], vs @ [None], ids)
     | Inr v \<Rightarrow>
         (case (fd_item_key f, v) of
            (Some key, AObject properties) \<Rightarrow>
              bind_res (ok_or InvalidValue (bm_get properties key)) (\<lambda>i.
              Inr (case map_of ids i of
                  Some previous \<Rightarrow> ((qs @ [QlSuccess])[previous := QlInvalid, index := QlInvalid], vs @ [Some v], (i, index) # ids)
                | None \<Rightarrow> (qs @ [QlSuccess], vs @ [Some v], (i, index) # ids)))
          | _ \<Rightarrow> Inr (qs @ [QlSuccess], vs @ [Some v], ids)))"

definition kept_rows :: "quality list \<Rightarrow> asset_scalar option list \<Rightarrow> asset_scalar list" where
  "kept_rows qs vs = List.map_filter (\<lambda>(v, q). if q = QlSuccess then v else None) (zip vs qs)"

definition native_list :: "inventory_lib \<Rightarrow> field_definition \<Rightarrow> asset_scalar inventory_result list \<Rightarrow> native_value inventory_result" where
  "native_list lib f rows = (case fd_value_type f of
      VtArray _ max_items \<Rightarrow>
        if length rows > max_items then Inr NvInvalid
        else bind_res (fold_res (add_row lib f) rows ([], [], [])) (\<lambda>(qs, vs, _).
          if QlInvalid \<in> set qs then Inr (NvInvalidItems qs (kept_rows qs vs))
          else bind_res (canonical_value lib f (AArray (kept_rows qs vs))) (\<lambda>v. Inr (NvValue (CvValue v))))
    | _ \<Rightarrow> Inl (Fail TypeMismatch))"

section \<open>Coordinates of history\<close>

record asset_cut =
  ac_tenant :: uuid
  ac_epoch :: uuid
  ac_snapshot :: string

definition cut_new :: "asset_cut \<Rightarrow> asset_cut option" where
  "cut_new c =
    (if uuid_is_nil (ac_tenant c) \<or> uuid_is_nil (ac_epoch c) \<or> ac_snapshot c = [] \<or> length (ac_snapshot c) > 65536
       \<or> \<not> list_all (\<lambda>b. is_ascii_digit b \<or> b = CHR '':'' \<or> b = CHR '','') (ac_snapshot c)
     then None else Some c)"

definition cut_input_version :: "(asset_cut \<Rightarrow> string) \<Rightarrow> asset_cut \<Rightarrow> string" where
  "cut_input_version to_json c = ''assets:'' @ to_json c"

definition cut_from_input_version :: "(string \<Rightarrow> asset_cut option) \<Rightarrow> string \<Rightarrow> asset_cut option" where
  "cut_from_input_version from_json s =
    (if \<not> prefix ''assets:'' s then None
     else let t = drop 7 s in
       if length t > 66000 then None
       else case from_json t of Some c \<Rightarrow> cut_new c | None \<Rightarrow> None)"

end
