(* ===== verification/Inventory_Collection_Properties.thy ===== *)
theory Inventory_Collection_Properties
  imports Inventory_Collection Inventory_Facts_Properties
begin

text \<open>
  The progress of a collection: every state that the operations can reach passes the checks of restoration, a
  report contains confirmed outcomes only, and a finished collection is read back from its own report.
\<close>

section \<open>Restored attempts\<close>

definition attempt_ok :: "collection_lib \<Rightarrow> field_definition \<Rightarrow> bool \<Rightarrow> field_attempt \<Rightarrow> bool" where
  "attempt_ok L fd finished f \<longleftrightarrow>
    (\<forall>r. fa_reason f = Some r \<longrightarrow> r \<in> set closed_reasons) \<and>
    (\<forall>vs. array_items (fa_value f) = Some vs \<longrightarrow>
      length vs = (if fa_terminal f = Some QlInvalid then successes (fa_items f) else length (fa_items f))) \<and>
    check_items fd f = Inr () \<and>
    (\<forall>v. fa_value f = Some v \<longrightarrow> (\<exists>bytes. collected_encode L fd v = Inr bytes \<and> fa_digest f = Some (cl_sha_hex L bytes))) \<and>
    (\<forall>q. fa_terminal f = Some q \<longrightarrow> q \<in> {QlMissing, QlFailed, QlInvalid, QlDeleted} \<and> \<not> fa_confirmed f \<and>
      (fa_value f \<noteq> None \<longrightarrow> q = QlInvalid \<and> QlInvalid \<in> set (fa_items f))) \<and>
    (\<forall>t. fa_received_at f = Some t \<longrightarrow> il_time_ok (cl_inventory L) t) \<and>
    (\<forall>s. fa_digest f = Some s \<longrightarrow> length s = 64 \<and> list_all is_hex s) \<and>
    fa_quality f = attempt_quality f finished"

lemma check_attempt_Inr:
  "check_attempt L d finished (key, f) = Inr () \<longleftrightarrow>
    (\<exists>fd. definition_field d key = Inr fd \<and> attempt_ok L fd finished f)"
proof -
  have "check_attempt L d finished (key, f) = Inr () \<longleftrightarrow> attempt_ok L fd finished f" if "definition_field d key = Inr fd" for fd
    using that unfolding check_attempt_def attempt_ok_def
    by (cases "fa_reason f"; cases "array_items (fa_value f)"; cases "fa_value f"; cases "fa_terminal f"; cases "fa_received_at f"; cases "fa_digest f")
      (auto simp: bind_res_Inr_conv)
  moreover have "definition_field d key = Inr fd" if "check_attempt L d finished (key, f) = Inr ()" "definition_field d key = Inl e" for fd e
    using that by (simp add: check_attempt_def)
  ultimately show ?thesis by (cases "definition_field d key") auto
qed

definition progress_ok :: "collection_lib \<Rightarrow> progress \<Rightarrow> bool" where
  "progress_ok L p \<longleftrightarrow> length (pr_fields p) = length (cd_fields (pr_definition p)) \<and>
    (\<forall>(key, f) \<in> set (pr_fields p). \<exists>fd. definition_field (pr_definition p) key = Inr fd \<and>
      attempt_ok L fd (pr_finished p) f)"

lemma progress_restore_iff: "progress_restore L p = Inr p \<longleftrightarrow> progress_ok L p"
proof -
  have each: "check_attempt L (pr_definition p) (pr_finished p) kf = Inr () \<longleftrightarrow>
    (case kf of (key, f) \<Rightarrow> \<exists>fd. definition_field (pr_definition p) key = Inr fd \<and> attempt_ok L fd (pr_finished p) f)" for kf
    by (cases kf) (simp add: check_attempt_Inr)
  show ?thesis by (auto simp: progress_restore_def progress_ok_def bind_res_Inr_conv fold_res_unit each)
qed

lemma progress_ok_get:
  assumes "progress_ok L p" "get_attempt p key = Inr f"
  shows "\<exists>fd. definition_field (pr_definition p) key = Inr fd \<and> attempt_ok L fd (pr_finished p) f"
  using assms by (auto simp: progress_ok_def get_attempt_def ok_or_def split: option.splits dest!: map_of_SomeD)

lemma put_attempt_sel [simp]:
  "pr_definition (put_attempt key f p) = pr_definition p" "pr_finished (put_attempt key f p) = pr_finished p"
  "pr_complete_coverage (put_attempt key f p) = pr_complete_coverage p"
  "map fst (pr_fields (put_attempt key f p)) = map fst (pr_fields p)"
  by (simp_all add: put_attempt_def comp_def case_prod_beta)

lemma get_put_attempt:
  "get_attempt p key = Inr g \<Longrightarrow> get_attempt (put_attempt key f p) k = (if k = key then Inr f else get_attempt p k)"
proof -
  have "map_of (map (\<lambda>(k, g). (k, if k = key then f else g)) m) k = (if k = key then map_option (\<lambda>_. f) (map_of m k) else map_of m k)" for m
    by (induction m) auto
  then show "get_attempt p key = Inr g \<Longrightarrow> ?thesis"
    by (auto simp: get_attempt_def put_attempt_def ok_or_def split: option.splits)
qed

lemma progress_ok_put:
  assumes "progress_ok L p" "\<And>fd. definition_field (pr_definition p) key = Inr fd \<Longrightarrow> attempt_ok L fd (pr_finished p) f"
  shows "progress_ok L (put_attempt key f p)"
  using assms by (fastforce simp: progress_ok_def put_attempt_def)

lemma attempt_quality_cong:
  "fa_terminal f = fa_terminal g \<Longrightarrow> fa_confirmed f = fa_confirmed g \<Longrightarrow> fa_value f = fa_value g \<Longrightarrow> fa_status f = fa_status g \<Longrightarrow>
    fa_digest f = fa_digest g \<Longrightarrow> attempt_quality f fin = attempt_quality g fin"
  by (simp only: attempt_quality_def)

lemma attempt_quality_update [simp]:
  "attempt_quality (f\<lparr>fa_quality := q\<rparr>) fin = attempt_quality f fin" "attempt_quality (f\<lparr>fa_reason := r\<rparr>) fin = attempt_quality f fin"
  "attempt_quality (f\<lparr>fa_received_at := t\<rparr>) fin = attempt_quality f fin" "attempt_quality (f\<lparr>fa_items := is\<rparr>) fin = attempt_quality f fin"
  by (rule attempt_quality_cong; simp)+

lemma check_items_cong: "fa_items f = fa_items g \<Longrightarrow> fa_value f = fa_value g \<Longrightarrow> fa_terminal f = fa_terminal g \<Longrightarrow> check_items fd f = check_items fd g"
  by (simp only: check_items_def)

lemma check_items_update [simp]:
  "check_items fd (f\<lparr>fa_quality := q\<rparr>) = check_items fd f" "check_items fd (f\<lparr>fa_status := s\<rparr>) = check_items fd f"
  "check_items fd (f\<lparr>fa_reason := r\<rparr>) = check_items fd f" "check_items fd (f\<lparr>fa_received_at := t\<rparr>) = check_items fd f"
  "check_items fd (f\<lparr>fa_confirmed := c\<rparr>) = check_items fd f" "check_items fd (f\<lparr>fa_digest := d\<rparr>) = check_items fd f"
  by (rule check_items_cong; simp)+

definition hex_digests :: "collection_lib \<Rightarrow> bool" where
  "hex_digests L \<longleftrightarrow> (\<forall>bytes. length (cl_sha_hex L bytes) = 64 \<and> list_all is_hex (cl_sha_hex L bytes))"

lemma hex_digestsD: "hex_digests L \<Longrightarrow> length (cl_sha_hex L bytes) = 64 \<and> list_all is_hex (cl_sha_hex L bytes)"
  by (simp add: hex_digests_def)

section \<open>Operations\<close>

lemma observe_status_ok:
  assumes "progress_ok L p" "observe_status L key code now p = Inr q"
  shows "progress_ok L q"
proof -
  obtain f where f: "get_attempt p key = Inr f" "fa_terminal f = None" "\<not> pr_finished p" "il_time_ok (cl_inventory L) now"
    and q: "q = put_attempt key (f\<lparr>fa_status := Some code, fa_confirmed := success_code code, fa_received_at := Some now,
      fa_quality := attempt_quality (f\<lparr>fa_status := Some code, fa_confirmed := success_code code, fa_received_at := Some now\<rparr>) False\<rparr>) p"
    using assms(2) by (auto simp: observe_status_def time_check_def Let_def bind_res_Inr_conv split: if_splits)
  obtain fd where fd: "definition_field (pr_definition p) key = Inr fd" "attempt_ok L fd (pr_finished p) f"
    using progress_ok_get [OF assms(1) f(1)] by blast
  show ?thesis unfolding q using fd f by (intro progress_ok_put assms(1)) (simp add: attempt_ok_def)
qed

lemma observe_invalid_Inr:
  "observe_invalid L key now p = Inr q \<longleftrightarrow> il_time_ok (cl_inventory L) now \<and> (\<exists>f. get_attempt p key = Inr f \<and> \<not> pr_finished p \<and>
    fa_value f = None \<and> fa_terminal f = None \<and>
    q = put_attempt key (f\<lparr>fa_confirmed := False, fa_received_at := Some now, fa_terminal := Some QlInvalid, fa_quality := QlInvalid\<rparr>) p)"
  by (auto simp: observe_invalid_def time_check_def Let_def bind_res_Inr_conv attempt_quality_def)

lemma no_items: "attempt_ok L fd fin f \<Longrightarrow> fa_value f = None \<Longrightarrow> fa_terminal f = None \<Longrightarrow> fa_items f = []"
  by (auto simp: attempt_ok_def check_items_def array_items_def split: value_type.splits if_splits)

lemma observe_invalid_ok:
  assumes "progress_ok L p" "observe_invalid L key now p = Inr q"
  shows "progress_ok L q"
proof -
  obtain f where f: "get_attempt p key = Inr f" "fa_value f = None" "fa_terminal f = None" "il_time_ok (cl_inventory L) now"
    and q: "q = put_attempt key (f\<lparr>fa_confirmed := False, fa_received_at := Some now, fa_terminal := Some QlInvalid, fa_quality := QlInvalid\<rparr>) p"
    using assms(2) by (auto simp: observe_invalid_Inr)
  obtain fd where fd: "definition_field (pr_definition p) key = Inr fd" "attempt_ok L fd (pr_finished p) f"
    using progress_ok_get [OF assms(1) f(1)] by blast
  have "fa_items f = []" using no_items fd(2) f by blast
  then show ?thesis unfolding q using fd f
    by (intro progress_ok_put assms(1)) (simp add: attempt_ok_def attempt_quality_def check_items_def array_items_def)
qed

lemma progress_reason_ok:
  assumes "progress_ok L p" "progress_reason key r p = Inr q"
  shows "progress_ok L q"
proof -
  obtain f where f: "get_attempt p key = Inr f" "r \<in> set closed_reasons" and q: "q = put_attempt key (f\<lparr>fa_reason := Some r\<rparr>) p"
    using assms(2) by (auto simp: progress_reason_def get_attempt_def bind_res_Inr_conv ok_or_def split: if_splits option.splits)
  obtain fd where fd: "definition_field (pr_definition p) key = Inr fd" "attempt_ok L fd (pr_finished p) f"
    using progress_ok_get [OF assms(1) f(1)] by blast
  show ?thesis unfolding q using fd f by (intro progress_ok_put assms(1)) (simp add: attempt_ok_def)
qed

lemma progress_finish_ok: "progress_ok L p \<Longrightarrow> progress_ok L (progress_finish p)"
  by (fastforce simp: progress_ok_def progress_finish_def attempt_ok_def)

lemma encoded_array:
  assumes "collected_encode L fd (CvValue (AArray vs)) = Inr bytes"
  shows "\<exists>items n. fd_value_type fd = VtArray items n \<and> length vs \<le> n"
  using assms by (auto simp: collected_encode_def collected_validate_def validate_scalar_def bind_res_Inr_conv value_ok_array split: if_splits)

lemma array_items_Some: "array_items w = Some vs \<longleftrightarrow> w = Some (CvValue (AArray vs))"
  by (auto simp: array_items_def split: option.splits collected_value.splits asset_scalar.splits)

lemma ok_or_Inr: "ok_or e x = Inr a \<longleftrightarrow> x = Some a"
  by (cases x) simp_all

definition observed :: "collection_lib \<Rightarrow> field_definition \<Rightarrow> collected_value \<Rightarrow> string \<Rightarrow> int \<Rightarrow> field_attempt \<Rightarrow> field_attempt" where
  "observed L fd v bytes now f = f\<lparr>fa_value := accepted_value L fd v,
     fa_items := (case array_items (accepted_value L fd v) of Some vs \<Rightarrow> replicate (length vs) QlSuccess | None \<Rightarrow> []),
     fa_digest := Some (cl_sha_hex L bytes), fa_received_at := Some now\<rparr>"

lemma observe_value_Inr:
  assumes "observe_value L key v now p = Inr q"
  obtains fd bytes f where "definition_field (pr_definition p) key = Inr fd" "cl_to_json L v = Some bytes" "get_attempt p key = Inr f"
    "\<not> pr_finished p" "il_time_ok (cl_inventory L) now" "fa_terminal f = None"
    "\<And>old. fa_digest f = Some old \<Longrightarrow> old = cl_sha_hex L bytes" "\<And>c. fa_status f = Some c \<Longrightarrow> success_code c"
    "q = put_attempt key ((observed L fd v bytes now f)\<lparr>fa_quality := attempt_quality (observed L fd v bytes now f) False\<rparr>) p"
proof -
  from assms obtain fd bytes f where
    "definition_field (pr_definition p) key = Inr fd" "cl_to_json L v = Some bytes" "get_attempt p key = Inr f"
    "\<not> pr_finished p" "il_time_ok (cl_inventory L) now" and
    c: "\<not> (fa_terminal f \<noteq> None \<or> (case fa_digest f of Some old \<Rightarrow> old \<noteq> cl_sha_hex L bytes | None \<Rightarrow> False)
      \<or> (case fa_status f of Some c \<Rightarrow> \<not> success_code c | None \<Rightarrow> False))" and
    "q = put_attempt key ((observed L fd v bytes now f)\<lparr>fa_quality := attempt_quality (observed L fd v bytes now f) False\<rparr>) p"
    unfolding observe_value_def time_check_def Let_def observed_def [symmetric]
    by (auto simp only: bind_res_Inr_conv ok_or_Inr if_Inl_conv sum.inject split: if_splits)
  then show ?thesis by (intro that) (auto split: option.splits)
qed

lemma accepted_Some: "accepted_value L fd v = Some w \<longleftrightarrow> w = v \<and> (\<exists>bytes. collected_encode L fd v = Inr bytes)"
  by (auto simp: accepted_value_def is_ok_conv)

lemma encoded_json: "collected_encode L fd v = Inr bytes \<Longrightarrow> cl_to_json L v = Some bytes"
  by (auto simp: collected_encode_def bind_res_Inr_conv ok_or_def split: option.splits)

lemma observed_ok:
  assumes "attempt_ok L fd fin f" "fa_terminal f = None" "cl_to_json L v = Some bytes" "il_time_ok (cl_inventory L) now" "hex_digests L"
  shows "attempt_ok L fd False ((observed L fd v bytes now f)\<lparr>fa_quality := attempt_quality (observed L fd v bytes now f) False\<rparr>)"
proof -
  let ?w = "accepted_value L fd v"
  have items: "check_items fd (observed L fd v bytes now f) = Inr ()"
  proof (cases "array_items ?w")
    case None
    then show ?thesis by (simp add: check_items_def observed_def)
  next
    case (Some vs)
    then obtain b where "v = CvValue (AArray vs)" "collected_encode L fd v = Inr b"
      by (auto simp: array_items_Some accepted_Some)
    then obtain items n where "fd_value_type fd = VtArray items n" "length vs \<le> n" using encoded_array by blast
    then show ?thesis using Some by (auto simp: check_items_def observed_def list_ex_iff list_all_iff row_quality_def)
  qed
  have "\<exists>b. collected_encode L fd w = Inr b \<and> cl_sha_hex L bytes = cl_sha_hex L b" if "?w = Some w" for w
    using that assms(3) encoded_json [of L fd v] by (auto simp: accepted_Some)
  then show ?thesis using items assms(1,2,4) hex_digestsD [OF assms(5), of bytes]
    by (auto simp: attempt_ok_def observed_def)
qed

lemma observe_value_ok:
  assumes "progress_ok L p" "observe_value L key v now p = Inr q" "hex_digests L"
  shows "progress_ok L q"
  using assms(2)
proof (rule observe_value_Inr)
  fix fd bytes f
  assume a: "definition_field (pr_definition p) key = Inr fd" "cl_to_json L v = Some bytes" "get_attempt p key = Inr f"
    "\<not> pr_finished p" "il_time_ok (cl_inventory L) now" "fa_terminal f = None"
    and q: "q = put_attempt key ((observed L fd v bytes now f)\<lparr>fa_quality := attempt_quality (observed L fd v bytes now f) False\<rparr>) p"
  have "attempt_ok L fd False f" using progress_ok_get [OF assms(1) a(3)] a(1,4) by auto
  then show ?thesis unfolding q using a observed_ok assms(3) by (intro progress_ok_put assms(1)) auto
qed

lemma observe_items_Inr:
  assumes "observe_invalid_items L key items vs now p = Inr q"
  shows "\<exists>fd ty n bytes p' f. definition_field (pr_definition p) key = Inr fd \<and> fd_value_type fd = VtArray ty n \<and>
    length items \<le> n \<and> QlInvalid \<in> set items \<and> \<not> list_ex (\<lambda>q. \<not> row_quality q) items \<and> length vs = successes items \<and>
    collected_encode L fd (CvValue (AArray vs)) = Inr bytes \<and> observe_invalid L key now p = Inr p' \<and> get_attempt p' key = Inr f \<and>
    q = put_attempt key (f\<lparr>fa_items := items, fa_digest := Some (cl_sha_hex L bytes), fa_value := Some (CvValue (AArray vs))\<rparr>) p'"
proof -
  obtain fd where fd: "definition_field (pr_definition p) key = Inr fd"
    using assms by (auto simp: observe_invalid_items_def bind_res_Inr_conv)
  obtain ty n where "fd_value_type fd = VtArray ty n"
    using assms fd by (cases "fd_value_type fd") (simp_all add: observe_invalid_items_def)
  with assms fd show ?thesis by (auto simp: observe_invalid_items_def bind_res_Inr_conv split: if_splits)
qed

lemma observe_invalid_items_ok:
  assumes "progress_ok L p" "observe_invalid_items L key items vs now p = Inr q" "hex_digests L"
  shows "progress_ok L q"
proof -
  obtain fd ty n bytes p' f where d: "definition_field (pr_definition p) key = Inr fd" "fd_value_type fd = VtArray ty n"
    "length items \<le> n" "QlInvalid \<in> set items" "\<not> list_ex (\<lambda>q. \<not> row_quality q) items" "length vs = successes items"
    "collected_encode L fd (CvValue (AArray vs)) = Inr bytes" "observe_invalid L key now p = Inr p'" "get_attempt p' key = Inr f"
    and q: "q = put_attempt key (f\<lparr>fa_items := items, fa_digest := Some (cl_sha_hex L bytes), fa_value := Some (CvValue (AArray vs))\<rparr>) p'"
    using observe_items_Inr [OF assms(2)] by blast
  have p': "progress_ok L p'" using observe_invalid_ok [OF assms(1) d(8)] .
  have def': "pr_definition p' = pr_definition p" "\<not> pr_finished p'" and f: "fa_terminal f = Some QlInvalid"
    "fa_quality f = QlInvalid" "\<not> fa_confirmed f"
    using d(8,9) by (auto simp: observe_invalid_Inr get_put_attempt)
  have "attempt_ok L fd False f" using progress_ok_get [OF p' d(9)] d(1) def' by auto
  then have "attempt_ok L fd False (f\<lparr>fa_items := items, fa_digest := Some (cl_sha_hex L bytes), fa_value := Some (CvValue (AArray vs))\<rparr>)"
    using d f hex_digestsD [OF assms(3), of bytes]
    by (simp add: attempt_ok_def check_items_def array_items_def attempt_quality_def)
  then show ?thesis unfolding q using def' d(1) by (intro progress_ok_put p') auto
qed

section \<open>The start\<close>

lemma add_definition_Inr: "add_definition lib d cat = Inr cat' \<longleftrightarrow>
    definition_validate lib d = Inr () \<and> bm_get cat (fd_key d) = None \<and> cat' = bm_insert (fd_key d) d cat"
  by (auto simp: add_definition_def bm_put_def bind_res_Inr_conv)

lemma fold_add_definition:
  "fold_res (add_definition lib) ds cat = Inr cat' \<Longrightarrow> bm_wf cat \<Longrightarrow>
    distinct (map fd_key ds) \<and> (\<forall>d \<in> set ds. bm_get cat (fd_key d) = None)"
proof (induction ds arbitrary: cat)
  case Nil
  then show ?case by simp
next
  case (Cons d ds)
  from Cons.prems(1) have a: "bm_get cat (fd_key d) = None" "fold_res (add_definition lib) ds (bm_insert (fd_key d) d cat) = Inr cat'"
    by (auto simp: add_definition_Inr bind_res_Inr_conv)
  from Cons.IH [OF a(2)] Cons.prems(2) a(1) show ?case by (auto split: if_splits)
qed

definition definition_wf :: "collection_definition \<Rightarrow> bool" where
  "definition_wf d \<longleftrightarrow> sorted_wrt (<) (map field_key (cd_fields d))"

lemma collection_new_wf:
  assumes "collection_new L dataset version src fs = Inr d"
  shows "definition_wf d"
proof -
  obtain cat where c: "catalog_new (cl_inventory L) (map cf_definition fs) = Inr cat" and d: "cd_fields d = sort_key field_key fs"
    using assms by (auto simp: collection_new_def bind_res_Inr_conv split: if_splits)
  have "distinct (map field_key fs)"
    using c fold_add_definition [of _ "map cf_definition fs" "[]"] by (auto simp: catalog_new_def bind_res_Inr_conv field_key_def [abs_def] comp_def split: if_splits)
  then have "distinct (map field_key (sort_key field_key fs))"
    by (metis adjacent_equal_sort_key adjacent_equal_sorted sorted_sort_key)
  then show ?thesis by (simp add: definition_wf_def d strict_sorted_iff)
qed

lemma progress_new_fields: "definition_wf d \<Longrightarrow> pr_fields (progress_new d) = map (\<lambda>f. (field_key f, attempt_default)) (cd_fields d)"
  unfolding progress_new_def definition_wf_def
  by (simp add: bm_of_list_def) (subst bm_of_sorted; simp add: bm_wf_def bs_wf_def comp_def)

lemma definition_field_known: "f \<in> set (cd_fields d) \<Longrightarrow> \<exists>fd. definition_field d (field_key f) = Inr fd"
  by (cases "find (\<lambda>g. field_key g = field_key f) (cd_fields d)") (auto simp: definition_field_def find_None_iff)

lemma attempt_default_ok: "attempt_ok L fd False attempt_default"
  by (simp add: attempt_ok_def attempt_default_def check_items_def array_items_def attempt_quality_def)

lemma progress_new_ok: "definition_wf d \<Longrightarrow> progress_ok L (progress_new d)"
  using attempt_default_ok definition_field_known [of _ d]
  by (auto simp: progress_ok_def progress_new_fields) (auto simp: progress_new_def)

section \<open>Native results\<close>

definition frame :: "string \<Rightarrow> progress \<Rightarrow> progress \<Rightarrow> bool" where
  "frame key p q \<longleftrightarrow> pr_definition q = pr_definition p \<and> pr_finished q = pr_finished p \<and>
    map fst (pr_fields q) = map fst (pr_fields p) \<and> (\<forall>k. k \<noteq> key \<longrightarrow> get_attempt q k = get_attempt p k)"

lemma frame_put: "get_attempt p key = Inr g \<Longrightarrow> frame key p (put_attempt key f p)"
  by (simp add: frame_def get_put_attempt)

lemma frame_trans: "frame key p q \<Longrightarrow> frame key q r \<Longrightarrow> frame key p r"
  by (simp add: frame_def)

lemma observe_frame:
  "observe_status L key code now p = Inr q \<Longrightarrow> frame key p q"
  "observe_value L key v now p = Inr q \<Longrightarrow> frame key p q"
  "observe_invalid L key now p = Inr q \<Longrightarrow> frame key p q"
  "terminate L key ql now p = Inr q \<Longrightarrow> frame key p q"
  "confirm key p = Inr q \<Longrightarrow> frame key p q"
  "progress_reason key r p = Inr q \<Longrightarrow> frame key p q"
proof -
  show "observe_status L key code now p = Inr q \<Longrightarrow> frame key p q"
    by (auto simp: observe_status_def Let_def bind_res_Inr_conv intro: frame_put split: if_splits)
  show "observe_value L key v now p = Inr q \<Longrightarrow> frame key p q" by (erule observe_value_Inr) (auto intro: frame_put)
  show "observe_invalid L key now p = Inr q \<Longrightarrow> frame key p q" by (auto simp: observe_invalid_Inr intro: frame_put)
  show "terminate L key ql now p = Inr q \<Longrightarrow> frame key p q"
    by (auto simp: terminate_def Let_def bind_res_Inr_conv intro: frame_put)
  show "confirm key p = Inr q \<Longrightarrow> frame key p q" by (auto simp: confirm_def Let_def bind_res_Inr_conv intro: frame_put)
  show "progress_reason key r p = Inr q \<Longrightarrow> frame key p q"
    by (auto simp: progress_reason_def bind_res_Inr_conv ok_or_Inr get_attempt_def intro!: frame_put split: if_splits)
qed

lemma observe_items_frame: "observe_invalid_items L key items vs now p = Inr q \<Longrightarrow> frame key p q"
  by (drule observe_items_Inr) (blast intro: frame_trans [OF observe_frame(3) frame_put])

lemma confirm_ok:
  assumes "progress_ok L p" "confirm key p = Inr q" "get_attempt p key = Inr f" "fa_terminal f = None" "\<not> pr_finished p"
  shows "progress_ok L q"
proof -
  have q: "q = put_attempt key (f\<lparr>fa_confirmed := True, fa_quality := attempt_quality (f\<lparr>fa_confirmed := True\<rparr>) False\<rparr>) p"
    using assms(2,3) by (simp add: confirm_def Let_def)
  obtain fd where "definition_field (pr_definition p) key = Inr fd" "attempt_ok L fd (pr_finished p) f"
    using progress_ok_get [OF assms(1,3)] by blast
  then show ?thesis unfolding q using assms(4,5) by (intro progress_ok_put assms(1)) (simp add: attempt_ok_def)
qed

lemma terminate_ok:
  assumes "progress_ok L p" "terminate L key ql now p = Inr q" "get_attempt p key = Inr attempt_default" "\<not> pr_finished p"
    "ql \<in> {QlMissing, QlFailed, QlInvalid}"
  shows "progress_ok L q" "get_attempt q key = Inr (attempt_default\<lparr>fa_received_at := Some now, fa_terminal := Some ql, fa_quality := ql\<rparr>)"
proof -
  have q: "q = put_attempt key (attempt_default\<lparr>fa_received_at := Some now, fa_terminal := Some ql, fa_quality := ql\<rparr>) p"
    and t: "il_time_ok (cl_inventory L) now"
    using assms(2,3) by (auto simp: terminate_def time_check_def Let_def bind_res_Inr_conv attempt_quality_def split: if_splits)
  show "progress_ok L q" unfolding q using assms(4,5) t
    by (intro progress_ok_put assms(1)) (auto simp: attempt_ok_def attempt_default_def check_items_def array_items_def attempt_quality_def)
  show "get_attempt q key = Inr (attempt_default\<lparr>fa_received_at := Some now, fa_terminal := Some ql, fa_quality := ql\<rparr>)"
    using get_put_attempt [OF assms(3)] q by simp
qed

text \<open>A result that brings no value leaves an attempt without value and confirmation.\<close>

definition valueless :: "native_value option \<Rightarrow> bool" where
  "valueless v = (case v of Some (NvValue _) \<Rightarrow> False | Some (NvInvalidItems _ _) \<Rightarrow> False | _ \<Rightarrow> True)"

definition barren :: "field_attempt \<Rightarrow> bool" where
  "barren f \<longleftrightarrow> fa_value f = None \<and> \<not> fa_confirmed f \<and> fa_items f = [] \<and> fa_digest f = None \<and> fa_reason f = None"

lemma observed_terminal: "observe_value L key v now p = Inr q \<Longrightarrow> \<exists>f. get_attempt q key = Inr f \<and> fa_terminal f = None"
  by (erule observe_value_Inr) (auto simp: get_put_attempt observed_def)

lemma native_field_ok:
  assumes ok: "progress_ok L p" and fresh: "get_attempt p key = Inr attempt_default" and fin: "\<not> pr_finished p"
    and step: "native_field L nvs now key p = Inr q" and hex: "hex_digests L"
  shows "progress_ok L q \<and> frame key p q \<and> (valueless (bm_get nvs key) \<longrightarrow> (\<exists>f. get_attempt q key = Inr f \<and> barren f))"
proof -
  have ended: ?thesis if "terminate L key ql now p = Inr q" "ql \<in> {QlMissing, QlFailed, QlInvalid}" for ql
    using terminate_ok [OF ok that(1) fresh fin that(2)] observe_frame(4) [OF that(1)] by (simp add: barren_def attempt_default_def)
  show ?thesis
  proof (cases "bm_get nvs key")
    case None
    with step have "terminate L key QlMissing now p = Inr q" by (simp add: native_field_def)
    from ended [OF this] show ?thesis by simp
  next
    case (Some nv)
    show ?thesis
    proof (cases nv)
      case (NvValue v)
      have b: "\<not> valueless (bm_get nvs key)" using Some NvValue by (simp add: valueless_def)
      show ?thesis
      proof (cases "observe_value L key v now p")
        case (Inr p')
        then have c: "confirm key p' = Inr q" using step Some NvValue by (simp add: native_field_def)
        have "\<not> pr_finished p'" using observe_frame(2) [OF Inr] fin by (simp add: frame_def)
        then show ?thesis using b observed_terminal [OF Inr] confirm_ok [OF observe_value_ok [OF ok Inr hex] c]
            frame_trans [OF observe_frame(2) [OF Inr] observe_frame(5) [OF c]] by blast
      next
        case (Inl e)
        then have "observe_invalid L key now p = Inr q" using step Some NvValue
          by (auto simp: native_field_def split: fault.splits invalid.splits)
        then show ?thesis using b observe_invalid_ok [OF ok] observe_frame(3) by blast
      qed
    next
      case (NvInvalidItems items vs)
      then have "observe_invalid_items L key items vs now p = Inr q" using step Some by (simp add: native_field_def)
      then show ?thesis using Some NvInvalidItems observe_invalid_items_ok [OF ok _ hex] observe_items_frame by (auto simp: valueless_def)
    qed (use step Some ended in \<open>auto simp: native_field_def\<close>)
  qed
qed

lemma native_fields_ok:
  assumes "fold_res (native_field L nvs now) keys p = Inr q" "progress_ok L p" "\<not> pr_finished p" "distinct keys"
    "\<forall>k \<in> set keys. get_attempt p k = Inr attempt_default" "hex_digests L"
  shows "progress_ok L q \<and> pr_definition q = pr_definition p \<and> \<not> pr_finished q \<and> map fst (pr_fields q) = map fst (pr_fields p) \<and>
    (\<forall>k. k \<notin> set keys \<longrightarrow> get_attempt q k = get_attempt p k) \<and>
    (\<forall>k \<in> set keys. valueless (bm_get nvs k) \<longrightarrow> (\<exists>f. get_attempt q k = Inr f \<and> barren f))"
  using assms
proof (induction keys arbitrary: p)
  case Nil
  then show ?case by simp
next
  case (Cons key keys)
  from Cons.prems(1) obtain p' where p': "native_field L nvs now key p = Inr p'" "fold_res (native_field L nvs now) keys p' = Inr q"
    by (auto simp: bind_res_Inr_conv)
  have n: "progress_ok L p'" "frame key p p'" "valueless (bm_get nvs key) \<longrightarrow> (\<exists>f. get_attempt p' key = Inr f \<and> barren f)"
    using native_field_ok [OF Cons.prems(2) _ Cons.prems(3) p'(1) Cons.prems(6)] Cons.prems(5) by auto
  have "\<forall>k \<in> set keys. get_attempt p' k = Inr attempt_default" using n(2) Cons.prems(4,5) by (auto simp: frame_def)
  with Cons.IH [OF p'(2) n(1)] n Cons.prems(3,4,6) show ?case by (auto simp: frame_def)
qed

lemma finish_get: "get_attempt (progress_finish p) k = (case get_attempt p k of Inr f \<Rightarrow> Inr (f\<lparr>fa_quality := attempt_quality f True\<rparr>) | Inl e \<Rightarrow> Inl e)"
proof -
  have "map_of (map (\<lambda>(k, f). (k, g f)) m) k = map_option g (map_of m k)" for m :: "(string \<times> field_attempt) list" and g :: "field_attempt \<Rightarrow> field_attempt"
    by (induction m) auto
  then show ?thesis by (auto simp: get_attempt_def progress_finish_def ok_or_def split: option.splits)
qed

lemma finish_sel [simp]: "map fst (pr_fields (progress_finish p)) = map fst (pr_fields p)" "pr_definition (progress_finish p) = pr_definition p"
  "pr_finished (progress_finish p)"
  by (simp_all add: progress_finish_def comp_def case_prod_beta)

lemma progress_new_get: "definition_wf d \<Longrightarrow> k \<in> field_key ` set (cd_fields d) \<Longrightarrow> get_attempt (progress_new d) k = Inr attempt_default"
proof -
  have "k \<in> field_key ` set fs \<Longrightarrow> map_of (map (\<lambda>f. (field_key f, attempt_default)) fs) k = Some attempt_default" for fs
    by (induction fs) auto
  then show "definition_wf d \<Longrightarrow> k \<in> field_key ` set (cd_fields d) \<Longrightarrow> ?thesis" by (simp add: get_attempt_def progress_new_fields)
qed

lemma progress_native_ok:
  assumes "progress_native L d nvs now = Inr p" "definition_wf d" "hex_digests L"
  shows "progress_ok L p \<and> pr_definition p = d \<and> pr_finished p \<and> map fst (pr_fields p) = map field_key (cd_fields d) \<and>
    (\<forall>k \<in> field_key ` set (cd_fields d). valueless (bm_get nvs k) \<longrightarrow> (\<exists>f. get_attempt p k = Inr f \<and> barren f))"
proof -
  have keys: "bm_keys (pr_fields (progress_new d)) = map field_key (cd_fields d)"
    using assms(2) by (simp add: bm_keys_def progress_new_fields)
  obtain q where q: "fold_res (native_field L nvs now) (map field_key (cd_fields d)) (progress_new d) = Inr q" "p = progress_finish q"
    using assms(1) keys by (auto simp: progress_native_def bind_res_Inr_conv)
  have "distinct (map field_key (cd_fields d))" using assms(2) by (simp add: definition_wf_def strict_sorted_iff)
  moreover have "\<forall>k \<in> set (map field_key (cd_fields d)). get_attempt (progress_new d) k = Inr attempt_default"
    using progress_new_get [OF assms(2)] by simp
  moreover have "\<not> pr_finished (progress_new d)" "pr_definition (progress_new d) = d" by (simp_all add: progress_new_def)
  moreover have "map fst (pr_fields (progress_new d)) = map field_key (cd_fields d)" using keys by (simp add: bm_keys_def)
  ultimately show ?thesis
    using native_fields_ok [OF q(1) progress_new_ok [OF assms(2)] _ _ _ assms(3)] progress_finish_ok
    unfolding q(2) by (auto simp: finish_get barren_def)
qed

section \<open>Reported results\<close>

lemma key_parse_Inr: "key_parse s = Inr k \<Longrightarrow> k = s"
  by (auto simp: key_parse_def split: list.splits if_splits)

definition change_value :: "collection_lib \<Rightarrow> collection_definition \<Rightarrow> change \<Rightarrow> native_value \<Rightarrow> bool" where
  "change_value L d c v \<longleftrightarrow> (case ch_value c of
      None \<Rightarrow> v = NvMissing
    | Some bytes \<Rightarrow> (\<exists>fd w. definition_field d (ch_key c) = Inr fd \<and> collected_decode L fd bytes = Inr w \<and> v = NvValue w))"

lemma read_change_Inr:
  "read_change L d c nvs = Inr nvs' \<Longrightarrow> bm_get nvs (ch_key c) = None \<and>
    (\<exists>v. nvs' = bm_insert (ch_key c) v nvs \<and> change_value L d c v)"
  by (cases "ch_value c") (auto simp: read_change_def change_value_def bind_res_Inr_conv dest!: key_parse_Inr split: if_splits)

lemma read_changes:
  assumes "fold_res (read_change L d) cs nvs = Inr nvs'" "bm_wf nvs"
  shows "bm_wf nvs' \<and> distinct (map ch_key cs) \<and> (\<forall>c \<in> set cs. bm_get nvs (ch_key c) = None) \<and>
    (\<forall>c \<in> set cs. \<exists>v. bm_get nvs' (ch_key c) = Some v \<and> change_value L d c v) \<and>
    (\<forall>k. k \<notin> ch_key ` set cs \<longrightarrow> bm_get nvs' k = bm_get nvs k)"
  using assms
proof (induction cs arbitrary: nvs)
  case Nil
  then show ?case by simp
next
  case (Cons c cs)
  from Cons.prems(1) obtain v where v: "bm_get nvs (ch_key c) = None" "change_value L d c v"
    "fold_res (read_change L d) cs (bm_insert (ch_key c) v nvs) = Inr nvs'"
    by (auto simp: bind_res_Inr_conv dest!: read_change_Inr)
  have IH: "bm_wf nvs'" "distinct (map ch_key cs)" "\<forall>x \<in> set cs. bm_get (bm_insert (ch_key c) v nvs) (ch_key x) = None"
    "\<forall>x \<in> set cs. \<exists>v. bm_get nvs' (ch_key x) = Some v \<and> change_value L d x v"
    "\<forall>k. k \<notin> ch_key ` set cs \<longrightarrow> bm_get nvs' k = bm_get (bm_insert (ch_key c) v nvs) k"
    using Cons.IH [OF v(3)] Cons.prems(2) by simp_all
  from IH(3) Cons.prems(2) have new: "\<forall>x \<in> set cs. ch_key x \<noteq> ch_key c \<and> bm_get nvs (ch_key x) = None"
    by (auto split: if_splits)
  then have "ch_key c \<notin> ch_key ` set cs" by force
  then have "bm_get nvs' (ch_key c) = Some v" using IH(5) Cons.prems(2) by simp
  with IH new v show ?case using Cons.prems(2) by (auto simp: image_iff)
qed

lemma reported_valueless:
  assumes "fold_res (read_change L d) (cl_changes L body) [] = Inr read" "reported_deleted L body key"
  shows "valueless (bm_get read key)"
proof -
  note r = read_changes [OF assms(1), simplified]
  consider "key \<notin> ch_key ` set (cl_changes L body)"
    | c where "c \<in> set (cl_changes L body)" "ch_key c = key" "ch_value c = None"
    using assms(2) by (auto simp: reported_deleted_def list_ex_iff)
  then show ?thesis
  proof cases
    case 1
    then show ?thesis using r by (simp add: valueless_def)
  next
    case 2
    then have "bm_get read key = Some NvMissing" using r by (force simp: change_value_def)
    then show ?thesis by (simp add: valueless_def)
  qed
qed

lemma failed_valueless: "valueless (bm_get (bm_of_list (map (\<lambda>f. (field_key f, NvFailed)) fs)) k)"
proof -
  have "v = NvFailed" if "map_of (rev (map (\<lambda>f. (field_key f, NvFailed)) fs)) k = Some v" for v
    using map_of_SomeD [OF that] by auto
  then show ?thesis by (cases "map_of (rev (map (\<lambda>f. (field_key f, NvFailed)) fs)) k") (auto simp: bm_get_of_list valueless_def)
qed

lemma barren_deleted: "attempt_ok L fd True f \<Longrightarrow> barren f \<Longrightarrow> attempt_ok L fd True (f\<lparr>fa_terminal := Some QlDeleted, fa_quality := QlDeleted\<rparr>)"
  by (simp add: attempt_ok_def barren_def check_items_def array_items_def attempt_quality_def)

lemma progress_reported_ok:
  assumes "progress_reported L d body now = Inr p" "definition_wf d" "hex_digests L"
  shows "progress_ok L p \<and> pr_definition p = d \<and> pr_finished p \<and> map fst (pr_fields p) = map field_key (cd_fields d)"
proof -
  obtain read nvs q where read: "fold_res (read_change L d) (cl_changes L body) [] = Inr read"
    and nvs: "nvs = (case body of BodyFailed _ \<Rightarrow> bm_of_list (map (\<lambda>f. (field_key f, NvFailed)) (cd_fields d)) | _ \<Rightarrow> read)"
    and q: "progress_native L d nvs now = Inr q"
    and p: "p = q\<lparr>pr_complete_coverage := is_snapshot body, pr_fields := map (\<lambda>(k, f). (k, if reported_deleted L body k
        then f\<lparr>fa_terminal := Some QlDeleted, fa_quality := QlDeleted\<rparr> else f)) (pr_fields q)\<rparr>"
    using assms(1) by (auto simp: progress_reported_def bind_res_Inr_conv Let_def)
  note n = progress_native_ok [OF q assms(2,3)]
  have vl: "valueless (bm_get nvs k)" if "reported_deleted L body k" for k
    using reported_valueless [OF read that] failed_valueless nvs by (simp split: report_body.splits)
  have dist: "distinct (map fst (pr_fields q))" using n assms(2) by (simp add: definition_wf_def strict_sorted_iff)
  have "\<exists>fd. definition_field d k = Inr fd \<and> attempt_ok L fd True
      (if reported_deleted L body k then f\<lparr>fa_terminal := Some QlDeleted, fa_quality := QlDeleted\<rparr> else f)"
    if kf: "(k, f) \<in> set (pr_fields q)" for k f
  proof -
    obtain fd where fd: "definition_field d k = Inr fd" "attempt_ok L fd True f" using n kf by (force simp: progress_ok_def)
    have "k \<in> field_key ` set (cd_fields d)" using n kf by (metis fst_conv image_eqI set_map)
    moreover have "get_attempt q k = Inr f" using kf dist by (simp add: get_attempt_def)
    ultimately have "barren f" if "reported_deleted L body k" using n vl [OF that] by auto
    then show ?thesis using fd barren_deleted by auto
  qed
  then have "\<forall>(k, f) \<in> set (pr_fields p). \<exists>fd. definition_field d k = Inr fd \<and> attempt_ok L fd True f"
    unfolding p by fastforce
  then show ?thesis using n by (simp add: p progress_ok_def comp_def case_prod_beta)
qed

section \<open>Reachable states\<close>

text \<open>A collection starts empty, from native results or from a report, and advances by its operations.\<close>

inductive reachable :: "collection_lib \<Rightarrow> collection_definition \<Rightarrow> progress \<Rightarrow> bool" for L d where
  start: "reachable L d (progress_new d)"
| native: "progress_native L d nvs now = Inr p \<Longrightarrow> reachable L d p"
| partial: "native_partial L d nvs now = Inr p \<Longrightarrow> reachable L d p"
| report: "progress_reported L d body now = Inr p \<Longrightarrow> reachable L d p"
| status: "reachable L d p \<Longrightarrow> observe_status L key code now p = Inr q \<Longrightarrow> reachable L d q"
| observation: "reachable L d p \<Longrightarrow> observe_value L key v now p = Inr q \<Longrightarrow> reachable L d q"
| invalid: "reachable L d p \<Longrightarrow> observe_invalid L key now p = Inr q \<Longrightarrow> reachable L d q"
| invalid_items: "reachable L d p \<Longrightarrow> observe_invalid_items L key items vs now p = Inr q \<Longrightarrow> reachable L d q"
| reason: "reachable L d p \<Longrightarrow> progress_reason key r p = Inr q \<Longrightarrow> reachable L d q"
| finish: "reachable L d p \<Longrightarrow> reachable L d (progress_finish p)"

lemma reachable_ok:
  assumes "reachable L d p" "definition_wf d" "hex_digests L"
  shows "progress_ok L p \<and> pr_definition p = d \<and> map fst (pr_fields p) = map field_key (cd_fields d)"
  using assms
proof (induction rule: reachable.induct)
  case start
  then show ?case using progress_new_ok by (simp add: progress_new_fields) (simp add: progress_new_def)
next
  case (partial nvs now p)
  then obtain q where q: "progress_native L d nvs now = Inr q" "p = q\<lparr>pr_complete_coverage := False\<rparr>"
    by (auto simp: native_partial_def bind_res_Inr_conv)
  have "progress_ok L p = progress_ok L q" by (simp add: progress_ok_def q(2))
  with q partial.prems show ?case using progress_native_ok [of L d nvs now q] by simp
qed (auto dest: progress_native_ok progress_reported_ok observe_status_ok observe_value_ok observe_invalid_ok observe_invalid_items_ok
    progress_reason_ok observe_frame observe_items_frame simp: frame_def progress_finish_ok)

section \<open>Reports\<close>

definition reported_value :: "collection_lib \<Rightarrow> collection_definition \<Rightarrow> bool \<Rightarrow> (string \<times> field_attempt) list \<Rightarrow> change \<Rightarrow> bool" where
  "reported_value L d full kfs c \<longleftrightarrow> (\<exists>f v fd bytes. (ch_key c, f) \<in> set kfs \<and> emitted full f = Some v \<and>
      definition_field d (ch_key c) = Inr fd \<and> collected_encode L fd v = Inr bytes \<and> ch_value c = Some bytes)"

lemma reported_value_Cons: "reported_value L d full kfs c \<Longrightarrow> reported_value L d full (kf # kfs) c"
  by (auto simp: reported_value_def)

lemma emit_None: "emitted full f = None \<Longrightarrow> emit L p full (k, f) acc = Inr acc"
  by (simp add: emit_def)

lemma emit_Some: "emitted full f = Some v \<Longrightarrow> emit L p full (k, f) acc = Inr acc' \<Longrightarrow>
    \<exists>fd bytes. definition_field (pr_definition p) k = Inr fd \<and> collected_encode L fd v = Inr bytes \<and>
      acc' = acc @ [\<lparr>ch_key = k, ch_value = Some bytes\<rparr>]"
  by (auto simp: emit_def observation_id_def bind_res_Inr_conv split: if_splits)

lemma emit_fold:
  assumes "fold_res (emit L p full) kfs acc = Inr changes"
  shows "\<exists>more. changes = acc @ more \<and> map ch_key more = map fst (filter (\<lambda>(k, f). emitted full f \<noteq> None) kfs) \<and>
    (\<forall>c \<in> set more. reported_value L (pr_definition p) full kfs c)"
  using assms
proof (induction kfs arbitrary: acc)
  case Nil
  then show ?case by simp
next
  case (Cons kf kfs)
  obtain k f where kf: "kf = (k, f)" by (cases kf)
  show ?case
  proof (cases "emitted full f")
    case None
    then have "fold_res (emit L p full) kfs acc = Inr changes" using Cons.prems by (simp add: kf emit_None)
    from Cons.IH [OF this] None show ?thesis by (auto simp: kf reported_value_Cons)
  next
    case (Some v)
    then obtain fd bytes where e: "definition_field (pr_definition p) k = Inr fd" "collected_encode L fd v = Inr bytes"
      "fold_res (emit L p full) kfs (acc @ [\<lparr>ch_key = k, ch_value = Some bytes\<rparr>]) = Inr changes"
      using Cons.prems by (auto simp: kf bind_res_Inr_conv dest!: emit_Some [OF Some])
    have "reported_value L (pr_definition p) full (kf # kfs) \<lparr>ch_key = k, ch_value = Some bytes\<rparr>"
      using Some e(1,2) by (auto simp: reported_value_def kf)
    with Cons.IH [OF e(3)] Some show ?thesis by (auto simp: kf reported_value_Cons)
  qed
qed

lemma quality_confirmed:
  assumes "attempt_ok L fd fin f"
  shows "fa_quality f = QlSuccess \<or> fa_quality f = QlUnknown \<Longrightarrow> fa_confirmed f \<and> fa_terminal f = None \<and>
      (\<exists>v. fa_value f = Some v \<and> (fa_quality f = QlUnknown \<longleftrightarrow> (\<exists>r. v = CvUnknown r)))"
    "fa_quality f = QlDeleted \<Longrightarrow> fa_terminal f = Some QlDeleted \<or> fa_confirmed f \<and> fa_value f = Some CvDeleted"
    "fa_quality f = QlUnsupported \<Longrightarrow> fa_status f = Some 501 \<or> fa_confirmed f \<and> fa_value f = Some CvUnsupported"
proof -
  have q: "fa_quality f = attempt_quality f fin" and t: "\<And>ql. fa_terminal f = Some ql \<Longrightarrow> ql \<in> {QlMissing, QlFailed, QlInvalid, QlDeleted}"
    using assms by (auto simp: attempt_ok_def)
  show "fa_quality f = QlSuccess \<or> fa_quality f = QlUnknown \<Longrightarrow> fa_confirmed f \<and> fa_terminal f = None \<and>
      (\<exists>v. fa_value f = Some v \<and> (fa_quality f = QlUnknown \<longleftrightarrow> (\<exists>r. v = CvUnknown r)))"
    using q t by (auto simp: attempt_quality_def split: option.splits if_splits collected_value.splits)
  show "fa_quality f = QlDeleted \<Longrightarrow> fa_terminal f = Some QlDeleted \<or> fa_confirmed f \<and> fa_value f = Some CvDeleted"
    using q t by (auto simp: attempt_quality_def split: option.splits if_splits)
  show "fa_quality f = QlUnsupported \<Longrightarrow> fa_status f = Some 501 \<or> fa_confirmed f \<and> fa_value f = Some CvUnsupported"
    using q t by (auto simp: attempt_quality_def split: option.splits if_splits)
qed

lemma emit_keys:
  assumes "fold_res (emit L p full) kfs [] = Inr changes"
  shows "ch_key ` set changes = fst ` {(k, f) \<in> set kfs. emitted full f \<noteq> None}"
proof -
  have "set (map ch_key changes) = set (map fst (filter (\<lambda>(k, f). emitted full f \<noteq> None) kfs))"
    using emit_fold [OF assms] by auto
  also have "\<dots> = fst ` {(k, f) \<in> set kfs. emitted full f \<noteq> None}" by (auto simp: image_iff)
  finally show ?thesis by simp
qed

lemma emitted_definite: "attempt_ok L fd fin f \<Longrightarrow> definite (fa_quality f) \<Longrightarrow> full \<Longrightarrow> emitted full f \<noteq> None \<longleftrightarrow> fa_quality f \<noteq> QlDeleted"
  using quality_confirmed(1) [of L fd fin f] by (cases "fa_quality f") (auto simp: emitted_def definite_def)

section \<open>Properties\<close>

definition body_changes :: "report_body \<Rightarrow> change list" where
  "body_changes b = (case b of BodySnapshot cs \<Rightarrow> cs | BodyPartial cs \<Rightarrow> cs | BodyFailed _ \<Rightarrow> [])"

definition sample_collection :: collection_lib where
  "sample_collection = \<lparr>cl_inventory = sample_lib, cl_to_json = (\<lambda>v. Some (case v of CvValue _ \<Rightarrow> ''v'' | _ \<Rightarrow> ''u'')),
     cl_from_json = (\<lambda>s. if s = ''v'' then Some (CvValue disks_ab) else None), cl_sha_hex = (\<lambda>b. replicate 64 CHR ''0''),
     cl_id_ok = (\<lambda>s. True), cl_definition_json = (\<lambda>d. Some ''d''), cl_changes = body_changes\<rparr>"

definition sample_definition :: collection_definition where
  "sample_definition = \<lparr>cd_dataset = ''x'', cd_version = ''1'', cd_source = AgentNative,
     cd_fields = [\<lparr>cf_definition = disk_field, cf_scope = ScDevice\<rparr>]\<rparr>"

lemma sample_hex: "hex_digests sample_collection"
  by (simp add: hex_digests_def sample_collection_def list_all_iff is_hex_def is_ascii_digit_def)

lemma sample_collection_new:
  "collection_new sample_collection ''x'' ''1'' AgentNative [\<lparr>cf_definition = disk_field, cf_scope = ScDevice\<rparr>] = Inr sample_definition"
proof -
  have "catalog_new sample_lib [disk_field] = Inr [(''device.disks'', disk_field)]"
  proof -
    have "fold_res (add_definition sample_lib) [disk_field] [] = Inr [(''device.disks'', disk_field)]"
      by (simp add: add_definition_Inr bind_res_Inr_conv disk_field_ok sample_key)
    moreover have "dot_prefixes ''device.disks'' = [''device'']" by (simp add: dot_prefixes_def upt_conv_Cons)
    ultimately show ?thesis by (simp add: catalog_new_def bm_keys_def key_parse_def is_ok_def)
  qed
  moreover have "bm_get (fd_sources disk_field) AgentNative = Some 1" "fd_sensitivity disk_field = Standard"
    by (simp_all add: disk_field_def)
  ultimately show ?thesis
    by (simp add: collection_new_def observation_id_def sample_collection_def sample_definition_def validate_source_def
        validate_executable_def scope_executable_def)
qed

lemma sample_native:
  "progress_native sample_collection sample_definition [(''device.disks'', NvValue (CvValue disks_ab))] 7 =
    Inr \<lparr>pr_definition = sample_definition, pr_fields = [(''device.disks'',
        \<lparr>fa_status = None, fa_reason = None, fa_quality = QlSuccess, fa_received_at = Some 7, fa_value = Some (CvValue disks_ab),
          fa_digest = Some (replicate 64 CHR ''0''), fa_confirmed = True, fa_terminal = None, fa_items = [QlSuccess, QlSuccess]\<rparr>)],
      pr_finished = True, pr_complete_coverage = True\<rparr>"
proof -
  have f: "definition_field sample_definition ''device.disks'' = Inr disk_field"
    by (simp add: definition_field_def sample_definition_def field_key_def sample_key)
  have n: "progress_new sample_definition = \<lparr>pr_definition = sample_definition, pr_fields = [(''device.disks'', attempt_default)],
      pr_finished = False, pr_complete_coverage = True\<rparr>"
    by (simp add: progress_new_def bm_of_list_def sample_definition_def field_key_def sample_key)
  have e: "collected_encode sample_collection disk_field (CvValue disks_ab) = Inr ''v''"
    using disks_scalar by (simp add: collected_encode_def collected_validate_def sample_collection_def disks_ab_def)
  have "time_check sample_collection 7 = Inr ()" by (simp add: time_check_def sample_collection_def sample_lib_def)
  moreover have "cl_to_json sample_collection (CvValue disks_ab) = Some ''v''" "cl_sha_hex sample_collection b = replicate 64 CHR ''0''" for b
    by (simp_all add: sample_collection_def)
  moreover have "array_items (Some (CvValue disks_ab)) = Some [disk ''a'' 2, disk ''b'' 1]" by (simp add: array_items_def disks_ab_def)
  ultimately show ?thesis using f e
    by (simp add: progress_native_def n bm_keys_def native_field_def observe_value_def attempt_bytes_def attempt_default_def value_bytes_def
        checked_add_u64_def u64_max_def saturating_add_u64_def get_attempt_def accepted_value_def put_attempt_def confirm_def
        progress_finish_def attempt_quality_def disks_ab_def numeral_2_eq_2)
qed

text \<open>C14: Whatever the operations of a collection do, its document can be restored: after any sequence of statuses, values,
  invalid rows, reasons and termination, and for every state built from native results or from a report, all the
  consistency checks of restoration pass and exactly the fields of the frozen definition are present.\<close>

theorem inventory_progress_restores:
  assumes "hex_digests L" "collection_new L dataset version src fs = Inr d" "reachable L d p"
  shows "progress_restore L p = Inr p \<and> bm_keys (pr_fields p) = map field_key (cd_fields d)"
  using reachable_ok [OF assms(3) collection_new_wf [OF assms(2)] assms(1)] by (simp add: progress_restore_iff bm_keys_def)

theorem inventory_progress_restores_witness:
  "\<exists>p. progress_native sample_collection sample_definition [(''device.disks'', NvValue (CvValue disks_ab))] 7 = Inr p \<and>
    progress_restore sample_collection p = Inr p"
  using inventory_progress_restores [OF sample_hex sample_collection_new reachable.native [OF sample_native]] sample_native by blast

text \<open>C15: A report states confirmed outcomes only. Every reported value belongs to a field of the definition and is either the
  value that was confirmed for it, or the explicit lack of support or deletion that was observed; and a full
  snapshot is reported only when every field has a definite outcome, with exactly the deleted fields left out.\<close>

theorem inventory_report_confirmed:
  assumes "hex_digests L" "collection_new L dataset version src fs = Inr d" "reachable L d p" "progress_body L p = Inr (Some body)"
  shows "(\<forall>c \<in> set (body_changes body). \<exists>f fd v bytes. bm_get (pr_fields p) (ch_key c) = Some f \<and> ch_value c = Some bytes \<and>
      definition_field d (ch_key c) = Inr fd \<and> collected_encode L fd v = Inr bytes \<and>
      (fa_confirmed f \<and> fa_value f = Some v \<or> fa_status f = Some 501 \<and> v = CvUnsupported \<or> fa_terminal f = Some QlDeleted \<and> v = CvDeleted)) \<and>
    (\<forall>cs. body = BodySnapshot cs \<longrightarrow> pr_complete_coverage p \<and> (\<forall>k f. bm_get (pr_fields p) k = Some f \<longrightarrow>
      definite (fa_quality f) \<and> (k \<in> ch_key ` set cs \<longleftrightarrow> fa_quality f \<noteq> QlDeleted)))"
proof -
  note r = reachable_ok [OF assms(3) collection_new_wf [OF assms(2)] assms(1)]
  have wf: "distinct (map fst (pr_fields p))"
    using r collection_new_wf [OF assms(2)] by (simp add: definition_wf_def strict_sorted_iff)
  define full where "full \<longleftrightarrow> pr_complete_coverage p \<and> list_all (\<lambda>f. definite (fa_quality f)) (bm_values (pr_fields p))"
  obtain changes where ch: "fold_res (emit L p full) (pr_fields p) [] = Inr changes"
    and body: "full \<longrightarrow> body = BodySnapshot changes" "\<not> full \<longrightarrow> (\<exists>code. body = BodyFailed code) \<or> body = BodyPartial changes"
    using assms(4) by (auto simp: progress_body_def full_def [symmetric] Let_def bind_res_Inr_conv split: if_splits)
  note e = emit_fold [OF ch, simplified]
  have get: "bm_get (pr_fields p) k = Some f \<longleftrightarrow> (k, f) \<in> set (pr_fields p)" for k f using wf by simp
  have "\<exists>f fd v bytes. bm_get (pr_fields p) (ch_key c) = Some f \<and> ch_value c = Some bytes \<and>
      definition_field d (ch_key c) = Inr fd \<and> collected_encode L fd v = Inr bytes \<and>
      (fa_confirmed f \<and> fa_value f = Some v \<or> fa_status f = Some 501 \<and> v = CvUnsupported \<or> fa_terminal f = Some QlDeleted \<and> v = CvDeleted)"
    if "c \<in> set changes" for c
  proof -
    have "reported_value L d full (pr_fields p) c" using e that r by simp
    then obtain f v fd bytes where c: "(ch_key c, f) \<in> set (pr_fields p)" "emitted full f = Some v" "ch_value c = Some bytes"
      "definition_field d (ch_key c) = Inr fd" "collected_encode L fd v = Inr bytes"
      unfolding reported_value_def by blast
    have "attempt_ok L fd (pr_finished p) f" using r c(1,4) by (force simp: progress_ok_def)
    note q = quality_confirmed [OF this]
    have "fa_confirmed f \<and> fa_value f = Some v \<or> fa_status f = Some 501 \<and> v = CvUnsupported \<or> fa_terminal f = Some QlDeleted \<and> v = CvDeleted"
      using c(2) q by (cases "fa_quality f") (auto simp: emitted_def split: if_splits)
    then show ?thesis using c get by blast
  qed
  moreover have "set (body_changes body) \<subseteq> set changes" using body by (cases full) (auto simp: body_changes_def)
  moreover have "pr_complete_coverage p \<and> (\<forall>k f. bm_get (pr_fields p) k = Some f \<longrightarrow>
      definite (fa_quality f) \<and> (k \<in> ch_key ` set cs \<longleftrightarrow> fa_quality f \<noteq> QlDeleted))" if "body = BodySnapshot cs" for cs
  proof -
    have full: full and cs: "cs = changes" using body that by auto
    have def: "definite (fa_quality f)" if "(k, f) \<in> set (pr_fields p)" for k f
      using full that by (force simp: full_def list_all_iff bm_values_def)
    have "emitted full f \<noteq> None \<longleftrightarrow> fa_quality f \<noteq> QlDeleted" if kf: "(k, f) \<in> set (pr_fields p)" for k f
      using r kf emitted_definite [OF _ def [OF kf] full] by (auto simp: progress_ok_def dest!: bspec)
    then show ?thesis using full def wf unfolding cs emit_keys [OF ch] get by (force simp: full_def dest: eq_key_imp_eq_value)
  qed
  ultimately show ?thesis by blast
qed

lemma sample_body:
  "progress_body sample_collection \<lparr>pr_definition = sample_definition, pr_fields = [(''device.disks'',
        \<lparr>fa_status = None, fa_reason = None, fa_quality = QlSuccess, fa_received_at = Some 7, fa_value = Some (CvValue disks_ab),
          fa_digest = Some (replicate 64 CHR ''0''), fa_confirmed = True, fa_terminal = None, fa_items = [QlSuccess, QlSuccess]\<rparr>)],
      pr_finished = True, pr_complete_coverage = True\<rparr> = Inr (Some (BodySnapshot [\<lparr>ch_key = ''device.disks'', ch_value = Some ''v''\<rparr>]))"
proof -
  have "definition_field sample_definition ''device.disks'' = Inr disk_field"
    by (simp add: definition_field_def sample_definition_def field_key_def sample_key)
  moreover have "collected_encode sample_collection disk_field (CvValue disks_ab) = Inr ''v''"
    using disks_scalar by (simp add: collected_encode_def collected_validate_def sample_collection_def disks_ab_def)
  moreover have "observation_id sample_collection k = Inr k" for k by (simp add: observation_id_def sample_collection_def)
  ultimately show ?thesis by (simp add: progress_body_def bm_values_def definite_def emit_def emitted_def)
qed

theorem inventory_report_confirmed_witness:
  "\<exists>p cs. progress_native sample_collection sample_definition [(''device.disks'', NvValue (CvValue disks_ab))] 7 = Inr p \<and>
    progress_body sample_collection p = Inr (Some (BodySnapshot cs)) \<and> pr_complete_coverage p \<and> cs \<noteq> []"
  using inventory_report_confirmed [OF sample_hex sample_collection_new reachable.native [OF sample_native] sample_body]
    sample_native sample_body by (auto simp: body_changes_def)

end
