(* ===== verification/Resource_Base.thy ===== *)
theory Resource_Base
  imports Release_Encoding Query_Text
begin

text \<open>
  What the modules of \<^verbatim>\<open>crates/resource\<close> share (\<^verbatim>\<open>lib.rs\<close>): errors, identities, digests and artifacts,
  platforms, and the ASCII case functions of the standard library. SHA-256 belongs to another crate
  and is the parameter \<open>sha\<close>.
\<close>

section \<open>Errors\<close>

datatype software_validation_kind = VSource | VIdentity | VArtifact | VDependency | VBundle | VCommand
  | VDetection | VTarget | VBudget

fun software_validation_str :: "software_validation_kind \<Rightarrow> string" where
  "software_validation_str VSource = ''software_source''"
| "software_validation_str VIdentity = ''software_identity''"
| "software_validation_str VArtifact = ''software_artifact''"
| "software_validation_str VDependency = ''software_dependency''"
| "software_validation_str VBundle = ''software_bundle''"
| "software_validation_str VCommand = ''software_command''"
| "software_validation_str VDetection = ''software_detection''"
| "software_validation_str VTarget = ''software_target''"
| "software_validation_str VBudget = ''software_budget''"

datatype resource_error = InvalidInput | SoftwareValidation software_validation_kind | InvalidDigest
  | IdentityConflict | TenantMismatch | KindMismatch | DuplicateVariant | MissingVariant | MissingVersion
  | InvalidTransition | IncompleteReferences | Referenced | StaleTime

type_synonym 'a resource_result = "(resource_error, 'a) result"

definition software_invalid :: "software_validation_kind \<Rightarrow> 'a resource_result" where
  "software_invalid kind = Inl (Fail (SoftwareValidation kind))"

lemma software_invalid_iff [simp]:
  "software_invalid kind \<noteq> Inr x" "Inr x \<noteq> software_invalid kind" "software_invalid kind \<noteq> Inl Panic"
  by (simp_all add: software_invalid_def)

text \<open>\<^verbatim>\<open>map_err\<close>: replace the error, keep a panic.\<close>

definition map_err :: "resource_error \<Rightarrow> 'a resource_result \<Rightarrow> 'a resource_result" where
  "map_err e r = (case r of Inr a \<Rightarrow> Inr a | Inl Panic \<Rightarrow> Inl Panic | Inl (Fail _) \<Rightarrow> Inl (Fail e))"

lemma map_err_Inr_iff [simp]: "map_err e r = Inr a \<longleftrightarrow> r = Inr a"
  by (simp add: map_err_def split: sum.splits fault.splits)

lemma map_err_Inr [simp]: "map_err e (Inr a) = Inr a"
  by (simp add: map_err_def)

lemma map_err_no_panic [simp]: "no_panic (map_err e r) \<longleftrightarrow> no_panic r"
  by (auto simp: map_err_def no_panic_def split: sum.splits fault.splits)

section \<open>ASCII\<close>

definition ascii_lower_char :: "char \<Rightarrow> char" where
  "ascii_lower_char c = (if (65::nat) \<le> of_char c \<and> of_char c \<le> (90::nat) then char_of (of_char c + (32::nat)) else c)"

definition ascii_upper_char :: "char \<Rightarrow> char" where
  "ascii_upper_char c = (if (97::nat) \<le> of_char c \<and> of_char c \<le> (122::nat) then char_of (of_char c - (32::nat)) else c)"

definition to_ascii_lowercase :: "string \<Rightarrow> string" where
  "to_ascii_lowercase s = map ascii_lower_char s"

definition to_ascii_uppercase :: "string \<Rightarrow> string" where
  "to_ascii_uppercase s = map ascii_upper_char s"

definition eq_ignore_ascii_case :: "string \<Rightarrow> string \<Rightarrow> bool" where
  "eq_ignore_ascii_case s t \<longleftrightarrow> to_ascii_lowercase s = to_ascii_lowercase t"

definition is_ascii_hexdigit :: "char \<Rightarrow> bool" where
  "is_ascii_hexdigit c \<longleftrightarrow> hex_value c \<noteq> None"

definition is_ascii :: "string \<Rightarrow> bool" where
  "is_ascii s \<longleftrightarrow> list_all (\<lambda>c. of_char c < (128::nat)) s"

definition ends_with_char :: "string \<Rightarrow> char list \<Rightarrow> bool" where
  "ends_with_char s cs \<longleftrightarrow> s \<noteq> [] \<and> last s \<in> set cs"

definition contains_char :: "string \<Rightarrow> char list \<Rightarrow> bool" where
  "contains_char s cs \<longleftrightarrow> list_ex (\<lambda>c. c \<in> set cs) s"

section \<open>Identities, digests, artifacts\<close>

type_synonym rid = string

definition resource_segment_bad :: "string \<Rightarrow> bool" where
  "resource_segment_bad p \<longleftrightarrow> p = [] \<or> p = ''.'' \<or> p = ''..''"

definition id_new :: "string \<Rightarrow> rid resource_result" where
  "id_new s =
    (if s = [] \<or> length s > 128 \<or> \<not> list_all (\<lambda>b. is_ascii_alphanumeric b \<or> b \<in> set ''._-/'') s
        \<or> list_ex resource_segment_bad (str_split CHR ''/'' s)
     then Inl (Fail InvalidInput) else Inr s)"

definition id_ok :: "string \<Rightarrow> bool" where
  "id_ok s \<longleftrightarrow> id_new s = Inr s"

lemma id_new_Inr [simp]: "id_new s = Inr t \<longleftrightarrow> t = s \<and> id_ok s"
  by (auto simp: id_ok_def id_new_def)

lemma id_ok_length: "id_ok s \<Longrightarrow> 0 < length s \<and> length s \<le> 128"
  by (auto simp: id_ok_def id_new_def split: if_splits)

lemma id_new_no_panic [simp]: "no_panic (id_new s)"
  by (simp add: no_panic_def id_new_def)

text \<open>\<^verbatim>\<open>Digest::parse\<close>: \<^verbatim>\<open>u8::from_str_radix(&s[2i..2i+2], 16)\<close> for each octet.\<close>

fun hex_pairs :: "string \<Rightarrow> byte list option" where
  "hex_pairs [] = Some []"
| "hex_pairs (a # b # s) = (case (hex_value a, hex_value b, hex_pairs s) of
     (Some h, Some l, Some bs) \<Rightarrow> Some (of_nat (16 * h + l) # bs) | _ \<Rightarrow> None)"
| "hex_pairs [_] = None"

definition resource_digest_parse :: "string \<Rightarrow> digest resource_result" where
  "resource_digest_parse s =
    (if length s \<noteq> 64 \<or> \<not> list_all is_ascii_hexdigit s then Inl (Fail InvalidDigest)
     else bind_res (ok_or InvalidDigest (hex_pairs s)) (\<lambda>bs. Inr (of_be_bytes bs)))"

definition digest_verify :: "(byte list \<Rightarrow> digest) \<Rightarrow> digest \<Rightarrow> byte list \<Rightarrow> unit resource_result" where
  "digest_verify sha d bytes = (if d = sha bytes then Inr () else Inl (Fail InvalidDigest))"

datatype resource_platform = PWindows | PMacOS
datatype resource_architecture = AX86_64 | AAarch64
datatype run_as = RunSystem | RunLoggedInUser

record resource_artifact =
  ra_reference :: rid
  ra_length :: nat
  ra_digest :: digest

definition resource_artifact_new :: "rid \<Rightarrow> nat \<Rightarrow> digest \<Rightarrow> resource_artifact resource_result" where
  "resource_artifact_new ref len d =
    (if len = 0 \<or> int len > i64_max then Inl (Fail InvalidInput)
     else Inr \<lparr>ra_reference = ref, ra_length = len, ra_digest = d\<rparr>)"

definition artifact_verify :: "(byte list \<Rightarrow> digest) \<Rightarrow> resource_artifact \<Rightarrow> byte list \<Rightarrow> unit resource_result" where
  "artifact_verify sha a bytes =
    (if length bytes \<noteq> ra_length a then Inl (Fail InvalidDigest) else digest_verify sha (ra_digest a) bytes)"

definition artifact_ok :: "resource_artifact \<Rightarrow> bool" where
  "artifact_ok a \<longleftrightarrow> id_ok (ra_reference a) \<and> 0 < ra_length a \<and> int (ra_length a) \<le> i64_max"

lemma resource_artifact_new_Inr:
  "resource_artifact_new ref len d = Inr a \<longleftrightarrow>
    a = \<lparr>ra_reference = ref, ra_length = len, ra_digest = d\<rparr> \<and> 0 < len \<and> int len \<le> i64_max"
  by (auto simp: resource_artifact_new_def)

lemma resource_artifact_new_no_panic [simp]: "no_panic (resource_artifact_new r n d)"
  by (simp add: no_panic_def resource_artifact_new_def)

end
