(* ===== verification/Resource_Software.thy ===== *)
theory Resource_Software
  imports Resource_Base
begin

text \<open>
  Software definitions, \<^verbatim>\<open>crates/resource/src/software.rs\<close>, \<^verbatim>\<open>software/behavior.rs\<close> and
  \<^verbatim>\<open>software/validation.rs\<close>: the values a definition consists of, every check that
  \<^verbatim>\<open>SoftwareDefinition::new\<close> makes, in the order of the code, and the check of a target platform.
  A map is its sorted list of entries. Serialization and the Unicode lower case come from libraries:
  the record \<open>software_lib\<close>, where a serialization error is \<open>None\<close>.
\<close>

section \<open>Values\<close>

record software_source =
  ss_id :: string
  ss_revision :: string
  ss_sha256 :: digest

record software_artifact =
  sa_reference :: string
  sa_origin :: "string option"
  sa_length :: nat
  sa_sha256 :: digest

datatype software_reboot = RebootForbid | RebootReport
datatype software_downgrade = DowngradeDeny | DowngradeAllow

record software_dependency =
  sd_resource :: string
  sd_version :: string
  sd_sha256 :: digest

record bundle_entry =
  be_length :: nat
  be_sha256 :: digest

record bundle_manifest =
  manifest_schema :: nat
  manifest_platform :: resource_platform
  manifest_architecture :: resource_architecture
  manifest_entries :: "(string, bundle_entry) btree_map"

datatype software_scope = ScopeSystem | ScopeUser
datatype software_upgrade = InPlace | UninstallThenInstall | UpgradeDeny

record exit_code_policy =
  ec_success :: "int btree_set"
  ec_reboot :: "int btree_set"

record native_invocation =
  ni_run_as :: run_as
  ni_arguments :: "string list"
  ni_environment :: "(string, string) btree_map"
  ni_timeout_seconds :: nat
  ni_output_bytes :: nat
  ni_exit_codes :: exit_code_policy

datatype software_interpreter = PowerShell7 | PosixSh | Bash

record software_script =
  script_interpreter :: software_interpreter
  script_entry :: string
  script_invocation :: native_invocation

record native_removal =
  nr_installer :: string
  nr_invocation :: native_invocation

datatype software_detection =
    MsiProduct string string
  | PkgReceipt string string
  | Registry software_scope string string string
  | FileDetection software_scope string string digest
  | ScriptDetection software_script

record native_software =
  ns_installer :: string
  ns_scope :: software_scope
  ns_install :: native_invocation
  ns_upgrade_invocation :: native_invocation
  ns_upgrade :: software_upgrade
  ns_uninstall :: "native_removal option"
  ns_detect :: software_detection

record exe_software =
  es_installer :: string
  es_scope :: software_scope
  es_install :: native_invocation
  es_upgrade_invocation :: native_invocation
  es_upgrade :: software_upgrade
  es_uninstall :: "native_removal option"
  es_layout :: "(string, string) btree_map"
  es_detect :: software_detection

record bundle_software =
  bsw_archive :: string
  bsw_manifest :: bundle_manifest
  bsw_install :: software_script
  bsw_uninstall :: "software_script option"
  bsw_detect :: software_detection

record mac_application =
  ma_path :: string
  ma_bundle_id :: string
  ma_version :: string
  ma_target_name :: string

datatype dmg_payload =
    AppCopy mac_application bool
  | ContainedPkg string nat digest string "native_removal option"

record dmg_software =
  dmg_image :: string
  dmg_volume :: string
  dmg_scope :: software_scope
  dmg_invocation :: native_invocation
  dmg_upgrade :: software_upgrade
  dmg_payload :: dmg_payload

datatype msix_architecture = MsixX86_64 | MsixAarch64 | MsixNeutral

fun msix_matches :: "msix_architecture \<Rightarrow> resource_architecture \<Rightarrow> bool" where
  "msix_matches MsixNeutral _ \<longleftrightarrow> True"
| "msix_matches MsixX86_64 a \<longleftrightarrow> a = AX86_64"
| "msix_matches MsixAarch64 a \<longleftrightarrow> a = AAarch64"

type_synonym four_part = "nat \<times> nat \<times> nat \<times> nat"

record msix_identity =
  mi_name :: string
  mi_publisher :: string
  mi_version :: four_part
  mi_architecture :: msix_architecture
  mi_resource_id :: string

record msix_member =
  mm_path :: string
  mm_identity :: msix_identity
  mm_length :: nat
  mm_sha256 :: digest

datatype msix_container = MsixPackage string | MsixBundle string "msix_member list"
datatype software_user = ActiveInteractive | ExactUser string
datatype msix_deployment = TargetUserRegistration software_user | DeviceProvisioning

record msix_software =
  ms_container :: msix_container
  ms_identity :: msix_identity
  ms_dependencies :: "msix_identity list"
  ms_deployment :: msix_deployment
  ms_minimum_os :: four_part
  ms_require_sideload :: bool
  ms_allow_unsigned :: bool
  ms_uninstall :: bool
  ms_invocation :: native_invocation
  ms_upgrade :: software_upgrade

datatype software_behavior =
    BMsi native_software | BPkg native_software | BBundle bundle_software | BWinget native_software
  | BBrew native_software | BExe exe_software | BDmg dmg_software | BMsix msix_software

record software_source_file =
  sf_path :: string
  sf_content :: software_artifact

datatype software_provenance = Private | Imported string string "software_source_file list"

datatype signature_mechanism = Authenticode | AppleDeveloperId | MsixSignature

record software_signature =
  sig_evidence :: "software_artifact option"
  sig_artifact :: string
  sig_mechanism :: signature_mechanism
  sig_publisher :: string

datatype brew_export =
    Cask string "string list"
  | Bottle string string string string nat nat string

datatype software_export =
    ExportDisabled
  | ExportWinget string string string string string
  | ExportBrew string string string brew_export

datatype software_format = FExe | FMsi | FMsix | FPkg | FBundle | FWinget | FBrew | FDmg

record software_material =
  sm_bundle_id :: "string option"
  sm_format :: software_format
  sm_installer :: string

record software_spec =
  sp_source :: software_source
  sp_package :: string
  sp_version :: string
  sp_provenance :: software_provenance
  sp_artifacts :: "(string, software_artifact) btree_map"
  sp_material :: software_material
  sp_behavior :: "software_behavior option"
  sp_signatures :: "software_signature list"
  sp_reboot :: software_reboot
  sp_downgrade :: software_downgrade
  sp_dependencies :: "software_dependency list"
  sp_export :: software_export

record software_lib =
  sl_json :: "software_spec \<Rightarrow> byte list option"
  sl_lowercase :: "string \<Rightarrow> string"

datatype software_definition =
  SoftwareDefinition (sdef_spec: software_spec) (sdef_primary: resource_artifact)

section \<open>Behavior\<close>

fun format_str :: "software_format \<Rightarrow> string" where
  "format_str FExe = ''exe''"
| "format_str FMsi = ''msi''"
| "format_str FMsix = ''msix''"
| "format_str FPkg = ''pkg''"
| "format_str FBundle = ''bundle''"
| "format_str FWinget = ''winget''"
| "format_str FBrew = ''brew''"
| "format_str FDmg = ''dmg''"

fun behavior_kind :: "software_behavior \<Rightarrow> string" where
  "behavior_kind (BMsi _) = ''msi''"
| "behavior_kind (BPkg _) = ''pkg''"
| "behavior_kind (BBundle _) = ''bundle''"
| "behavior_kind (BWinget _) = ''winget''"
| "behavior_kind (BBrew _) = ''brew''"
| "behavior_kind (BExe _) = ''exe''"
| "behavior_kind (BDmg _) = ''dmg''"
| "behavior_kind (BMsix _) = ''msix''"

fun container_installer :: "msix_container \<Rightarrow> string" where
  "container_installer (MsixPackage k) = k"
| "container_installer (MsixBundle k _) = k"

fun behavior_installer :: "software_behavior \<Rightarrow> string" where
  "behavior_installer (BMsi n) = ns_installer n"
| "behavior_installer (BPkg n) = ns_installer n"
| "behavior_installer (BWinget n) = ns_installer n"
| "behavior_installer (BBrew n) = ns_installer n"
| "behavior_installer (BExe n) = es_installer n"
| "behavior_installer (BBundle b) = bsw_archive b"
| "behavior_installer (BDmg d) = dmg_image d"
| "behavior_installer (BMsix m) = container_installer (ms_container m)"

fun behavior_bundle :: "software_behavior \<Rightarrow> bundle_manifest option" where
  "behavior_bundle (BBundle b) = Some (bsw_manifest b)"
| "behavior_bundle _ = None"

fun behavior_invocation :: "software_behavior \<Rightarrow> native_invocation" where
  "behavior_invocation (BMsi n) = ns_install n"
| "behavior_invocation (BPkg n) = ns_install n"
| "behavior_invocation (BWinget n) = ns_install n"
| "behavior_invocation (BBrew n) = ns_install n"
| "behavior_invocation (BExe n) = es_install n"
| "behavior_invocation (BBundle b) = script_invocation (bsw_install b)"
| "behavior_invocation (BDmg d) = dmg_invocation d"
| "behavior_invocation (BMsix m) = ms_invocation m"

fun payload_removal :: "dmg_payload \<Rightarrow> bool" where
  "payload_removal (AppCopy _ uninstall) \<longleftrightarrow> uninstall"
| "payload_removal (ContainedPkg _ _ _ _ uninstall) \<longleftrightarrow> uninstall \<noteq> None"

fun supports_removal :: "software_behavior \<Rightarrow> bool" where
  "supports_removal (BMsi n) \<longleftrightarrow> ns_uninstall n \<noteq> None"
| "supports_removal (BPkg n) \<longleftrightarrow> ns_uninstall n \<noteq> None"
| "supports_removal (BWinget n) \<longleftrightarrow> ns_uninstall n \<noteq> None"
| "supports_removal (BBrew n) \<longleftrightarrow> ns_uninstall n \<noteq> None"
| "supports_removal (BExe n) \<longleftrightarrow> es_uninstall n \<noteq> None"
| "supports_removal (BBundle b) \<longleftrightarrow> bsw_uninstall b \<noteq> None"
| "supports_removal (BDmg d) \<longleftrightarrow> payload_removal (dmg_payload d)"
| "supports_removal (BMsix m) \<longleftrightarrow> ms_uninstall m"

section \<open>Names, paths and artifacts\<close>

definition sw_artifact :: "software_artifact \<Rightarrow> resource_artifact resource_result" where
  "sw_artifact a =
    bind_res (map_err (SoftwareValidation VArtifact) (id_new (sa_reference a))) (\<lambda>ref.
      map_err (SoftwareValidation VArtifact) (resource_artifact_new ref (sa_length a) (sa_sha256 a)))"

definition sw_text :: "string \<Rightarrow> nat \<Rightarrow> unit resource_result" where
  "sw_text s limit = (if s = [] \<or> length s > limit \<or> has_control s then Inl (Fail InvalidInput) else Inr ())"

definition sw_checked :: "string \<Rightarrow> nat \<Rightarrow> software_validation_kind \<Rightarrow> unit resource_result" where
  "sw_checked s limit kind = map_err (SoftwareValidation kind) (sw_text s limit)"

text \<open>The file names Windows reserves for devices, whatever their extension.\<close>

definition device_name :: "string \<Rightarrow> bool" where
  "device_name p = (let base = to_ascii_uppercase (hd (str_split CHR ''.'' p)) in
     base \<in> {''CON'', ''PRN'', ''AUX'', ''NUL''}
     \<or> (length base = 4 \<and> (prefix ''COM'' base \<or> prefix ''LPT'' base)
        \<and> (49::nat) \<le> of_char (base ! 3) \<and> of_char (base ! 3) \<le> (57::nat)))"

definition bundle_path :: "string \<Rightarrow> unit resource_result" where
  "bundle_path path =
    bind_res (map_err (SoftwareValidation VBundle) (sw_text path 1024)) (\<lambda>_.
      if \<not> is_ascii path \<or> contains_char path [CHR 0x5C, CHR '':'', CHR ''<'', CHR ''>'', CHR 0x22, CHR ''|'', CHR ''?'', CHR ''*'']
         \<or> list_ex (\<lambda>p. p = [] \<or> p = ''.'' \<or> p = ''..'' \<or> ends_with_char p '' .'' \<or> device_name p) (str_split CHR ''/'' path)
      then software_invalid VBundle else Inr ())"

definition relative :: "string \<Rightarrow> unit resource_result" where
  "relative path =
    bind_res (sw_checked path 1024 VArtifact) (\<lambda>_.
      if contains_char path [CHR 0x5C, CHR '':'', CHR 0x00]
         \<or> list_ex (\<lambda>v. v = [] \<or> v = ''.'' \<or> v = ''..'' \<or> ends_with_char v '' .'') (str_split CHR ''/'' path)
      then software_invalid VArtifact else Inr ())"

definition reference :: "software_spec \<Rightarrow> string \<Rightarrow> unit resource_result" where
  "reference spec key =
    bind_res (ok_or (SoftwareValidation VArtifact) (bm_get (sp_artifacts spec) key)) (\<lambda>a.
      bind_res (sw_artifact a) (\<lambda>_. Inr ()))"

definition artifact_check :: "software_artifact \<Rightarrow> unit resource_result" where
  "artifact_check a =
    bind_res (sw_artifact a) (\<lambda>_.
      case sa_origin a of None \<Rightarrow> Inr ()
      | Some origin \<Rightarrow>
          bind_res (sw_checked origin 2048 VArtifact) (\<lambda>_.
            if \<not> prefix ''https://'' origin \<or> contains_char origin ''?#@''
            then software_invalid VArtifact else Inr ()))"

section \<open>Materials, provenance and dependencies\<close>

definition provenance_file :: "software_lib \<Rightarrow> software_source_file \<Rightarrow> string btree_set \<Rightarrow> string btree_set resource_result" where
  "provenance_file lib f names =
    bind_res (relative (sf_path f)) (\<lambda>_.
    bind_res (artifact_check (sf_content f)) (\<lambda>_.
      let name = sl_lowercase lib (sf_path f) in
      if name \<in> set names then software_invalid VSource else Inr (bs_insert name names)))"

definition provenance_check :: "software_lib \<Rightarrow> software_provenance \<Rightarrow> unit resource_result" where
  "provenance_check lib p = (case p of
      Private \<Rightarrow> Inr ()
    | Imported snapshot converter files \<Rightarrow>
        bind_res (sw_checked snapshot 128 VSource) (\<lambda>_.
        bind_res (sw_checked converter 128 VSource) (\<lambda>_.
          if files = [] \<or> length files > 32 then software_invalid VBudget
          else bind_res (fold_res (provenance_file lib) files []) (\<lambda>_. Inr ()))))"

definition material_artifact :: "string \<times> software_artifact \<Rightarrow> string btree_set \<Rightarrow> string btree_set resource_result" where
  "material_artifact kv references =
    bind_res (map_err (SoftwareValidation VArtifact) (id_new (fst kv))) (\<lambda>_.
    bind_res (artifact_check (snd kv)) (\<lambda>_.
      if sa_reference (snd kv) \<in> set references then software_invalid VArtifact
      else Inr (bs_insert (sa_reference (snd kv)) references)))"

definition materials_check :: "software_lib \<Rightarrow> software_spec \<Rightarrow> unit resource_result" where
  "materials_check lib spec =
    (if sp_artifacts spec = [] then software_invalid VArtifact
     else if length (sp_artifacts spec) > 64 then software_invalid VBudget
     else bind_res (fold_res material_artifact (sp_artifacts spec) []) (\<lambda>_.
          bind_res (reference spec (sm_installer (sp_material spec))) (\<lambda>_.
          provenance_check lib (sp_provenance spec))))"

definition dependency_key :: "software_dependency \<Rightarrow> string \<times> string" where
  "dependency_key d = (sd_resource d, sd_version d)"

definition dependency_check :: "software_dependency \<Rightarrow> string btree_set \<Rightarrow> string btree_set resource_result" where
  "dependency_check d seen =
    bind_res (map_err (SoftwareValidation VDependency) (id_new (sd_resource d))) (\<lambda>_.
    bind_res (map_err (SoftwareValidation VDependency) (id_new (sd_version d))) (\<lambda>_.
      if sd_resource d \<in> set seen then software_invalid VDependency else Inr (bs_insert (sd_resource d) seen)))"

text \<open>The dependencies are sorted in place; the changed specification is the result.\<close>

definition dependencies_check :: "software_spec \<Rightarrow> software_spec resource_result" where
  "dependencies_check spec =
    (if length (sp_dependencies spec) > 32 then software_invalid VBudget
     else let deps = sort_key dependency_key (sp_dependencies spec) in
       bind_res (fold_res dependency_check deps []) (\<lambda>_. Inr (spec\<lparr>sp_dependencies := deps\<rparr>)))"

section \<open>Invocations\<close>

definition environment_check :: "string \<times> string \<Rightarrow> unit \<Rightarrow> unit resource_result" where
  "environment_check kv u =
    (if \<not> prefix ''RSS_PARAM_'' (fst kv) \<or> length (fst kv) > 128
        \<or> \<not> list_all (\<lambda>b. is_ascii_alphanumeric b \<or> b = CHR ''_'') (fst kv)
        \<or> length (snd kv) > 4096 \<or> CHR 0x00 \<in> set (snd kv)
     then software_invalid VCommand else Inr ())"

definition invocation_check :: "native_invocation \<Rightarrow> unit resource_result" where
  "invocation_check i =
    (if \<not> (1 \<le> ni_timeout_seconds i \<and> ni_timeout_seconds i \<le> 86400)
        \<or> \<not> (1 \<le> ni_output_bytes i \<and> ni_output_bytes i \<le> 1048576)
        \<or> length (ni_arguments i) > 128 \<or> length (ni_environment i) > 32
     then software_invalid VCommand
     else if list_ex (\<lambda>v. length v > 4096 \<or> CHR 0x00 \<in> set v) (ni_arguments i) then software_invalid VCommand
     else bind_res (fold_res environment_check (ni_environment i) ()) (\<lambda>_.
       let codes = ni_exit_codes i in
       if ec_success codes = [] \<or> length (ec_success codes) + length (ec_reboot codes) > 32
          \<or> \<not> list_all (\<lambda>c. c \<notin> set (ec_reboot codes)) (ec_success codes)
       then software_invalid VCommand else Inr ()))"

definition scope_check :: "software_scope \<Rightarrow> native_invocation \<Rightarrow> unit resource_result" where
  "scope_check s i =
    (if s = ScopeSystem \<and> ni_run_as i \<noteq> RunSystem then software_invalid VCommand
     else if s = ScopeUser \<and> ni_run_as i \<noteq> RunLoggedInUser then software_invalid VCommand
     else Inr ())"

definition removal_check :: "software_spec \<Rightarrow> native_removal option \<Rightarrow> unit resource_result" where
  "removal_check spec r = (case r of None \<Rightarrow> Inr ()
    | Some v \<Rightarrow> bind_res (reference spec (nr_installer v)) (\<lambda>_. invocation_check (nr_invocation v)))"

definition removal_scope :: "software_scope \<Rightarrow> native_removal option \<Rightarrow> unit resource_result" where
  "removal_scope s r = (case r of None \<Rightarrow> Inr () | Some v \<Rightarrow> scope_check s (nr_invocation v))"

definition upgrade_check :: "software_upgrade \<Rightarrow> bool \<Rightarrow> unit resource_result" where
  "upgrade_check policy removal =
    (if policy = UninstallThenInstall \<and> \<not> removal then software_invalid VCommand else Inr ())"

definition script_check :: "software_spec \<Rightarrow> software_script \<Rightarrow> bundle_manifest option \<Rightarrow> unit resource_result" where
  "script_check spec s manifest =
    bind_res (invocation_check (script_invocation s)) (\<lambda>_.
      case manifest of
        Some m \<Rightarrow> bind_res (bundle_path (script_entry s)) (\<lambda>_.
          if bm_get (manifest_entries m) (script_entry s) = None then software_invalid VCommand else Inr ())
      | None \<Rightarrow> reference spec (script_entry s))"

section \<open>Detection\<close>

definition product_code_ok :: "string \<Rightarrow> bool" where
  "product_code_ok b \<longleftrightarrow> length b = 38 \<and> b ! 0 = CHR ''{'' \<and> b ! 37 = CHR ''}''
     \<and> list_all (\<lambda>(i, c). if i \<in> {8, 13, 18, 23} then c = CHR ''-'' else is_ascii_hexdigit c)
         (enumerate 0 (take 36 (drop 1 b)))"

definition detection_check :: "software_spec \<Rightarrow> software_detection \<Rightarrow> unit resource_result" where
  "detection_check spec d = (case d of
      MsiProduct code version \<Rightarrow>
        if \<not> product_code_ok code then software_invalid VDetection
        else sw_checked version 1024 VDetection
    | PkgReceipt receipt version \<Rightarrow>
        bind_res (sw_checked receipt 255 VDetection) (\<lambda>_. sw_checked version 1024 VDetection)
    | Registry _ key name version \<Rightarrow>
        bind_res (sw_checked key 1024 VDetection) (\<lambda>_.
        bind_res (sw_checked name 255 VDetection) (\<lambda>_.
          if prefix [CHR 0x5C] key \<or> str_contains key ''..'' then software_invalid VDetection
          else sw_checked version 1024 VDetection))
    | FileDetection _ path version sha256 \<Rightarrow>
        bind_res (map_err (SoftwareValidation VDetection) (relative path)) (\<lambda>_.
          if sha256 = 0 then software_invalid VDetection
          else sw_checked version 1024 VDetection)
    | ScriptDetection command \<Rightarrow>
        script_check spec command (Option.bind (sp_behavior spec) behavior_bundle))"

definition detector_scope :: "software_detection \<Rightarrow> software_scope \<Rightarrow> unit resource_result" where
  "detector_scope d actual = (case d of
      Registry s _ _ _ \<Rightarrow> if s \<noteq> actual then software_invalid VDetection else Inr ()
    | FileDetection s _ _ _ \<Rightarrow> if s \<noteq> actual then software_invalid VDetection else Inr ()
    | _ \<Rightarrow> Inr ())"

section \<open>Behaviors\<close>

definition native_check :: "software_spec \<Rightarrow> native_software \<Rightarrow> unit resource_result" where
  "native_check spec n =
    bind_res (reference spec (ns_installer n)) (\<lambda>_.
    bind_res (invocation_check (ns_install n)) (\<lambda>_.
    bind_res (invocation_check (ns_upgrade_invocation n)) (\<lambda>_.
    bind_res (scope_check (ns_scope n) (ns_install n)) (\<lambda>_.
    bind_res (scope_check (ns_scope n) (ns_upgrade_invocation n)) (\<lambda>_.
    bind_res (upgrade_check (ns_upgrade n) (ns_uninstall n \<noteq> None)) (\<lambda>_.
    bind_res (removal_check spec (ns_uninstall n)) (\<lambda>_.
    bind_res (removal_scope (ns_scope n) (ns_uninstall n)) (\<lambda>_.
    bind_res (detection_check spec (ns_detect n)) (\<lambda>_.
      detector_scope (ns_detect n) (ns_scope n))))))))))"

definition layout_entry :: "software_spec \<Rightarrow> string \<times> string \<Rightarrow> string btree_set \<times> string btree_set \<Rightarrow>
    (string btree_set \<times> string btree_set) resource_result" where
  "layout_entry spec pk seen =
    bind_res (map_err (SoftwareValidation VArtifact) (bundle_path (fst pk))) (\<lambda>_.
    bind_res (reference spec (snd pk)) (\<lambda>_.
      let path = to_ascii_lowercase (fst pk) in
      if path \<in> set (fst seen) \<or> snd pk \<in> set (snd seen) then software_invalid VArtifact
      else Inr (bs_insert path (fst seen), bs_insert (snd pk) (snd seen))))"

definition exe_check :: "software_spec \<Rightarrow> exe_software \<Rightarrow> unit resource_result" where
  "exe_check spec e =
    bind_res (invocation_check (es_install e)) (\<lambda>_.
    bind_res (invocation_check (es_upgrade_invocation e)) (\<lambda>_.
    bind_res (scope_check (es_scope e) (es_install e)) (\<lambda>_.
    bind_res (scope_check (es_scope e) (es_upgrade_invocation e)) (\<lambda>_.
    bind_res (upgrade_check (es_upgrade e) (es_uninstall e \<noteq> None)) (\<lambda>_.
    bind_res (removal_check spec (es_uninstall e)) (\<lambda>_.
    bind_res (removal_scope (es_scope e) (es_uninstall e)) (\<lambda>_.
    bind_res (detection_check spec (es_detect e)) (\<lambda>_.
    bind_res (detector_scope (es_detect e) (es_scope e)) (\<lambda>_.
      if es_layout e = [] \<or> length (es_layout e) > 64 then software_invalid VArtifact
      else bind_res (fold_res (layout_entry spec) (es_layout e) ([], [])) (\<lambda>(paths, keys).
        if length keys \<noteq> length (sp_artifacts spec) \<or> es_installer e \<notin> set keys
        then software_invalid VArtifact else Inr ()))))))))))"

definition manifest_entry :: "string \<Rightarrow> string btree_set \<Rightarrow> string btree_set resource_result" where
  "manifest_entry path names =
    bind_res (bundle_path path) (\<lambda>_.
      if eq_ignore_ascii_case path ''manifest.json'' \<or> to_ascii_lowercase path \<in> set names
      then software_invalid VBundle else Inr (bs_insert (to_ascii_lowercase path) names))"

definition bundle_extension :: "resource_platform \<Rightarrow> string" where
  "bundle_extension p = (if p = PWindows then ''ps1'' else ''sh'')"

definition bundle_check :: "software_spec \<Rightarrow> bundle_software \<Rightarrow> unit resource_result" where
  "bundle_check spec b =
    (let m = bsw_manifest b; ext = bundle_extension (manifest_platform m) in
     if manifest_schema m \<noteq> 1 \<or> manifest_entries m = [] \<or> length (manifest_entries m) > 4096
        \<or> length (sp_artifacts spec) \<noteq> 1
     then software_invalid VBundle
     else bind_res (fold_res manifest_entry (bm_keys (manifest_entries m)) []) (\<lambda>_.
       bind_res (script_check spec (bsw_install b) (Some m)) (\<lambda>_.
         if script_entry (bsw_install b) \<noteq> ''install.'' @ ext then software_invalid VBundle
         else bind_res (case bsw_uninstall b of None \<Rightarrow> Inr ()
             | Some u \<Rightarrow> bind_res (script_check spec u (Some m)) (\<lambda>_.
                 if script_entry u \<noteq> ''uninstall.'' @ ext
                    \<or> ni_run_as (script_invocation u) \<noteq> ni_run_as (script_invocation (bsw_install b))
                 then software_invalid VBundle else Inr ())) (\<lambda>_.
           detection_check spec (bsw_detect b)))))"

definition dmg_check :: "software_spec \<Rightarrow> dmg_software \<Rightarrow> unit resource_result" where
  "dmg_check spec d =
    bind_res (sw_checked (dmg_volume d) 255 VIdentity) (\<lambda>_.
    bind_res (invocation_check (dmg_invocation d)) (\<lambda>_.
    bind_res (scope_check (dmg_scope d) (dmg_invocation d)) (\<lambda>_.
      if ni_arguments (dmg_invocation d) \<noteq> [] \<or> ni_environment (dmg_invocation d) \<noteq> [] then software_invalid VCommand
      else case dmg_payload d of
        AppCopy app _ \<Rightarrow>
          bind_res (relative (ma_path app)) (\<lambda>_.
          bind_res (relative (ma_target_name app)) (\<lambda>_.
          bind_res (sw_checked (ma_bundle_id app) 255 VIdentity) (\<lambda>_.
            if \<not> suffix ''.app'' (ma_path app) \<or> \<not> suffix ''.app'' (ma_target_name app)
               \<or> CHR ''/'' \<in> set (ma_target_name app) \<or> ma_version app \<noteq> sp_version spec
            then software_invalid VIdentity else Inr ())))
      | ContainedPkg path len sha256 receipt uninstall \<Rightarrow>
          bind_res (relative path) (\<lambda>_.
          bind_res (sw_checked receipt 255 VDetection) (\<lambda>_.
            if \<not> suffix ''.pkg'' path \<or> len = 0 \<or> sha256 = 0 \<or> dmg_scope d \<noteq> ScopeSystem
            then software_invalid VArtifact else removal_check spec uninstall)))))"

definition msix_identity_check :: "msix_identity \<Rightarrow> unit resource_result" where
  "msix_identity_check i =
    bind_res (sw_checked (mi_name i) 255 VIdentity) (\<lambda>_.
    bind_res (sw_checked (mi_publisher i) 1024 VIdentity) (\<lambda>_.
      if contains_char (mi_name i) [CHR ''/'', CHR 0x5C, CHR '' ''] \<or> length (mi_resource_id i) > 255
         \<or> has_control (mi_resource_id i)
      then software_invalid VIdentity else Inr ()))"

definition msix_member_check :: "software_lib \<Rightarrow> msix_identity \<Rightarrow> msix_member \<Rightarrow> string btree_set \<times> nat \<Rightarrow>
    (string btree_set \<times> nat) resource_result" where
  "msix_member_check lib ident m seen =
    bind_res (relative (mm_path m)) (\<lambda>_.
    bind_res (msix_identity_check (mm_identity m)) (\<lambda>_.
      let name = sl_lowercase lib (mm_path m); i = mm_identity m in
      if mm_length m = 0 \<or> mm_sha256 m = 0 \<or> name \<in> set (fst seen) then software_invalid VArtifact
      else if mi_name i \<noteq> mi_name ident \<or> mi_publisher i \<noteq> mi_publisher ident \<or> mi_version i \<noteq> mi_version ident
      then software_invalid VIdentity
      else if mi_resource_id i = [] then
        (if i \<noteq> ident then software_invalid VIdentity else Inr (bs_insert name (fst seen), snd seen + 1))
      else Inr (bs_insert name (fst seen), snd seen)))"

definition msix_members_check :: "software_lib \<Rightarrow> msix_software \<Rightarrow> unit resource_result" where
  "msix_members_check lib m = (case ms_container m of
      MsixPackage _ \<Rightarrow> Inr ()
    | MsixBundle _ members \<Rightarrow>
        if members = [] \<or> length members > 64 then software_invalid VBudget
        else bind_res (fold_res (msix_member_check lib (ms_identity m)) members ([], 0)) (\<lambda>(_, applications).
          if applications \<noteq> 1 then software_invalid VArtifact else Inr ()))"

definition four_part_str :: "four_part \<Rightarrow> string" where
  "four_part_str v = (case v of (a, b, c, d) \<Rightarrow> str_join CHR ''.'' (map print_nat [a, b, c, d]))"

definition deployment_check :: "msix_software \<Rightarrow> unit resource_result" where
  "deployment_check m = (case ms_deployment m of
      DeviceProvisioning \<Rightarrow>
        if ni_run_as (ms_invocation m) \<noteq> RunSystem \<or> ms_allow_unsigned m then software_invalid VCommand else Inr ()
    | TargetUserRegistration target \<Rightarrow>
        if ni_run_as (ms_invocation m) \<noteq> RunLoggedInUser then software_invalid VCommand
        else (case target of ExactUser identity \<Rightarrow> sw_checked identity 255 VTarget | ActiveInteractive \<Rightarrow> Inr ()))"

definition msix_check :: "software_lib \<Rightarrow> software_spec \<Rightarrow> msix_software \<Rightarrow> unit resource_result" where
  "msix_check lib spec m =
    bind_res (msix_identity_check (ms_identity m)) (\<lambda>_.
    bind_res (invocation_check (ms_invocation m)) (\<lambda>_.
      if ni_arguments (ms_invocation m) \<noteq> [] \<or> ni_environment (ms_invocation m) \<noteq> [] \<or> mi_resource_id (ms_identity m) \<noteq> []
      then software_invalid VCommand
      else if four_part_str (mi_version (ms_identity m)) \<noteq> sp_version spec
        \<or> length (ms_dependencies m) \<noteq> length (sp_dependencies spec)
      then software_invalid VDependency
      else bind_res (msix_members_check lib m) (\<lambda>_.
        bind_res (fold_res (\<lambda>d _. msix_identity_check d) (ms_dependencies m) ()) (\<lambda>_.
          deployment_check m))))"

definition behavior_check :: "software_lib \<Rightarrow> software_spec \<Rightarrow> unit resource_result" where
  "behavior_check lib spec = (case sp_behavior spec of None \<Rightarrow> Inr ()
    | Some b \<Rightarrow>
      if behavior_kind b \<noteq> format_str (sm_format (sp_material spec))
         \<or> behavior_installer b \<noteq> sm_installer (sp_material spec)
      then software_invalid VArtifact
      else (case b of
          BMsi n \<Rightarrow> native_check spec n | BPkg n \<Rightarrow> native_check spec n
        | BWinget n \<Rightarrow> native_check spec n | BBrew n \<Rightarrow> native_check spec n
        | BExe e \<Rightarrow> exe_check spec e | BBundle u \<Rightarrow> bundle_check spec u
        | BDmg d \<Rightarrow> dmg_check spec d | BMsix m \<Rightarrow> msix_check lib spec m))"

section \<open>Signatures and export\<close>

definition signature_check :: "software_spec \<Rightarrow> software_signature \<Rightarrow> (string \<times> signature_mechanism) list \<Rightarrow>
    (string \<times> signature_mechanism) list resource_result" where
  "signature_check spec s seen =
    bind_res (reference spec (sig_artifact s)) (\<lambda>_.
    bind_res (case sig_evidence s of None \<Rightarrow> Inr ()
      | Some e \<Rightarrow> bind_res (sw_artifact e) (\<lambda>_. if sa_length e > 65536 then software_invalid VBudget else Inr ())) (\<lambda>_.
    bind_res (sw_checked (sig_publisher s) 1024 VIdentity) (\<lambda>_.
      if (sig_artifact s, sig_mechanism s) \<in> set seen then software_invalid VIdentity
      else Inr ((sig_artifact s, sig_mechanism s) # seen))))"

definition signatures_check :: "software_spec \<Rightarrow> unit resource_result" where
  "signatures_check spec =
    (if length (sp_signatures spec) > 64 then software_invalid VBudget
     else bind_res (fold_res (signature_check spec) (sp_signatures spec) []) (\<lambda>_. Inr ()))"

definition export_texts :: "string list \<Rightarrow> nat \<Rightarrow> unit resource_result" where
  "export_texts vs limit = fold_res (\<lambda>v _. sw_checked v limit VIdentity) vs ()"

definition export_check :: "software_spec \<Rightarrow> unit resource_result" where
  "export_check spec = (case sp_export spec of
      ExportDisabled \<Rightarrow> Inr ()
    | ExportWinget locale name publisher description license \<Rightarrow>
        bind_res (export_texts [locale, name, publisher, description, license] 4096) (\<lambda>_.
          case sp_behavior spec of Some (BMsi _) \<Rightarrow> Inr () | Some (BWinget _) \<Rightarrow> Inr () | Some (BExe _) \<Rightarrow> Inr ()
          | _ \<Rightarrow> software_invalid VTarget)
    | ExportBrew name description homepage payload \<Rightarrow>
        bind_res (export_texts [name, description, homepage] 4096) (\<lambda>_.
          if \<not> prefix ''https://'' homepage
             \<or> \<not> (case sp_behavior spec of Some (BBrew _) \<Rightarrow> True | Some (BDmg _) \<Rightarrow> True | Some (BPkg _) \<Rightarrow> True | _ \<Rightarrow> False)
          then software_invalid VTarget
          else (case payload of
              Cask path receipts \<Rightarrow>
                bind_res (relative path) (\<lambda>_. if length receipts > 32 then software_invalid VBudget else Inr ())
            | Bottle key source tag cellar _ _ executable \<Rightarrow>
                bind_res (reference spec key) (\<lambda>_.
                bind_res (reference spec source) (\<lambda>_.
                  export_texts [tag, cellar, executable] 255)))))"

section \<open>The definition\<close>

definition software_validate :: "software_lib \<Rightarrow> software_spec \<Rightarrow> software_spec resource_result" where
  "software_validate lib spec =
    bind_res (map_err (SoftwareValidation VSource) (id_new (ss_id (sp_source spec)))) (\<lambda>_.
    bind_res (map_err (SoftwareValidation VSource) (id_new (ss_revision (sp_source spec)))) (\<lambda>_.
    bind_res (sw_checked (sp_package spec) 1024 VIdentity) (\<lambda>_.
    bind_res (sw_checked (sp_version spec) 1024 VIdentity) (\<lambda>_.
    bind_res (case sm_bundle_id (sp_material spec) of None \<Rightarrow> Inr ()
      | Some bundle \<Rightarrow> sw_checked bundle 255 VIdentity) (\<lambda>_.
    bind_res (materials_check lib spec) (\<lambda>_.
    bind_res (dependencies_check spec) (\<lambda>spec.
    bind_res (behavior_check lib spec) (\<lambda>_.
    bind_res (signatures_check spec) (\<lambda>_.
    bind_res (export_check spec) (\<lambda>_.
    bind_res (ok_or (SoftwareValidation VBudget) (sl_json lib spec)) (\<lambda>bytes.
      if length bytes > 1048576 then software_invalid VBudget else Inr spec)))))))))))"

definition software_new :: "software_lib \<Rightarrow> software_spec \<Rightarrow> software_definition resource_result" where
  "software_new lib spec =
    bind_res (software_validate lib spec) (\<lambda>spec.
    bind_res (ok_or (SoftwareValidation VArtifact) (bm_get (sp_artifacts spec) (sm_installer (sp_material spec)))) (\<lambda>a.
    bind_res (sw_artifact a) (\<lambda>primary. Inr (SoftwareDefinition spec primary))))"

definition software_materials :: "software_definition \<Rightarrow> software_artifact list" where
  "software_materials d = (let spec = sdef_spec d in
     bm_values (sp_artifacts spec)
     @ (case sp_provenance spec of Private \<Rightarrow> [] | Imported _ _ files \<Rightarrow> map sf_content files)
     @ List.map_filter sig_evidence (sp_signatures spec))"

definition software_canonical :: "software_lib \<Rightarrow> software_definition \<Rightarrow> byte list resource_result" where
  "software_canonical lib d = or_panic (sl_json lib (sdef_spec d))"

section \<open>Targets\<close>

definition script_target :: "software_script \<Rightarrow> resource_platform \<Rightarrow> unit resource_result" where
  "script_target s platform =
    (if (case platform of PWindows \<Rightarrow> script_interpreter s = PowerShell7
         | PMacOS \<Rightarrow> script_interpreter s \<in> {PosixSh, Bash})
     then Inr () else software_invalid VTarget)"

definition detector_target :: "software_detection \<Rightarrow> resource_platform \<Rightarrow> unit resource_result" where
  "detector_target d platform = (case d of
      MsiProduct _ _ \<Rightarrow> if platform \<noteq> PWindows then software_invalid VTarget else Inr ()
    | Registry _ _ _ _ \<Rightarrow> if platform \<noteq> PWindows then software_invalid VTarget else Inr ()
    | PkgReceipt _ _ \<Rightarrow> if platform \<noteq> PMacOS then software_invalid VTarget else Inr ()
    | ScriptDetection command \<Rightarrow> script_target command platform
    | FileDetection _ _ _ _ \<Rightarrow> Inr ())"

definition expected_platform :: "software_spec \<Rightarrow> resource_architecture \<Rightarrow> resource_platform resource_result" where
  "expected_platform spec architecture = (case sm_format (sp_material spec) of
      FMsi \<Rightarrow> Inr PWindows | FWinget \<Rightarrow> Inr PWindows | FExe \<Rightarrow> Inr PWindows | FMsix \<Rightarrow> Inr PWindows
    | FPkg \<Rightarrow> Inr PMacOS | FBrew \<Rightarrow> Inr PMacOS | FDmg \<Rightarrow> Inr PMacOS
    | FBundle \<Rightarrow> (case sp_behavior spec of
          Some (BBundle b) \<Rightarrow>
            if manifest_architecture (bsw_manifest b) \<noteq> architecture then software_invalid VTarget
            else Inr (manifest_platform (bsw_manifest b))
        | _ \<Rightarrow> software_invalid VTarget))"

definition signature_supported :: "software_spec \<Rightarrow> resource_platform \<Rightarrow> software_signature \<Rightarrow> bool" where
  "signature_supported spec platform s = (case sig_mechanism s of
      AppleDeveloperId \<Rightarrow> platform = PMacOS
    | Authenticode \<Rightarrow> platform = PWindows
    | MsixSignature \<Rightarrow> platform = PWindows
        \<and> (case sp_behavior spec of Some (BMsix _) \<Rightarrow> True | _ \<Rightarrow> False)
        \<and> sm_installer (sp_material spec) = sig_artifact s)"

definition msix_runs_on :: "msix_software \<Rightarrow> resource_architecture \<Rightarrow> bool" where
  "msix_runs_on m architecture \<longleftrightarrow> msix_matches (mi_architecture (ms_identity m)) architecture
     \<and> list_all (\<lambda>d. msix_matches (mi_architecture d) architecture) (ms_dependencies m)
     \<and> (case ms_container m of MsixPackage _ \<Rightarrow> True
        | MsixBundle _ members \<Rightarrow> list_all (\<lambda>x. msix_matches (mi_architecture (mm_identity x)) architecture) members)"

definition behavior_detector :: "software_behavior \<Rightarrow> software_detection option" where
  "behavior_detector b = (case b of
      BMsi n \<Rightarrow> Some (ns_detect n) | BPkg n \<Rightarrow> Some (ns_detect n)
    | BWinget n \<Rightarrow> Some (ns_detect n) | BBrew n \<Rightarrow> Some (ns_detect n)
    | BExe e \<Rightarrow> Some (es_detect e) | BBundle u \<Rightarrow> Some (bsw_detect u) | _ \<Rightarrow> None)"

definition software_target :: "software_spec \<Rightarrow> resource_platform \<Rightarrow> resource_architecture \<Rightarrow> unit resource_result" where
  "software_target spec platform architecture =
    bind_res (expected_platform spec architecture) (\<lambda>expected.
      if platform \<noteq> expected then software_invalid VTarget
      else if \<not> list_all (signature_supported spec platform) (sp_signatures spec) then software_invalid VTarget
      else if (case sp_behavior spec of Some (BMsix m) \<Rightarrow> \<not> msix_runs_on m architecture | _ \<Rightarrow> False)
      then software_invalid VTarget
      else if (case sp_behavior spec of Some (BBrew b) \<Rightarrow> ns_scope b \<noteq> ScopeUser | _ \<Rightarrow> False)
      then software_invalid VTarget
      else bind_res (case Option.bind (sp_behavior spec) behavior_detector of None \<Rightarrow> Inr ()
          | Some d \<Rightarrow> detector_target d platform) (\<lambda>_.
        case sp_behavior spec of
          Some (BBundle b) \<Rightarrow>
            bind_res (script_target (bsw_install b) platform) (\<lambda>_.
              case bsw_uninstall b of None \<Rightarrow> Inr () | Some u \<Rightarrow> script_target u platform)
        | _ \<Rightarrow> Inr ()))"

definition software_validate_target :: "software_definition \<Rightarrow> resource_platform \<Rightarrow> resource_architecture \<Rightarrow> unit resource_result" where
  "software_validate_target d platform architecture = software_target (sdef_spec d) platform architecture"

end
