(* ===== verification/Resource_Software_Properties.thy ===== *)
theory Resource_Software_Properties
  imports Resource_Software Ordered_Lists
begin

text \<open>
  What an accepted software definition guarantees: every artifact it names is one of its own, its
  paths are portable and unambiguous, every process runs under the identity of its scope, scripts can
  be interpreted on the target, and the definition is a canonical value that validates to itself.
\<close>

section \<open>Elementary checks\<close>

lemma sw_text_Inr: "sw_text s n = Inr u \<longleftrightarrow> s \<noteq> [] \<and> length s \<le> n \<and> \<not> has_control s"
  by (auto simp: sw_text_def)

lemma sw_checked_Inr [simp]: "sw_checked s n k = Inr u \<longleftrightarrow> s \<noteq> [] \<and> length s \<le> n \<and> \<not> has_control s"
  by (simp add: sw_checked_def sw_text_Inr)

definition coordinates_ok :: "software_artifact \<Rightarrow> bool" where
  "coordinates_ok a \<longleftrightarrow> id_ok (sa_reference a) \<and> 0 < sa_length a \<and> int (sa_length a) \<le> i64_max"

definition coordinates :: "software_artifact \<Rightarrow> resource_artifact" where
  "coordinates a = \<lparr>ra_reference = sa_reference a, ra_length = sa_length a, ra_digest = sa_sha256 a\<rparr>"

lemma sw_artifact_Inr: "sw_artifact a = Inr r \<longleftrightarrow> coordinates_ok a \<and> r = coordinates a"
  by (auto simp: sw_artifact_def coordinates_ok_def coordinates_def resource_artifact_new_Inr)

text \<open>A key that the definition may name.\<close>

definition resolves :: "software_spec \<Rightarrow> string \<Rightarrow> bool" where
  "resolves spec k \<longleftrightarrow> (\<exists>a. bm_get (sp_artifacts spec) k = Some a \<and> coordinates_ok a)"

lemma reference_Inr [simp]: "reference spec k = Inr u \<longleftrightarrow> resolves spec k"
  by (auto simp: reference_def resolves_def sw_artifact_Inr)

definition origin_ok :: "software_artifact \<Rightarrow> bool" where
  "origin_ok a \<longleftrightarrow> (\<forall>u. sa_origin a = Some u \<longrightarrow> u \<noteq> [] \<and> length u \<le> 2048 \<and> \<not> has_control u
     \<and> prefix ''https://'' u \<and> \<not> contains_char u ''?#@'')"

lemma artifact_check_Inr: "artifact_check a = Inr u \<longleftrightarrow> coordinates_ok a \<and> origin_ok a"
  by (auto simp: artifact_check_def sw_artifact_Inr origin_ok_def split: option.splits)

lemma id_checked [simp]: "map_err e (id_new s) = Inr t \<longleftrightarrow> t = s \<and> id_ok s"
  by simp

section \<open>The loops\<close>

interpretation material: unique_scan material_artifact
    "\<lambda>kv. id_ok (fst kv) \<and> coordinates_ok (snd kv) \<and> origin_ok (snd kv)" "\<lambda>kv. sa_reference (snd kv)" set
  by unfold_locales (auto simp: material_artifact_def artifact_check_Inr split: if_splits)

interpretation source_file: unique_scan "provenance_file lib"
    "\<lambda>f. relative (sf_path f) = Inr () \<and> coordinates_ok (sf_content f) \<and> origin_ok (sf_content f)"
    "\<lambda>f. sl_lowercase lib (sf_path f)" set
  by unfold_locales (auto simp: provenance_file_def artifact_check_Inr Let_def split: if_splits)

interpretation dependency: unique_scan dependency_check
    "\<lambda>d. id_ok (sd_resource d) \<and> id_ok (sd_version d)" sd_resource set
  by unfold_locales (auto simp: dependency_check_def split: if_splits)


interpretation manifest: unique_scan manifest_entry
    "\<lambda>p. bundle_path p = Inr () \<and> \<not> eq_ignore_ascii_case p ''manifest.json''" to_ascii_lowercase set
  by unfold_locales (auto simp: manifest_entry_def split: if_splits)

text \<open>The layout of an executable keeps both its paths and its keys apart.\<close>

interpretation layout_path: fresh_scan "layout_entry spec"
    "\<lambda>pk. bundle_path (fst pk) = Inr () \<and> resolves spec (snd pk)" "\<lambda>pk. to_ascii_lowercase (fst pk)" "\<lambda>s. set (fst s)"
  by unfold_locales (auto simp: layout_entry_def Let_def split: if_splits)

interpretation layout_key: fresh_scan "layout_entry spec"
    "\<lambda>pk. resolves spec (snd pk)" snd "\<lambda>s. set (snd s)"
  by unfold_locales (auto simp: layout_entry_def Let_def split: if_splits)

interpretation member: fresh_scan "msix_member_check lib ident"
    "\<lambda>m. relative (mm_path m) = Inr () \<and> mm_length m \<noteq> 0 \<and> mm_sha256 m \<noteq> 0
       \<and> mi_name (mm_identity m) = mi_name ident \<and> mi_publisher (mm_identity m) = mi_publisher ident
       \<and> mi_version (mm_identity m) = mi_version ident
       \<and> (mi_resource_id (mm_identity m) = [] \<longrightarrow> mm_identity m = ident)"
    "\<lambda>m. sl_lowercase lib (mm_path m)" "\<lambda>s. set (fst s)"
  by unfold_locales (auto simp: msix_member_check_def Let_def split: if_splits)

interpretation signature: unique_scan "signature_check spec"
    "\<lambda>s. resolves spec (sig_artifact s) \<and> (\<forall>e. sig_evidence s = Some e \<longrightarrow> coordinates_ok e \<and> sa_length e \<le> 65536)
       \<and> sig_publisher s \<noteq> [] \<and> length (sig_publisher s) \<le> 1024 \<and> \<not> has_control (sig_publisher s)"
    "\<lambda>s. (sig_artifact s, sig_mechanism s)" set
  by unfold_locales (auto simp: signature_check_def sw_artifact_Inr split: if_splits option.splits)

section \<open>What a specification names\<close>

definition removal_keys :: "native_removal option \<Rightarrow> string list" where
  "removal_keys r = (case r of None \<Rightarrow> [] | Some v \<Rightarrow> [nr_installer v])"

fun detection_keys :: "software_detection \<Rightarrow> string list" where
  "detection_keys (ScriptDetection c) = [script_entry c]"
| "detection_keys _ = []"

fun payload_keys :: "dmg_payload \<Rightarrow> string list" where
  "payload_keys (ContainedPkg _ _ _ _ uninstall) = removal_keys uninstall"
| "payload_keys (AppCopy _ _) = []"

text \<open>Scripts of a bundle are members of its archive, every other key is an artifact.\<close>

fun behavior_keys :: "software_behavior \<Rightarrow> string list" where
  "behavior_keys (BMsi n) = ns_installer n # removal_keys (ns_uninstall n) @ detection_keys (ns_detect n)"
| "behavior_keys (BPkg n) = ns_installer n # removal_keys (ns_uninstall n) @ detection_keys (ns_detect n)"
| "behavior_keys (BWinget n) = ns_installer n # removal_keys (ns_uninstall n) @ detection_keys (ns_detect n)"
| "behavior_keys (BBrew n) = ns_installer n # removal_keys (ns_uninstall n) @ detection_keys (ns_detect n)"
| "behavior_keys (BExe e) = es_installer e # removal_keys (es_uninstall e) @ detection_keys (es_detect e) @ map snd (es_layout e)"
| "behavior_keys (BBundle b) = [bsw_archive b]"
| "behavior_keys (BDmg d) = dmg_image d # payload_keys (dmg_payload d)"
| "behavior_keys (BMsix m) = [container_installer (ms_container m)]"

fun bundle_scripts :: "bundle_software \<Rightarrow> string list" where
  "bundle_scripts b = script_entry (bsw_install b)
     # (case bsw_uninstall b of None \<Rightarrow> [] | Some u \<Rightarrow> [script_entry u]) @ detection_keys (bsw_detect b)"

fun export_keys :: "software_export \<Rightarrow> string list" where
  "export_keys (ExportBrew _ _ _ (Bottle key source _ _ _ _ _)) = [key, source]"
| "export_keys _ = []"

definition named_keys :: "software_spec \<Rightarrow> string list" where
  "named_keys spec = sm_installer (sp_material spec)
     # (case sp_behavior spec of None \<Rightarrow> [] | Some b \<Rightarrow> behavior_keys b)
     @ map sig_artifact (sp_signatures spec) @ export_keys (sp_export spec)"

lemma removal_check_keys: "removal_check spec r = Inr u \<Longrightarrow> list_all (resolves spec) (removal_keys r)"
  by (auto simp: removal_check_def removal_keys_def split: option.splits)

lemma detection_check_keys:
  "detection_check spec d = Inr u \<Longrightarrow> Option.bind (sp_behavior spec) behavior_bundle = None \<Longrightarrow>
    list_all (resolves spec) (detection_keys d)"
  by (cases d) (auto simp: detection_check_def script_check_def)

lemma detection_check_members:
  "detection_check spec d = Inr u \<Longrightarrow> Option.bind (sp_behavior spec) behavior_bundle = Some m \<Longrightarrow>
    set (detection_keys d) \<subseteq> fst ` set (manifest_entries m)"
  by (cases d) (auto simp: detection_check_def script_check_def map_of_eq_None_iff split: if_splits)

lemma native_check_keys:
  assumes "native_check spec n = Inr u" "Option.bind (sp_behavior spec) behavior_bundle = None"
  shows "list_all (resolves spec) (ns_installer n # removal_keys (ns_uninstall n) @ detection_keys (ns_detect n))"
  using assms removal_check_keys [of spec "ns_uninstall n" "()"] detection_check_keys [of spec "ns_detect n" "()"]
  by (auto simp: native_check_def)

lemma layout_scan:
  assumes "fold_res (layout_entry spec) kvs ([], []) = Inr (paths, keys)"
  shows "list_all (resolves spec) (map snd kvs) \<and> distinct (map snd kvs)
    \<and> list_all (\<lambda>p. bundle_path p = Inr ()) (map fst kvs) \<and> distinct (map (\<lambda>pk. to_ascii_lowercase (fst pk)) kvs)
    \<and> set keys = snd ` set kvs"
  using layout_path.scan_sound [OF assms] layout_key.scan_sound [OF assms]
  by (auto simp: list_all_iff)

lemma exe_check_layout:
  assumes "exe_check spec e = Inr u"
  obtains paths keys where "fold_res (layout_entry spec) (es_layout e) ([], []) = Inr (paths, keys)"
    "length keys = length (sp_artifacts spec)" "es_installer e \<in> set keys"
  using assms by (auto simp: exe_check_def split: if_splits)

lemma exe_check_keys:
  assumes "exe_check spec e = Inr u" "Option.bind (sp_behavior spec) behavior_bundle = None"
  shows "list_all (resolves spec) (behavior_keys (BExe e))"
proof -
  obtain paths keys where k: "fold_res (layout_entry spec) (es_layout e) ([], []) = Inr (paths, keys)"
    "es_installer e \<in> set keys" using exe_check_layout [OF assms(1)] by blast
  from layout_scan [OF k(1)] k(2) have "list_all (resolves spec) (es_installer e # map snd (es_layout e))"
    by (auto simp: list_all_iff)
  moreover have "list_all (resolves spec) (removal_keys (es_uninstall e))"
    using assms(1) by (auto simp: exe_check_def intro: removal_check_keys)
  moreover have "list_all (resolves spec) (detection_keys (es_detect e))"
    using assms by (auto simp: exe_check_def intro: detection_check_keys)
  ultimately show ?thesis by simp
qed

lemma dmg_check_keys: "dmg_check spec d = Inr u \<Longrightarrow> list_all (resolves spec) (payload_keys (dmg_payload d))"
  by (cases "dmg_payload d") (auto simp: dmg_check_def split: if_splits intro: removal_check_keys)

lemma behavior_check_keys:
  assumes "behavior_check lib spec = Inr u" "sp_behavior spec = Some b" "resolves spec (sm_installer (sp_material spec))"
  shows "list_all (resolves spec) (behavior_keys b)"
proof -
  have inst: "behavior_installer b = sm_installer (sp_material spec)"
    using assms(1,2) by (simp add: behavior_check_def split: if_splits)
  show ?thesis
  proof (cases b)
    case (BExe e)
    then show ?thesis using assms exe_check_keys [of spec e u] by (simp add: behavior_check_def split: if_splits)
  next
    case (BDmg d)
    then show ?thesis using assms inst dmg_check_keys [of spec d u] by (simp add: behavior_check_def split: if_splits)
  qed (use assms inst native_check_keys [of spec _ u] in \<open>auto simp: behavior_check_def split: if_splits\<close>)
qed

lemma signatures_check_keys: "signatures_check spec = Inr u \<Longrightarrow> list_all (resolves spec) (map sig_artifact (sp_signatures spec))"
  using signature.scan_sound by (fastforce simp: signatures_check_def list_all_iff split: if_splits)

lemma export_check_keys: "export_check spec = Inr u \<Longrightarrow> list_all (resolves spec) (export_keys (sp_export spec))"
  by (cases "sp_export spec" rule: export_keys.cases) (auto simp: export_check_def split: if_splits)

section \<open>Acceptance\<close>

text \<open>What acceptance shows, with the specification the definition keeps: the given one with its
  dependencies sorted.\<close>

lemma software_validate_parts:
  assumes "software_validate lib spec = Inr spec'"
  shows "materials_check lib spec = Inr ()" "dependencies_check spec = Inr spec'"
    "behavior_check lib spec' = Inr ()" "signatures_check spec' = Inr ()" "export_check spec' = Inr ()"
    "\<exists>bytes. sl_json lib spec' = Some bytes \<and> length bytes \<le> 1048576"
  using assms by (auto simp: software_validate_def split: if_splits)

lemma dependencies_check_Inr:
  "dependencies_check spec = Inr spec' \<longleftrightarrow>
    length (sp_dependencies spec) \<le> 32
    \<and> list_all (\<lambda>d. id_ok (sd_resource d) \<and> id_ok (sd_version d)) (sp_dependencies spec)
    \<and> distinct (map sd_resource (sp_dependencies spec))
    \<and> spec' = spec\<lparr>sp_dependencies := sort_key dependency_key (sp_dependencies spec)\<rparr>"
proof -
  have "mset (map sd_resource (sort_key dependency_key ds)) = mset (map sd_resource ds)" for ds by simp
  then have d: "distinct (map sd_resource (sort_key dependency_key ds)) \<longleftrightarrow> distinct (map sd_resource ds)" for ds
    using mset_eq_imp_distinct_iff by metis
  show ?thesis
    using dependency.scan_iff [of "[]" "sort_key dependency_key (sp_dependencies spec)"]
    by (auto simp: dependencies_check_def Let_def d list_all_iff)
qed

lemma software_new_Inr:
  "software_new lib spec = Inr d \<longleftrightarrow>
    software_validate lib spec = Inr (sdef_spec d)
    \<and> (\<exists>a. bm_get (sp_artifacts (sdef_spec d)) (sm_installer (sp_material (sdef_spec d))) = Some a
        \<and> coordinates_ok a \<and> sdef_primary d = coordinates a)"
  by (cases d) (auto simp: software_new_def sw_artifact_Inr)

lemma resolves_dependencies [simp]: "resolves (spec\<lparr>sp_dependencies := ds\<rparr>) = resolves spec"
  by (simp add: resolves_def fun_eq_iff)

lemma materials_check_Inr:
  assumes "materials_check lib spec = Inr u"
  shows "resolves spec (sm_installer (sp_material spec))"
    "list_all (\<lambda>kv. id_ok (fst kv) \<and> coordinates_ok (snd kv) \<and> origin_ok (snd kv)) (sp_artifacts spec)"
    "distinct (map (\<lambda>kv. sa_reference (snd kv)) (sp_artifacts spec))"
  using assms material.scan_sound [of "sp_artifacts spec" "[]"]
  by (auto simp: materials_check_def split: if_splits)

section \<open>Identities of processes\<close>

fun scope_identity :: "software_scope \<Rightarrow> run_as" where
  "scope_identity ScopeSystem = RunSystem"
| "scope_identity ScopeUser = RunLoggedInUser"

lemma scope_check_Inr [simp]: "scope_check s i = Inr u \<longleftrightarrow> ni_run_as i = scope_identity s"
  by (cases s; cases "ni_run_as i") (auto simp: scope_check_def)

text \<open>The identity that the declared effect of a behavior needs, and the processes that change the device.\<close>

fun behavior_identity :: "software_behavior \<Rightarrow> run_as" where
  "behavior_identity (BMsi n) = scope_identity (ns_scope n)"
| "behavior_identity (BPkg n) = scope_identity (ns_scope n)"
| "behavior_identity (BWinget n) = scope_identity (ns_scope n)"
| "behavior_identity (BBrew n) = scope_identity (ns_scope n)"
| "behavior_identity (BExe e) = scope_identity (es_scope e)"
| "behavior_identity (BBundle b) = ni_run_as (script_invocation (bsw_install b))"
| "behavior_identity (BDmg d) = scope_identity (dmg_scope d)"
| "behavior_identity (BMsix m) = (case ms_deployment m of DeviceProvisioning \<Rightarrow> RunSystem | TargetUserRegistration _ \<Rightarrow> RunLoggedInUser)"

definition removal_processes :: "native_removal option \<Rightarrow> native_invocation list" where
  "removal_processes r = (case r of None \<Rightarrow> [] | Some v \<Rightarrow> [nr_invocation v])"

fun native_processes :: "native_software \<Rightarrow> native_invocation list" where
  "native_processes n = ns_install n # ns_upgrade_invocation n # removal_processes (ns_uninstall n)"

fun payload_processes :: "dmg_payload \<Rightarrow> native_invocation list" where
  "payload_processes (ContainedPkg _ _ _ _ uninstall) = removal_processes uninstall"
| "payload_processes (AppCopy _ _) = []"

fun behavior_processes :: "software_behavior \<Rightarrow> native_invocation list" where
  "behavior_processes (BMsi n) = native_processes n"
| "behavior_processes (BPkg n) = native_processes n"
| "behavior_processes (BWinget n) = native_processes n"
| "behavior_processes (BBrew n) = native_processes n"
| "behavior_processes (BExe e) = es_install e # es_upgrade_invocation e # removal_processes (es_uninstall e)"
| "behavior_processes (BBundle b) = script_invocation (bsw_install b)
     # (case bsw_uninstall b of None \<Rightarrow> [] | Some u \<Rightarrow> [script_invocation u])"
| "behavior_processes (BDmg d) = dmg_invocation d # payload_processes (dmg_payload d)"
| "behavior_processes (BMsix m) = [ms_invocation m]"

text \<open>Those whose identity the code compares.\<close>

fun scoped_processes :: "software_behavior \<Rightarrow> native_invocation list" where
  "scoped_processes (BDmg d) = [dmg_invocation d]"
| "scoped_processes b = behavior_processes b"

text \<open>The bounds every admitted invocation keeps.\<close>

definition invocation_bounded :: "native_invocation \<Rightarrow> bool" where
  "invocation_bounded i \<longleftrightarrow> 1 \<le> ni_timeout_seconds i \<and> ni_timeout_seconds i \<le> 86400
     \<and> 1 \<le> ni_output_bytes i \<and> ni_output_bytes i \<le> 1048576
     \<and> length (ni_arguments i) \<le> 128 \<and> list_all (\<lambda>v. length v \<le> 4096 \<and> CHR 0x00 \<notin> set v) (ni_arguments i)
     \<and> list_all (\<lambda>(k, v). prefix ''RSS_PARAM_'' k \<and> CHR 0x00 \<notin> set v) (ni_environment i)
     \<and> ec_success (ni_exit_codes i) \<noteq> [] \<and> set (ec_success (ni_exit_codes i)) \<inter> set (ec_reboot (ni_exit_codes i)) = {}"

lemma environment_fold:
  "fold_res environment_check kvs () = Inr u \<Longrightarrow>
    list_all (\<lambda>(k, v). prefix ''RSS_PARAM_'' k \<and> CHR 0x00 \<notin> set v) kvs"
  by (induction kvs) (auto simp: environment_check_def split: if_splits)

lemma invocation_check_bounded: "invocation_check i = Inr u \<Longrightarrow> invocation_bounded i"
  by (auto simp: invocation_check_def invocation_bounded_def Let_def list_all_iff list_ex_iff
      dest!: environment_fold split: if_splits)

lemma removal_check_bounded: "removal_check spec r = Inr u \<Longrightarrow> list_all invocation_bounded (removal_processes r)"
  by (auto simp: removal_check_def removal_processes_def invocation_check_bounded split: option.splits)

lemma removal_scope_identity:
  "removal_scope s r = Inr u \<Longrightarrow> list_all (\<lambda>i. ni_run_as i = scope_identity s) (removal_processes r)"
  by (auto simp: removal_scope_def removal_processes_def split: option.splits)

lemma native_check_processes:
  assumes "native_check spec n = Inr u"
  shows "list_all invocation_bounded (native_processes n)
    \<and> list_all (\<lambda>i. ni_run_as i = scope_identity (ns_scope n)) (native_processes n)"
  using assms by (auto simp: native_check_def invocation_check_bounded
      dest: removal_check_bounded removal_scope_identity)

lemma exe_check_processes:
  assumes "exe_check spec e = Inr u"
  shows "list_all invocation_bounded (behavior_processes (BExe e))
    \<and> list_all (\<lambda>i. ni_run_as i = scope_identity (es_scope e)) (behavior_processes (BExe e))"
  using assms by (auto simp: exe_check_def invocation_check_bounded
      dest: removal_check_bounded removal_scope_identity)

lemma bundle_check_processes:
  assumes "bundle_check spec b = Inr u"
  shows "list_all invocation_bounded (behavior_processes (BBundle b))
    \<and> list_all (\<lambda>i. ni_run_as i = behavior_identity (BBundle b)) (behavior_processes (BBundle b))"
  using assms by (auto simp: bundle_check_def script_check_def invocation_check_bounded Let_def
      split: if_splits option.splits)

lemma dmg_check_processes:
  assumes "dmg_check spec d = Inr u"
  shows "list_all invocation_bounded (behavior_processes (BDmg d)) \<and> ni_run_as (dmg_invocation d) = scope_identity (dmg_scope d)"
  using assms by (cases "dmg_payload d")
    (auto simp: dmg_check_def invocation_check_bounded split: if_splits dest: removal_check_bounded)

lemma msix_check_processes:
  assumes "msix_check lib spec m = Inr u"
  shows "invocation_bounded (ms_invocation m) \<and> ni_run_as (ms_invocation m) = behavior_identity (BMsix m)"
  using assms by (auto simp: msix_check_def deployment_check_def invocation_check_bounded
      split: if_splits msix_deployment.splits)

section \<open>Order of dependencies\<close>

lemma dependencies_check_mset:
  assumes "dependencies_check spec = Inr spec'" "mset ds = mset (sp_dependencies spec)"
  shows "dependencies_check (spec\<lparr>sp_dependencies := ds\<rparr>) = Inr spec'"
proof -
  have d: "distinct (map sd_resource ds)"
    using assms mset_eq_imp_distinct_iff [of "map sd_resource ds" "map sd_resource (sp_dependencies spec)"]
    by (simp add: dependencies_check_Inr)
  then have "distinct (map dependency_key ds)"
    by (auto simp: distinct_map inj_on_def dependency_key_def)
  then have "sort_key dependency_key ds = sort_key dependency_key (sp_dependencies spec)"
    by (rule sort_key_canonical [OF assms(2)])
  moreover have "set ds = set (sp_dependencies spec)" "length ds = length (sp_dependencies spec)"
    using assms(2) by (auto dest: mset_eq_setD mset_eq_length)
  ultimately show ?thesis using assms(1) d by (simp add: dependencies_check_Inr list_all_iff)
qed

lemma materials_dependencies: "materials_check lib (spec\<lparr>sp_dependencies := ds\<rparr>) = materials_check lib spec"
  by (simp add: materials_check_def reference_def)

section \<open>Scripts and targets\<close>

fun detection_scripts :: "software_detection \<Rightarrow> software_script list" where
  "detection_scripts (ScriptDetection c) = [c]"
| "detection_scripts _ = []"

fun behavior_scripts :: "software_behavior \<Rightarrow> software_script list" where
  "behavior_scripts (BMsi n) = detection_scripts (ns_detect n)"
| "behavior_scripts (BPkg n) = detection_scripts (ns_detect n)"
| "behavior_scripts (BWinget n) = detection_scripts (ns_detect n)"
| "behavior_scripts (BBrew n) = detection_scripts (ns_detect n)"
| "behavior_scripts (BExe e) = detection_scripts (es_detect e)"
| "behavior_scripts (BBundle b) = bsw_install b # (case bsw_uninstall b of None \<Rightarrow> [] | Some u \<Rightarrow> [u])
     @ detection_scripts (bsw_detect b)"
| "behavior_scripts (BDmg _) = []"
| "behavior_scripts (BMsix _) = []"

lemma script_target_Inr [simp]: "script_target s p = Inr u \<longleftrightarrow> (script_interpreter s = PowerShell7 \<longleftrightarrow> p = PWindows)"
  by (cases p; cases "script_interpreter s") (auto simp: script_target_def)

lemma detector_target_scripts:
  "detector_target d p = Inr u \<Longrightarrow> list_all (\<lambda>s. script_interpreter s = PowerShell7 \<longleftrightarrow> p = PWindows) (detection_scripts d)"
  by (cases d) (auto simp: detector_target_def)

lemma expected_platform_architecture:
  "expected_platform spec a = Inr p \<Longrightarrow> expected_platform spec c = Inr q \<Longrightarrow> p = q"
  by (auto simp: expected_platform_def split: software_format.splits option.splits software_behavior.splits if_splits)

section \<open>A sample\<close>

text \<open>A disk image with a package that is installed by the system; its removal plan is declared to run
  as the interactive user.\<close>

definition sample_software_lib :: software_lib where
  "sample_software_lib = \<lparr>sl_json = \<lambda>_. Some [0], sl_lowercase = \<lambda>s. s\<rparr>"

definition sample_invocation :: "run_as \<Rightarrow> native_invocation" where
  "sample_invocation who = \<lparr>ni_run_as = who, ni_arguments = [], ni_environment = [], ni_timeout_seconds = 60,
     ni_output_bytes = 4096, ni_exit_codes = \<lparr>ec_success = [0], ec_reboot = [3010]\<rparr>\<rparr>"

definition sample_artifact :: "string \<Rightarrow> software_artifact" where
  "sample_artifact ref = \<lparr>sa_reference = ref, sa_origin = None, sa_length = 10, sa_sha256 = 7\<rparr>"

definition sample_software :: "run_as \<Rightarrow> software_spec" where
  "sample_software who = \<lparr>sp_source = \<lparr>ss_id = ''src'', ss_revision = ''r1'', ss_sha256 = 1\<rparr>,
     sp_package = ''pkg'', sp_version = ''1.0'', sp_provenance = Private,
     sp_artifacts = [(''image'', sample_artifact ''a''), (''remove'', sample_artifact ''b'')],
     sp_material = \<lparr>sm_bundle_id = None, sm_format = FDmg, sm_installer = ''image''\<rparr>,
     sp_behavior = Some (BDmg \<lparr>dmg_image = ''image'', dmg_volume = ''vol'', dmg_scope = ScopeSystem,
       dmg_invocation = sample_invocation RunSystem, dmg_upgrade = InPlace,
       dmg_payload = ContainedPkg ''x.pkg'' 5 3 ''com.x''
         (Some \<lparr>nr_installer = ''remove'', nr_invocation = sample_invocation who\<rparr>)\<rparr>),
     sp_signatures = [], sp_reboot = RebootForbid, sp_downgrade = DowngradeDeny,
     sp_dependencies = [\<lparr>sd_resource = ''z'', sd_version = ''1'', sd_sha256 = 1\<rparr>,
       \<lparr>sd_resource = ''d'', sd_version = ''2'', sd_sha256 = 2\<rparr>],
     sp_export = ExportDisabled\<rparr>"

definition sample_definition :: "run_as \<Rightarrow> software_definition" where
  "sample_definition who = SoftwareDefinition
     ((sample_software who)\<lparr>sp_dependencies := rev (sp_dependencies (sample_software who))\<rparr>)
     (coordinates (sample_artifact ''a''))"

lemma sample_ids [simp]: "id_ok ''src''" "id_ok ''r1''" "id_ok ''image''" "id_ok ''remove''" "id_ok ''a''" "id_ok ''b''"
  "id_ok ''z''" "id_ok ''d''" "id_ok ''1''" "id_ok ''2''"
  by code_simp+

lemma sample_relative: "relative ''x.pkg'' = Inr ()"
  by code_simp

lemma sample_texts: "\<not> has_control ''pkg''" "\<not> has_control ''1.0''" "\<not> has_control ''vol''" "\<not> has_control ''com.x''"
  by code_simp+

lemma sample_invocation_ok: "invocation_check (sample_invocation who) = Inr ()"
  by (simp add: invocation_check_def sample_invocation_def)

lemma sample_coordinates: "coordinates_ok (sample_artifact ''a'')" "coordinates_ok (sample_artifact ''b'')"
  "origin_ok (sample_artifact ref)" "sa_reference (sample_artifact ref) = ref"
  by (simp_all add: coordinates_ok_def sample_artifact_def origin_ok_def i64_max_def)

lemma sample_sorted: "sort_key dependency_key [\<lparr>sd_resource = ''z'', sd_version = ''1'', sd_sha256 = 1\<rparr>,
    \<lparr>sd_resource = ''d'', sd_version = ''2'', sd_sha256 = 2\<rparr>]
  = [\<lparr>sd_resource = ''d'', sd_version = ''2'', sd_sha256 = 2\<rparr>, \<lparr>sd_resource = ''z'', sd_version = ''1'', sd_sha256 = 1\<rparr>]"
  by (simp add: dependency_key_def less_eq_prod_def less_char_def)

lemma sample_materials: "materials_check lib (sample_software who) = Inr ()"
proof -
  have "\<exists>t. fold_res material_artifact [(''image'', sample_artifact ''a''), (''remove'', sample_artifact ''b'')] [] = Inr t"
    by (subst material.scan_iff) (simp_all add: sample_coordinates)
  then obtain t where "fold_res material_artifact [(''image'', sample_artifact ''a''), (''remove'', sample_artifact ''b'')] [] = Inr t" ..
  then show ?thesis
    by (simp add: materials_check_def sample_software_def provenance_check_def resolves_def sample_coordinates del: fold_res.simps)
qed

lemma sample_behavior: "behavior_check lib (sdef_spec (sample_definition who)) = Inr ()"
  by (simp add: behavior_check_def sample_definition_def sample_software_def dmg_check_def sample_invocation_ok
      sample_texts sample_relative removal_check_def resolves_def sample_coordinates)
    (simp add: sample_invocation_def suffix_def)

lemma sample_accepted: "software_new sample_software_lib (sample_software who) = Inr (sample_definition who)"
proof -
  have "sort_key dependency_key (sp_dependencies (sample_software who)) = rev (sp_dependencies (sample_software who))"
    by (simp only: sample_software_def software_spec.select_convs sample_sorted) simp
  then have "dependencies_check (sample_software who) = Inr (sdef_spec (sample_definition who))"
    by (simp only: dependencies_check_Inr sample_definition_def software_definition.sel) (simp add: sample_software_def)
  then have "software_validate sample_software_lib (sample_software who) = Inr (sdef_spec (sample_definition who))"
    by (simp add: software_validate_def sample_materials sample_behavior)
      (simp add: sample_software_def sample_definition_def sample_texts signatures_check_def export_check_def
        sample_software_lib_def exI [where x = "[0]"])
  then show ?thesis
    by (simp add: software_new_Inr) (simp add: sample_definition_def sample_software_def sample_coordinates)
qed

section \<open>Properties\<close>

text \<open>C28: the closure of an accepted software definition. Every artifact key that the definition names, as
  its installer, in a removal plan, in a detection script, in the layout of an executable, in a
  signature requirement or in an export, is one of its own artifacts, with an identity and a positive
  length; no two artifacts share a content reference; the scripts of a bundle are members of its
  manifest; and the primary artifact holds the coordinates of the installer.\<close>

theorem software_references_closed:
  assumes "software_new lib spec = Inr d"
  shows "list_all (resolves (sdef_spec d)) (named_keys (sdef_spec d))
    \<and> distinct (map (\<lambda>kv. sa_reference (snd kv)) (sp_artifacts (sdef_spec d)))
    \<and> (\<forall>b. sp_behavior (sdef_spec d) = Some (BBundle b) \<longrightarrow>
        set (bundle_scripts b) \<subseteq> fst ` set (manifest_entries (bsw_manifest b)))
    \<and> (\<exists>a. bm_get (sp_artifacts (sdef_spec d)) (sm_installer (sp_material (sdef_spec d))) = Some a
        \<and> sdef_primary d = coordinates a)"
proof -
  have v: "software_validate lib spec = Inr (sdef_spec d)" using assms by (simp add: software_new_Inr)
  note parts = software_validate_parts [OF v]
  have spec': "sdef_spec d = spec\<lparr>sp_dependencies := sort_key dependency_key (sp_dependencies spec)\<rparr>"
    using parts(2) by (simp add: dependencies_check_Inr)
  have inst: "resolves (sdef_spec d) (sm_installer (sp_material (sdef_spec d)))"
    using materials_check_Inr(1) [OF parts(1)] by (simp add: spec')
  have "set (bundle_scripts b) \<subseteq> fst ` set (manifest_entries (bsw_manifest b))"
    if "sp_behavior (sdef_spec d) = Some (BBundle b)" for b
    using parts(3) that detection_check_members [of "sdef_spec d" "bsw_detect b" "()"]
    by (auto simp: behavior_check_def bundle_check_def script_check_def Let_def map_of_eq_None_iff
        split: if_splits option.splits)
  moreover have "list_all (resolves (sdef_spec d)) (named_keys (sdef_spec d))"
    using inst behavior_check_keys [OF parts(3)] signatures_check_keys [OF parts(4)] export_check_keys [OF parts(5)]
    by (auto simp: named_keys_def split: option.splits)
  moreover have "distinct (map (\<lambda>kv. sa_reference (snd kv)) (sp_artifacts (sdef_spec d)))"
    using materials_check_Inr(3) [OF parts(1)] by (simp add: spec')
  ultimately show ?thesis using assms by (auto simp: software_new_Inr)
qed

theorem software_references_closed_witness:
  "list_all (resolves (sdef_spec (sample_definition RunSystem))) (named_keys (sdef_spec (sample_definition RunSystem)))
    \<and> named_keys (sdef_spec (sample_definition RunSystem)) = [''image'', ''image'', ''remove'']"
  using software_references_closed [OF sample_accepted [of RunSystem]]
  by (simp add: named_keys_def removal_keys_def sample_definition_def sample_software_def)

text \<open>C36: software definitions are canonical values. An accepted definition validates to itself, so
  reading a stored specification back gives the same definition; the order in which dependencies were
  authored does not matter; and its canonical bytes exist, without panic, within one mebibyte.\<close>

theorem software_definition_canonical:
  assumes "software_new lib spec = Inr d" "mset ds = mset (sp_dependencies spec)"
  shows "software_new lib (sdef_spec d) = Inr d
    \<and> software_new lib (spec\<lparr>sp_dependencies := ds\<rparr>) = Inr d
    \<and> (\<exists>bytes. software_canonical lib d = Inr bytes \<and> length bytes \<le> 1048576)"
proof -
  have v: "software_validate lib spec = Inr (sdef_spec d)" using assms(1) by (simp add: software_new_Inr)
  note parts = software_validate_parts [OF v]
  have spec': "sdef_spec d = spec\<lparr>sp_dependencies := sort_key dependency_key (sp_dependencies spec)\<rparr>"
    using parts(2) by (simp add: dependencies_check_Inr)
  have "software_validate lib (spec\<lparr>sp_dependencies := ds\<rparr>) = Inr (sdef_spec d)"
    if ds: "mset ds = mset (sp_dependencies spec)" for ds
    using v dependencies_check_mset [OF parts(2) ds] parts(2)
    by (auto simp: software_validate_def materials_dependencies)
  from this [OF assms(2)] this [of "sp_dependencies (sdef_spec d)"]
  have "software_validate lib (spec\<lparr>sp_dependencies := ds\<rparr>) = Inr (sdef_spec d)"
    "software_validate lib (sdef_spec d) = Inr (sdef_spec d)" by (simp_all add: spec')
  then show ?thesis using assms(1) parts(6) by (auto simp: software_new_Inr software_canonical_def)
qed

theorem software_definition_canonical_witness:
  "software_new sample_software_lib (sdef_spec (sample_definition RunSystem)) = Inr (sample_definition RunSystem)"
  using software_definition_canonical [OF sample_accepted [of RunSystem], of "sp_dependencies (sample_software RunSystem)"]
  by simp

text \<open>C29: process confinement of accepted software. Every process that an accepted behavior may start to
  change the device has bounded time and output, arguments without zero bytes, only product-prefixed
  environment variables and success codes disjoint from its reboot codes; and installation, upgrade and
  removal run under the identity of the declared scope or deployment. The removal plan of a package
  inside a disk image is bounded but not tied to an identity.\<close>

theorem software_processes_confined:
  assumes "software_new lib spec = Inr d" "sp_behavior (sdef_spec d) = Some b"
  shows "list_all invocation_bounded (behavior_processes b)
    \<and> list_all (\<lambda>i. ni_run_as i = behavior_identity b) (scoped_processes b)"
proof -
  have "behavior_check lib (sdef_spec d) = Inr ()"
    using assms(1) by (auto simp: software_new_Inr dest: software_validate_parts)
  then show ?thesis
    using assms(2) native_check_processes [of "sdef_spec d"] exe_check_processes [of "sdef_spec d"]
      bundle_check_processes [of "sdef_spec d"] dmg_check_processes [of "sdef_spec d"] msix_check_processes [of lib "sdef_spec d"]
    by (cases b) (auto simp: behavior_check_def split: if_splits)
qed

theorem software_processes_confined_witness:
  "list_all invocation_bounded [sample_invocation RunSystem, sample_invocation RunLoggedInUser]"
  using software_processes_confined [OF sample_accepted [of RunLoggedInUser]]
  by (simp add: sample_definition_def sample_software_def removal_processes_def)

text \<open>The removal plan of a package inside a system-wide disk image may run as the interactive user:
  the task protocol, which compares the two identities, refuses such a behavior.\<close>

theorem software_image_removal_identity_free:
  "software_new sample_software_lib (sample_software RunLoggedInUser) = Inr (sample_definition RunLoggedInUser)
    \<and> (\<exists>b. sp_behavior (sdef_spec (sample_definition RunLoggedInUser)) = Some b \<and> behavior_identity b = RunSystem
        \<and> \<not> list_all (\<lambda>i. ni_run_as i = behavior_identity b) (behavior_processes b))"
  by (simp add: sample_accepted)
    (simp add: sample_definition_def sample_software_def removal_processes_def sample_invocation_def)

text \<open>targets of accepted software. A definition fits at most one platform, whatever the architecture,
  and on the platform it fits, every script it runs, to install, to remove or to detect, has an
  interpreter of that platform.\<close>

theorem software_target_exact:
  assumes "software_validate_target d p a = Inr ()" "software_validate_target d q c = Inr ()"
  shows "p = q \<and> (\<forall>b. sp_behavior (sdef_spec d) = Some b \<longrightarrow>
    list_all (\<lambda>s. script_interpreter s = PowerShell7 \<longleftrightarrow> p = PWindows) (behavior_scripts b))"
proof -
  have "p = q" using assms expected_platform_architecture [of "sdef_spec d" a _ c]
    by (auto simp: software_validate_target_def software_target_def split: if_splits)
  moreover have "list_all (\<lambda>s. script_interpreter s = PowerShell7 \<longleftrightarrow> p = PWindows) (behavior_scripts b)"
    if "sp_behavior (sdef_spec d) = Some b" for b
    using assms(1) that detector_target_scripts [of _ p "()"]
    by (cases b) (auto simp: software_validate_target_def software_target_def behavior_detector_def
        split: if_splits option.splits)
  ultimately show ?thesis by blast
qed

theorem software_target_exact_witness:
  "software_validate_target (sample_definition RunSystem) PMacOS AAarch64 = Inr () \<and> PMacOS = PMacOS"
  using software_target_exact [of "sample_definition RunSystem" PMacOS AAarch64 PMacOS AX86_64]
  by (simp add: software_validate_target_def software_target_def expected_platform_def sample_definition_def
      sample_software_def behavior_detector_def)

end
