(* ===== verification/Wire_Collection.thy ===== *)
theory Wire_Collection
  imports Inventory_Catalog
begin

text \<open>
  The collection values of the agent protocol, \<^verbatim>\<open>crates/agent-wire/src/collection.rs\<close>, with the history binding of
  \<^verbatim>\<open>telemetry.rs\<close> and the report of \<^verbatim>\<open>runtime.rs\<close>. The protocol declares its own copies of the types of the
  inventory, with the same variants and fields; the model uses the datatypes of \<open>Inventory_Value\<close> and
  \<open>Inventory_Catalog\<close> for both, and one definition per function of the protocol. Deserialization and the derived
  JSON schemas are not modelled; a deserialized value goes through the constructors below.
\<close>

datatype wire_error = WireInvalid

type_synonym 'a wire_result = "(wire_error, 'a) result"

abbreviation (input) wire_invalid :: "'a wire_result" where
  "wire_invalid \<equiv> Inl (Fail WireInvalid)"

definition wire_bounded_id :: "string \<Rightarrow> unit wire_result" where
  "wire_bounded_id v = (if v = [] \<or> length v > 128 \<or> has_control v then wire_invalid else Inr ())"

section \<open>Field keys\<close>

definition wire_key_part :: "string \<Rightarrow> bool" where
  "wire_key_part part \<longleftrightarrow> part \<noteq> [] \<and> starts_lower part \<and> lower_name part"

definition wire_key_parse :: "string \<Rightarrow> string wire_result" where
  "wire_key_parse v = (case str_split CHR ''.'' v of
      first # parts \<Rightarrow>
        if length v > 128 \<or> first \<notin> {''device'', ''custom'', ''channel''} then wire_invalid
        else if \<not> list_all wire_key_part parts then wire_invalid
        else if parts = [] then wire_invalid
        else Inr v
    | [] \<Rightarrow> wire_invalid)"

section \<open>Types\<close>

text \<open>\<open>check\<close> with its node counter passed through.\<close>

function wire_vt_check :: "value_type \<Rightarrow> nat \<Rightarrow> nat \<Rightarrow> nat wire_result" where
  "wire_vt_check ty depth nodes =
    (let n = nodes + 1 in
     if depth > 6 \<or> n > 128 then wire_invalid
     else case ty of
       VtString max_length _ \<Rightarrow> if \<not> (1 \<le> max_length \<and> max_length \<le> 65536) then wire_invalid else Inr n
     | VtEnum vs \<Rightarrow>
         if vs = [] \<or> length vs > 128 \<or> list_ex (\<lambda>v. v = [] \<or> length v > 256 \<or> has_control v) vs
         then wire_invalid else Inr n
     | VtArray items max_items \<Rightarrow>
         if \<not> (1 \<le> max_items \<and> max_items \<le> 100000) then wire_invalid else wire_vt_check items (depth + 1) n
     | VtRecord ps \<Rightarrow>
         if ps = [] \<or> length ps > 64 then wire_invalid
         else fold_res (\<lambda>(k, t, _) m. if \<not> property_name k then wire_invalid else wire_vt_check t (depth + 1) m) ps n
     | VtObject ps \<Rightarrow>
         if ps = [] \<or> length ps > 64 then wire_invalid
         else fold_res (\<lambda>(k, t) m. if \<not> property_name k then wire_invalid else wire_vt_check t (depth + 1) m) ps n
     | _ \<Rightarrow> Inr n)"
  by pat_completeness auto
termination
  by (relation "measure (\<lambda>(ty, _, _). size ty)") (auto intro: size_record size_object)

declare wire_vt_check.simps [simp del]

definition wire_vt_validate :: "value_type \<Rightarrow> unit wire_result" where
  "wire_vt_validate ty = bind_res (wire_vt_check ty 0 0) (\<lambda>_. Inr ())"

section \<open>Values\<close>

text \<open>The nodes and bytes counted so far; \<^verbatim>\<open>*bytes += key.len()\<close> is unchecked and would panic on overflow.\<close>

type_synonym wire_budget = "nat \<times> nat"

fun wire_visit :: "asset_scalar \<Rightarrow> nat \<Rightarrow> wire_budget \<Rightarrow> wire_budget wire_result"
  and wire_visit_items :: "asset_scalar list \<Rightarrow> nat \<Rightarrow> wire_budget \<Rightarrow> wire_budget wire_result"
  and wire_visit_entries :: "(string \<times> asset_scalar) list \<Rightarrow> nat \<Rightarrow> wire_budget \<Rightarrow> wire_budget wire_result" where
  "wire_visit v depth b = (case b of (nodes, bytes) \<Rightarrow>
    let n = nodes + 1 in
    if depth > 6 \<or> n > 200000 then wire_invalid
    else case v of
        AString s \<Rightarrow> bind_res (ok_or WireInvalid (checked_add_u64 bytes (length s))) (\<lambda>m.
          if char_count s > 65536 \<or> CHR 0x00 \<in> set s \<or> m > 16 * 1024 * 1024 then wire_invalid else Inr (n, m))
      | ANumber x \<Rightarrow> if x = NegInfinity \<or> x = PosInfinity then wire_invalid else Inr (n, bytes)
      | ATime t \<Rightarrow> if t < 0 then wire_invalid else Inr (n, bytes)
      | AArray vs \<Rightarrow> if length vs > 100000 then wire_invalid else wire_visit_items vs (depth + 1) (n, bytes)
      | AObject kvs \<Rightarrow>
          if length kvs > 64 \<or> \<not> list_all (\<lambda>(k, _). property_name k) kvs then wire_invalid
          else wire_visit_entries kvs (depth + 1) (n, bytes)
      | _ \<Rightarrow> Inr (n, bytes))"
| "wire_visit_items [] depth b = Inr b"
| "wire_visit_items (v # vs) depth b = bind_res (wire_visit v depth b) (wire_visit_items vs depth)"
| "wire_visit_entries [] depth b = Inr b"
| "wire_visit_entries ((k, v) # kvs) depth b =
    bind_res (or_panic (checked_add_u64 (snd b) (length k))) (\<lambda>m.
    bind_res (wire_visit v depth (fst b, m)) (wire_visit_entries kvs depth))"

definition wire_scalar_validate :: "asset_scalar \<Rightarrow> unit wire_result" where
  "wire_scalar_validate v = bind_res (wire_visit v 0 (0, 0)) (\<lambda>_. Inr ())"

function wire_validate_value :: "value_type \<Rightarrow> asset_scalar \<Rightarrow> unit wire_result" where
  "wire_validate_value ty v =
    bind_res (wire_scalar_validate v) (\<lambda>_.
    case (ty, v) of
      (VtString max_length allow_empty, AString s) \<Rightarrow>
        if (allow_empty \<or> s \<noteq> []) \<and> char_count s \<le> max_length then Inr () else wire_invalid
    | (VtRecord ps, AObject vs) \<Rightarrow>
        if list_ex (\<lambda>k. map_of ps k = None) (map fst vs) then wire_invalid
        else fold_res (\<lambda>(k, t, required) _. case bm_get vs k of
            Some x \<Rightarrow> wire_validate_value t x
          | None \<Rightarrow> if \<not> required then Inr () else wire_invalid) ps ()
    | (VtEnum es, AString s) \<Rightarrow> if s \<in> set es then Inr () else wire_invalid
    | (VtInteger, AInteger _) \<Rightarrow> Inr ()
    | (VtNumber, ANumber _) \<Rightarrow> Inr ()
    | (VtBoolean, ABoolean _) \<Rightarrow> Inr ()
    | (VtTime, ATime _) \<Rightarrow> Inr ()
    | (VtArray items max_items, AArray vs) \<Rightarrow>
        if length vs \<le> max_items then fold_res (\<lambda>x _. wire_validate_value items x) vs () else wire_invalid
    | (VtObject ps, AObject vs) \<Rightarrow>
        if length ps = length vs
        then fold_res (\<lambda>(k, t) _. bind_res (ok_or WireInvalid (bm_get vs k)) (wire_validate_value t)) ps ()
        else wire_invalid
    | _ \<Rightarrow> wire_invalid)"
  by pat_completeness auto
termination
  by (relation "measure (\<lambda>(ty, _). size ty)") (auto intro: size_record size_object)

declare wire_validate_value.simps [simp del]

section \<open>Field definitions\<close>

definition wire_check_dimension :: "string \<times> telemetry_dimension \<Rightarrow> nat \<times> nat \<Rightarrow> (nat \<times> nat) wire_result" where
  "wire_check_dimension kd cv = (case kd of (key, d) \<Rightarrow> case cv of (combinations, vocabulary_bytes) \<Rightarrow>
     if \<not> property_name key \<or> td_path d = [] \<or> \<not> series_path (td_path d) \<or> td_values d = [] \<or> length (td_values d) > 256
     then wire_invalid
     else bind_res (ok_or WireInvalid (checked_mul_u64 combinations (length (td_values d)))) (\<lambda>combinations.
       if list_ex (\<lambda>v. v = [] \<or> length v > 256 \<or> has_control v) (td_values d) then wire_invalid
       else Inr (combinations, vocabulary_bytes + sum_list (map length (td_values d)))))"

definition wire_binding_validate :: "time_series_binding \<Rightarrow> unit wire_result" where
  "wire_binding_validate b =
    (if \<not> series_path (ts_value_path b)
       \<or> (case ts_interval_start_path b of Some v \<Rightarrow> v = [] \<or> \<not> series_path v \<or> \<not> counter_kind (ts_kind b) | None \<Rightarrow> False)
       \<or> length (ts_dimensions b) > 64 \<or> ts_aggregations b = [] \<or> \<not> property_name (rr_key (ts_retention b))
       \<or> rr_revision (ts_retention b) = 0 \<or> rr_revision (ts_retention b) > i64_max_nat
       \<or> \<not> (1 \<le> ts_max_resources b \<and> ts_max_resources b \<le> 4096)
     then wire_invalid
     else bind_res (fold_res wire_check_dimension (ts_dimensions b) (ts_max_resources b, 0)) (\<lambda>(combinations, vocabulary_bytes).
       if combinations > 4096 \<or> vocabulary_bytes > 32768 then wire_invalid
       else if list_ex (\<lambda>a. \<not> aggregation_allowed (ts_kind b) a) (ts_aggregations b) then wire_invalid
       else Inr ()))"

definition wire_identity_type :: "value_type \<Rightarrow> string \<Rightarrow> value_type option" where
  "wire_identity_type items key = (case items of
      VtObject ps \<Rightarrow> map_of ps key
    | VtRecord ps \<Rightarrow> (case map_of ps key of Some (t, required) \<Rightarrow> if required then Some t else None | None \<Rightarrow> None)
    | _ \<Rightarrow> None)"

definition wire_definition_validate :: "field_definition \<Rightarrow> unit wire_result" where
  "wire_definition_validate f =
    bind_res (wire_vt_validate (fd_value_type f)) (\<lambda>_.
    bind_res (case fd_time_series f of Some b \<Rightarrow> wire_binding_validate b | None \<Rightarrow> Inr ()) (\<lambda>_.
    if fd_version f = 0 \<or> fd_version f > i64_max_nat \<or> fd_sources f = [] \<or> fd_platforms f = []
       \<or> fd_manual f \<noteq> (bm_get (fd_sources f) Manual \<noteq> None)
       \<or> (case fd_unit f of Some u \<Rightarrow> u = [] \<or> length u > 64 \<or> has_control u | None \<Rightarrow> False) then wire_invalid
    else (case fd_item_key f of
        None \<Rightarrow> Inr ()
      | Some key \<Rightarrow>
          (case fd_value_type f of
             VtArray items _ \<Rightarrow>
               (case wire_identity_type items key of
                  Some (VtString _ allow_empty) \<Rightarrow> if allow_empty then wire_invalid else Inr ()
                | Some VtInteger \<Rightarrow> Inr ()
                | _ \<Rightarrow> wire_invalid)
           | _ \<Rightarrow> wire_invalid))))"

definition wire_note_identity :: "string \<Rightarrow> asset_scalar \<Rightarrow> asset_scalar list \<Rightarrow> asset_scalar list wire_result" where
  "wire_note_identity key item seen = (case item of
      AObject properties \<Rightarrow> bind_res (ok_or WireInvalid (bm_get properties key)) (\<lambda>i.
        if i \<in> set seen then wire_invalid else Inr (i # seen))
    | _ \<Rightarrow> wire_invalid)"

definition wire_validate_scalar :: "field_definition \<Rightarrow> asset_scalar \<Rightarrow> unit wire_result" where
  "wire_validate_scalar f v =
    bind_res (wire_validate_value (fd_value_type f) v) (\<lambda>_.
      case (fd_item_key f, v) of
        (Some key, AArray items) \<Rightarrow> bind_res (fold_res (wire_note_identity key) items []) (\<lambda>_. Inr ())
      | _ \<Rightarrow> Inr ())"

section \<open>Collected values\<close>

datatype wire_value = WvValue asset_scalar | WvNull | WvDeleted | WvUnsupported

text \<open>The declared part of a value; members that are not declared are dropped.\<close>

function declared :: "asset_scalar \<Rightarrow> value_type \<Rightarrow> asset_scalar wire_result" where
  "declared v ty = (case (v, ty) of
      (AObject vs, VtRecord ps) \<Rightarrow>
        bind_res (map_res (\<lambda>(k, t, required). case bm_get vs k of
            Some x \<Rightarrow> bind_res (declared x t) (\<lambda>y. Inr (Some (k, y)))
          | None \<Rightarrow> if required then wire_invalid else Inr None) ps) (\<lambda>os. Inr (AObject (List.map_filter (\<lambda>o'. o') os)))
    | (AObject vs, VtObject ps) \<Rightarrow>
        bind_res (map_res (\<lambda>(k, t). bind_res (ok_or WireInvalid (bm_get vs k)) (\<lambda>x.
            bind_res (declared x t) (\<lambda>y. Inr (k, y)))) ps) (\<lambda>kvs. Inr (AObject kvs))
    | (AArray vs, VtArray items _) \<Rightarrow> bind_res (map_res (\<lambda>x. declared x items) vs) (\<lambda>ys. Inr (AArray ys))
    | _ \<Rightarrow> Inr v)"
  by pat_completeness auto
termination
  by (relation "measure (\<lambda>(_, ty). size ty)") (auto intro: size_record size_object)

declare declared.simps [simp del]

definition wire_value_validate :: "field_definition \<Rightarrow> wire_value \<Rightarrow> unit wire_result" where
  "wire_value_validate f v = (case v of
      WvValue x \<Rightarrow> wire_validate_scalar f x
    | WvNull \<Rightarrow> if \<not> fd_nullable f then wire_invalid else Inr ()
    | _ \<Rightarrow> Inr ())"

definition wire_project :: "field_definition \<Rightarrow> wire_value \<Rightarrow> wire_value wire_result" where
  "wire_project f v =
    bind_res (case v of
        WvValue x \<Rightarrow> bind_res (wire_scalar_validate x) (\<lambda>_.
          bind_res (declared x (fd_value_type f)) (\<lambda>y. Inr (WvValue y)))
      | _ \<Rightarrow> Inr v) (\<lambda>projected.
    bind_res (wire_value_validate f projected) (\<lambda>_. Inr projected))"

section \<open>Frozen collections\<close>

record wire_collection =
  wc_dataset :: string
  wc_version :: string
  wc_source :: source
  wc_fields :: "field_definition list"

definition wire_note_field :: "field_definition \<Rightarrow> string btree_set \<Rightarrow> string btree_set wire_result" where
  "wire_note_field f keys =
    bind_res (wire_definition_validate f) (\<lambda>_.
      if fd_key f \<in> set keys then wire_invalid else Inr (bs_insert (fd_key f) keys))"

text \<open>The prefixes of a key before each dot.\<close>

definition dot_prefixes :: "string \<Rightarrow> string list" where
  "dot_prefixes key = map (\<lambda>i. take i key) (filter (\<lambda>i. key ! i = CHR ''.'') [0..<length key])"

definition wire_parent_clash :: "string btree_set \<Rightarrow> bool" where
  "wire_parent_clash keys \<longleftrightarrow>
    list_ex (\<lambda>key. list_ex (\<lambda>p. is_ok (wire_key_parse p) \<and> p \<in> set keys) (dot_prefixes key)) keys"

definition wire_collection_new :: "string \<Rightarrow> string \<Rightarrow> source \<Rightarrow> field_definition list \<Rightarrow> wire_collection wire_result" where
  "wire_collection_new dataset version src fs =
    bind_res (wire_bounded_id dataset) (\<lambda>_.
    bind_res (wire_bounded_id version) (\<lambda>_.
    if length dataset > 128 \<or> length version > 128 \<or> src = Manual \<or> fs = [] \<or> length fs > 128 then wire_invalid
    else bind_res (fold_res wire_note_field fs []) (\<lambda>keys.
      if wire_parent_clash keys then wire_invalid
      else if list_ex (\<lambda>f. bm_get (fd_sources f) src = None) fs then wire_invalid
      else Inr \<lparr>wc_dataset = dataset, wc_version = version, wc_source = src, wc_fields = sort_key fd_key fs\<rparr>)))"

definition wire_field :: "wire_collection \<Rightarrow> string \<Rightarrow> field_definition wire_result" where
  "wire_field c key = ok_or WireInvalid (find (\<lambda>f. fd_key f = key) (wc_fields c))"

section \<open>Reports\<close>

record wire_field_value =
  fv_field :: string
  fv_value :: wire_value

datatype failure_code = PermissionDenied | TemporarilyUnavailable | CollectionFailed

datatype wire_report_body = RbSnapshot "wire_field_value list" | RbPartial "wire_field_value list" | RbFailed failure_code

record wire_report =
  wr_report_id :: uuid
  wr_sequence :: nat
  wr_observed_at :: int
  wr_collection :: wire_collection
  wr_body :: wire_report_body

definition wire_field_rejected :: "wire_collection \<Rightarrow> wire_field_value \<Rightarrow> bool" where
  "wire_field_rejected c fv = (case wire_field c (fv_field fv) of
      Inr f \<Rightarrow> \<not> is_ok (wire_project f (fv_value fv))
    | Inl _ \<Rightarrow> (case fv_value fv of WvValue x \<Rightarrow> \<not> is_ok (wire_scalar_validate x) | _ \<Rightarrow> False))"

definition wire_report_values :: "wire_collection \<Rightarrow> wire_field_value list \<Rightarrow> wire_field_value list wire_result" where
  "wire_report_values c vs =
    (if length vs > 128 \<or> list_ex (wire_field_rejected c) vs then wire_invalid
     else let vs' = sort_key fv_field vs in
       if adjacent_equal fv_field vs' then wire_invalid else Inr vs')"

definition wire_report_new :: "uuid \<Rightarrow> nat \<Rightarrow> int \<Rightarrow> wire_collection \<Rightarrow> wire_report_body \<Rightarrow> wire_report wire_result" where
  "wire_report_new report_id sequence observed_at c body =
    (if uuid_is_nil report_id \<or> sequence > i64_max_nat \<or> observed_at < 0 then wire_invalid
     else bind_res (case body of
         RbSnapshot vs \<Rightarrow> bind_res (wire_report_values c vs) (\<lambda>vs. Inr (RbSnapshot vs))
       | RbPartial vs \<Rightarrow> bind_res (wire_report_values c vs) (\<lambda>vs. Inr (RbPartial vs))
       | RbFailed code \<Rightarrow> Inr (RbFailed code)) (\<lambda>body.
       Inr \<lparr>wr_report_id = report_id, wr_sequence = sequence, wr_observed_at = observed_at, wr_collection = c, wr_body = body\<rparr>))"

definition wire_values :: "wire_report \<Rightarrow> wire_field_value list" where
  "wire_values r = (case wr_body r of RbSnapshot vs \<Rightarrow> vs | RbPartial vs \<Rightarrow> vs | RbFailed _ \<Rightarrow> [])"

end
