(* ===== verification/Wire_Collection_Properties.thy ===== *)
theory Wire_Collection_Properties
  imports Wire_Collection Inventory_Catalog_Properties
begin

text \<open>
  The protocol and the inventory agree: they accept the same types and history bindings, the inventory accepts every
  value the protocol accepts, projection onto the declared members is a closure operator, and reports have one
  canonical form. The budget of a value is kept and its counters cannot overflow.
\<close>

section \<open>Results without their errors\<close>

text \<open>The two crates have different error types; only acceptance and the accepted value are compared.\<close>

definition accepted :: "('e, 'a) result \<Rightarrow> 'a option" where
  "accepted r = (case r of Inr a \<Rightarrow> Some a | Inl _ \<Rightarrow> None)"

lemma accepted_simps [simp]: "accepted (Inr a) = Some a" "accepted (Inl e) = None"
  by (simp_all add: accepted_def)

lemma wire_accepted_Some: "accepted r = Some a \<longleftrightarrow> r = Inr a"
  by (cases r) simp_all

lemma accepted_bind: "accepted (bind_res r f) = Option.bind (accepted r) (\<lambda>a. accepted (f a))"
  by (cases r) simp_all

lemma accepted_ok_or [simp]: "accepted (ok_or e x) = x"
  by (cases x) simp_all

lemma accepted_if: "accepted (if b then r else s) = (if b then accepted r else accepted s)"
  by simp

lemma accepted_fold:
  "(\<And>x s. x \<in> set xs \<Longrightarrow> accepted (f x s) = accepted (g x s)) \<Longrightarrow> accepted (fold_res f xs s) = accepted (fold_res g xs s)"
proof (induction xs arbitrary: s)
  case Nil
  then show ?case by simp
next
  case (Cons x xs)
  then have "(\<lambda>t. accepted (fold_res f xs t)) = (\<lambda>t. accepted (fold_res g xs t))" by (intro ext) simp
  with Cons.prems show ?case by (simp add: accepted_bind)
qed

section \<open>Types\<close>

lemma wire_vt_check_agrees: "accepted (wire_vt_check ty d n) = accepted (vt_check ty d n)"
proof (induction ty arbitrary: d n rule: measure_induct_rule [where f = size])
  case (less ty)
  have r: "accepted (fold_res (\<lambda>(k, t, _) m. if \<not> property_name k then wire_invalid else wire_vt_check t d m) ps n)
      = accepted (fold_res (\<lambda>(k, t, _) m. if \<not> property_name k then Inl (Fail InvalidValue) else vt_check t d m) ps n)"
    if "\<And>k t q. (k, t, q) \<in> set ps \<Longrightarrow> size t < size ty" for ps :: "(string \<times> value_type \<times> bool) list" and d n
    using that less by (intro accepted_fold) auto
  have o: "fold_res (\<lambda>(k, t, _) m. if \<not> property_name k then Inl (Fail InvalidValue) else vt_check t d m) (map (\<lambda>(k, t). (k, t, True)) ps) n
      = fold_res (\<lambda>(k, t) m. if \<not> property_name k then Inl (Fail InvalidValue) else vt_check t d m) ps n" for ps d n
    by (induction ps arbitrary: n) (auto intro!: arg_cong [where f = "bind_res _"])
  have ro: "accepted (fold_res (\<lambda>(k, t) m. if \<not> property_name k then wire_invalid else wire_vt_check t d m) ps n)
      = accepted (fold_res (\<lambda>(k, t) m. if \<not> property_name k then Inl (Fail InvalidValue) else vt_check t d m) ps n)"
    if "\<And>k t. (k, t) \<in> set ps \<Longrightarrow> size t < size ty" for ps d n
    using that less by (intro accepted_fold) auto
  show ?case
  proof (cases ty)
    case (VtRecord ps)
    then have "size t < size ty" if "(k, t, q) \<in> set ps" for k t q using size_record [OF that] by simp
    with VtRecord show ?thesis using r [of ps]
      by (subst wire_vt_check.simps, subst vt_check.simps) (simp add: Let_def)
  next
    case (VtObject ps)
    then have "size t < size ty" if "(k, t) \<in> set ps" for k t using size_object [OF that] by simp
    with VtObject show ?thesis using ro [of ps]
      by (subst wire_vt_check.simps, subst vt_check.simps) (simp add: Let_def o)
  next
    case (VtArray items m)
    then show ?thesis using less [of items]
      by (subst wire_vt_check.simps, subst vt_check.simps) (simp add: Let_def)
  qed (subst wire_vt_check.simps, subst vt_check.simps, simp add: Let_def)+
qed

lemma wire_binding_agrees: "accepted (wire_binding_validate b) = accepted (binding_validate b)"
proof -
  have "accepted (wire_check_dimension kd cv) = accepted (check_dimension kd cv)" for kd cv
    by (simp add: wire_check_dimension_def check_dimension_def accepted_bind if_distrib [of accepted] split: prod.split cong: if_cong)
  then have "accepted (fold_res wire_check_dimension ds s) = accepted (fold_res check_dimension ds s)" for ds s
    by (intro accepted_fold) auto
  then show ?thesis
    by (simp add: wire_binding_validate_def binding_validate_def accepted_bind case_prod_beta if_distrib [of accepted] cong: if_cong)
qed

section \<open>Budgets\<close>

lemmas wire_visit_induct = wire_visit_wire_visit_items_wire_visit_entries.induct

declare wire_visit.simps [simp del] scalar_visit.simps [simp del]

lemma wire_visit_cases:
  "wire_visit (AString s) d (n, m) = Inr b \<longleftrightarrow> d \<le> 6 \<and> n < 200000 \<and> m + length s \<le> 16777216 \<and> char_count s \<le> 65536
     \<and> CHR 0x00 \<notin> set s \<and> b = (n + 1, m + length s)"
  "wire_visit (AInteger i) d (n, m) = Inr b \<longleftrightarrow> d \<le> 6 \<and> n < 200000 \<and> b = (n + 1, m)"
  "wire_visit (ABoolean x) d (n, m) = Inr b \<longleftrightarrow> d \<le> 6 \<and> n < 200000 \<and> b = (n + 1, m)"
  "wire_visit (ANumber q) d (n, m) = Inr b \<longleftrightarrow> d \<le> 6 \<and> n < 200000 \<and> q \<noteq> NegInfinity \<and> q \<noteq> PosInfinity \<and> b = (n + 1, m)"
  "wire_visit (ATime t) d (n, m) = Inr b \<longleftrightarrow> d \<le> 6 \<and> n < 200000 \<and> 0 \<le> t \<and> b = (n + 1, m)"
  "wire_visit (AArray vs) d (n, m) = Inr b \<longleftrightarrow> d \<le> 6 \<and> n < 200000 \<and> length vs \<le> 100000 \<and> wire_visit_items vs (d + 1) (n + 1, m) = Inr b"
  "wire_visit (AObject kvs) d (n, m) = Inr b \<longleftrightarrow> d \<le> 6 \<and> n < 200000 \<and> length kvs \<le> 64 \<and> list_all (\<lambda>(k, _). property_name k) kvs
     \<and> wire_visit_entries kvs (d + 1) (n + 1, m) = Inr b"
  by (auto simp: wire_visit.simps checked_add_u64_def u64_max_def split: if_splits)

text \<open>A value keeps to its budget; each node accounts for one member name of at most 64 bytes.\<close>

definition budget_kept :: "wire_budget \<Rightarrow> bool" where
  "budget_kept b \<longleftrightarrow> fst b \<le> 200000 \<and> snd b \<le> 16777216 + 64 * fst b"

lemma wire_visit_budget:
  "wire_visit v d b = Inr c \<Longrightarrow> snd b \<le> 16777216 + 64 * (fst b + 1) \<Longrightarrow> budget_kept c \<and> fst b < fst c"
  "wire_visit_items vs d b = Inr c \<Longrightarrow> budget_kept b \<Longrightarrow> budget_kept c \<and> fst b \<le> fst c"
  "wire_visit_entries kvs d b = Inr c \<Longrightarrow> budget_kept b \<Longrightarrow> list_all (\<lambda>(k, _). property_name k) kvs \<Longrightarrow> budget_kept c \<and> fst b \<le> fst c"
proof (induction v d b and vs d b and kvs d b arbitrary: c and c and c rule: wire_visit_induct)
  case (1 v d b)
  obtain n m where b: "b = (n, m)" by (cases b)
  show ?case
  proof (cases v)
    case (AArray vs)
    then have w: "wire_visit_items vs (d + 1) (n + 1, m) = Inr c" "\<not> (d > 6 \<or> n + 1 > 200000)" "\<not> length vs > 100000"
      using 1(3) b by (auto simp: wire_visit_cases)
    have "budget_kept (n + 1, m)" using 1(4) w(2) b by (auto simp: budget_kept_def)
    from 1(1) [OF b [symmetric] refl w(2) AArray w(3) w(1) this] b show ?thesis by auto
  next
    case (AObject kvs)
    then have w: "wire_visit_entries kvs (d + 1) (n + 1, m) = Inr c" "\<not> (d > 6 \<or> n + 1 > 200000)"
      "\<not> (length kvs > 64 \<or> \<not> list_all (\<lambda>(k, _). property_name k) kvs)"
      using 1(3) b by (auto simp: wire_visit_cases)
    have "budget_kept (n + 1, m)" using 1(4) w(2) b by (auto simp: budget_kept_def)
    from 1(2) [OF b [symmetric] refl w(2) AObject w(3) w(1) this] w(3) b show ?thesis by auto
  qed (use 1(3,4) b in \<open>auto simp: wire_visit_cases budget_kept_def\<close>)
next
  case (3 v vs d b)
  then obtain b' where b': "wire_visit v d b = Inr b'" "wire_visit_items vs d b' = Inr c" by auto
  have "snd b \<le> 16777216 + 64 * (fst b + 1)" using 3(4) by (auto simp: budget_kept_def)
  with 3(1) [OF b'(1)] have "budget_kept b'" "fst b < fst b'" by auto
  with 3(2) [OF b'(1,2)] show ?case by auto
next
  case (5 k v kvs d b)
  from 5(3) obtain m b' where b': "or_panic (checked_add_u64 (snd b) (length k)) = (Inr m :: nat wire_result)"
    "wire_visit v d (fst b, m) = Inr b'" "wire_visit_entries kvs d b' = Inr c" by auto
  have m: "m = snd b + length k" using b'(1) by (auto simp: checked_add_u64_def split: if_splits)
  have "m \<le> 16777216 + 64 * (fst b + 1)" using 5(4,5) m by (auto simp: budget_kept_def property_name_def)
  with 5(1) [OF b'(1,2)] have "budget_kept b'" "fst b < fst b'" by auto
  with 5(2) [OF b'(1,2,3)] 5(5) show ?case by auto
qed auto

lemma wire_visit_no_panic:
  "snd b \<le> 16777216 + 64 * (fst b + 1) \<Longrightarrow> no_panic (wire_visit v d b)"
  "budget_kept b \<Longrightarrow> no_panic (wire_visit_items vs d b)"
  "budget_kept b \<Longrightarrow> list_all (\<lambda>(k, _). property_name k) kvs \<Longrightarrow> no_panic (wire_visit_entries kvs d b)"
proof (induction v d b and vs d b and kvs d b rule: wire_visit_induct)
  case (1 v d b)
  obtain n m where b: "b = (n, m)" by (cases b)
  show ?case
  proof (cases "d > 6 \<or> n + 1 > 200000")
    case True
    then show ?thesis by (simp add: b wire_visit.simps)
  next
    case False
    then have k: "budget_kept (n + 1, m)" using 1(3) b by (auto simp: budget_kept_def)
    show ?thesis
    proof (cases v)
      case (AArray vs)
      then show ?thesis using 1(1) [OF b [symmetric] refl False AArray] k False b
        by (cases "length vs > 100000") (auto simp: wire_visit.simps)
    next
      case (AObject kvs)
      show ?thesis
      proof (cases "length kvs > 64 \<or> \<not> list_all (\<lambda>(k, _). property_name k) kvs")
        case True
        then show ?thesis using False AObject by (auto simp: b wire_visit.simps)
      next
        case ok: False
        with 1(2) [OF b [symmetric] refl False AObject ok k] False AObject show ?thesis by (auto simp: b wire_visit.simps)
      qed
    qed (use False in \<open>auto simp: b wire_visit.simps no_panic_def bind_res_Inl_conv\<close>)
  qed
next
  case (3 v vs d b)
  have s: "snd b \<le> 16777216 + 64 * (fst b + 1)" using 3(3) by (auto simp: budget_kept_def)
  show ?case unfolding wire_visit_items.simps
  proof (rule no_panic_bind)
    show "no_panic (wire_visit v d b)" using 3(1) s .
    show "no_panic (wire_visit_items vs d b')" if "wire_visit v d b = Inr b'" for b'
      using 3(2) [OF that] wire_visit_budget(1) [OF that s] by simp
  qed
next
  case (5 k v kvs d b)
  have s: "snd b + length k \<le> 16777216 + 64 * (fst b + 1)" using 5(3,4) by (auto simp: budget_kept_def property_name_def)
  have "snd b + length k \<le> u64_max" using 5(3,4) by (auto simp: budget_kept_def property_name_def u64_max_def)
  then have m: "or_panic (checked_add_u64 (snd b) (length k)) = (Inr (snd b + length k) :: nat wire_result)"
    by (simp add: checked_add_u64_def)
  show ?case unfolding wire_visit_entries.simps m bind_res_simps
  proof (rule no_panic_bind)
    show "no_panic (wire_visit v d (fst b, snd b + length k))" using 5(1) [OF m] s by simp
    show "no_panic (wire_visit_entries kvs d b')" if w: "wire_visit v d (fst b, snd b + length k) = Inr b'" for b'
      using 5(2) [OF m w] wire_visit_budget(1) [OF w] s 5(4) by simp
  qed
qed simp_all

section \<open>The inventory accepts what the protocol accepts\<close>

text \<open>Times are the only values the two crates bound differently: the protocol wants them nonnegative, the
  inventory within the range of \<^verbatim>\<open>Timepoint\<close>.\<close>

fun times_ok :: "(int \<Rightarrow> bool) \<Rightarrow> asset_scalar \<Rightarrow> bool"
  and times_ok_items :: "(int \<Rightarrow> bool) \<Rightarrow> asset_scalar list \<Rightarrow> bool"
  and times_ok_entries :: "(int \<Rightarrow> bool) \<Rightarrow> (string \<times> asset_scalar) list \<Rightarrow> bool" where
  "times_ok p v = (case v of ATime t \<Rightarrow> p t | AArray vs \<Rightarrow> times_ok_items p vs | AObject kvs \<Rightarrow> times_ok_entries p kvs | _ \<Rightarrow> True)"
| "times_ok_items p [] = True"
| "times_ok_items p (v # vs) = (times_ok p v \<and> times_ok_items p vs)"
| "times_ok_entries p [] = True"
| "times_ok_entries p ((k, v) # kvs) = (times_ok p v \<and> times_ok_entries p kvs)"

declare times_ok.simps [simp del]

lemma times_ok_cases [simp]:
  "times_ok p (AString s)" "times_ok p (AInteger i)" "times_ok p (ABoolean x)" "times_ok p (ANumber q)"
  "times_ok p (ATime t) = p t" "times_ok p (AArray vs) = times_ok_items p vs" "times_ok p (AObject kvs) = times_ok_entries p kvs"
  by (simp_all add: times_ok.simps)

lemma times_ok_item: "times_ok_items p vs \<Longrightarrow> v \<in> set vs \<Longrightarrow> times_ok p v"
  by (induction vs) auto

lemma times_ok_entry: "times_ok_entries p kvs \<Longrightarrow> bm_get kvs k = Some v \<Longrightarrow> times_ok p v"
  by (induction kvs) (auto split: if_splits)

definition budget_of :: "wire_budget \<Rightarrow> scalar_budget" where
  "budget_of b = \<lparr>sb_nodes = fst b, sb_bytes = snd b\<rparr>"

lemma node_counted: "n < 200000 \<Longrightarrow> checked_add_u64 n 1 = Some (n + 1)"
  by (simp add: checked_add_u64_def u64_max_def)

lemma budget_of_simps [simp]:
  "sb_bytes (budget_of b) = snd b"
  "m + k \<le> u64_max \<Longrightarrow> add_bytes k (budget_of (n, m)) = Inr (budget_of (n, m + k))"
  by (simp_all add: budget_of_def add_bytes_def checked_add_u64_def)

lemma scalar_visit_cases:
  assumes "d \<le> 6" "n < 200000"
  shows "scalar_visit p v d (budget_of (n, m)) = (let b = budget_of (n + 1, m) in case v of
      AString s \<Rightarrow> bind_res (add_bytes (length s) b) (\<lambda>b.
        if CHR 0x00 \<in> set s \<or> sb_bytes b > 16 * 1024 * 1024 then Inl (Fail InvalidValue) else Inr b)
    | ANumber x \<Rightarrow> if x = NegInfinity \<or> x = PosInfinity then Inl (Fail InvalidValue) else Inr b
    | ATime t \<Rightarrow> if \<not> p t then Inl (Fail InvalidTime) else Inr b
    | AArray vs \<Rightarrow> scalar_visit_items p vs (d + 1) b
    | AObject kvs \<Rightarrow> scalar_visit_entries p kvs (d + 1) b
    | _ \<Rightarrow> Inr b)"
  using assms by (subst scalar_visit.simps) (simp add: budget_of_def node_counted [unfolded One_nat_def])

lemma wire_visit_inventory:
  "wire_visit v d b = Inr c \<Longrightarrow> times_ok p v \<Longrightarrow> scalar_visit p v d (budget_of b) = Inr (budget_of c)"
  "wire_visit_items vs d b = Inr c \<Longrightarrow> times_ok_items p vs \<Longrightarrow> scalar_visit_items p vs d (budget_of b) = Inr (budget_of c)"
  "wire_visit_entries kvs d b = Inr c \<Longrightarrow> times_ok_entries p kvs \<Longrightarrow> scalar_visit_entries p kvs d (budget_of b) = Inr (budget_of c)"
proof (induction v d b and vs d b and kvs d b arbitrary: c and c and c rule: wire_visit_induct)
  case (1 v d b)
  obtain n m where b: "b = (n, m)" by (cases b)
  have bound: "d \<le> 6" "n < 200000" using 1(3) b by (cases v; auto simp: wire_visit_cases)+
  show ?case
  proof (cases v)
    case (AArray vs)
    then have w: "wire_visit_items vs (d + 1) (n + 1, m) = Inr c" "\<not> (d > 6 \<or> n + 1 > 200000)" "\<not> length vs > 100000"
      using 1(3) b by (auto simp: wire_visit_cases)
    from 1(1) [OF b [symmetric] refl w(2) AArray w(3) w(1)] 1(4) AArray show ?thesis
      by (simp add: b scalar_visit_cases [OF bound])
  next
    case (AObject kvs)
    then have w: "wire_visit_entries kvs (d + 1) (n + 1, m) = Inr c" "\<not> (d > 6 \<or> n + 1 > 200000)"
      "\<not> (length kvs > 64 \<or> \<not> list_all (\<lambda>(k, _). property_name k) kvs)"
      using 1(3) b by (auto simp: wire_visit_cases)
    from 1(2) [OF b [symmetric] refl w(2) AObject w(3) w(1)] 1(4) AObject show ?thesis
      by (simp add: b scalar_visit_cases [OF bound])
  qed (use 1(3,4) b in \<open>auto simp: wire_visit_cases scalar_visit_cases [OF bound] u64_max_def\<close>)
next
  case (3 v vs d b)
  then obtain b' where "wire_visit v d b = Inr b'" "wire_visit_items vs d b' = Inr c" by auto
  with 3 show ?case by simp
next
  case (5 k v kvs d b)
  from 5(3) obtain m b' where b': "or_panic (checked_add_u64 (snd b) (length k)) = (Inr m :: nat wire_result)"
    "wire_visit v d (fst b, m) = Inr b'" "wire_visit_entries kvs d b' = Inr c" by auto
  from 5(1) [OF b'(1,2)] 5(2) [OF b'(1,2,3)] 5(4) b'(1) show ?case by (simp add: budget_of_def add_bytes_def)
qed simp_all

lemma wire_scalar_inventory:
  "wire_scalar_validate v = Inr () \<Longrightarrow> times_ok p v \<Longrightarrow> scalar_validate p v = Inr ()"
  using wire_visit_inventory(1) [of v 0 "(0, 0)" _ p]
  by (auto simp: wire_scalar_validate_def scalar_validate_def budget_of_def)

abbreviation wire_ok :: "value_type \<Rightarrow> asset_scalar \<Rightarrow> bool" where
  "wire_ok ty v \<equiv> wire_validate_value ty v = Inr ()"

lemma wire_ok_scalar: "wire_ok ty v \<Longrightarrow> wire_scalar_validate v = Inr ()"
  by (subst (asm) wire_validate_value.simps) auto

lemma wire_ok_string:
  "wire_ok ty (AString s) \<longleftrightarrow> wire_scalar_validate (AString s) = Inr () \<and>
    ((\<exists>n e. ty = VtString n e \<and> (e \<or> s \<noteq> []) \<and> char_count s \<le> n) \<or> (\<exists>vs. ty = VtEnum vs \<and> s \<in> set vs))"
  by (subst wire_validate_value.simps) (auto split: value_type.splits)

lemma wire_ok_array:
  "wire_ok ty (AArray vs) \<longleftrightarrow> wire_scalar_validate (AArray vs) = Inr () \<and>
    (\<exists>items n. ty = VtArray items n \<and> length vs \<le> n \<and> (\<forall>v \<in> set vs. wire_ok items v))"
  by (subst wire_validate_value.simps) (auto simp: fold_res_unit split: value_type.splits)

lemma fold_res_unit_prod: "fold_res (\<lambda>(k, t) (_::unit). f k t) ps () = Inr () \<longleftrightarrow> (\<forall>(k, t) \<in> set ps. f k t = Inr ())"
  by (induction ps) auto

lemma fold_res_unit_triple:
  "fold_res (\<lambda>(k, t, r) (_::unit). f k t r) ps () = Inr () \<longleftrightarrow> (\<forall>(k, t, r) \<in> set ps. f k t r = Inr ())"
  by (induction ps) auto

lemma wire_ok_leaf:
  "wire_ok ty (AInteger i) \<longleftrightarrow> ty = VtInteger \<and> wire_scalar_validate (AInteger i) = Inr ()"
  "wire_ok ty (ABoolean b) \<longleftrightarrow> ty = VtBoolean \<and> wire_scalar_validate (ABoolean b) = Inr ()"
  "wire_ok ty (ANumber q) \<longleftrightarrow> ty = VtNumber \<and> wire_scalar_validate (ANumber q) = Inr ()"
  "wire_ok ty (ATime t) \<longleftrightarrow> ty = VtTime \<and> wire_scalar_validate (ATime t) = Inr ()"
  by (simp_all add: wire_validate_value.simps [of ty] split: value_type.splits)

lemma value_ok_kind:
  "scalar_validate p v = Inr () \<Longrightarrow> (ty, v) \<in> {(VtInteger, AInteger i), (VtBoolean, ABoolean b), (VtNumber, ANumber q), (VtTime, ATime t)} \<Longrightarrow>
    value_ok p ty v"
  by (subst validate_value.simps) auto

lemma wire_ok_record:
  "wire_ok (VtRecord ps) (AObject vs) \<longleftrightarrow> wire_scalar_validate (AObject vs) = Inr () \<and> fst ` set vs \<subseteq> fst ` set ps \<and>
    (\<forall>(k, t, r) \<in> set ps. case bm_get vs k of Some v \<Rightarrow> wire_ok t v | None \<Rightarrow> \<not> r)"
proof -
  have "list_ex (\<lambda>k. map_of ps k = None) (map fst vs) \<longleftrightarrow> \<not> fst ` set vs \<subseteq> fst ` set ps"
    by (simp only: list_ex_iff map_of_eq_None_iff set_map) blast
  moreover have "(case bm_get vs k of Some x \<Rightarrow> wire_validate_value t x | None \<Rightarrow> if \<not> r then Inr () else wire_invalid) = Inr ()
      \<longleftrightarrow> (case bm_get vs k of Some x \<Rightarrow> wire_ok t x | None \<Rightarrow> \<not> r)" for k t r
    by (simp split: option.split)
  ultimately show ?thesis by (subst wire_validate_value.simps) (simp add: fold_res_unit_triple)
qed

lemma wire_ok_object:
  "wire_ok (VtObject ps) (AObject vs) \<longleftrightarrow> wire_scalar_validate (AObject vs) = Inr () \<and> length ps = length vs \<and>
    (\<forall>(k, t) \<in> set ps. \<exists>v. bm_get vs k = Some v \<and> wire_ok t v)"
  by (subst wire_validate_value.simps) (simp add: fold_res_unit_prod case_prod_beta)

lemma wire_ok_structured: "wire_ok ty (AObject vs) \<Longrightarrow> structured ty"
  by (subst (asm) wire_validate_value.simps) (auto simp: structured_def split: value_type.splits)

text \<open>Counting shows that an object with as many members as declared, each declared one among them, has no other.\<close>

lemma object_keys:
  assumes "distinct (map fst ps)" "length ps = length vs" "\<forall>(k, t) \<in> set ps. \<exists>v. bm_get vs k = Some v"
  shows "fst ` set vs = fst ` set ps"
proof (rule sym, rule card_seteq)
  show "fst ` set ps \<subseteq> fst ` set vs"
    using assms(3) by (force dest: map_of_SomeD)
  have "card (fst ` set vs) \<le> length vs" using card_length [of "map fst vs"] by simp
  also have "\<dots> = card (fst ` set ps)" using distinct_card [OF assms(1)] assms(2) by simp
  finally show "card (fst ` set vs) \<le> card (fst ` set ps)" .
qed simp

lemma wire_ok_properties:
  assumes "wire_ok ty (AObject vs)" "vt_wf ty"
  shows "fst ` set vs \<subseteq> fst ` set (vt_properties ty) \<and>
    (\<forall>(k, t, r) \<in> set (vt_properties ty). case bm_get vs k of Some v \<Rightarrow> wire_ok t v | None \<Rightarrow> \<not> r)"
proof (cases ty)
  case (VtRecord ps)
  then show ?thesis using assms(1) by (simp add: wire_ok_record)
next
  case (VtObject ps)
  with assms have o: "length ps = length vs" "\<forall>(k, t) \<in> set ps. \<exists>v. bm_get vs k = Some v \<and> wire_ok t v" "distinct (map fst ps)"
    by (simp_all add: wire_ok_object vt_wf_cases)
  then have "fst ` set vs = fst ` set ps" by (intro object_keys) auto
  moreover have "fst ` set (vt_properties ty) = fst ` set ps" using VtObject by force
  moreover have "case bm_get vs k of Some v \<Rightarrow> wire_ok t v | None \<Rightarrow> \<not> r" if "(k, t, r) \<in> set (vt_properties ty)" for k t r
  proof -
    have "(k, t) \<in> set ps" using that VtObject by auto
    with o(2) show ?thesis by (auto dest!: bspec)
  qed
  ultimately show ?thesis by auto
qed (use wire_ok_structured [OF assms(1)] in \<open>simp_all add: structured_def\<close>)

lemma wire_ok_inventory: "wire_ok ty v \<Longrightarrow> vt_wf ty \<Longrightarrow> times_ok p v \<Longrightarrow> value_ok p ty v"
proof (induction ty arbitrary: v rule: measure_induct_rule [where f = size])
  case (less ty)
  have sc: "scalar_validate p v = Inr ()" using wire_scalar_inventory wire_ok_scalar less.prems by blast
  show ?case
  proof (cases v)
    case (AString s)
    then show ?thesis using less.prems sc by (auto simp: wire_ok_string value_ok_string)
  next
    case (AArray vs)
    with less.prems(1) obtain items n where ty: "ty = VtArray items n" "length vs \<le> n" "\<forall>v \<in> set vs. wire_ok items v"
      by (auto simp: wire_ok_array)
    have "value_ok p items x" if "x \<in> set vs" for x
      using less.IH [of items x] ty that less.prems(2,3) AArray by (auto simp: vt_wf_cases dest: times_ok_item)
    with ty sc AArray show ?thesis by (auto simp: value_ok_array)
  next
    case (AObject vs)
    note w = wire_ok_properties [OF less.prems(1) [unfolded AObject] less.prems(2)]
    have "case bm_get vs k of Some x \<Rightarrow> value_ok p t x | None \<Rightarrow> \<not> r" if kt: "(k, t, r) \<in> set (vt_properties ty)" for k t r
    proof (cases "bm_get vs k")
      case None
      then show ?thesis using w kt by fastforce
    next
      case (Some x)
      have "wire_ok t x" using w kt Some by fastforce
      moreover have "times_ok p x" using times_ok_entry [of p vs k x] less.prems(3) AObject Some by simp
      ultimately show ?thesis
        using less.IH [OF size_properties [OF kt]] vt_wf_properties [OF less.prems(2) kt] Some by simp
    qed
    with w sc AObject wire_ok_structured [OF less.prems(1) [unfolded AObject]] show ?thesis by (auto simp: value_ok_object)
  qed (use less.prems(1) sc in \<open>auto simp: wire_ok_leaf intro: value_ok_kind\<close>)
qed

section \<open>Projection\<close>

lemma declared_cases:
  "declared (AObject vs) (VtRecord ps) =
    bind_res (map_res (\<lambda>(k, t, required). case bm_get vs k of
        Some x \<Rightarrow> bind_res (declared x t) (\<lambda>y. Inr (Some (k, y)))
      | None \<Rightarrow> if required then wire_invalid else Inr None) ps) (\<lambda>os. Inr (AObject (List.map_filter (\<lambda>o'. o') os)))"
  "declared (AObject vs) (VtObject qs) =
    bind_res (map_res (\<lambda>(k, t). bind_res (ok_or WireInvalid (bm_get vs k)) (\<lambda>x.
        bind_res (declared x t) (\<lambda>y. Inr (k, y)))) qs) (\<lambda>kvs. Inr (AObject kvs))"
  "declared (AArray xs) (VtArray items n) = bind_res (map_res (\<lambda>x. declared x items) xs) (\<lambda>ys. Inr (AArray ys))"
  by (subst declared.simps, simp)+

lemma declared_other:
  "\<not> (\<exists>vs. v = AObject vs \<and> structured ty) \<Longrightarrow> \<not> (\<exists>vs items n. v = AArray vs \<and> ty = VtArray items n) \<Longrightarrow> declared v ty = Inr v"
  by (subst declared.simps) (cases v; cases ty; simp add: structured_def)

lemma selected_get:
  assumes "list_all2 (\<lambda>p o'. \<forall>kv. o' = Some kv \<longrightarrow> fst kv = fst p) ps os" "distinct (map fst ps)" "(p, o') \<in> set (zip ps os)"
  shows "bm_get (List.map_filter (\<lambda>o'. o') os) (fst p) = map_option snd o'"
  using assms
proof (induction ps os rule: list_all2_induct)
  case Nil
  then show ?case by simp
next
  case (Cons q ps r os)
  have other: "bm_get (List.map_filter (\<lambda>o'. o') os) k = None" if "k \<notin> fst ` set ps" for k
  proof -
    have "fst ` set (List.map_filter (\<lambda>o'. o') os) \<subseteq> fst ` set ps"
      using Cons.hyps(2) by (induction ps os rule: list_all2_induct) (auto simp: List.map_filter_simps split: option.splits)
    with that show ?thesis by (auto simp: map_of_eq_None_iff)
  qed
  show ?case
  proof (cases "(p, o') = (q, r)")
    case True
    with Cons.prems(1) Cons.hyps(1) other [of "fst q"] show ?thesis
      by (auto simp: List.map_filter_simps split: option.split)
  next
    case False
    with Cons.prems(2) have z: "(p, o') \<in> set (zip ps os)" by auto
    then have "fst p \<in> fst ` set ps" by (auto dest: set_zip_leftD)
    moreover have "fst q \<notin> fst ` set ps" using Cons.prems(1) by simp
    ultimately have "fst p \<noteq> fst q" by metis
    with Cons.IH [OF _ z] Cons.prems(1) Cons.hyps(1) show ?thesis
      by (auto simp: List.map_filter_simps split: option.split)
  qed
qed

lemma list_all2_zipD: "list_all2 P xs ys \<Longrightarrow> (x, y) \<in> set (zip xs ys) \<Longrightarrow> P x y"
  by (auto simp: list_all2_iff)

lemma list_all2_zipI: "length xs = length ys \<Longrightarrow> (\<And>x y. (x, y) \<in> set (zip xs ys) \<Longrightarrow> P x y) \<Longrightarrow> list_all2 P xs ys"
  by (auto simp: list_all2_iff)

lemma declared_record_idem:
  assumes d: "declared (AObject vs) (VtRecord ps) = Inr y" and dist: "distinct (map fst ps)"
    and IH: "\<And>k t r x z. (k, t, r) \<in> set ps \<Longrightarrow> declared x t = Inr z \<Longrightarrow> declared z t = Inr z"
  shows "declared y (VtRecord ps) = Inr y"
proof -
  let ?f = "\<lambda>vs (k, t, required). case bm_get vs k of
      Some x \<Rightarrow> bind_res (declared x t) (\<lambda>y. Inr (Some (k, y)))
    | None \<Rightarrow> if required then wire_invalid else Inr None"
  from d obtain os where os: "list_all2 (\<lambda>p o'. ?f vs p = Inr o') ps os" and y: "y = AObject (List.map_filter (\<lambda>o'. o') os)"
    by (auto simp: declared_cases map_res_Inr)
  have keys: "list_all2 (\<lambda>p o'. \<forall>kv. o' = Some kv \<longrightarrow> fst kv = fst p) ps os"
    using os by (rule list_all2_mono) (auto split: option.splits if_splits)
  have "?f (List.map_filter (\<lambda>o'. o') os) p = Inr o'" if z: "(p, o') \<in> set (zip ps os)" for p o'
  proof -
    obtain k t r where p: "p = (k, t, r)" by (cases p)
    have g: "bm_get (List.map_filter (\<lambda>o'. o') os) k = map_option snd o'" using selected_get [OF keys dist z] p by simp
    have f: "?f vs (k, t, r) = Inr o'" using list_all2_zipD [OF os z] p by simp
    have mem: "(k, t, r) \<in> set ps" using z p by (auto dest: set_zip_leftD)
    show ?thesis using f g IH [OF mem] unfolding p by (auto split: option.splits if_splits)
  qed
  then have "list_all2 (\<lambda>p o'. ?f (List.map_filter (\<lambda>o'. o') os) p = Inr o') ps os"
    using list_all2_lengthD [OF os] by (intro list_all2_zipI)
  then show ?thesis unfolding y declared_cases by (subst map_res_Inr [THEN iffD2]) simp_all
qed

lemma declared_object_idem:
  assumes d: "declared (AObject vs) (VtObject ps) = Inr y" and dist: "distinct (map fst ps)"
    and IH: "\<And>k t x z. (k, t) \<in> set ps \<Longrightarrow> declared x t = Inr z \<Longrightarrow> declared z t = Inr z"
  shows "declared y (VtObject ps) = Inr y"
proof -
  let ?f = "\<lambda>vs (k, t). bind_res (ok_or WireInvalid (bm_get vs k)) (\<lambda>x. bind_res (declared x t) (\<lambda>y. Inr (k, y)))"
  from d obtain kvs where os: "list_all2 (\<lambda>p kv. ?f vs p = Inr kv) ps kvs" and y: "y = AObject kvs"
    by (auto simp: declared_cases map_res_Inr)
  have keys: "map fst kvs = map fst ps" using os by (induction ps kvs rule: list_all2_induct) auto
  have "?f kvs p = Inr kv" if z: "(p, kv) \<in> set (zip ps kvs)" for p kv
  proof -
    obtain k t where p: "p = (k, t)" by (cases p)
    have f: "?f vs (k, t) = Inr kv" using list_all2_zipD [OF os z] p by simp
    then obtain w where w: "kv = (k, w)" "\<exists>x. declared x t = Inr w" by auto
    have "bm_get kvs k = Some w" using set_zip_rightD [OF z] w(1) keys dist by (auto intro: map_of_is_SomeI)
    moreover have "(k, t) \<in> set ps" using z p by (auto dest: set_zip_leftD)
    ultimately show ?thesis using w IH unfolding p by auto
  qed
  then have "list_all2 (\<lambda>p kv. ?f kvs p = Inr kv) ps kvs" using list_all2_lengthD [OF os] by (intro list_all2_zipI)
  then show ?thesis unfolding y declared_cases by (subst map_res_Inr [THEN iffD2]) simp_all
qed

lemma declared_idem: "declared v ty = Inr y \<Longrightarrow> vt_wf ty \<Longrightarrow> declared y ty = Inr y"
proof (induction ty arbitrary: v y rule: measure_induct_rule [where f = size])
  case (less ty)
  show ?case
  proof (cases "\<exists>vs. v = AObject vs \<and> structured ty")
    case True
    then obtain vs where vs: "v = AObject vs" and s: "structured ty" by auto
    from s consider ps where "ty = VtRecord ps" | ps where "ty = VtObject ps"
      by (cases ty) (auto simp: structured_def)
    then show ?thesis
    proof cases
      case 1
      show ?thesis unfolding 1
      proof (rule declared_record_idem)
        show "declared (AObject vs) (VtRecord ps) = Inr y" "distinct (map fst ps)"
          using less.prems 1 vs by (simp_all add: vt_wf_cases)
        show "declared z t = Inr z" if "(k, t, r) \<in> set ps" "declared x t = Inr z" for k t r x z
          using less.IH [of t x z] size_record [OF that(1)] that less.prems(2) 1 by (auto simp: vt_wf_cases)
      qed
    next
      case 2
      show ?thesis unfolding 2
      proof (rule declared_object_idem)
        show "declared (AObject vs) (VtObject ps) = Inr y" "distinct (map fst ps)"
          using less.prems 2 vs by (simp_all add: vt_wf_cases)
        show "declared z t = Inr z" if "(k, t) \<in> set ps" "declared x t = Inr z" for k t x z
          using less.IH [of t x z] size_object [OF that(1)] that less.prems(2) 2 by (auto simp: vt_wf_cases)
      qed
    qed
  next
    case no_object: False
    show ?thesis
    proof (cases "\<exists>vs items n. v = AArray vs \<and> ty = VtArray items n")
      case True
      then obtain vs items n where v: "v = AArray vs" and ty: "ty = VtArray items n" by auto
      with less.prems obtain ys where ys: "list_all2 (\<lambda>x y. declared x items = Inr y) vs ys" "y = AArray ys"
        by (auto simp: declared_cases map_res_Inr)
      have "declared z items = Inr z" if "z \<in> set ys" for z
        using ys(1) that less.IH [of items _ z] ty less.prems(2)
        by (auto simp: list_all2_conv_all_nth in_set_conv_nth vt_wf_cases)
      then show ?thesis unfolding ty ys(2) declared_cases by (subst map_res_total [where g = "\<lambda>z. z"]) simp_all
    next
      case False
      with no_object less.prems show ?thesis by (simp add: declared_other)
    qed
  qed
qed

lemma wire_project_value:
  "wire_project f v = Inr w \<Longrightarrow> wire_value_validate f w = Inr ()
    \<and> (\<forall>y. w = WvValue y \<longrightarrow> (\<exists>x. v = WvValue x \<and> declared x (fd_value_type f) = Inr y))
    \<and> ((\<forall>x. v \<noteq> WvValue x) \<longrightarrow> w = v)"
  by (auto simp: wire_project_def split: wire_value.splits)

lemma wire_project_idem:
  assumes "wire_project f v = Inr w" "vt_wf (fd_value_type f)"
  shows "wire_project f w = Inr w"
proof (cases w)
  case (WvValue y)
  from wire_project_value [OF assms(1)] WvValue obtain x where x: "declared x (fd_value_type f) = Inr y"
    and v: "wire_validate_scalar f y = Inr ()" by (auto simp: wire_value_validate_def)
  from v have "wire_scalar_validate y = Inr ()" by (auto simp: wire_validate_scalar_def dest: wire_ok_scalar)
  with declared_idem [OF x assms(2)] v WvValue show ?thesis by (simp add: wire_project_def wire_value_validate_def)
qed (use wire_project_value [OF assms(1)] in \<open>simp_all add: wire_project_def\<close>)

section \<open>Reports\<close>

lemma wire_report_values_Inr:
  "wire_report_values c vs = Inr vs' \<longleftrightarrow> length vs \<le> 128 \<and> list_all (\<lambda>v. \<not> wire_field_rejected c v) vs
    \<and> distinct (map fv_field vs) \<and> vs' = sort_key fv_field vs"
  by (auto simp: wire_report_values_def Let_def list_all_iff list_ex_iff)

lemma wire_report_values_mset:
  assumes "wire_report_values c vs = Inr vs'" "mset ws = mset vs"
  shows "wire_report_values c ws = Inr vs'"
proof -
  have "distinct (map fv_field ws) = distinct (map fv_field vs)"
    by (rule mset_eq_imp_distinct_iff) (simp add: assms(2))
  then have "distinct (map fv_field ws)" using assms(1) by (simp add: wire_report_values_Inr)
  moreover have "sort_key fv_field ws = sort_key fv_field vs" by (rule sort_key_canonical [OF assms(2) calculation])
  moreover have "set ws = set vs" "length ws = length vs" using assms(2) by (auto dest: mset_eq_setD mset_eq_length)
  ultimately show ?thesis using assms(1) by (simp add: wire_report_values_Inr list_all_iff)
qed

fun body_values :: "wire_report_body \<Rightarrow> wire_field_value list" where
  "body_values (RbSnapshot vs) = vs"
| "body_values (RbPartial vs) = vs"
| "body_values (RbFailed _) = []"

fun with_values :: "wire_report_body \<Rightarrow> wire_field_value list \<Rightarrow> wire_report_body" where
  "with_values (RbSnapshot _) vs = RbSnapshot vs"
| "with_values (RbPartial _) vs = RbPartial vs"
| "with_values (RbFailed c) _ = RbFailed c"

lemma wire_report_new_Inr:
  "wire_report_new i s t c body = Inr r \<longleftrightarrow> \<not> uuid_is_nil i \<and> s \<le> i64_max_nat \<and> 0 \<le> t
    \<and> (\<exists>vs. (case body of RbFailed _ \<Rightarrow> vs = [] | _ \<Rightarrow> wire_report_values c (body_values body) = Inr vs)
      \<and> r = \<lparr>wr_report_id = i, wr_sequence = s, wr_observed_at = t, wr_collection = c, wr_body = with_values body vs\<rparr>)"
  by (cases body) (auto simp: wire_report_new_def)

section \<open>Properties\<close>

definition sample_wire_field :: field_definition where
  "sample_wire_field = disk_field\<lparr>fd_value_type := VtRecord [(''name'', VtString 8 False, True), (''size'', VtInteger, False)], fd_item_key := None\<rparr>"

definition sample_observed :: asset_scalar where
  "sample_observed = AObject [(''extra'', ABoolean True), (''name'', AString ''a'')]"

definition sample_declared :: asset_scalar where
  "sample_declared = AObject [(''name'', AString ''a'')]"

lemmas property_evaluations = property_name_def starts_lower_def lower_name_def is_ascii_digit_def

lemma sample_scalars: "wire_scalar_validate sample_observed = Inr ()" "wire_scalar_validate sample_declared = Inr ()"
  "wire_scalar_validate (AString ''a'') = Inr ()"
  by (simp_all add: wire_scalar_validate_def sample_observed_def sample_declared_def wire_visit.simps checked_add_u64_def u64_max_def
      property_evaluations char_count_def str_chars_def)

lemma sample_wire_valid: "wire_ok (fd_value_type sample_wire_field) sample_declared"
  using sample_scalars unfolding sample_wire_field_def sample_declared_def
  by (auto simp: wire_ok_record wire_ok_string char_count_def str_chars_def)

lemma sample_projected: "wire_project sample_wire_field (WvValue sample_observed) = Inr (WvValue sample_declared)"
proof -
  have "declared (AString ''a'') (VtString 8 False) = Inr (AString ''a'')" by (subst declared.simps) simp
  then have "declared sample_observed (fd_value_type sample_wire_field) = Inr sample_declared"
    by (simp add: sample_observed_def sample_declared_def sample_wire_field_def declared_cases List.map_filter_simps)
  with sample_scalars sample_wire_valid show ?thesis
    by (simp add: wire_project_def wire_value_validate_def wire_validate_scalar_def sample_wire_field_def)
qed

lemma sample_wire_wf: "vt_wf (fd_value_type sample_wire_field)"
  by (simp add: sample_wire_field_def vt_wf.simps)

text \<open>C33: the agent protocol and the inventory accept the same field types and the same history bindings, although
  each crate has its own copy of the types and its own checks.\<close>

theorem wire_types_agree:
  "(wire_vt_validate ty = Inr () \<longleftrightarrow> vt_validate ty = Inr ()) \<and> (wire_binding_validate b = Inr () \<longleftrightarrow> binding_validate b = Inr ())"
proof -
  have "accepted (wire_vt_validate ty) = accepted (vt_validate ty)"
    by (simp add: wire_vt_validate_def vt_validate_def accepted_bind wire_vt_check_agrees)
  then show ?thesis using wire_binding_agrees [of b] by (simp flip: wire_accepted_Some)
qed

text \<open>C32: every value that the agent protocol accepts for a type is accepted by the inventory for that type, provided the
  times in it are times of the inventory.\<close>

theorem wire_value_reaches_inventory:
  assumes "wire_validate_value ty v = Inr ()" "vt_wf ty" "times_ok time_ok v"
  shows "validate_value time_ok ty v = Inr ()"
  using wire_ok_inventory [OF assms] .

theorem wire_value_reaches_inventory_witness:
  "validate_value (\<lambda>t. t < 100) (fd_value_type sample_wire_field) sample_declared = Inr ()"
  using wire_value_reaches_inventory [OF sample_wire_valid sample_wire_wf, of "\<lambda>t. t < 100"]
  by (simp add: sample_declared_def)

text \<open>the budget of a protocol value. Counting the nodes and bytes of any value, in which member names are added
  without an overflow check, never overflows; an accepted value has at most 200000 nodes, and at most 16 MiB of text
  beyond 64 bytes of name per node.\<close>

theorem wire_value_budget:
  "no_panic (wire_scalar_validate v)
    \<and> (\<forall>n m. wire_visit v 0 (0, 0) = Inr (n, m) \<longrightarrow> 0 < n \<and> n \<le> 200000 \<and> m \<le> 16777216 + 64 * n)"
proof -
  have "no_panic (wire_visit v 0 (0, 0))" by (rule wire_visit_no_panic(1)) simp
  then have "no_panic (wire_scalar_validate v)" unfolding wire_scalar_validate_def by (rule no_panic_bind) simp
  then show ?thesis using wire_visit_budget(1) [of v 0 "(0, 0)"] by (force simp: budget_kept_def)
qed

theorem wire_value_budget_witness: "no_panic (wire_scalar_validate sample_observed)"
  using wire_value_budget [of sample_observed] by blast

text \<open>C34: projection of a collected value onto its field definition is a closure: the projected value passes the
  definition, projecting it again changes nothing, and outcomes without a value are kept as they are.\<close>

theorem wire_projection_closed:
  assumes "wire_project f v = Inr w" "vt_wf (fd_value_type f)"
  shows "wire_value_validate f w = Inr () \<and> wire_project f w = Inr w \<and> ((\<forall>x. v \<noteq> WvValue x) \<longrightarrow> w = v)"
  using wire_project_idem [OF assms] wire_project_value [OF assms(1)] by blast

theorem wire_projection_closed_witness:
  "wire_project sample_wire_field (WvValue sample_declared) = Inr (WvValue sample_declared) \<and> sample_declared \<noteq> sample_observed"
  using wire_projection_closed [OF sample_projected sample_wire_wf] by (simp add: sample_declared_def sample_observed_def)

text \<open>C35: reports have one canonical form. An accepted report lists every field once, in the order of the keys, and every
  value of a field of the collection projects onto its definition; the values in any other order give the same
  report, and so does constructing it again from its own contents.\<close>

theorem wire_report_canonical:
  assumes "wire_report_new i s t c body = Inr r" "mset vs = mset (body_values body)"
  shows "wire_report_new i s t c (with_values body vs) = Inr r
    \<and> wire_report_new i s t c (wr_body r) = Inr r
    \<and> sorted_wrt (<) (map fv_field (wire_values r))
    \<and> (\<forall>fv \<in> set (wire_values r). \<forall>f. wire_field c (fv_field fv) = Inr f \<longrightarrow> is_ok (wire_project f (fv_value fv)))"
proof (cases "\<exists>code. body = RbFailed code")
  case True
  then show ?thesis using assms by (auto simp: wire_report_new_Inr wire_values_def)
next
  case False
  then obtain ws where ws: "wire_report_values c (body_values body) = Inr ws" and r: "wr_body r = with_values body ws"
    "r = \<lparr>wr_report_id = i, wr_sequence = s, wr_observed_at = t, wr_collection = c, wr_body = with_values body ws\<rparr>"
    and pre: "\<not> uuid_is_nil i" "s \<le> i64_max_nat" "0 \<le> t"
    using assms(1) by (cases body) (auto simp: wire_report_new_Inr)
  have "wire_report_new i s t c (with_values body us) = Inr r" if "mset us = mset (body_values body)" for us
    using wire_report_values_mset [OF ws that] r pre False by (cases body) (auto simp: wire_report_new_Inr)
  moreover have wsd: "list_all (\<lambda>v. \<not> wire_field_rejected c v) (body_values body)" "distinct (map fv_field (body_values body))"
    "ws = sort_key fv_field (body_values body)" using ws by (simp_all add: wire_report_values_Inr)
  moreover have "mset ws = mset (body_values body)" using wsd(3) by simp
  moreover have "wire_values r = ws" using r(1) False by (cases body) (simp_all add: wire_values_def)
  moreover have "sorted_wrt (<) (map fv_field ws)"
    using wsd(2) mset_eq_imp_distinct_iff [of "map fv_field ws" "map fv_field (body_values body)"]
    by (simp add: wsd(3) strict_sorted_iff)
  moreover have "is_ok (wire_project f (fv_value fv))" if "fv \<in> set ws" "wire_field c (fv_field fv) = Inr f" for fv f
    using that wsd(1,3) by (auto simp: list_all_iff wire_field_rejected_def)
  ultimately show ?thesis using assms(2) r(1) by auto
qed

theorem wire_report_canonical_witness:
  "\<exists>r. wire_report_new 1 0 0 \<lparr>wc_dataset = ''d'', wc_version = ''1'', wc_source = AgentBuiltin, wc_fields = [sample_wire_field]\<rparr>
      (RbSnapshot [\<lparr>fv_field = ''device.disks'', fv_value = WvValue sample_observed\<rparr>, \<lparr>fv_field = ''device.cpu'', fv_value = WvNull\<rparr>]) = Inr r
    \<and> map fv_field (wire_values r) = [''device.cpu'', ''device.disks'']"
proof -
  let ?c = "\<lparr>wc_dataset = ''d'', wc_version = ''1'', wc_source = AgentBuiltin, wc_fields = [sample_wire_field]\<rparr>"
  let ?d = "\<lparr>fv_field = ''device.disks'', fv_value = WvValue sample_observed\<rparr>" and ?n = "\<lparr>fv_field = ''device.cpu'', fv_value = WvNull\<rparr>"
  have fields: "wire_field ?c ''device.disks'' = Inr sample_wire_field" "wire_field ?c ''device.cpu'' = Inl (Fail WireInvalid)"
    by (simp_all add: wire_field_def sample_wire_field_def disk_field_def)
  have "wire_report_values ?c [?n, ?d] = Inr [?n, ?d]"
    by (simp add: wire_report_values_Inr wire_field_rejected_def fields sample_projected less_char_def)
  then have n: "wire_report_new 1 0 0 ?c (RbSnapshot [?n, ?d])
      = Inr \<lparr>wr_report_id = 1, wr_sequence = 0, wr_observed_at = 0, wr_collection = ?c, wr_body = RbSnapshot [?n, ?d]\<rparr>"
    by (simp add: wire_report_new_def uuid_is_nil_def)
  from wire_report_canonical [OF this, of "[?d, ?n]"] show ?thesis by (simp add: wire_values_def)
qed

end
