(* ===== verification/Wire_Mapping.thy ===== *)
theory Wire_Mapping
  imports Wire_Collection Release_Encoding
begin

text \<open>
  Extraction and conversion of collected documents, \<^verbatim>\<open>crates/agent-wire/src/mapping.rs\<close>: the closed conversions, mappings
  with their budget, the check of a mapping against a destination type and the projection of a document. JSON documents
  are those of \<open>Presentation\<close>. Selection by pointer (\<^verbatim>\<open>serde_json\<close>), the calendar (\<^verbatim>\<open>time\<close>) and floating point numbers
  are the record \<open>mapping_lib\<close>: \<open>ml_number_of_text\<close> and \<open>ml_number\<close> are \<^verbatim>\<open>parse::<f64>\<close> and \<^verbatim>\<open>as_f64\<close> followed by
  \<^verbatim>\<open>Number::from_f64\<close>, \<open>ml_finite\<close> is \<^verbatim>\<open>as_f64\<close> with a finite value, and \<open>ml_unix_timestamp\<close> takes year, month, day, hour,
  minute, second, microsecond and offset in seconds, \<open>None\<close> where the calendar refuses them.
\<close>

record mapping_lib =
  ml_pointer :: "json \<Rightarrow> string \<Rightarrow> json option"
  ml_number_of_text :: "string \<Rightarrow> json_number option"
  ml_number :: "json_number \<Rightarrow> json_number option"
  ml_finite :: "json_number \<Rightarrow> bool"
  ml_unix_timestamp :: "nat \<Rightarrow> nat \<Rightarrow> nat \<Rightarrow> nat \<Rightarrow> nat \<Rightarrow> nat \<Rightarrow> nat \<Rightarrow> int \<Rightarrow> int option"

section \<open>JSON accessors\<close>

fun as_i64 :: "json \<Rightarrow> int option" where
  "as_i64 (JNumber (JInt n)) = checked_i64 n"
| "as_i64 _ = None"

fun as_u64 :: "json \<Rightarrow> nat option" where
  "as_u64 (JNumber (JInt n)) = (if 0 \<le> n \<and> nat n \<le> u64_max then Some (nat n) else None)"
| "as_u64 _ = None"

fun as_str :: "json \<Rightarrow> string option" where
  "as_str (JString s) = Some s"
| "as_str _ = None"

definition print_int :: "int \<Rightarrow> string" where
  "print_int n = (if n < 0 then CHR ''-'' # print_nat (nat (- n)) else print_nat (nat n))"

text \<open>\<^verbatim>\<open>to_string\<close> of a number or a truth value.\<close>

definition number_text :: "json_number \<Rightarrow> string" where
  "number_text n = (case n of JInt i \<Rightarrow> print_int i | JFloat s \<Rightarrow> s)"

definition bool_text :: "bool \<Rightarrow> string" where
  "bool_text b = (if b then ''true'' else ''false'')"

section \<open>Conversions\<close>

datatype conversion = CIdentity | CCimTime | CInteger | CNumber | CEnum "(string, json) btree_map"
  | CArrayMember int json json | CScale nat nat | CBitmask "(string, string) btree_map"

definition member_value_ok :: "json \<Rightarrow> bool" where
  "member_value_ok v = (case v of JString s \<Rightarrow> s \<noteq> [] \<and> length s \<le> 128 \<and> \<not> has_control s | _ \<Rightarrow> False)"

definition enum_entry_ok :: "string \<times> json \<Rightarrow> bool" where
  "enum_entry_ok kv = (case kv of (k, v) \<Rightarrow> length k \<le> 256 \<and> \<not> has_control k
     \<and> (case v of JString s \<Rightarrow> length s \<le> 256 \<and> CHR 0x00 \<notin> set s | JBool _ \<Rightarrow> True | JNumber _ \<Rightarrow> True | _ \<Rightarrow> False))"

definition is_power_of_two :: "nat \<Rightarrow> bool" where
  "is_power_of_two n \<longleftrightarrow> list_ex (\<lambda>i. n = 2 ^ i) [0..<64]"

definition flag_check :: "string \<times> string \<Rightarrow> string btree_set \<Rightarrow> string btree_set wire_result" where
  "flag_check flag names = (case flag of (bits, name) \<Rightarrow>
     bind_res (ok_or WireInvalid (parse_unsigned u64_max bits)) (\<lambda>mask.
       if \<not> is_power_of_two mask \<or> mask > i64_max_nat \<or> print_nat mask \<noteq> bits \<or> name = [] \<or> length name > 64
          \<or> has_control name \<or> name \<in> set names
       then wire_invalid else Inr (bs_insert name names)))"

definition conversion_validate :: "conversion \<Rightarrow> unit wire_result" where
  "conversion_validate c = (case c of
      CArrayMember m present absent \<Rightarrow>
        if m < 0 \<or> \<not> (member_value_ok present \<and> member_value_ok absent) then wire_invalid else Inr ()
    | CEnum vs \<Rightarrow> if vs = [] \<or> length vs > 128 \<or> \<not> list_all enum_entry_ok vs then wire_invalid else Inr ()
    | CScale n d \<Rightarrow> if n = 0 \<or> d = 0 then wire_invalid else Inr ()
    | CBitmask flags \<Rightarrow>
        if flags = [] \<or> length flags > 63 then wire_invalid
        else bind_res (fold_res flag_check flags []) (\<lambda>_. Inr ())
    | _ \<Rightarrow> Inr ())"

text \<open>The closure \<^verbatim>\<open>integer\<close>.\<close>

definition raw_integer :: "json \<Rightarrow> int wire_result" where
  "raw_integer raw = ok_or WireInvalid (case raw of JString s \<Rightarrow> parse_i64 s | v \<Rightarrow> as_i64 v)"

definition part_value :: "string \<Rightarrow> nat \<Rightarrow> nat \<Rightarrow> nat wire_result" where
  "part_value s a b = ok_or WireInvalid (decimal (take (b - a) (drop a s)))"

definition cim_shape :: "string \<Rightarrow> bool" where
  "cim_shape s \<longleftrightarrow> length s = 25 \<and> list_all (\<lambda>c. of_char c < (128::nat)) s \<and> s ! 14 = CHR ''.''
     \<and> s ! 21 \<in> {CHR ''+'', CHR ''-''}
     \<and> list_all is_ascii_digit (take 14 s @ take 6 (drop 15 s) @ drop 22 s)"

definition cim_time :: "mapping_lib \<Rightarrow> json \<Rightarrow> json wire_result" where
  "cim_time lib raw =
    bind_res (ok_or WireInvalid (as_str raw)) (\<lambda>s.
      if \<not> cim_shape s then wire_invalid
      else bind_res (part_value s 4 6) (\<lambda>month.
        bind_res (part_value s 0 4) (\<lambda>year.
        bind_res (part_value s 6 8) (\<lambda>day.
        bind_res (part_value s 8 10) (\<lambda>hour.
        bind_res (part_value s 10 12) (\<lambda>minute.
        bind_res (part_value s 12 14) (\<lambda>second.
        bind_res (part_value s 15 21) (\<lambda>micro.
        bind_res (part_value s 22 25) (\<lambda>offset.
        bind_res (ok_or WireInvalid (ml_unix_timestamp lib year month day hour minute second micro
            (int offset * 60 * (if s ! 21 = CHR ''-'' then - 1 else 1)))) (\<lambda>t.
          Inr (JNumber (JInt t))))))))))))"

definition checked_mul_u128 :: "nat \<Rightarrow> nat \<Rightarrow> nat option" where
  "checked_mul_u128 a b = (if a * b < 2 ^ 128 then Some (a * b) else None)"

definition scale_value :: "nat \<Rightarrow> nat \<Rightarrow> json \<Rightarrow> json wire_result" where
  "scale_value numerator denominator raw =
    bind_res (ok_or WireInvalid (case raw of JString s \<Rightarrow> parse_unsigned u64_max s | v \<Rightarrow> as_u64 v)) (\<lambda>input.
    bind_res (ok_or WireInvalid (checked_mul_u128 input numerator)) (\<lambda>n.
      if n mod denominator \<noteq> 0 then wire_invalid
      else bind_res (ok_or WireInvalid (checked_i64 (int (n div denominator)))) (\<lambda>q. Inr (JNumber (JInt q)))))"

text \<open>One flag: the known bits and the names of the set bits so far.\<close>

definition flag_step :: "u64 \<Rightarrow> string \<times> string \<Rightarrow> u64 \<times> string list \<Rightarrow> (u64 \<times> string list) wire_result" where
  "flag_step n flag st = (case flag of (bits, name) \<Rightarrow> case st of (known, names) \<Rightarrow>
     bind_res (ok_or WireInvalid (parse_unsigned u64_max bits)) (\<lambda>mask.
       Inr (or known (of_nat mask), if and n (of_nat mask) \<noteq> 0 then names @ [name] else names)))"

definition bitmask_names :: "(string, string) btree_map \<Rightarrow> json \<Rightarrow> json wire_result" where
  "bitmask_names flags raw =
    bind_res (raw_integer raw) (\<lambda>i.
      if i < 0 then wire_invalid
      else bind_res (fold_res (flag_step (word_of_int i)) flags (0, [])) (\<lambda>(known, names).
        if and (word_of_int i) (not known) \<noteq> 0 then wire_invalid
        else Inr (JArray (map JString (sort names)))))"

definition conversion_apply :: "mapping_lib \<Rightarrow> conversion \<Rightarrow> json \<Rightarrow> json wire_result" where
  "conversion_apply lib c raw =
    bind_res (conversion_validate c) (\<lambda>_. case c of
      CArrayMember m present absent \<Rightarrow>
        (case raw of
           JArray items \<Rightarrow>
             if length items > 65535 \<or> list_ex (\<lambda>v. as_i64 v = None) items then wire_invalid
             else Inr (if list_ex (\<lambda>v. as_i64 v = Some m) items then present else absent)
         | _ \<Rightarrow> wire_invalid)
    | CIdentity \<Rightarrow> Inr raw
    | CCimTime \<Rightarrow> cim_time lib raw
    | CInteger \<Rightarrow> bind_res (raw_integer raw) (\<lambda>n. Inr (JNumber (JInt n)))
    | CNumber \<Rightarrow> bind_res (ok_or WireInvalid (case raw of
          JString s \<Rightarrow> ml_number_of_text lib s | JNumber n \<Rightarrow> ml_number lib n | _ \<Rightarrow> None)) (\<lambda>n. Inr (JNumber n))
    | CEnum vs \<Rightarrow> bind_res (ok_or WireInvalid (case raw of
          JString s \<Rightarrow> Some s | JNumber n \<Rightarrow> Some (number_text n) | JBool b \<Rightarrow> Some (bool_text b) | _ \<Rightarrow> None)) (\<lambda>key.
        ok_or WireInvalid (bm_get vs key))
    | CScale n d \<Rightarrow> scale_value n d raw
    | CBitmask flags \<Rightarrow> bitmask_names flags raw)"

section \<open>Mappings\<close>

datatype value_mapping = ValueMapping (vm_pointer: string) (vm_conversion: conversion) (vm_columns: "(string \<times> value_mapping) list")

lemma size_column: "(k, m) \<in> set (vm_columns v) \<Longrightarrow> size m < size v"
  by (cases v) (auto intro!: le_imp_less_Suc intro: trans_le_add2 size_list_estimation' [of "(k, m)"])

definition mapping_identity :: "string \<Rightarrow> value_mapping" where
  "mapping_identity pointer = ValueMapping pointer CIdentity []"

fun tilde_ok :: "nat list \<Rightarrow> bool" where
  "tilde_ok [] = True"
| "tilde_ok (c # cs) = (if c = 126 then (case cs of d # r \<Rightarrow> (d = 48 \<or> d = 49) \<and> tilde_ok r | [] \<Rightarrow> False) else tilde_ok cs)"

definition pointer_ok :: "string \<Rightarrow> bool" where
  "pointer_ok v \<longleftrightarrow> \<not> (length v > 4096 \<or> (v \<noteq> [] \<and> \<not> prefix ''/'' v) \<or> has_control v) \<and> tilde_ok (str_chars v)"

function mapping_check :: "value_mapping \<Rightarrow> nat \<Rightarrow> nat \<Rightarrow> nat wire_result" where
  "mapping_check m depth nodes =
    (let n = nodes + 1 in
     if depth > 4 \<or> n > 128 \<or> \<not> pointer_ok (vm_pointer m) \<or> length (vm_columns m) > 64 then wire_invalid
     else if vm_columns m \<noteq> [] \<and> vm_conversion m \<noteq> CIdentity then wire_invalid
     else bind_res (conversion_validate (vm_conversion m)) (\<lambda>_.
       fold_res (\<lambda>(name, c) k. if \<not> property_name name then wire_invalid else mapping_check c (depth + 1) k) (vm_columns m) n))"
  by pat_completeness auto
termination
  by (relation "measure (\<lambda>(m, _, _). size m)") (auto dest: size_column)

declare mapping_check.simps [simp del]

definition mapping_validate :: "value_mapping \<Rightarrow> unit wire_result" where
  "mapping_validate m = bind_res (mapping_check m 0 0) (\<lambda>_. Inr ())"

section \<open>Destination types\<close>

definition type_accepts :: "mapping_lib \<Rightarrow> value_type \<Rightarrow> json \<Rightarrow> bool" where
  "type_accepts lib ty v = (case ty of
      VtString max_length allow_empty \<Rightarrow> (case as_str v of
          Some s \<Rightarrow> (allow_empty \<or> s \<noteq> []) \<and> char_count s \<le> max_length | None \<Rightarrow> False)
    | VtEnum vs \<Rightarrow> (case as_str v of Some s \<Rightarrow> s \<in> set vs | None \<Rightarrow> False)
    | VtBoolean \<Rightarrow> (case v of JBool _ \<Rightarrow> True | _ \<Rightarrow> False)
    | VtInteger \<Rightarrow> as_i64 v \<noteq> None
    | VtTime \<Rightarrow> as_i64 v \<noteq> None
    | VtNumber \<Rightarrow> (case v of JNumber n \<Rightarrow> ml_finite lib n | _ \<Rightarrow> False)
    | _ \<Rightarrow> False)"

definition bitmask_type_ok :: "(string, string) btree_map \<Rightarrow> value_type \<Rightarrow> bool" where
  "bitmask_type_ok flags ty = (case ty of
      VtArray items max_items \<Rightarrow> length flags \<le> max_items \<and> (case items of
          VtString max_length _ \<Rightarrow> list_all (\<lambda>s. char_count s \<le> max_length) (bm_values flags)
        | VtEnum vs \<Rightarrow> list_all (\<lambda>s. s \<in> set vs) (bm_values flags)
        | _ \<Rightarrow> False)
    | _ \<Rightarrow> False)"

definition conversion_type_ok :: "mapping_lib \<Rightarrow> conversion \<Rightarrow> value_type \<Rightarrow> bool" where
  "conversion_type_ok lib c ty = (case c of
      CIdentity \<Rightarrow> True
    | CCimTime \<Rightarrow> ty = VtTime
    | CInteger \<Rightarrow> ty = VtInteger \<or> ty = VtTime
    | CScale _ _ \<Rightarrow> ty = VtInteger \<or> ty = VtTime
    | CNumber \<Rightarrow> ty = VtNumber
    | CEnum vs \<Rightarrow> list_all (type_accepts lib ty) (bm_values vs)
    | CArrayMember _ present absent \<Rightarrow> type_accepts lib ty present \<and> type_accepts lib ty absent
    | CBitmask flags \<Rightarrow> bitmask_type_ok flags ty)"

function type_check :: "mapping_lib \<Rightarrow> value_mapping \<Rightarrow> value_type \<Rightarrow> unit wire_result" where
  "type_check lib m ty =
    (if vm_columns m \<noteq> [] then
       (case ty of
          VtObject ps \<Rightarrow>
            if map fst (vm_columns m) \<noteq> map fst ps then wire_invalid
            else fold_res (\<lambda>(name, c) _. bind_res (or_panic (map_of ps name)) (type_check lib c)) (vm_columns m) ()
        | VtRecord ps \<Rightarrow>
            if list_ex (\<lambda>(k, _, required). required \<and> map_of (vm_columns m) k = None) ps then wire_invalid
            else fold_res (\<lambda>(name, c) _. bind_res (ok_or WireInvalid (map_of ps name)) (\<lambda>(t, _). type_check lib c t)) (vm_columns m) ()
        | _ \<Rightarrow> wire_invalid)
     else if conversion_type_ok lib (vm_conversion m) ty then Inr () else wire_invalid)"
  by pat_completeness auto
termination
  by (relation "measure (\<lambda>(_, m, _). size m)") (auto dest: size_column)

declare type_check.simps [simp del]

definition item_type :: "value_mapping \<Rightarrow> value_type \<Rightarrow> value_type" where
  "item_type m ty = (case ty of
      VtArray items _ \<Rightarrow> (case vm_conversion m of CBitmask _ \<Rightarrow> ty | _ \<Rightarrow> items)
    | _ \<Rightarrow> ty)"

definition mapping_validate_type :: "mapping_lib \<Rightarrow> value_mapping \<Rightarrow> value_type \<Rightarrow> unit wire_result" where
  "mapping_validate_type lib m ty =
    bind_res (mapping_validate m) (\<lambda>_.
    bind_res (wire_vt_validate ty) (\<lambda>_.
      type_check lib m (item_type m ty)))"

section \<open>Projection of a document\<close>

definition member_type :: "value_type \<Rightarrow> string \<Rightarrow> (value_type \<times> bool) wire_result" where
  "member_type ty name = (case ty of
      VtObject ps \<Rightarrow> bind_res (ok_or WireInvalid (map_of ps name)) (\<lambda>t. Inr (t, True))
    | VtRecord ps \<Rightarrow> ok_or WireInvalid (map_of ps name)
    | _ \<Rightarrow> wire_invalid)"

function mapping_project :: "mapping_lib \<Rightarrow> value_mapping \<Rightarrow> json \<Rightarrow> value_type \<Rightarrow> json wire_result" where
  "mapping_project lib m raw ty =
    (if vm_columns m = [] then conversion_apply lib (vm_conversion m) raw
     else (case raw of
         JObject _ \<Rightarrow>
           bind_res (fold_res (\<lambda>(name, c) result.
             bind_res (member_type ty name) (\<lambda>(t, required).
               case ml_pointer lib raw (vm_pointer c) of
                 Some v \<Rightarrow> bind_res (mapping_project lib c v t) (\<lambda>x. Inr (bm_insert name x result))
               | None \<Rightarrow> if \<not> required then Inr result else wire_invalid)) (vm_columns m) []) (\<lambda>result.
             Inr (JObject result))
       | _ \<Rightarrow> wire_invalid))"
  by pat_completeness auto
termination
  by (relation "measure (\<lambda>(_, m, _, _). size m)") (auto dest: size_column)

declare mapping_project.simps [simp del]

definition project_selected :: "mapping_lib \<Rightarrow> value_mapping \<Rightarrow> json \<Rightarrow> value_type \<Rightarrow> json wire_result" where
  "project_selected lib m raw ty =
    bind_res (mapping_validate_type lib m ty) (\<lambda>_. mapping_project lib m raw ty)"

section \<open>Native sources\<close>

datatype native_type = NString | NBoolean | NInteger | NUInt64 | NNumber | NCimTime | NArray native_type

fun native_accepts :: "mapping_lib \<Rightarrow> native_type \<Rightarrow> json \<Rightarrow> bool" where
  "native_accepts lib NString v = (case as_str v of Some s \<Rightarrow> length s \<le> 65536 \<and> CHR 0x00 \<notin> set s | None \<Rightarrow> False)"
| "native_accepts lib NBoolean v = (case v of JBool _ \<Rightarrow> True | _ \<Rightarrow> False)"
| "native_accepts lib NInteger v = (as_i64 v \<noteq> None)"
| "native_accepts lib NUInt64 v = (case as_str v of Some s \<Rightarrow> canonical_decimal u64_max s | None \<Rightarrow> False)"
| "native_accepts lib NNumber v = (case v of JNumber n \<Rightarrow> ml_finite lib n | _ \<Rightarrow> False)"
| "native_accepts lib NCimTime v = (case as_str v of
     Some s \<Rightarrow> length s = 25 \<and> list_all (\<lambda>c. of_char c < (128::nat)) s \<and> \<not> has_control s | None \<Rightarrow> False)"
| "native_accepts lib (NArray items) v = (case v of
     JArray vs \<Rightarrow> length vs \<le> 65535 \<and> list_all (native_accepts lib items) vs | _ \<Rightarrow> False)"

definition native_conversion_ok :: "conversion \<Rightarrow> native_type \<Rightarrow> bool" where
  "native_conversion_ok c ty = (case c of
      CIdentity \<Rightarrow> True
    | CArrayMember _ _ _ \<Rightarrow> ty = NArray NInteger
    | CCimTime \<Rightarrow> ty = NCimTime
    | CInteger \<Rightarrow> ty \<in> {NInteger, NUInt64, NString}
    | CNumber \<Rightarrow> ty \<in> {NNumber, NInteger, NString}
    | CScale _ _ \<Rightarrow> ty \<in> {NInteger, NUInt64}
    | CBitmask _ \<Rightarrow> ty \<in> {NInteger, NUInt64}
    | CEnum _ \<Rightarrow> (case ty of NArray _ \<Rightarrow> False | _ \<Rightarrow> True))"

function validate_native_mapping :: "value_mapping \<Rightarrow> (string, native_type) btree_map \<Rightarrow> bool \<Rightarrow> unit wire_result" where
  "validate_native_mapping m p listed =
    (if listed \<or> vm_columns m \<noteq> [] then
       (if vm_pointer m \<noteq> [] \<or> vm_columns m = [] \<or> vm_conversion m \<noteq> CIdentity then wire_invalid
        else fold_res (\<lambda>(_, c) _. validate_native_mapping c p False) (vm_columns m) ())
     else (case vm_pointer m of
         c # key \<Rightarrow>
           if c \<noteq> CHR ''/'' then wire_invalid
           else bind_res (ok_or WireInvalid (bm_get p key)) (\<lambda>ty.
             if native_conversion_ok (vm_conversion m) ty then Inr () else wire_invalid)
       | [] \<Rightarrow> wire_invalid))"
  by pat_completeness auto
termination
  by (relation "measure (\<lambda>(m, _, _). size m)") (auto dest: size_column)

section \<open>Projections of whole field sets\<close>

definition projection_field :: "source \<Rightarrow> asset_platform \<Rightarrow> field_definition \<Rightarrow> string btree_set \<Rightarrow> string btree_set wire_result" where
  "projection_field src platform f keys =
    bind_res (wire_definition_validate f) (\<lambda>_.
      if fd_key f \<in> set keys \<or> bm_get (fd_sources f) src = None \<or> platform \<notin> set (fd_platforms f)
      then wire_invalid else Inr (bs_insert (fd_key f) keys))"

definition validate_projection_fields :: "field_definition list \<Rightarrow> source \<Rightarrow> asset_platform \<Rightarrow> unit wire_result" where
  "validate_projection_fields fs src platform =
    (if fs = [] \<or> length fs > 64 then wire_invalid
     else bind_res (fold_res (projection_field src platform) fs []) (\<lambda>_. Inr ()))"

text \<open>The serialized length of the fields and mappings is a parameter, \<open>None\<close> for a serialization error.\<close>

definition validate_projection_size :: "nat option \<Rightarrow> unit wire_result" where
  "validate_projection_size len = (case len of Some n \<Rightarrow> if n > 49152 then wire_invalid else Inr () | None \<Rightarrow> wire_invalid)"

definition validate_script_projection ::
  "mapping_lib \<Rightarrow> (field_definition list \<Rightarrow> (string, value_mapping) btree_map \<Rightarrow> nat option) \<Rightarrow>
    field_definition list \<Rightarrow> (string, value_mapping) btree_map \<Rightarrow> unit wire_result" where
  "validate_script_projection lib json_len fs ms =
    bind_res (validate_projection_size (json_len fs ms)) (\<lambda>_.
      if length fs \<noteq> length ms then wire_invalid
      else fold_res (\<lambda>f _.
        bind_res (wire_key_parse (fd_key f)) (\<lambda>_.
        bind_res (ok_or WireInvalid (bm_get ms (fd_key f))) (\<lambda>m.
          mapping_validate_type lib m (fd_value_type f)))) fs ())"

end
