(* ===== verification/Wire_Mapping_Properties.thy ===== *)
theory Wire_Mapping_Properties
  imports Wire_Mapping
begin

text \<open>
  Mappings are typed: what a checked mapping produces has the shape of its destination type. Units and flags are
  converted exactly. The libraries are asked for two things: numbers read from \<^verbatim>\<open>f64\<close> are finite, and timestamps are
  64-bit integers.
\<close>

definition mapping_lib_ok :: "mapping_lib \<Rightarrow> bool" where
  "mapping_lib_ok lib \<longleftrightarrow> (\<forall>s n. ml_number_of_text lib s = Some n \<longrightarrow> ml_finite lib n)
    \<and> (\<forall>m n. ml_number lib m = Some n \<longrightarrow> ml_finite lib n)
    \<and> (\<forall>y mo d h mi s us off t. ml_unix_timestamp lib y mo d h mi s us off = Some t \<longrightarrow> in_i64 t)"

section \<open>Shapes\<close>

text \<open>What a leaf may contain; an identity passes its input on unchecked.\<close>

definition conversion_fits :: "mapping_lib \<Rightarrow> conversion \<Rightarrow> value_type \<Rightarrow> json \<Rightarrow> bool" where
  "conversion_fits lib c ty out = (case c of
      CIdentity \<Rightarrow> True
    | CBitmask _ \<Rightarrow> (case (ty, out) of
        (VtArray (VtString n _) k, JArray vs) \<Rightarrow> length vs \<le> k \<and> list_all (type_accepts lib (VtString n True)) vs
      | (VtArray (VtEnum es) k, JArray vs) \<Rightarrow> length vs \<le> k \<and> list_all (type_accepts lib (VtEnum es)) vs
      | _ \<Rightarrow> False)
    | _ \<Rightarrow> type_accepts lib ty out)"

function fits :: "mapping_lib \<Rightarrow> value_mapping \<Rightarrow> value_type \<Rightarrow> json \<Rightarrow> bool" where
  "fits lib m ty out \<longleftrightarrow>
    (if vm_columns m = [] then conversion_fits lib (vm_conversion m) ty out
     else (case out of
        JObject kvs \<Rightarrow> fst ` set kvs \<subseteq> fst ` set (vm_columns m)
          \<and> list_all (\<lambda>(name, c). case member_type ty name of
              Inr (t, required) \<Rightarrow> (case bm_get kvs name of Some x \<Rightarrow> fits lib c t x | None \<Rightarrow> \<not> required)
            | Inl _ \<Rightarrow> False) (vm_columns m)
      | _ \<Rightarrow> False))"
  by pat_completeness auto
termination
  by (relation "measure (\<lambda>(_, m, _, _). size m)") (auto dest: size_column)

declare fits.simps [simp del]

text \<open>Column names are the keys of a map.\<close>

function vm_wf :: "value_mapping \<Rightarrow> bool" where
  "vm_wf m \<longleftrightarrow> distinct (map fst (vm_columns m)) \<and> list_all (\<lambda>(_, c). vm_wf c) (vm_columns m)"
  by pat_completeness auto
termination
  by (relation "measure size") (auto dest: size_column)

declare vm_wf.simps [simp del]

section \<open>Conversions\<close>

lemma checked_i64_as_i64: "in_i64 n \<Longrightarrow> as_i64 (JNumber (JInt n)) = Some n"
  by simp

lemma parse_i64_range: "parse_i64 s = Some n \<Longrightarrow> in_i64 n"
  by (cases s) (auto simp: parse_i64_def bind_eq_Some_conv split: if_splits)

lemma raw_integer_range: "raw_integer raw = Inr n \<Longrightarrow> in_i64 n"
  by (cases raw rule: as_i64.cases) (auto simp: raw_integer_def parse_i64_range)

lemma cim_time_fits:
  assumes "cim_time lib raw = Inr out" "mapping_lib_ok lib"
  shows "\<exists>t. out = JNumber (JInt t) \<and> in_i64 t"
  using assms unfolding mapping_lib_ok_def by (auto simp: cim_time_def split: if_splits)

lemma scale_value_Inr:
  "scale_value p q raw = Inr out \<longleftrightarrow> (\<exists>n. (case raw of JString s \<Rightarrow> parse_unsigned u64_max s | v \<Rightarrow> as_u64 v) = Some n
     \<and> n * p < 2 ^ 128 \<and> n * p mod q = 0 \<and> in_i64 (int (n * p div q)) \<and> out = JNumber (JInt (int (n * p div q))))"
proof (cases "case raw of JString s \<Rightarrow> parse_unsigned u64_max s | v \<Rightarrow> as_u64 v")
  case None
  then show ?thesis by (simp add: scale_value_def)
next
  case (Some n)
  then show ?thesis by (auto simp: scale_value_def checked_mul_u128_def simp del: power_numeral)
qed

definition flag_mask :: "string \<Rightarrow> u64" where
  "flag_mask s = (case parse_unsigned u64_max s of Some n \<Rightarrow> of_nat n | None \<Rightarrow> 0)"

definition flags_set :: "u64 \<Rightarrow> (string, string) btree_map \<Rightarrow> string list" where
  "flags_set n flags = map snd (filter (\<lambda>(s, _). and n (flag_mask s) \<noteq> 0) flags)"

definition flags_known :: "(string, string) btree_map \<Rightarrow> u64" where
  "flags_known flags = foldl (\<lambda>k (s, _). or k (flag_mask s)) 0 flags"

lemma flag_step_Inr:
  "flag_step n (s, name) (k, names) = Inr r \<longleftrightarrow> parse_unsigned u64_max s \<noteq> None
    \<and> r = (or k (flag_mask s), if and n (flag_mask s) \<noteq> 0 then names @ [name] else names)"
  by (cases "parse_unsigned u64_max s") (auto simp: flag_step_def flag_mask_def)

lemma flag_fold:
  "fold_res (flag_step n) flags (k, names) = Inr (k', names') \<Longrightarrow>
    k' = foldl (\<lambda>k (s, _). or k (flag_mask s)) k flags \<and> names' = names @ flags_set n flags"
proof (induction flags arbitrary: k names)
  case Nil
  then show ?case by (simp add: flags_set_def)
next
  case (Cons f flags)
  obtain s name where f: "f = (s, name)" by (cases f)
  from Cons.prems have "fold_res (flag_step n) flags (or k (flag_mask s), if and n (flag_mask s) \<noteq> 0 then names @ [name] else names)
      = Inr (k', names')" by (auto simp: f flag_step_Inr)
  from Cons.IH [OF this] show ?case by (simp add: f flags_set_def)
qed

lemma bitmask_names_Inr:
  assumes "bitmask_names flags raw = Inr out"
  obtains i where "raw_integer raw = Inr i" "0 \<le> i" "and (word_of_int i) (not (flags_known flags)) = 0"
    "out = JArray (map JString (sort (flags_set (word_of_int i) flags)))"
  using assms by (auto simp: bitmask_names_def flags_known_def dest!: flag_fold split: if_splits)

lemma length_flags_set: "length (flags_set n flags) \<le> length flags"
  by (simp add: flags_set_def)

lemma set_flags_set: "set (flags_set n flags) \<subseteq> snd ` set flags"
  by (auto simp: flags_set_def)

lemma bitmask_fits:
  assumes "bitmask_names flags raw = Inr out" "bitmask_type_ok flags ty"
  shows "conversion_fits lib (CBitmask flags) ty out"
proof -
  obtain i where out: "out = JArray (map JString (sort (flags_set (word_of_int i) flags)))"
    using bitmask_names_Inr [OF assms(1)] by metis
  have "set (flags_set (word_of_int i) flags) \<subseteq> set (bm_values flags)"
    using set_flags_set by (simp add: bm_values_def)
  with assms(2) length_flags_set [of "word_of_int i" flags] out show ?thesis
    by (auto simp: bitmask_type_ok_def conversion_fits_def type_accepts_def list_all_iff split: value_type.splits)
qed

lemma conversion_apply_fits:
  assumes "conversion_apply lib c raw = Inr out" "conversion_type_ok lib c ty" "mapping_lib_ok lib"
  shows "conversion_fits lib c ty out"
proof (cases c)
  case CCimTime
  then have "cim_time lib raw = Inr out" using assms(1) by (simp add: conversion_apply_def conversion_validate_def)
  from cim_time_fits [OF this assms(3)] CCimTime assms(2) show ?thesis
    by (auto simp: conversion_fits_def conversion_type_ok_def type_accepts_def)
next
  case CInteger
  then obtain n where n: "raw_integer raw = Inr n" "out = JNumber (JInt n)"
    using assms(1) by (auto simp: conversion_apply_def conversion_validate_def)
  with raw_integer_range [OF n(1)] CInteger assms(2) show ?thesis
    by (auto simp: conversion_fits_def conversion_type_ok_def type_accepts_def)
next
  case CNumber
  then show ?thesis using assms unfolding mapping_lib_ok_def
    by (cases raw) (auto simp: conversion_apply_def conversion_validate_def conversion_fits_def conversion_type_ok_def type_accepts_def)
next
  case (CEnum vs)
  then obtain key where "bm_get vs key = Some out" using assms(1) by (auto simp: conversion_apply_def)
  then have "out \<in> set (bm_values vs)" by (force simp: bm_values_def dest: map_of_SomeD)
  with CEnum assms(2) show ?thesis by (simp add: conversion_fits_def conversion_type_ok_def list_all_iff)
next
  case (CArrayMember m p a)
  with assms(1) have "out \<in> {p, a}" by (auto simp: conversion_apply_def split: json.splits if_splits)
  with CArrayMember assms(2) show ?thesis by (auto simp: conversion_fits_def conversion_type_ok_def)
next
  case (CScale n d)
  with assms(1) have "\<exists>q. out = JNumber (JInt q) \<and> in_i64 q" by (auto simp: conversion_apply_def scale_value_Inr)
  with CScale assms(2) show ?thesis by (auto simp: conversion_fits_def conversion_type_ok_def type_accepts_def)
next
  case (CBitmask flags)
  with assms(1) have "bitmask_names flags raw = Inr out" by (auto simp: conversion_apply_def)
  from bitmask_fits [OF this] CBitmask assms(2) show ?thesis by (simp add: conversion_type_ok_def)
qed (simp add: conversion_fits_def)

section \<open>Projection\<close>

text \<open>The members collected from the columns passed so far.\<close>

lemma project_columns:
  assumes "fold_res (\<lambda>(name, c) result. bind_res (member_type ty name) (\<lambda>(t, required).
      case ml_pointer lib raw (vm_pointer c) of
        Some v \<Rightarrow> bind_res (mapping_project lib c v t) (\<lambda>x. Inr (bm_insert name x result))
      | None \<Rightarrow> if \<not> required then Inr result else wire_invalid)) cs kvs = Inr kvs'"
    "distinct (map fst cs)" "fst ` set cs \<inter> fst ` set kvs = {}" "bm_wf kvs"
    "\<forall>name c t r v x. (name, c) \<in> set cs \<longrightarrow> member_type ty name = Inr (t, r) \<longrightarrow> mapping_project lib c v t = Inr x \<longrightarrow> fits lib c t x"
  shows "bm_wf kvs' \<and> fst ` set kvs' \<subseteq> fst ` set cs \<union> fst ` set kvs \<and> (\<forall>k. k \<notin> fst ` set cs \<longrightarrow> bm_get kvs' k = bm_get kvs k)
    \<and> list_all (\<lambda>(name, c). case member_type ty name of
        Inr (t, required) \<Rightarrow> (case bm_get kvs' name of Some x \<Rightarrow> fits lib c t x | None \<Rightarrow> \<not> required)
      | Inl _ \<Rightarrow> False) cs"
  using assms
proof (induction cs arbitrary: kvs)
  case Nil
  then show ?case by simp
next
  case (Cons nc cs)
  obtain name c where nc: "nc = (name, c)" by (cases nc)
  from Cons.prems(1) obtain t r where mt: "member_type ty name = Inr (t, r)" by (auto simp: nc)
  let ?rest = "fold_res (\<lambda>(name, c) result. bind_res (member_type ty name) (\<lambda>(t, required).
      case ml_pointer lib raw (vm_pointer c) of
        Some v \<Rightarrow> bind_res (mapping_project lib c v t) (\<lambda>x. Inr (bm_insert name x result))
      | None \<Rightarrow> if \<not> required then Inr result else wire_invalid)) cs"
  have fresh: "name \<notin> fst ` set cs" "name \<notin> fst ` set kvs" "distinct (map fst cs)" using Cons.prems(2,3) by (auto simp: nc)
  have IHfits: "\<forall>name c t r v x. (name, c) \<in> set cs \<longrightarrow> member_type ty name = Inr (t, r) \<longrightarrow> mapping_project lib c v t = Inr x \<longrightarrow> fits lib c t x"
    using Cons.prems(5) by (auto simp: nc)
  from Cons.prems(1) mt consider
      (found) v x where "mapping_project lib c v t = Inr x" "?rest (bm_insert name x kvs) = Inr kvs'"
    | (absent) "\<not> r" "?rest kvs = Inr kvs'"
    by (auto simp: nc split: option.splits if_splits)
  then show ?case
  proof cases
    case found
    have f: "fits lib c t x" using Cons.prems(5) mt found(1) by (auto simp: nc)
    have k: "fst ` set (bm_insert name x kvs) = insert name (fst ` set kvs)" by (rule keys_bm_insert)
    have "fst ` set cs \<inter> fst ` set (bm_insert name x kvs) = {}" using fresh Cons.prems(3) by (auto simp: k nc)
    from Cons.IH [OF found(2) fresh(3) this _ IHfits] Cons.prems(4) fresh f mt
    show ?thesis by (auto simp: nc k)
  next
    case absent
    have "fst ` set cs \<inter> fst ` set kvs = {}" using Cons.prems(3) by (auto simp: nc)
    from Cons.IH [OF absent(2) fresh(3) this Cons.prems(4) IHfits] fresh absent(1) mt
    show ?thesis by (auto simp: nc map_of_eq_None_iff [symmetric] split: option.splits)
  qed
qed

lemma type_check_column:
  assumes "type_check lib m ty = Inr ()" "(name, c) \<in> set (vm_columns m)"
  shows "\<exists>t r. member_type ty name = Inr (t, r) \<and> type_check lib c t = Inr ()"
proof -
  have each: "\<exists>u. f (name, c) u = Inr ()" if "fold_res f (vm_columns m) () = Inr ()" for f :: "string \<times> value_mapping \<Rightarrow> unit \<Rightarrow> unit wire_result"
    using fold_res_each [OF that assms(2)] by (metis old.unit.exhaust)
  have ne: "vm_columns m \<noteq> []" using assms(2) by auto
  show ?thesis
  proof (cases ty)
    case (VtRecord ps)
    with assms(1) ne show ?thesis
      by (auto simp: type_check.simps [of lib m] member_type_def split: if_splits dest!: each)
  next
    case (VtObject ps)
    with assms(1) ne obtain t where "map_of ps name = Some t" "type_check lib c t = Inr ()"
      by (auto simp: type_check.simps [of lib m] split: if_splits dest!: each)
    with VtObject show ?thesis by (simp add: member_type_def exI [where x = True])
  qed (use assms(1) ne in \<open>auto simp: type_check.simps [of lib m]\<close>)
qed

lemma mapping_project_fits:
  "mapping_project lib m raw ty = Inr out \<Longrightarrow> type_check lib m ty = Inr () \<Longrightarrow> vm_wf m \<Longrightarrow> mapping_lib_ok lib \<Longrightarrow> fits lib m ty out"
proof (induction m arbitrary: raw ty out rule: measure_induct_rule [where f = size])
  case (less m)
  show ?case
  proof (cases "vm_columns m = []")
    case True
    with less.prems show ?thesis
      by (auto simp: mapping_project.simps [of lib m] type_check.simps [of lib m] fits.simps [of lib m] intro: conversion_apply_fits split: if_splits)
  next
    case False
    from less.prems(1) False obtain kvs where kvs: "fold_res (\<lambda>(name, c) result. bind_res (member_type ty name) (\<lambda>(t, required).
      case ml_pointer lib raw (vm_pointer c) of
        Some v \<Rightarrow> bind_res (mapping_project lib c v t) (\<lambda>x. Inr (bm_insert name x result))
      | None \<Rightarrow> if \<not> required then Inr result else wire_invalid)) (vm_columns m) [] = Inr kvs" and out: "out = JObject kvs"
      by (auto simp: mapping_project.simps [of lib m] split: json.splits)
    have wf: "distinct (map fst (vm_columns m))" "\<And>name c. (name, c) \<in> set (vm_columns m) \<Longrightarrow> vm_wf c"
      using less.prems(3) by (auto simp: vm_wf.simps [of m] list_all_iff)
    have "fits lib c t x" if "(name, c) \<in> set (vm_columns m)" "member_type ty name = Inr (t, r)" "mapping_project lib c v t = Inr x" for name c t r v x
      using less.IH [OF size_column [OF that(1)] that(3) _ wf(2) [OF that(1)] less.prems(4)] type_check_column [OF less.prems(2) that(1)] that(2)
      by simp
    then have "\<forall>name c t r v x. (name, c) \<in> set (vm_columns m) \<longrightarrow> member_type ty name = Inr (t, r) \<longrightarrow> mapping_project lib c v t = Inr x \<longrightarrow> fits lib c t x"
      by blast
    from project_columns [OF kvs wf(1) _ _ this] False out show ?thesis by (simp add: fits.simps [of lib m])
  qed
qed

section \<open>Flags\<close>

interpretation flag: fresh_scan flag_check
    "\<lambda>f. \<exists>i<63. parse_unsigned u64_max (fst f) = Some (2 ^ i)" snd set
proof
  fix f names t assume "flag_check f names = Inr t"
  then obtain mask where m: "parse_unsigned u64_max (fst f) = Some mask" "is_power_of_two mask" "mask \<le> i64_max_nat"
    and n: "snd f \<notin> set names" "t = bs_insert (snd f) names"
    by (cases f) (auto simp: flag_check_def split: if_splits)
  from m(2) obtain i where i: "mask = 2 ^ i" by (auto simp: is_power_of_two_def list_ex_iff)
  have "i < 63"
  proof (rule ccontr)
    assume "\<not> i < 63"
    then have "(2::nat) ^ 63 \<le> 2 ^ i" by (intro power_increasing) auto
    with m(3) i show False by (simp add: i64_max_nat_def)
  qed
  with m(1) i n show "(\<exists>i<63. parse_unsigned u64_max (fst f) = Some (2 ^ i)) \<and> snd f \<notin> set names \<and> set t = insert (snd f) (set names)"
    by auto
qed

lemma flag_mask_power:
  assumes "i < 63" "parse_unsigned u64_max s = Some (2 ^ i)"
  shows "flag_mask s = 2 ^ i"
  using assms by (simp add: flag_mask_def)

lemma bit_flags_known: "bit (foldl (\<lambda>k (s, _). or k (flag_mask s)) k flags) j \<longleftrightarrow> bit k j \<or> (\<exists>f \<in> set flags. bit (flag_mask (fst f)) j)"
  by (induction flags arbitrary: k) (auto simp: bit_or_iff case_prod_beta)

lemma bitmask_reversible:
  assumes flags: "\<forall>f \<in> set flags. \<exists>i<63. parse_unsigned u64_max (fst f) = Some (2 ^ i)" "distinct (map snd flags)"
    and known: "and n (not (flags_known flags)) = 0" and eq: "set (flags_set n flags) = set (flags_set m flags)"
    and j: "j < 64" "bit n j"
  shows "bit m j"
proof -
  have "\<not> bit (and n (not (flags_known flags))) j" by (simp add: known)
  with j have "bit (flags_known flags) j" by (simp add: bit_and_iff bit_not_iff_eq)
  then obtain f where f: "f \<in> set flags" "bit (flag_mask (fst f)) j" by (auto simp: flags_known_def bit_flags_known)
  with flags(1) obtain i where i: "i < 63" "parse_unsigned u64_max (fst f) = Some (2 ^ i)" by blast
  have mask: "flag_mask (fst f) = 2 ^ j" using flag_mask_power [OF i] f(2) by (simp add: bit_exp_iff)
  have set_iff: "snd g \<in> set (flags_set x flags) \<longleftrightarrow> and x (flag_mask (fst g)) \<noteq> 0" if "g \<in> set flags" for g x
    using that flags(2) by (auto simp: flags_set_def distinct_map inj_on_def)
  have "and n (flag_mask (fst f)) \<noteq> 0" using j mask by (simp add: and_exp_eq_0_iff_not_bit)
  then have "snd f \<in> set (flags_set n flags)" using set_iff [OF f(1)] by blast
  then have "and m (flag_mask (fst f)) \<noteq> 0" using set_iff [OF f(1)] eq by blast
  then show ?thesis using mask by (simp add: and_exp_eq_0_iff_not_bit)
qed

lemma bitmask_injective:
  assumes "conversion_validate (CBitmask flags) = Inr ()" "bitmask_names flags r = Inr out" "bitmask_names flags s = Inr out"
  shows "raw_integer r = raw_integer s"
proof -
  obtain u where "fold_res flag_check flags [] = Inr u"
    using assms(1) by (auto simp: conversion_validate_def split: if_splits)
  from flag.scan_sound [OF this] have flags: "\<forall>f \<in> set flags. \<exists>i<63. parse_unsigned u64_max (fst f) = Some (2 ^ i)"
    "distinct (map snd flags)" by (auto simp: list_all_iff)
  obtain i where i: "raw_integer r = Inr i" "0 \<le> i" "and (word_of_int i) (not (flags_known flags)) = 0"
    "out = JArray (map JString (sort (flags_set (word_of_int i) flags)))" using bitmask_names_Inr [OF assms(2)] by blast
  obtain k where k: "raw_integer s = Inr k" "0 \<le> k" "and (word_of_int k) (not (flags_known flags)) = 0"
    "out = JArray (map JString (sort (flags_set (word_of_int k) flags)))" using bitmask_names_Inr [OF assms(3)] by blast
  have "map JString (sort (flags_set (word_of_int i) flags)) = map JString (sort (flags_set (word_of_int k) flags))"
    using i(4) k(4) by simp
  then have "sort (flags_set (word_of_int i) flags) = sort (flags_set (word_of_int k) flags)"
    by (simp add: inj_map_eq_map inj_def)
  then have e: "set (flags_set (word_of_int i) flags) = set (flags_set (word_of_int k) flags)" by (metis set_sort)
  have "(word_of_int i :: u64) = word_of_int k"
  proof (rule bit_word_eqI)
    fix j assume "j < LENGTH(64)"
    then show "bit (word_of_int i :: u64) j = bit (word_of_int k :: u64) j"
      using bitmask_reversible [OF flags i(3) e] bitmask_reversible [OF flags k(3) e [symmetric]] by auto
  qed
  with word_of_int_i64_inject raw_integer_range i(1) k(1) show ?thesis by metis
qed

section \<open>Properties\<close>

definition raw_unsigned :: "json \<Rightarrow> nat option" where
  "raw_unsigned raw = (case raw of JString s \<Rightarrow> parse_unsigned u64_max s | v \<Rightarrow> as_u64 v)"

lemma raw_unsigned_range: "raw_unsigned raw = Some n \<Longrightarrow> n \<le> u64_max"
  by (cases raw rule: as_u64.cases) (auto simp: raw_unsigned_def parse_unsigned_def Let_def split: if_splits option.splits)

lemma exact_quotient: "q \<noteq> 0 \<Longrightarrow> (a mod q = 0 \<and> P (a div q)) \<longleftrightarrow> (\<exists>v. a = q * v \<and> P v)" for a q :: nat
  by auto

text \<open>C31: unit and flag conversions lose nothing. Scaling by a 64-bit numerator succeeds exactly when the quotient is a
  whole number that fits the signed 64-bit range, and then gives that number; the 128-bit product cannot overflow.
  Decoding a bit mask to flag names is injective: two inputs with the same names are the same number.\<close>

theorem wire_conversions_exact:
  assumes "p \<le> u64_max"
  shows "(conversion_apply lib (CScale p q) raw = Inr out \<longleftrightarrow> p \<noteq> 0 \<and> q \<noteq> 0
      \<and> (\<exists>n v. raw_unsigned raw = Some n \<and> n * p = q * v \<and> in_i64 (int v) \<and> out = JNumber (JInt (int v))))
    \<and> (conversion_apply lib (CBitmask flags) r = Inr names \<longrightarrow> conversion_apply lib (CBitmask flags) s = Inr names \<longrightarrow>
        raw_integer r = raw_integer s)"
proof -
  have fit: "n * p < 2 ^ 128" if "raw_unsigned raw = Some n" for n
  proof -
    have "n * p \<le> u64_max * u64_max" using raw_unsigned_range [OF that] assms by (rule mult_le_mono)
    also have "\<dots> < 2 ^ 128" by (simp add: u64_max_def)
    finally show ?thesis .
  qed
  have "scale_value p q raw = Inr out \<longleftrightarrow> (\<exists>n v. raw_unsigned raw = Some n \<and> n * p = q * v \<and> in_i64 (int v) \<and> out = JNumber (JInt (int v)))"
    if "q \<noteq> 0"
  proof (cases "raw_unsigned raw")
    case None
    then show ?thesis unfolding scale_value_Inr raw_unsigned_def [symmetric] by simp
  next
    case (Some n)
    have "scale_value p q raw = Inr out \<longleftrightarrow> n * p mod q = 0 \<and> in_i64 (int (n * p div q)) \<and> out = JNumber (JInt (int (n * p div q)))"
      unfolding scale_value_Inr raw_unsigned_def [symmetric] using fit [OF Some] Some by (simp del: power_numeral)
    also have "\<dots> \<longleftrightarrow> (\<exists>v. n * p = q * v \<and> in_i64 (int v) \<and> out = JNumber (JInt (int v)))"
      by (rule exact_quotient [OF that, where P = "\<lambda>v. in_i64 (int v) \<and> out = JNumber (JInt (int v))"])
    finally show ?thesis using Some by simp
  qed
  then have "conversion_apply lib (CScale p q) raw = Inr out \<longleftrightarrow> p \<noteq> 0 \<and> q \<noteq> 0
      \<and> (\<exists>n v. raw_unsigned raw = Some n \<and> n * p = q * v \<and> in_i64 (int v) \<and> out = JNumber (JInt (int v)))"
    by (auto simp: conversion_apply_def conversion_validate_def)
  moreover have "raw_integer r = raw_integer s" if "conversion_apply lib (CBitmask flags) r = Inr names"
    "conversion_apply lib (CBitmask flags) s = Inr names"
  proof -
    have "conversion_validate (CBitmask flags) = Inr ()" "bitmask_names flags r = Inr names" "bitmask_names flags s = Inr names"
      using that by (auto simp: conversion_apply_def)
    then show ?thesis by (rule bitmask_injective)
  qed
  ultimately show ?thesis by blast
qed

text \<open>A library whose documents are selected one level deep and whose numbers are integers.\<close>

definition sample_mapping_lib :: mapping_lib where
  "sample_mapping_lib = \<lparr>
     ml_pointer = (\<lambda>v p. case (v, p) of (JObject kvs, _ # key) \<Rightarrow> bm_get kvs key | _ \<Rightarrow> None),
     ml_number_of_text = (\<lambda>_. None),
     ml_number = (\<lambda>n. case n of JInt _ \<Rightarrow> Some n | JFloat _ \<Rightarrow> None),
     ml_finite = (\<lambda>n. case n of JInt _ \<Rightarrow> True | JFloat _ \<Rightarrow> False),
     ml_unix_timestamp = (\<lambda>_ _ _ _ _ _ _ _. Some 0)\<rparr>"

lemma sample_mapping_lib_ok: "mapping_lib_ok sample_mapping_lib"
  by (auto simp: mapping_lib_ok_def sample_mapping_lib_def in_i64_def i64_min_def i64_max_def split: json_number.splits)

theorem wire_conversions_exact_witness:
  "conversion_apply sample_mapping_lib (CScale 1024 1) (JString ''3'') = Inr (JNumber (JInt 3072))"
  using wire_conversions_exact [of 1024 sample_mapping_lib 1 "JString ''3''" "JNumber (JInt 3072)" "[]" "JNull" "JNull" "JNull"]
  by (simp add: raw_unsigned_def parse_unsigned_def decimal_def is_ascii_digit_def u64_max_def in_i64_def i64_min_def i64_max_def)


definition sample_mapping :: value_mapping where
  "sample_mapping = ValueMapping [] CIdentity
     [(''size'', ValueMapping ''/Size'' (CScale 1024 1) []), (''vendor'', ValueMapping ''/Vendor'' (CEnum [(''1'', JString ''acme'')]) [])]"

definition sample_destination :: value_type where
  "sample_destination = VtRecord [(''size'', VtInteger, True), (''vendor'', VtString 16 False, False)]"

lemma sample_mapping_checked: "mapping_validate sample_mapping = Inr ()"
  by (simp add: mapping_validate_def sample_mapping_def mapping_check.simps pointer_ok_def conversion_validate_def enum_entry_ok_def
      property_name_def starts_lower_def lower_name_def is_ascii_digit_def has_control_def str_chars_def char_is_control_def utf8_decode.simps)

lemma sample_destination_checked: "wire_vt_validate sample_destination = Inr ()"
  by (simp add: wire_vt_validate_def sample_destination_def wire_vt_check.simps
      property_name_def starts_lower_def lower_name_def is_ascii_digit_def)

lemma sample_mapping_typed: "type_check sample_mapping_lib sample_mapping sample_destination = Inr ()"
  by (simp add: sample_mapping_def sample_destination_def type_check.simps conversion_type_ok_def type_accepts_def bm_values_def
      char_count_def str_chars_def utf8_decode.simps)

lemma sample_mapping_projects:
  "mapping_project sample_mapping_lib sample_mapping (JObject [(''Size'', JNumber (JInt 2))]) sample_destination
    = Inr (JObject [(''size'', JNumber (JInt 2048))])"
  by (simp add: sample_mapping_def sample_destination_def mapping_project.simps member_type_def sample_mapping_lib_def
      conversion_apply_def conversion_validate_def scale_value_def checked_mul_u128_def u64_max_def
      in_i64_def i64_min_def i64_max_def)


end
