(* ===== verification/Wire_Native_System.thy ===== *)
theory Wire_Native_System
  imports Wire_Mapping Resource_Base
begin

text \<open>
  The closed reads of security, accounts, certificates and updates, \<^verbatim>\<open>crates/agent-wire/src/native_collection/system.rs\<close>, with
  the budget of raw rows, identities and budgets of \<^verbatim>\<open>native_collection.rs\<close> that they use. A row is a map from property
  names to JSON values. The record \<open>native_lib\<close> holds \<^verbatim>\<open>Uuid::parse_str\<close> and its \<^verbatim>\<open>to_string\<close>, and the comparisons of
  floating point numbers: \<open>nl_percent\<close> is a number from 0 to 100, \<open>nl_real32\<close> a number in the range of \<^verbatim>\<open>f32\<close>.
\<close>

type_synonym native_row = "(string, json) btree_map"

record native_lib =
  nl_mapping :: mapping_lib
  nl_percent :: "json_number \<Rightarrow> bool"
  nl_real32 :: "json_number \<Rightarrow> bool"
  nl_uuid_parse :: "string \<Rightarrow> uuid option"
  nl_uuid_str :: "uuid \<Rightarrow> string"

datatype task_platform = TaskWindows | TaskMacos
datatype execution_identity = IdentitySystem | IdentityLoggedInUser
datatype native_cardinality = ExactlyOne | ListOfRows

datatype native_engine = EnWindowsPerformance | EnMacosPerformance | EnWindowsSecurity | EnWindowsAccounts
  | EnWindowsCertificates | EnWindowsUpdates | EnMacosSecurity | EnMacosAccounts | EnMacosCertificates | EnMacosUpdates
  | EnWindowsWmi | EnWindowsRegistry | EnWindowsCpu | EnWindowsSoftware | EnWindowsNetwork | EnWindowsBattery
  | EnMacosHardware | EnMacosApplications | EnMacosPkgReceipts | EnMacosBrew

definition contract_version :: "native_engine \<Rightarrow> nat" where
  "contract_version e = 1"

definition native_text :: "native_row \<Rightarrow> string \<Rightarrow> string option" where
  "native_text row key = Option.bind (bm_get row key) as_str"

definition native_i64 :: "native_row \<Rightarrow> string \<Rightarrow> int option" where
  "native_i64 row key = Option.bind (bm_get row key) as_i64"

fun native_type_validate :: "native_type \<Rightarrow> nat \<Rightarrow> unit wire_result" where
  "native_type_validate (NArray items) depth = (if depth > 4 then wire_invalid else native_type_validate items (depth + 1))"
| "native_type_validate _ depth = (if depth > 4 then wire_invalid else Inr ())"

section \<open>Rows\<close>

definition secret_names :: "string list" where
  "secret_names = [''privatekey'', ''privatekeypem'', ''privatekeyder'', ''password'', ''passwordhash'', ''hash'', ''ntlmhash'',
     ''lmhash'', ''nthash'', ''der'', ''certificateder'', ''pfx'', ''pkcs12'', ''recoverykey'', ''recoverypassword'',
     ''numericalpassword'', ''bitlockerrecoverykey'', ''bitlockerrecoverypassword'', ''lapspassword'']"

definition normalized_name :: "string \<Rightarrow> string" where
  "normalized_name key = map ascii_lower_char (filter is_ascii_alphanumeric key)"

definition key_valid :: "string \<Rightarrow> bool \<Rightarrow> bool" where
  "key_valid key sensitive \<longleftrightarrow> \<not> (key = [] \<or> length key > 256 \<or> has_control key)
    \<and> (\<not> sensitive \<or> normalized_name key \<notin> set secret_names)"

text \<open>\<open>visit\<close> with its counter passed through; \<^verbatim>\<open>all\<close> stops at the first failure.\<close>

fun row_visit :: "bool \<Rightarrow> json \<Rightarrow> nat \<Rightarrow> nat \<Rightarrow> bool \<times> nat"
  and row_visit_entries :: "bool \<Rightarrow> json_map \<Rightarrow> nat \<Rightarrow> nat \<Rightarrow> bool \<times> nat"
  and row_visit_items :: "bool \<Rightarrow> json list \<Rightarrow> nat \<Rightarrow> nat \<Rightarrow> bool \<times> nat" where
  "row_visit sensitive v depth nodes =
    (let n = nodes + 1 in
     if depth > 16 \<or> n > 200000 then (False, n)
     else case v of
       JObject kvs \<Rightarrow> row_visit_entries sensitive kvs (depth + 1) n
     | JArray vs \<Rightarrow> row_visit_items sensitive vs (depth + 1) n
     | JString s \<Rightarrow> (CHR 0x00 \<notin> set s, n)
     | _ \<Rightarrow> (True, n))"
| "row_visit_entries sensitive [] depth nodes = (True, nodes)"
| "row_visit_entries sensitive ((k, v) # kvs) depth nodes =
    (if key_valid k sensitive
     then (case row_visit sensitive v depth nodes of (True, n) \<Rightarrow> row_visit_entries sensitive kvs depth n | (False, n) \<Rightarrow> (False, n))
     else (False, nodes))"
| "row_visit_items sensitive [] depth nodes = (True, nodes)"
| "row_visit_items sensitive (v # vs) depth nodes =
    (case row_visit sensitive v depth nodes of (True, n) \<Rightarrow> row_visit_items sensitive vs depth n | (False, n) \<Rightarrow> (False, n))"

declare row_visit.simps [simp del]

definition bounded_row :: "native_row \<Rightarrow> bool \<Rightarrow> bool" where
  "bounded_row row sensitive \<longleftrightarrow> fst (row_visit_entries sensitive row 1 0)"

section \<open>Identities\<close>

definition sid_parts_ok :: "string list \<Rightarrow> bool" where
  "sid_parts_ok parts \<longleftrightarrow> length parts \<ge> 2 \<and> list_all (\<lambda>p. p \<noteq> [] \<and> canonical_decimal u64_max p) parts"

definition sid_valid :: "string \<Rightarrow> bool" where
  "sid_valid s \<longleftrightarrow> length s \<le> 184 \<and> prefix ''S-1-'' s \<and> sid_parts_ok (drop 2 (str_split CHR ''-'' s))"

definition generated_uid_valid :: "native_lib \<Rightarrow> string \<Rightarrow> bool" where
  "generated_uid_valid lib s = (case nl_uuid_parse lib s of
      Some u \<Rightarrow> \<not> uuid_is_nil u \<and> nl_uuid_str lib u = s | None \<Rightarrow> False)"

definition system_identifier :: "string \<Rightarrow> bool" where
  "system_identifier s \<longleftrightarrow> s \<noteq> [] \<and> length s \<le> 255 \<and> list_all (\<lambda>b. is_ascii_alphanumeric b \<or> b \<in> set ''._-'') s"

section \<open>Queries\<close>

datatype account_selection = SelLocal | SelSelected "string btree_set"
datatype account_section = SecAccounts | SecAdministrators | SecSessions
datatype windows_certificate_store = WcsMy | WcsRoot | WcsCa | WcsTrustedPublisher
datatype macos_certificate_store = McsSystem | McsSystemRoots | McsLogin
datatype update_scan_mode = ScanLocal | ScanOnline
datatype update_section = UpScan | UpAvailable | UpInstalled | UpHistory | UpReboot
datatype macos_security_section = MsGatekeeper | MsXprotect | MsSystemExtensions | MsFilevault | MsFirewall | MsSip
  | MsHardwareEncryption | MsSecureToken | MsBootstrapToken
datatype application_permission = FullDiskAccess | Accessibility | ScreenCapture
datatype windows_application_target = WatAgent | WatSigned string string
datatype macos_application_target = MatAgent | MatSigned string string

record native_scan_evidence =
  se_mode :: update_scan_mode
  se_source :: "string option"
  se_started_at :: "int option"
  se_finished_at :: "int option"

definition scan_valid :: "native_scan_evidence \<Rightarrow> int \<Rightarrow> bool \<Rightarrow> bool" where
  "scan_valid e collected_at complete' \<longleftrightarrow>
    (case se_source e of None \<Rightarrow> True | Some s \<Rightarrow> system_identifier s)
    \<and> (case se_started_at e of None \<Rightarrow> True | Some t \<Rightarrow> t > 0 \<and> t \<le> collected_at)
    \<and> (case se_finished_at e of None \<Rightarrow> True
        | Some t \<Rightarrow> (case se_started_at e of Some s \<Rightarrow> t \<ge> s \<and> t \<le> collected_at | None \<Rightarrow> False))
    \<and> (\<not> complete' \<or> (se_source e \<noteq> None \<and> se_started_at e \<noteq> None \<and> se_finished_at e \<noteq> None))"

datatype native_system_query = SqWindowsBitlocker | SqWindowsFirewall | SqWindowsDefender | SqWindowsSecureBoot | SqWindowsJoin
  | SqWindowsAccounts account_section account_selection
  | SqWindowsCertificates windows_certificate_store bool
  | SqWindowsUpdates update_section update_scan_mode
  | SqMacosSecurity macos_security_section
  | SqMacosAccounts account_section account_selection
  | SqMacosCertificates macos_certificate_store
  | SqMacosUpdates update_section update_scan_mode
  | SqWindowsApplication windows_application_target
  | SqMacosApplication macos_application_target "application_permission list"

definition scan_mode :: "native_system_query \<Rightarrow> update_scan_mode option" where
  "scan_mode q = (case q of SqWindowsUpdates _ m \<Rightarrow> Some m | SqMacosUpdates _ m \<Rightarrow> Some m | _ \<Rightarrow> None)"

definition system_platform :: "native_system_query \<Rightarrow> task_platform" where
  "system_platform q = (case q of
      SqMacosSecurity _ \<Rightarrow> TaskMacos | SqMacosAccounts _ _ \<Rightarrow> TaskMacos | SqMacosCertificates _ \<Rightarrow> TaskMacos
    | SqMacosUpdates _ _ \<Rightarrow> TaskMacos | SqMacosApplication _ _ \<Rightarrow> TaskMacos | _ \<Rightarrow> TaskWindows)"

definition system_engine :: "native_system_query \<Rightarrow> native_engine" where
  "system_engine q = (case q of
      SqWindowsAccounts _ _ \<Rightarrow> EnWindowsAccounts | SqWindowsJoin \<Rightarrow> EnWindowsAccounts
    | SqWindowsCertificates _ _ \<Rightarrow> EnWindowsCertificates | SqWindowsUpdates _ _ \<Rightarrow> EnWindowsUpdates
    | SqMacosAccounts _ _ \<Rightarrow> EnMacosAccounts | SqMacosCertificates _ \<Rightarrow> EnMacosCertificates
    | SqMacosUpdates _ _ \<Rightarrow> EnMacosUpdates
    | SqMacosSecurity _ \<Rightarrow> EnMacosSecurity | SqMacosApplication _ _ \<Rightarrow> EnMacosSecurity
    | _ \<Rightarrow> EnWindowsSecurity)"

definition system_identity :: "native_system_query \<Rightarrow> execution_identity" where
  "system_identity q = (case q of
      SqWindowsCertificates _ user \<Rightarrow> if user then IdentityLoggedInUser else IdentitySystem
    | SqMacosCertificates store \<Rightarrow> if store = McsLogin then IdentityLoggedInUser else IdentitySystem
    | SqMacosSecurity section \<Rightarrow> if section = MsSecureToken then IdentityLoggedInUser else IdentitySystem
    | SqMacosApplication _ _ \<Rightarrow> IdentityLoggedInUser
    | _ \<Rightarrow> IdentitySystem)"

definition update_section_list :: "update_section \<Rightarrow> bool" where
  "update_section_list s \<longleftrightarrow> s \<in> {UpAvailable, UpInstalled, UpHistory}"

definition system_cardinality :: "native_system_query \<Rightarrow> native_cardinality" where
  "system_cardinality q = (if (case q of
      SqWindowsBitlocker \<Rightarrow> True | SqWindowsFirewall \<Rightarrow> True | SqWindowsAccounts _ _ \<Rightarrow> True | SqMacosAccounts _ _ \<Rightarrow> True
    | SqWindowsCertificates _ _ \<Rightarrow> True | SqMacosCertificates _ \<Rightarrow> True
    | SqMacosSecurity section \<Rightarrow> section = MsSystemExtensions
    | SqWindowsUpdates s _ \<Rightarrow> update_section_list s | SqMacosUpdates s _ \<Rightarrow> update_section_list s
    | _ \<Rightarrow> False) then ListOfRows else ExactlyOne)"

definition native_strings :: "string list \<Rightarrow> (string, native_type) btree_map" where
  "native_strings names = bm_of_list (map (\<lambda>n. (n, NString)) names)"

definition account_properties :: "account_section \<Rightarrow> string list" where
  "account_properties s = (case s of
      SecAccounts \<Rightarrow> [''id'', ''name'', ''account_type'', ''enabled'']
    | SecAdministrators \<Rightarrow> [''id'', ''member'', ''member_type'', ''resolved'']
    | SecSessions \<Rightarrow> [''id'', ''owner'', ''state''])"

definition update_properties :: "update_section \<Rightarrow> string list" where
  "update_properties s = (case s of
      UpScan \<Rightarrow> [''availability'', ''mode'', ''source'', ''coverage'']
    | UpReboot \<Rightarrow> [''state'']
    | _ \<Rightarrow> [''id'', ''title'', ''version'', ''origin'', ''state''])"

definition security_properties :: "macos_security_section \<Rightarrow> string list" where
  "security_properties s = (case s of
      MsSystemExtensions \<Rightarrow> [''id'', ''team_id'', ''bundle_id'', ''version'', ''configured'', ''running'']
    | MsGatekeeper \<Rightarrow> [''presence'', ''configured'', ''running'', ''version'']
    | MsXprotect \<Rightarrow> [''presence'', ''configured'', ''running'', ''version'']
    | MsSecureToken \<Rightarrow> [''owner'', ''state'']
    | _ \<Rightarrow> [''state''])"

definition system_strings :: "native_system_query \<Rightarrow> string list" where
  "system_strings q = (case q of
      SqWindowsBitlocker \<Rightarrow> [''id'', ''conversion'', ''protection'', ''lock'', ''algorithm'']
    | SqWindowsFirewall \<Rightarrow> [''id'', ''configured'', ''running'']
    | SqWindowsDefender \<Rightarrow> [''presence'', ''configured'', ''running'', ''mode'', ''health'', ''signature_version'']
    | SqWindowsSecureBoot \<Rightarrow> [''state'']
    | SqWindowsJoin \<Rightarrow> [''ad'', ''entra'', ''mdm'']
    | SqWindowsAccounts s _ \<Rightarrow> account_properties s
    | SqMacosAccounts s _ \<Rightarrow> account_properties s
    | SqWindowsCertificates _ _ \<Rightarrow> [''id'', ''subject'', ''issuer'', ''scope'', ''owner'', ''store'']
    | SqMacosCertificates _ \<Rightarrow> [''id'', ''subject'', ''issuer'', ''scope'', ''owner'', ''store'']
    | SqMacosSecurity s \<Rightarrow> security_properties s
    | SqWindowsUpdates s _ \<Rightarrow> update_properties s
    | SqMacosUpdates s _ \<Rightarrow> update_properties s
    | SqWindowsApplication _ \<Rightarrow> [''identity'', ''signer'', ''presence'', ''signature'', ''running'', ''health'']
    | SqMacosApplication _ _ \<Rightarrow> [''identity'', ''signer'', ''presence'', ''signature'', ''running'', ''health''])"

definition system_others :: "native_system_query \<Rightarrow> (string \<times> native_type) list" where
  "system_others q = (case q of
      SqWindowsBitlocker \<Rightarrow> [(''encrypted_percent'', NInteger)]
    | SqMacosAccounts s _ \<Rightarrow> if s = SecAccounts then [(''uid'', NInteger)] else []
    | SqWindowsCertificates _ _ \<Rightarrow> [(''not_before'', NInteger), (''not_after'', NInteger)]
    | SqMacosCertificates _ \<Rightarrow> [(''not_before'', NInteger), (''not_after'', NInteger)]
    | SqWindowsUpdates s _ \<Rightarrow> if s = UpScan then [(''scan_started_at'', NInteger), (''scan_finished_at'', NInteger)] else []
    | SqMacosUpdates s _ \<Rightarrow> if s = UpScan then [(''scan_started_at'', NInteger), (''scan_finished_at'', NInteger)] else []
    | SqMacosApplication _ _ \<Rightarrow> [(''permissions'', NArray NString)]
    | _ \<Rightarrow> [])"

definition system_properties :: "native_system_query \<Rightarrow> (string, native_type) btree_map" where
  "system_properties q = fold (\<lambda>(k, t). bm_insert k t) (system_others q) (native_strings (system_strings q))"

definition local_identity_ok :: "native_lib \<Rightarrow> task_platform \<Rightarrow> string \<Rightarrow> bool" where
  "local_identity_ok lib platform s = (if platform = TaskWindows then sid_valid s else generated_uid_valid lib s)"

definition selection_ok :: "native_lib \<Rightarrow> task_platform \<Rightarrow> account_selection \<Rightarrow> bool" where
  "selection_ok lib platform s = (case s of
      SelLocal \<Rightarrow> True
    | SelSelected ids \<Rightarrow> ids \<noteq> [] \<and> length ids \<le> 256 \<and> list_all (local_identity_ok lib platform) ids)"

definition is_ascii_uppercase :: "char \<Rightarrow> bool" where
  "is_ascii_uppercase b \<longleftrightarrow> (65::nat) \<le> of_char b \<and> of_char b \<le> (90::nat)"

definition system_validate :: "native_lib \<Rightarrow> native_system_query \<Rightarrow> unit wire_result" where
  "system_validate lib q = (if (case q of
      SqWindowsAccounts _ s \<Rightarrow> selection_ok lib (system_platform q) s
    | SqMacosAccounts _ s \<Rightarrow> selection_ok lib (system_platform q) s
    | SqWindowsApplication target \<Rightarrow> (case target of WatAgent \<Rightarrow> True
        | WatSigned service publisher \<Rightarrow> system_identifier service \<and> publisher \<noteq> [] \<and> length publisher \<le> 255 \<and> \<not> has_control publisher)
    | SqMacosApplication target permissions \<Rightarrow> length permissions \<le> 3 \<and> (case target of MatAgent \<Rightarrow> True
        | MatSigned bundle_id team_id \<Rightarrow> system_identifier bundle_id \<and> length team_id = 10
            \<and> list_all (\<lambda>b. is_ascii_uppercase b \<or> is_ascii_digit b) team_id)
    | SqWindowsUpdates section mode \<Rightarrow> mode = ScanLocal \<or> section \<in> {UpScan, UpAvailable}
    | SqMacosUpdates section mode \<Rightarrow> mode = ScanLocal \<or> section \<in> {UpScan, UpAvailable}
    | _ \<Rightarrow> True) then Inr () else wire_invalid)"

definition certificate_store :: "native_system_query \<Rightarrow> string option" where
  "certificate_store q = (case q of
      SqWindowsCertificates store _ \<Rightarrow> Some (case store of
          WcsMy \<Rightarrow> ''my'' | WcsRoot \<Rightarrow> ''root'' | WcsCa \<Rightarrow> ''ca'' | WcsTrustedPublisher \<Rightarrow> ''trusted_publisher'')
    | SqMacosCertificates store \<Rightarrow> Some (case store of
          McsSystem \<Rightarrow> ''system'' | McsSystemRoots \<Rightarrow> ''system_roots'' | McsLogin \<Rightarrow> ''login'')
    | _ \<Rightarrow> None)"

section \<open>Rows of a query\<close>

definition permission_name :: "application_permission \<Rightarrow> string" where
  "permission_name p = (case p of FullDiskAccess \<Rightarrow> ''full_disk_access'' | Accessibility \<Rightarrow> ''accessibility''
     | ScreenCapture \<Rightarrow> ''screen_capture'')"

definition split_once_fst :: "string \<Rightarrow> string option" where
  "split_once_fst s = (if CHR '':'' \<in> set s then Some (takeWhile (\<lambda>c. c \<noteq> CHR '':'') s) else None)"

definition permissions_exact :: "application_permission list \<Rightarrow> native_row \<Rightarrow> bool" where
  "permissions_exact permissions row = (case bm_get row ''permissions'' of
      Some (JArray vs) \<Rightarrow>
        (let keys = bs_of_list (List.map_filter (\<lambda>v. Option.bind (as_str v) split_once_fst) vs);
             expected = bs_of_list (map permission_name permissions)
         in keys = expected \<and> length vs = length expected)
    | _ \<Rightarrow> False)"

definition complete_row :: "native_system_query \<Rightarrow> native_row \<Rightarrow> bool" where
  "complete_row q row \<longleftrightarrow> list_all (\<lambda>(k, _). bm_get row k \<noteq> None) (system_properties q)
    \<and> (case q of SqMacosApplication _ permissions \<Rightarrow> permissions_exact permissions row | _ \<Rightarrow> True)"

definition vocab :: "(string, native_type) btree_map \<Rightarrow> native_row \<Rightarrow> string \<Rightarrow> string list \<Rightarrow> bool" where
  "vocab schema row key words \<longleftrightarrow> bm_get schema key = None \<or> (case native_text row key of None \<Rightarrow> True | Some v \<Rightarrow> v \<in> set words)"

definition row_typed :: "native_lib \<Rightarrow> (string, native_type) btree_map \<Rightarrow> native_row \<Rightarrow> bool" where
  "row_typed lib schema row \<longleftrightarrow>
    list_all (\<lambda>(k, v). case bm_get schema k of Some t \<Rightarrow> native_accepts (nl_mapping lib) t v | None \<Rightarrow> True) row"

definition lower_hex :: "char \<Rightarrow> bool" where
  "lower_hex b \<longleftrightarrow> is_ascii_digit b \<or> b \<in> set ''abcdef''"

definition certificate_row :: "native_lib \<Rightarrow> native_system_query \<Rightarrow> string \<Rightarrow> native_row \<Rightarrow> bool" where
  "certificate_row lib q store row \<longleftrightarrow>
    (let user = (system_identity q = IdentityLoggedInUser) in
     native_text row ''store'' = Some store
     \<and> native_text row ''scope'' = Some (if user then ''user'' else ''device'')
     \<and> (user \<or> native_text row ''owner'' = Some [])
     \<and> (\<not> user \<or> (case native_text row ''owner'' of Some s \<Rightarrow> local_identity_ok lib (system_platform q) s | None \<Rightarrow> False))
     \<and> (case native_text row ''id'' of Some s \<Rightarrow> length s = 64 \<and> list_all lower_hex s | None \<Rightarrow> False))"

definition account_row :: "native_lib \<Rightarrow> native_system_query \<Rightarrow> account_section \<Rightarrow> account_selection \<Rightarrow> native_row \<Rightarrow> bool" where
  "account_row lib q section' selection row \<longleftrightarrow>
    (let key = (case section' of SecAccounts \<Rightarrow> ''id'' | SecAdministrators \<Rightarrow> ''member'' | SecSessions \<Rightarrow> ''owner'');
         schema = system_properties q in
     (case native_text row key of
        Some s \<Rightarrow> local_identity_ok lib (system_platform q) s
          \<and> (case selection of SelLocal \<Rightarrow> True | SelSelected ids \<Rightarrow> s \<in> set ids)
      | None \<Rightarrow> False)
     \<and> vocab schema row ''enabled'' [''enabled'', ''disabled'', ''unknown'']
     \<and> vocab schema row ''resolved'' [''resolved'', ''unresolved''])"

definition update_row :: "native_system_query \<Rightarrow> update_section \<Rightarrow> update_scan_mode \<Rightarrow> native_row \<Rightarrow> bool" where
  "update_row q section' mode row =
    (let schema = system_properties q in
     case section' of
       UpScan \<Rightarrow> native_text row ''mode'' = Some (case mode of ScanLocal \<Rightarrow> ''local'' | ScanOnline \<Rightarrow> ''online'')
         \<and> vocab schema row ''availability'' [''available'', ''unavailable'', ''unknown'']
         \<and> vocab schema row ''coverage'' [''complete'', ''partial'', ''not_scanned'', ''unknown'']
     | UpAvailable \<Rightarrow> native_text row ''state'' = Some ''available''
     | UpInstalled \<Rightarrow> native_text row ''state'' = Some ''installed''
     | UpHistory \<Rightarrow> vocab schema row ''state'' [''installed'', ''failed'', ''unknown'']
     | UpReboot \<Rightarrow> vocab schema row ''state'' [''required'', ''not_required'', ''unknown''])"

definition application_vocab :: "native_system_query \<Rightarrow> native_row \<Rightarrow> bool" where
  "application_vocab q row \<longleftrightarrow> vocab (system_properties q) row ''health'' [''unknown'']
    \<and> vocab (system_properties q) row ''signature'' [''valid'', ''invalid'', ''unknown'']"

definition identity_row :: "(string \<times> string) option \<Rightarrow> native_row \<Rightarrow> bool" where
  "identity_row sig row = (case sig of
      None \<Rightarrow> (case native_text row ''identity'' of Some s \<Rightarrow> system_identifier s | None \<Rightarrow> False)
    | Some (identity, signer) \<Rightarrow> native_text row ''identity'' = Some identity \<and> native_text row ''signer'' = Some signer)"

definition permission_value_ok :: "application_permission list \<Rightarrow> json \<Rightarrow> bool" where
  "permission_value_ok permissions v = (case as_str v of
      Some s \<Rightarrow> list_ex (\<lambda>p. list_ex (\<lambda>a. s = permission_name p @ CHR '':'' # a) [''granted'', ''denied'', ''unknown'']) permissions
    | None \<Rightarrow> False)"

definition system_accepts_row :: "native_lib \<Rightarrow> native_system_query \<Rightarrow> native_row \<Rightarrow> bool" where
  "system_accepts_row lib q row \<longleftrightarrow>
    (let schema = system_properties q in
     bounded_row row True \<and> row_typed lib schema row
     \<and> vocab schema row ''presence'' [''present'', ''absent'', ''unknown'']
     \<and> vocab schema row ''configured'' [''enabled'', ''disabled'', ''unknown'']
     \<and> vocab schema row ''running'' [''enabled'', ''disabled'', ''unknown'']
     \<and> vocab schema row ''health'' [''healthy'', ''unhealthy'', ''passive'', ''unknown'']
     \<and> (case certificate_store q of Some store \<Rightarrow> certificate_row lib q store row | None \<Rightarrow> True)
     \<and> (case q of
          SqWindowsBitlocker \<Rightarrow>
            vocab schema row ''conversion'' [''decrypted'', ''encrypted'', ''encrypting'', ''decrypting'', ''encryption_paused'', ''decryption_paused'']
            \<and> vocab schema row ''protection'' [''unprotected'', ''protected'', ''unknown'']
            \<and> vocab schema row ''lock'' [''unlocked'', ''locked'']
            \<and> (case bm_get row ''encrypted_percent'' of None \<Rightarrow> True
                | Some v \<Rightarrow> (case as_i64 v of Some n \<Rightarrow> 0 \<le> n \<and> n \<le> 100 | None \<Rightarrow> False))
        | SqWindowsFirewall \<Rightarrow> (case native_text row ''id'' of Some s \<Rightarrow> s \<in> {''domain'', ''private'', ''public''} | None \<Rightarrow> False)
        | SqWindowsDefender \<Rightarrow> vocab schema row ''mode'' [''normal'', ''passive'', ''disabled'', ''unknown'']
        | SqWindowsJoin \<Rightarrow> list_all (\<lambda>k. vocab schema row k [''joined'', ''not_joined'', ''unknown'']) [''ad'', ''entra'', ''mdm'']
        | SqWindowsAccounts s sel \<Rightarrow> account_row lib q s sel row
        | SqMacosAccounts s sel \<Rightarrow> account_row lib q s sel row
        | SqWindowsUpdates s mode \<Rightarrow> update_row q s mode row
        | SqMacosUpdates s mode \<Rightarrow> update_row q s mode row
        | SqWindowsApplication target \<Rightarrow> application_vocab q row
            \<and> identity_row (case target of WatAgent \<Rightarrow> None | WatSigned service publisher \<Rightarrow> Some (service, publisher)) row
        | SqMacosApplication target permissions \<Rightarrow> application_vocab q row
            \<and> identity_row (case target of MatAgent \<Rightarrow> None | MatSigned bundle_id team_id \<Rightarrow> Some (bundle_id, team_id)) row
            \<and> (case bm_get row ''permissions'' of None \<Rightarrow> True
                | Some v \<Rightarrow> (case v of JArray vs \<Rightarrow> list_all (permission_value_ok permissions) vs | _ \<Rightarrow> False))
        | SqWindowsSecureBoot \<Rightarrow> vocab schema row ''state'' [''enabled'', ''disabled'', ''unknown'']
        | SqMacosSecurity s \<Rightarrow>
            if s \<in> {MsFilevault, MsFirewall, MsSip, MsHardwareEncryption, MsSecureToken, MsBootstrapToken}
            then vocab schema row ''state'' [''enabled'', ''disabled'', ''unknown''] else True
        | _ \<Rightarrow> True))"

end
