(* ===== verification/Wire_Native_Properties.thy ===== *)
theory Wire_Native_Properties
  imports Wire_Native_System
begin

text \<open>
  What a raw row may contain, and what an accepted row of a system read shows about its origin.
\<close>

section \<open>Rows\<close>

text \<open>All member names and all strings of a value.\<close>

fun json_keys :: "json \<Rightarrow> string list" and entries_keys :: "json_map \<Rightarrow> string list" and items_keys :: "json list \<Rightarrow> string list" where
  "json_keys v = (case v of JObject kvs \<Rightarrow> entries_keys kvs | JArray vs \<Rightarrow> items_keys vs | _ \<Rightarrow> [])"
| "entries_keys [] = []"
| "entries_keys ((k, v) # kvs) = k # json_keys v @ entries_keys kvs"
| "items_keys [] = []"
| "items_keys (v # vs) = json_keys v @ items_keys vs"

fun json_strings :: "json \<Rightarrow> string list" and entries_strings :: "json_map \<Rightarrow> string list" and items_strings :: "json list \<Rightarrow> string list" where
  "json_strings v = (case v of JObject kvs \<Rightarrow> entries_strings kvs | JArray vs \<Rightarrow> items_strings vs | JString s \<Rightarrow> [s] | _ \<Rightarrow> [])"
| "entries_strings [] = []"
| "entries_strings ((k, v) # kvs) = json_strings v @ entries_strings kvs"
| "items_strings [] = []"
| "items_strings (v # vs) = json_strings v @ items_strings vs"

lemmas json_contents [simp del] = json_keys.simps json_strings.simps

definition contents_ok :: "bool \<Rightarrow> string list \<Rightarrow> string list \<Rightarrow> bool" where
  "contents_ok sensitive keys strings \<longleftrightarrow> (\<forall>k \<in> set keys. key_valid k sensitive) \<and> (\<forall>s \<in> set strings. CHR 0x00 \<notin> set s)"

lemma contents_ok_simps [simp]:
  "contents_ok s [] []"
  "contents_ok s (k # ks) ts \<longleftrightarrow> key_valid k s \<and> contents_ok s ks ts"
  "contents_ok s (ks @ ks') (ts @ ts') \<longleftrightarrow> contents_ok s ks ts \<and> contents_ok s ks' ts'"
  by (auto simp: contents_ok_def)

lemma row_visit_True_iff:
  "row_visit s v d n = (True, m) \<longleftrightarrow> contents_ok s (json_keys v) (json_strings v) \<and> d + json_height v \<le> 17
    \<and> n + json_nodes v \<le> 200000 \<and> m = n + json_nodes v"
  "n \<le> 200000 \<Longrightarrow> d \<le> 17 \<Longrightarrow> row_visit_entries s kvs d n = (True, m) \<longleftrightarrow> contents_ok s (entries_keys kvs) (entries_strings kvs)
    \<and> d + entries_height kvs \<le> 17 \<and> n + entries_nodes kvs \<le> 200000 \<and> m = n + entries_nodes kvs"
  "n \<le> 200000 \<Longrightarrow> d \<le> 17 \<Longrightarrow> row_visit_items s vs d n = (True, m) \<longleftrightarrow> contents_ok s (items_keys vs) (items_strings vs)
    \<and> d + items_height vs \<le> 17 \<and> n + items_nodes vs \<le> 200000 \<and> m = n + items_nodes vs"
proof (induction s v d n and s kvs d n and s vs d n arbitrary: m and m and m rule: row_visit_row_visit_entries_row_visit_items.induct)
  case (1 sensitive v depth nodes)
  then show ?case
    by (cases v) (auto simp: row_visit.simps json_nodes.simps json_height.simps json_contents contents_ok_def Let_def)
next
  case (3 sensitive k v kvs depth nodes)
  show ?case
  proof (cases "key_valid k sensitive \<and> fst (row_visit sensitive v depth nodes)")
    case True
    then obtain x where x: "row_visit sensitive v depth nodes = (True, x)" by (metis (full_types) prod.collapse)
    with "3.IH"(1) [of x] True have v: "contents_ok sensitive (json_keys v) (json_strings v)" "depth + json_height v \<le> 17"
      "x \<le> 200000" "x = nodes + json_nodes v" by auto
    then show ?thesis using "3.IH"(2) [where m = m, OF _ x [symmetric]] True x "3.prems" by auto
  next
    case False
    then have "\<not> (key_valid k sensitive \<and> (\<exists>x. row_visit sensitive v depth nodes = (True, x)))" by auto
    with False "3.IH"(1) [of "nodes + json_nodes v"] show ?thesis by (cases "row_visit sensitive v depth nodes") auto
  qed
next
  case (5 sensitive v vs depth nodes)
  show ?case
  proof (cases "fst (row_visit sensitive v depth nodes)")
    case True
    then obtain x where x: "row_visit sensitive v depth nodes = (True, x)" by (metis (full_types) prod.collapse)
    with "5.IH"(1) [of x] have v: "contents_ok sensitive (json_keys v) (json_strings v)" "depth + json_height v \<le> 17"
      "x \<le> 200000" "x = nodes + json_nodes v" by auto
    then show ?thesis using "5.IH"(2) [where m = m, OF x [symmetric]] x "5.prems" by auto
  next
    case False
    with "5.IH"(1) [of "nodes + json_nodes v"] show ?thesis by (cases "row_visit sensitive v depth nodes") auto
  qed
qed auto

lemma bounded_row_exact:
  "bounded_row row sensitive \<longleftrightarrow> contents_ok sensitive (entries_keys row) (entries_strings row)
    \<and> entries_height row \<le> 16 \<and> entries_nodes row \<le> 200000"
proof -
  have "fst (row_visit_entries sensitive row 1 0) \<longleftrightarrow> (\<exists>n. row_visit_entries sensitive row 1 0 = (True, n))"
    by (metis (full_types) fst_conv prod.collapse)
  then show ?thesis by (auto simp: bounded_row_def row_visit_True_iff(2))
qed

section \<open>System reads\<close>

lemma system_row_parts:
  assumes "system_accepts_row lib q row"
  shows "bounded_row row True" "row_typed lib (system_properties q) row"
    "\<And>store. certificate_store q = Some store \<Longrightarrow> certificate_row lib q store row"
    "\<And>s sel. q = SqWindowsAccounts s sel \<or> q = SqMacosAccounts s sel \<Longrightarrow> account_row lib q s sel row"
  using assms by (auto simp: system_accepts_row_def Let_def split: option.splits)

text \<open>The identities a selection admits.\<close>

definition selected :: "account_selection \<Rightarrow> string \<Rightarrow> bool" where
  "selected selection s = (case selection of SelLocal \<Rightarrow> True | SelSelected ids \<Rightarrow> s \<in> set ids)"

definition account_key :: "account_section \<Rightarrow> string" where
  "account_key s = (case s of SecAccounts \<Rightarrow> ''id'' | SecAdministrators \<Rightarrow> ''member'' | SecSessions \<Rightarrow> ''owner'')"


definition sample_native_lib :: native_lib where
  "sample_native_lib = \<lparr>nl_mapping = \<lparr>ml_pointer = (\<lambda>_ _. None), ml_number_of_text = (\<lambda>_. None), ml_number = (\<lambda>_. None),
       ml_finite = (\<lambda>_. True), ml_unix_timestamp = (\<lambda>_ _ _ _ _ _ _ _. None)\<rparr>,
     nl_percent = (\<lambda>_. True), nl_real32 = (\<lambda>_. True), nl_uuid_parse = (\<lambda>_. None), nl_uuid_str = (\<lambda>_. [])\<rparr>"

definition sample_native_row :: native_row where
  "sample_native_row = [(''id'', JString ''S-1-5-21-7''), (''name'', JString ''ada'')]"

lemma sample_sid: "sid_valid ''S-1-5-21-7''"
  by (simp add: sid_valid_def sid_parts_ok_def canonical_decimal_def parse_unsigned_def decimal_def is_ascii_digit_def
      print_nat.simps u64_max_def prefix_def)
    (simp add: char_of_def bit_0)

lemma sample_row_accepted: "system_accepts_row sample_native_lib (SqWindowsAccounts SecAccounts SelLocal) sample_native_row"
proof -
  have p: "system_properties (SqWindowsAccounts SecAccounts SelLocal) =
      [(''account_type'', NString), (''enabled'', NString), (''id'', NString), (''name'', NString)]"
    by (simp add: system_properties_def system_others_def system_strings_def account_properties_def native_strings_def bm_of_list_def)
  have b: "bounded_row sample_native_row True"
    by (simp add: bounded_row_def sample_native_row_def row_visit.simps key_valid_def normalized_name_def secret_names_def
        has_control_def str_chars_def char_is_control_def is_ascii_alphanumeric_def is_ascii_alpha_def is_ascii_digit_def ascii_lower_char_def)
  show ?thesis
    by (simp add: system_accepts_row_def Let_def b p certificate_store_def vocab_def row_typed_def account_row_def)
      (simp add: sample_native_row_def native_text_def sample_sid local_identity_ok_def system_platform_def)
qed


end
