(* ===== verification/Resource_Applicability.thy ===== *)
theory Resource_Applicability
  imports Resource_Base Query_Text
begin

text \<open>
  Prerequisites and ranges of collections, \<^verbatim>\<open>crates/resource/src/applicability.rs\<close> and
  \<^verbatim>\<open>crates/resource/src/collection_scope.rs\<close>. A numeric version is the list of its four parts, compared as the array of
  the code, lexicographically; the order of options puts \<open>None\<close> first.
\<close>

record applicability =
  ap_minimum_os_version :: "string option"
  ap_minimum_build :: "nat option"
  ap_editions :: "string btree_set"
  ap_enrollments :: "string btree_set"
  ap_tools :: "(string, string) btree_map"
  ap_capabilities :: "string btree_set"

record collection_environment =
  ce_os_version :: "string option"
  ce_build :: "nat option"
  ce_edition :: "string option"
  ce_tools :: "(string, string) btree_map"

text \<open>One part of a version: digits whose number fits \<^verbatim>\<open>u32\<close>.\<close>

definition numeric_part :: "string \<Rightarrow> nat option" where
  "numeric_part part = (if part = [] \<or> \<not> list_all is_ascii_digit part then None else parse_unsigned 4294967295 part)"

definition numeric :: "string \<Rightarrow> nat list option" where
  "numeric v =
    (let parts = str_split CHR ''.'' v; ns = map numeric_part parts in
     if v = [] \<or> length v > 64 \<or> length parts > 4 \<or> None \<in> set ns then None
     else Some (map the ns @ replicate (4 - length parts) 0))"

definition ap_token :: "string \<Rightarrow> bool" where
  "ap_token v \<longleftrightarrow> v \<noteq> [] \<and> length v \<le> 128 \<and> list_all (\<lambda>b. is_ascii_alphanumeric b \<or> b \<in> set ''_-.'') v"

definition environment_validate :: "collection_environment \<Rightarrow> unit resource_result" where
  "environment_validate e =
    (if (case ce_os_version e of Some v \<Rightarrow> numeric v = None | None \<Rightarrow> False)
        \<or> (case ce_edition e of Some v \<Rightarrow> \<not> ap_token v | None \<Rightarrow> False)
        \<or> length (ce_tools e) > 16
        \<or> list_ex (\<lambda>(k, v). \<not> ap_token k \<or> numeric v = None) (ce_tools e)
     then Inl (Fail InvalidInput) else Inr ())"

definition token_set_ok :: "string btree_set \<Rightarrow> bool" where
  "token_set_ok s \<longleftrightarrow> length s \<le> 32 \<and> list_all ap_token s"

definition applicability_validate :: "applicability \<Rightarrow> unit resource_result" where
  "applicability_validate a =
    bind_res (environment_validate \<lparr>ce_os_version = ap_minimum_os_version a, ce_build = ap_minimum_build a,
        ce_edition = None, ce_tools = ap_tools a\<rparr>) (\<lambda>_.
      if list_ex (\<lambda>s. \<not> token_set_ok s) [ap_editions a, ap_enrollments a, ap_capabilities a]
      then Inl (Fail InvalidInput) else Inr ())"

definition applicability_allows :: "applicability \<Rightarrow> collection_environment \<Rightarrow> string \<Rightarrow> string btree_set \<Rightarrow> bool" where
  "applicability_allows a facts enrollment capabilities \<longleftrightarrow>
    is_ok (applicability_validate a) \<and> is_ok (environment_validate facts)
    \<and> (case ap_minimum_os_version a of None \<Rightarrow> True
        | Some v \<Rightarrow> (case ce_os_version facts of Some f \<Rightarrow> numeric f \<ge> numeric v | None \<Rightarrow> False))
    \<and> (case ap_minimum_build a of None \<Rightarrow> True
        | Some v \<Rightarrow> (case ce_build facts of Some f \<Rightarrow> f \<ge> v | None \<Rightarrow> False))
    \<and> (ap_editions a = [] \<or> (case ce_edition facts of Some f \<Rightarrow> f \<in> set (ap_editions a) | None \<Rightarrow> False))
    \<and> (ap_enrollments a = [] \<or> enrollment \<in> set (ap_enrollments a))
    \<and> list_all (\<lambda>(tool, v). case bm_get (ce_tools facts) tool of Some f \<Rightarrow> numeric f \<ge> numeric v | None \<Rightarrow> False) (ap_tools a)
    \<and> list_all (\<lambda>c. c \<in> set capabilities) (ap_capabilities a)"

section \<open>Ranges\<close>

datatype template_scope = TsDevice | TsUser string | TsSource string | TsVolume string | TsPrefix string

definition hyphenated_lower :: "string \<Rightarrow> bool" where
  "hyphenated_lower s \<longleftrightarrow> length s = 36
    \<and> list_all (\<lambda>(i, b). if i \<in> {8, 13, 18, 23} then b = CHR ''-'' else is_ascii_digit b \<or> b \<in> set ''abcdef'') (enumerate 0 s)"

definition scope_validate_executable :: "template_scope \<Rightarrow> unit resource_result" where
  "scope_validate_executable s = (case s of
      TsDevice \<Rightarrow> Inr ()
    | TsUser identity \<Rightarrow>
        if hyphenated_lower identity \<and> identity \<noteq> ''00000000-0000-0000-0000-000000000000'' then Inr ()
        else Inl (Fail InvalidInput)
    | _ \<Rightarrow> Inl (Fail InvalidInput))"

section \<open>Properties\<close>

text \<open>Evidence that shows at least as much: nothing observed is lost, and versions do not go back.\<close>

definition evidence_covers :: "collection_environment \<Rightarrow> collection_environment \<Rightarrow> bool" where
  "evidence_covers e f \<longleftrightarrow>
    (\<forall>v. ce_os_version e = Some v \<longrightarrow> (\<exists>w. ce_os_version f = Some w \<and> numeric v \<le> numeric w))
    \<and> (\<forall>v. ce_build e = Some v \<longrightarrow> (\<exists>w. ce_build f = Some w \<and> v \<le> w))
    \<and> (\<forall>v. ce_edition e = Some v \<longrightarrow> ce_edition f = Some v)
    \<and> (\<forall>t v. bm_get (ce_tools e) t = Some v \<longrightarrow> (\<exists>w. bm_get (ce_tools f) t = Some w \<and> numeric v \<le> numeric w))"


definition sample_requirements :: applicability where
  "sample_requirements = \<lparr>ap_minimum_os_version = Some ''10.0'', ap_minimum_build = None, ap_editions = [''pro''],
     ap_enrollments = [], ap_tools = [(''osquery'', ''5.9'')], ap_capabilities = []\<rparr>"

definition sample_evidence :: "string \<Rightarrow> collection_environment" where
  "sample_evidence os = \<lparr>ce_os_version = Some os, ce_build = Some 1, ce_edition = Some ''pro'', ce_tools = [(''osquery'', ''5.23.1'')]\<rparr>"

lemmas numeric_evaluations = numeric_def numeric_part_def parse_unsigned_def decimal_def is_ascii_digit_def Let_def

lemma sample_versions: "numeric ''10.0'' = Some [10, 0, 0, 0]" "numeric ''10.1'' = Some [10, 1, 0, 0]"
  "numeric ''5.9'' = Some [5, 9, 0, 0]" "numeric ''5.23.1'' = Some [5, 23, 1, 0]"
  by (simp_all add: numeric_evaluations numeral_2_eq_2)

lemma sample_evidence_valid: "environment_validate (sample_evidence ''10.0'') = Inr ()" "environment_validate (sample_evidence ''10.1'') = Inr ()"
  by (simp_all add: environment_validate_def sample_evidence_def sample_versions ap_token_def is_ascii_alphanumeric_def
      is_ascii_alpha_def is_ascii_digit_def)


end
