(* ===== verification/Resource_Script.thy ===== *)
theory Resource_Script
  imports Resource_Applicability Wire_Mapping
begin

text \<open>
  Script interfaces, \<^verbatim>\<open>crates/resource/src/script.rs\<close>: the checks of a frozen interface, literal arguments and output
  budgets. \<^verbatim>\<open>serde_json\<close> and \<^verbatim>\<open>jsonschema\<close> are the record \<open>script_lib\<close>: the length of a serialized value, the validator of a
  schema (\<open>None\<close> when the schema is not one) and the bytes of a specification. A SQL template is its canonical text; its
  placeholders and its table check go through a SQL parser (\<^verbatim>\<open>agent-wire/src/osquery.rs\<close> over \<^verbatim>\<open>sqlparser\<close>) and are the
  fields \<open>sl_sql_parameters\<close> and \<open>sl_sql_platform\<close>.
\<close>

datatype script_profile = ProfilePowerShell7 | ProfilePosixSh | ProfileBash | ProfileOsquery
datatype script_encoding = EncodingUtf8
datatype parameter_binding = PbNamed string | PbPositional nat | PbEnvironment string

datatype script_purpose = PurposeAction
  | PurposeCollection template_scope applicability "(string, value_mapping) btree_map"

record script_spec =
  ss_profile :: script_profile
  ss_sql :: "string option"
  ss_run_as :: run_as
  ss_encoding :: script_encoding
  ss_parameters :: json
  ss_bindings :: "(string, parameter_binding) btree_map"
  ss_output :: json
  ss_purpose :: script_purpose
  ss_timeout_seconds :: nat
  ss_output_bytes :: nat
  ss_max_rows :: nat

record script_lib =
  sl_json_len :: "json \<Rightarrow> nat option"
  sl_schema :: "json \<Rightarrow> (json \<Rightarrow> bool) option"
  sl_spec_bytes :: "script_spec \<Rightarrow> byte list option"
  sl_sql_parameters :: "string \<Rightarrow> string btree_set option"
  sl_sql_platform :: "string \<Rightarrow> resource_platform \<Rightarrow> bool"

abbreviation (input) invalid_input :: "'a resource_result" where
  "invalid_input \<equiv> Inl (Fail InvalidInput)"

fun as_object :: "json \<Rightarrow> json_map option" where
  "as_object (JObject kvs) = Some kvs"
| "as_object _ = None"

fun as_array :: "json \<Rightarrow> json list option" where
  "as_array (JArray vs) = Some vs"
| "as_array _ = None"

lemma size_json_member: "(k, v) \<in> set kvs \<Longrightarrow> size v < size (JObject kvs)"
  by (auto intro!: le_imp_less_Suc intro: trans_le_add2 size_list_estimation' [of "(k, v)"])

lemma size_json_item: "v \<in> set vs \<Longrightarrow> size v < size (JArray vs)"
  by (auto intro!: le_imp_less_Suc intro: size_list_estimation')

section \<open>Schemas\<close>

definition plain_keywords :: "string list" where
  "plain_keywords = [''required'', ''enum'', ''const'', ''minItems'', ''maxItems'', ''minLength'', ''maxLength'',
     ''minimum'', ''maximum'', ''title'', ''description'']"

definition type_names :: "string list" where
  "type_names = [''object'', ''array'', ''string'', ''integer'', ''boolean'', ''null'']"

definition type_keyword_ok :: "json \<Rightarrow> bool" where
  "type_keyword_ok v = (case as_str v of Some t \<Rightarrow> t \<in> set type_names | None \<Rightarrow> False)"

definition property_key_ok :: "string \<Rightarrow> bool" where
  "property_key_ok name \<longleftrightarrow> name \<noteq> [] \<and> length name \<le> 128"

lemma size_as_object: "as_object v = Some kvs \<Longrightarrow> v = JObject kvs"
  by (cases v) auto

function bounded_schema :: "json \<Rightarrow> nat \<Rightarrow> nat \<Rightarrow> nat resource_result" where
  "bounded_schema schema depth nodes =
    (let n = nodes + 1 in
     if depth > 16 \<or> n > 1024 then invalid_input
     else (case schema of
         JObject object \<Rightarrow>
           fold_res (\<lambda>(key, v) m.
             if key = ''type'' then (if \<not> type_keyword_ok v then invalid_input else Inr m)
             else if key = ''properties'' then
               (case v of
                  JObject children \<Rightarrow>
                    fold_res (\<lambda>(name, child) k. if \<not> property_key_ok name then invalid_input else bounded_schema child (depth + 1) k) children m
                | _ \<Rightarrow> invalid_input)
             else if key = ''items'' then bounded_schema v (depth + 1) m
             else if key = ''additionalProperties'' then (if v \<noteq> JBool False then invalid_input else Inr m)
             else if key \<in> set plain_keywords then Inr m
             else invalid_input) object n
       | _ \<Rightarrow> invalid_input))"
  by pat_completeness auto
termination
  by (relation "measure (\<lambda>(v, _, _). size v)") (auto dest!: size_json_member simp del: json.size)

declare bounded_schema.simps [simp del]

definition schema_check :: "script_lib \<Rightarrow> json \<Rightarrow> unit resource_result" where
  "schema_check lib v =
    bind_res (ok_or InvalidInput (sl_json_len lib v)) (\<lambda>len.
      if len > 16384 then invalid_input
      else bind_res (bounded_schema v 0 0) (\<lambda>_.
        bind_res (ok_or InvalidInput (sl_schema lib v)) (\<lambda>_. Inr ())))"

definition schema_validate :: "script_lib \<Rightarrow> json \<Rightarrow> json \<Rightarrow> nat \<Rightarrow> unit resource_result" where
  "schema_validate lib schema v limit =
    bind_res (ok_or InvalidInput (sl_json_len lib v)) (\<lambda>len.
      if len > limit then invalid_input
      else bind_res (ok_or InvalidInput (sl_schema lib schema)) (\<lambda>validator.
        if validator v then Inr () else invalid_input))"

section \<open>Bindings and purpose\<close>

definition sc_identifier :: "string \<Rightarrow> bool" where
  "sc_identifier name \<longleftrightarrow> length name \<le> 64 \<and> (case name of b # _ \<Rightarrow> is_ascii_alpha b \<or> b = CHR ''_'' | [] \<Rightarrow> False)
    \<and> list_all (\<lambda>b. is_ascii_alphanumeric b \<or> b = CHR ''_'') name"

definition binding_destination :: "script_profile \<Rightarrow> parameter_binding \<Rightarrow> string resource_result" where
  "binding_destination profile b = (case b of
      PbNamed name \<Rightarrow>
        if profile = ProfilePowerShell7 \<and> sc_identifier name then Inr (''named:'' @ to_ascii_lowercase name) else invalid_input
    | PbPositional index \<Rightarrow>
        if profile \<in> {ProfilePosixSh, ProfileBash} then Inr (''position:'' @ print_nat index) else invalid_input
    | PbEnvironment name \<Rightarrow>
        if prefix ''RSS_PARAM_'' name \<and> length name > 10 \<and> sc_identifier name then Inr (''env:'' @ to_ascii_uppercase name)
        else invalid_input)"

text \<open>One binding: the destinations and the positions so far.\<close>

definition binding_step :: "script_profile \<Rightarrow> json_map \<Rightarrow> string \<times> parameter_binding \<Rightarrow>
    string btree_set \<times> nat btree_set \<Rightarrow> (string btree_set \<times> nat btree_set) resource_result" where
  "binding_step profile props kb st = (case kb of (key, b) \<Rightarrow> case st of (destinations, positions) \<Rightarrow>
     if \<not> sc_identifier key \<or> map_of props key = None then invalid_input
     else bind_res (binding_destination profile b) (\<lambda>d.
       if d \<in> set destinations then invalid_input
       else Inr (bs_insert d destinations, case b of PbPositional i \<Rightarrow> bs_insert i positions | _ \<Rightarrow> positions)))"

definition schema_names_exact :: "json list \<Rightarrow> json_map \<Rightarrow> bool" where
  "schema_names_exact required props \<longleftrightarrow> length required = length props
    \<and> bs_of_list (List.map_filter as_str required) = bs_of_list (map fst props)"

definition bindings_check :: "script_lib \<Rightarrow> script_spec \<Rightarrow> unit resource_result" where
  "bindings_check lib spec =
    bind_res (ok_or InvalidInput (as_object (ss_parameters spec))) (\<lambda>params.
    bind_res (ok_or InvalidInput (Option.bind (map_of params ''properties'') as_object)) (\<lambda>props.
    bind_res (ok_or InvalidInput (Option.bind (map_of params ''required'') as_array)) (\<lambda>required.
      if map_of params ''type'' \<noteq> Some (JString ''object'') \<or> map_of params ''additionalProperties'' \<noteq> Some (JBool False)
         \<or> length props > 32 \<or> (ss_profile spec \<noteq> ProfileOsquery \<and> length props \<noteq> length (ss_bindings spec))
         \<or> \<not> schema_names_exact required props
      then invalid_input
      else if ss_profile spec = ProfileOsquery then
        (if ss_bindings spec \<noteq> [] then invalid_input
         else bind_res (ok_or InvalidInput (ss_sql spec)) (\<lambda>sql.
           bind_res (ok_or InvalidInput (sl_sql_parameters lib sql)) (\<lambda>names.
             if names \<noteq> bs_of_list (map fst props) then invalid_input else Inr ())))
      else bind_res (fold_res (binding_step (ss_profile spec) props) (ss_bindings spec) ([], [])) (\<lambda>(_, positions).
        if positions \<noteq> [0..<length positions mod 65536] then invalid_input else Inr ()))))"

definition field_identity :: "string \<Rightarrow> bool" where
  "field_identity key = (case str_split CHR ''.'' key of
      first # parts \<Rightarrow> length key \<le> 128 \<and> first \<in> {''device'', ''custom'', ''channel''} \<and> CHR ''.'' \<in> set key
        \<and> list_all wire_key_part parts
    | [] \<Rightarrow> False)"

definition purpose_check :: "script_spec \<Rightarrow> unit resource_result" where
  "purpose_check spec =
    (if (case ss_purpose spec of
          PurposeCollection scope ap ms \<Rightarrow>
            \<not> is_ok (applicability_validate ap) \<or> ss_run_as spec \<noteq> RunSystem \<or> scope \<noteq> TsDevice
            \<or> ms = [] \<or> length ms > 128 \<or> list_ex (\<lambda>(k, _). \<not> field_identity k) ms
            \<or> list_ex (\<lambda>(_, m). \<not> is_ok (mapping_validate m)) ms
        | PurposeAction \<Rightarrow> False)
     then invalid_input
     else if ss_profile spec = ProfileOsquery then
       (if ss_purpose spec = PurposeAction \<or> ss_sql spec = None \<or> ss_run_as spec \<noteq> RunSystem then invalid_input else Inr ())
     else if ss_sql spec \<noteq> None then invalid_input
     else Inr ())"

datatype script_definition = ScriptDefinition (scd_spec: script_spec)

definition script_new :: "script_lib \<Rightarrow> script_spec \<Rightarrow> script_definition resource_result" where
  "script_new lib spec =
    (if \<not> (1 \<le> ss_timeout_seconds spec \<and> ss_timeout_seconds spec \<le> 3600)
        \<or> \<not> (1 \<le> ss_output_bytes spec \<and> ss_output_bytes spec \<le> 16777216) \<or> ss_max_rows spec = 0
     then invalid_input
     else bind_res (schema_check lib (ss_parameters spec)) (\<lambda>_.
       bind_res (schema_check lib (ss_output spec)) (\<lambda>_.
       bind_res (bindings_check lib spec) (\<lambda>_.
       bind_res (purpose_check spec) (\<lambda>_. Inr (ScriptDefinition spec))))))"

definition script_validate_platform :: "script_lib \<Rightarrow> script_definition \<Rightarrow> resource_platform \<Rightarrow> unit resource_result" where
  "script_validate_platform lib d platform = (case (ss_profile (scd_spec d), platform) of
      (ProfilePowerShell7, PWindows) \<Rightarrow> Inr ()
    | (ProfilePosixSh, PMacOS) \<Rightarrow> Inr ()
    | (ProfileBash, PMacOS) \<Rightarrow> Inr ()
    | (ProfileOsquery, _) \<Rightarrow>
        bind_res (ok_or InvalidInput (ss_sql (scd_spec d))) (\<lambda>sql.
          if sl_sql_platform lib sql platform then Inr () else invalid_input)
    | _ \<Rightarrow> invalid_input)"

section \<open>Arguments\<close>

definition literal_ok :: "json \<Rightarrow> bool" where
  "literal_ok v = (case v of JString s \<Rightarrow> CHR 0x00 \<notin> set s | JBool _ \<Rightarrow> True | v \<Rightarrow> as_i64 v \<noteq> None)"

definition literals_check :: "json \<Rightarrow> unit resource_result" where
  "literals_check v = (case as_object v of
      Some kvs \<Rightarrow> if list_ex (\<lambda>(_, x). \<not> literal_ok x) kvs then invalid_input else Inr ()
    | None \<Rightarrow> invalid_input)"

definition validate_parameters :: "script_lib \<Rightarrow> script_definition \<Rightarrow> json \<Rightarrow> unit resource_result" where
  "validate_parameters lib d v =
    bind_res (schema_validate lib (ss_parameters (scd_spec d)) v 65536) (\<lambda>_. literals_check v)"

definition literal_text :: "json \<Rightarrow> string option" where
  "literal_text v = (case v of JString s \<Rightarrow> Some s | JBool b \<Rightarrow> Some (bool_text b) | JNumber n \<Rightarrow> Some (number_text n) | _ \<Rightarrow> None)"

type_synonym argument_state = "(nat, string) btree_map \<times> string list \<times> (string, string) btree_map"

definition argument_step :: "(string, json) btree_map \<Rightarrow> string \<times> parameter_binding \<Rightarrow> argument_state \<Rightarrow> argument_state resource_result" where
  "argument_step parameters kb st = (case kb of (name, b) \<Rightarrow> case st of (positional, arguments, environment) \<Rightarrow>
     bind_res (ok_or InvalidInput (bm_get parameters name)) (\<lambda>v.
     bind_res (ok_or InvalidInput (literal_text v)) (\<lambda>literal.
       Inr (case b of
           PbPositional i \<Rightarrow> (bm_insert i literal positional, arguments, environment)
         | PbNamed n \<Rightarrow> (positional, arguments @ [CHR ''-'' # n, literal], environment)
         | PbEnvironment n \<Rightarrow> (positional, arguments, bm_insert n literal environment)))))"

definition prepare_parameters :: "script_lib \<Rightarrow> script_definition \<Rightarrow> (string, json) btree_map \<Rightarrow>
    (string list \<times> (string, string) btree_map) resource_result" where
  "prepare_parameters lib d parameters =
    bind_res (validate_parameters lib d (JObject parameters)) (\<lambda>_.
    bind_res (fold_res (argument_step parameters) (ss_bindings (scd_spec d)) ([], [], [])) (\<lambda>(positional, arguments, environment).
      Inr (arguments @ bm_values positional, environment)))"

definition validate_fixed_parameters :: "script_lib \<Rightarrow> script_definition \<Rightarrow> json \<Rightarrow> unit resource_result" where
  "validate_fixed_parameters lib d v =
    bind_res (ok_or InvalidInput (as_object (ss_parameters (scd_spec d)))) (\<lambda>object.
    bind_res (schema_validate lib (JObject (filter (\<lambda>(k, _). k \<noteq> ''required'') object)) v 65536) (\<lambda>_. literals_check v))"

section \<open>Output\<close>

function output_structure :: "json \<Rightarrow> nat \<Rightarrow> nat \<Rightarrow> unit resource_result" where
  "output_structure v max_rows depth =
    (if depth > 16 then invalid_input
     else (case v of
         JArray vs \<Rightarrow>
           if length vs > max_rows then invalid_input
           else fold_res (\<lambda>x _. output_structure x max_rows (depth + 1)) vs ()
       | JObject kvs \<Rightarrow> fold_res (\<lambda>(_, x) _. output_structure x max_rows (depth + 1)) kvs ()
       | _ \<Rightarrow> Inr ()))"
  by pat_completeness auto
termination
  by (relation "measure (\<lambda>(v, _, _). size v)") (auto intro: size_json_member [simplified] size_json_item [simplified])

declare output_structure.simps [simp del]

definition validate_output_budget :: "script_lib \<Rightarrow> script_definition \<Rightarrow> json \<Rightarrow> unit resource_result" where
  "validate_output_budget lib d v =
    bind_res (ok_or InvalidInput (sl_json_len lib v)) (\<lambda>len.
      if len > ss_output_bytes (scd_spec d) then invalid_input
      else output_structure v (ss_max_rows (scd_spec d)) 0)"

definition validate_output :: "script_lib \<Rightarrow> script_definition \<Rightarrow> json \<Rightarrow> unit resource_result" where
  "validate_output lib d v =
    bind_res (validate_output_budget lib d v) (\<lambda>_.
    bind_res (schema_validate lib (ss_output (scd_spec d)) v (ss_output_bytes (scd_spec d))) (\<lambda>_.
      case as_array v of
        Some rows \<Rightarrow> if length rows > ss_max_rows (scd_spec d) then invalid_input else Inr ()
      | None \<Rightarrow> Inr ()))"

definition script_canonical :: "script_lib \<Rightarrow> script_definition \<Rightarrow> byte list resource_result" where
  "script_canonical lib d = or_panic (sl_spec_bytes lib (scd_spec d))"

end
