(* ===== verification/Resource_Script_Properties.thy ===== *)
theory Resource_Script_Properties
  imports Resource_Script
begin

text \<open>
  Scripts receive exactly the arguments they declare, and the walk over a schema accepts exactly the closed schemas
  within its budget.
\<close>

section \<open>Schemas\<close>

text \<open>What a keyword may hold, the schemas below it, and the size and height of a schema, each by its own recursion.\<close>

definition keyword_closed :: "string \<times> json \<Rightarrow> bool" where
  "keyword_closed kv = (case kv of (key, v) \<Rightarrow>
     if key = ''type'' then type_keyword_ok v
     else if key = ''properties'' then (case v of JObject cs \<Rightarrow> list_all (\<lambda>(n, _). property_key_ok n) cs | _ \<Rightarrow> False)
     else if key = ''additionalProperties'' then v = JBool False
     else key = ''items'' \<or> key \<in> set plain_keywords)"

definition keyword_children :: "string \<times> json \<Rightarrow> json list" where
  "keyword_children kv = (case kv of (key, v) \<Rightarrow>
     if key = ''properties'' then (case v of JObject cs \<Rightarrow> map snd cs | _ \<Rightarrow> [])
     else if key = ''items'' then [v] else [])"

lemma size_keyword_child: "c \<in> set (keyword_children kv) \<Longrightarrow> kv \<in> set kvs \<Longrightarrow> size c < size (JObject kvs)"
  by (cases kv) (auto simp: keyword_children_def simp del: json.size dest!: size_json_member split: if_splits json.splits)

function schema_closed :: "json \<Rightarrow> bool" where
  "schema_closed v = (case v of
      JObject kvs \<Rightarrow> list_all keyword_closed kvs \<and> list_all (\<lambda>kv. list_all schema_closed (keyword_children kv)) kvs
    | _ \<Rightarrow> False)"
  by pat_completeness auto
termination
  by (relation "measure size") (auto dest: size_keyword_child simp del: json.size)

function schema_nodes :: "json \<Rightarrow> nat" where
  "schema_nodes v = 1 + (case v of
      JObject kvs \<Rightarrow> sum_list (map (\<lambda>kv. sum_list (map schema_nodes (keyword_children kv))) kvs)
    | _ \<Rightarrow> 0)"
  by pat_completeness auto
termination
  by (relation "measure size") (auto dest: size_keyword_child simp del: json.size)

function schema_within :: "json \<Rightarrow> nat \<Rightarrow> bool" where
  "schema_within v depth \<longleftrightarrow> depth \<le> 16 \<and> (case v of
      JObject kvs \<Rightarrow> list_all (\<lambda>kv. list_all (\<lambda>c. schema_within c (depth + 1)) (keyword_children kv)) kvs
    | _ \<Rightarrow> True)"
  by pat_completeness auto
termination
  by (relation "measure (\<lambda>(v, _). size v)") (auto dest: size_keyword_child simp del: json.size)

declare schema_closed.simps [simp del] schema_nodes.simps [simp del] schema_within.simps [simp del]

text \<open>A loop over a running total with a limit.\<close>

lemma fold_budget:
  assumes "\<And>x s t. x \<in> set xs \<Longrightarrow> s \<le> limit \<Longrightarrow> step x s = Inr t \<longleftrightarrow> ok x \<and> t = s + weight x \<and> t \<le> limit"
    and "s \<le> (limit :: nat)"
  shows "fold_res step xs s = Inr t \<longleftrightarrow> list_all ok xs \<and> t = s + sum_list (map weight xs) \<and> t \<le> limit"
  using assms
proof (induction xs arbitrary: s)
  case Nil
  then show ?case by auto
next
  case (Cons x xs)
  have IH: "fold_res step xs u = Inr t \<longleftrightarrow> list_all ok xs \<and> t = u + sum_list (map weight xs) \<and> t \<le> limit" if "u \<le> limit" for u
    using Cons.IH [OF _ that] Cons.prems(1) by auto
  have "fold_res step (x # xs) s = Inr t \<longleftrightarrow> (\<exists>u. step x s = Inr u \<and> fold_res step xs u = Inr t)" by auto
  also have "\<dots> \<longleftrightarrow> (\<exists>u. ok x \<and> u = s + weight x \<and> u \<le> limit \<and> fold_res step xs u = Inr t)"
    using Cons.prems by auto
  also have "\<dots> \<longleftrightarrow> ok x \<and> s + weight x \<le> limit \<and> fold_res step xs (s + weight x) = Inr t" by blast
  also have "\<dots> \<longleftrightarrow> ok x \<and> list_all ok xs \<and> t = s + weight x + sum_list (map weight xs) \<and> t \<le> limit"
    using IH by auto
  finally show ?case by (auto simp: add.assoc)
qed

lemma bounded_schema_exact:
  "bounded_schema v depth nodes = Inr n \<longleftrightarrow> schema_closed v \<and> schema_within v depth \<and> n = nodes + schema_nodes v \<and> n \<le> 1024"
proof (induction v arbitrary: depth nodes n rule: measure_induct_rule [where f = size])
  case (less v)
  show ?case
  proof (cases v)
    case (JObject kvs)
    let ?ok = "\<lambda>kv. keyword_closed kv \<and> list_all schema_closed (keyword_children kv) \<and> list_all (\<lambda>c. schema_within c (depth + 1)) (keyword_children kv)"
    let ?weight = "\<lambda>kv. sum_list (map schema_nodes (keyword_children kv))"
    let ?child = "\<lambda>(name, child) k. if \<not> property_key_ok name then invalid_input else bounded_schema child (depth + 1) k"
    let ?step = "\<lambda>(key, v) m.
             if key = ''type'' then (if \<not> type_keyword_ok v then invalid_input else Inr m)
             else if key = ''properties'' then (case v of JObject children \<Rightarrow> fold_res ?child children m | _ \<Rightarrow> invalid_input)
             else if key = ''items'' then bounded_schema v (depth + 1) m
             else if key = ''additionalProperties'' then (if v \<noteq> JBool False then invalid_input else Inr m)
             else if key \<in> set plain_keywords then Inr m
             else invalid_input"
    have step: "?step kv s = Inr t \<longleftrightarrow> ?ok kv \<and> t = s + ?weight kv \<and> t \<le> 1024" if kv: "kv \<in> set kvs" and s: "s \<le> 1024" for kv s t
    proof -
      obtain key x where e: "kv = (key, x)" by (cases kv)
      consider "key = ''properties''" | "key = ''items''" | "key \<noteq> ''properties''" "key \<noteq> ''items''" by blast
      then show ?thesis
      proof cases
        case 1
        show ?thesis
        proof (cases x)
          case (JObject cs)
          have child: "?child nc s = Inr t \<longleftrightarrow> (property_key_ok (fst nc) \<and> schema_closed (snd nc) \<and> schema_within (snd nc) (depth + 1)) \<and> t = s + schema_nodes (snd nc) \<and> t \<le> 1024"
            if "nc \<in> set cs" for nc s t
          proof -
            have "size (snd nc) < size v"
              using size_keyword_child [of "snd nc" kv kvs] kv that \<open>v = JObject kvs\<close> JObject 1 e by (auto simp: keyword_children_def simp del: json.size)
            from less.IH [OF this] show ?thesis by (cases nc) auto
          qed
          have "fold_res ?child cs s = Inr t \<longleftrightarrow> list_all (\<lambda>nc. property_key_ok (fst nc) \<and> schema_closed (snd nc) \<and> schema_within (snd nc) (depth + 1)) cs
              \<and> t = s + sum_list (map (\<lambda>nc. schema_nodes (snd nc)) cs) \<and> t \<le> 1024"
            by (rule fold_budget) (use child s in auto)
          then show ?thesis using 1 JObject
            by (auto simp: e keyword_closed_def keyword_children_def list_all_iff case_prod_beta comp_def)
        qed (use 1 in \<open>simp_all add: e keyword_closed_def keyword_children_def\<close>)
      next
        case 2
        have "size x < size v"
          using size_keyword_child [of x kv kvs] kv JObject 2 e by (simp add: keyword_children_def del: json.size)
        from less.IH [OF this] 2 show ?thesis by (auto simp: e keyword_closed_def keyword_children_def)
      next
        case 3
        then show ?thesis using s by (auto simp: e keyword_closed_def keyword_children_def)
      qed
    qed
    have run: "nodes + 1 \<le> 1024 \<Longrightarrow> fold_res ?step kvs (nodes + 1) = Inr n \<longleftrightarrow> list_all ?ok kvs \<and> n = nodes + 1 + sum_list (map ?weight kvs) \<and> n \<le> 1024"
      by (rule fold_budget) (use step in auto)
    have "bounded_schema v depth nodes = Inr n \<longleftrightarrow> depth \<le> 16 \<and> nodes + 1 \<le> 1024 \<and> fold_res ?step kvs (nodes + 1) = Inr n"
      by (simp add: JObject bounded_schema.simps [of "JObject kvs"] Let_def)
    also have "\<dots> \<longleftrightarrow> depth \<le> 16 \<and> list_all ?ok kvs \<and> n = nodes + 1 + sum_list (map ?weight kvs) \<and> n \<le> 1024"
      using run by auto
    finally show ?thesis
      by (auto simp: JObject schema_closed.simps [of "JObject kvs"] schema_within.simps [of "JObject kvs"] schema_nodes.simps [of "JObject kvs"] list_all_iff)
  qed (simp_all add: bounded_schema.simps schema_closed.simps)
qed

text \<open>C39: the schemas a script may freeze are exactly the closed ones within the budget. The walk with its early exits and
  its shared counter accepts a schema precisely when every keyword is one of the closed list with an admissible value, no
  schema is nested deeper than 16 levels and there are at most 1024 of them; the counter it returns is their number.\<close>

theorem script_schema_exact:
  "bounded_schema schema 0 0 = Inr n \<longleftrightarrow> schema_closed schema \<and> schema_within schema 0 \<and> n = schema_nodes schema \<and> n \<le> 1024"
  by (simp add: bounded_schema_exact)

section \<open>Bindings\<close>

interpretation binding: fresh_scan "binding_step profile props"
    "\<lambda>kb. map_of props (fst kb) \<noteq> None \<and> binding_destination profile (snd kb) = Inr (projr (binding_destination profile (snd kb)))"
    "\<lambda>kb. projr (binding_destination profile (snd kb))" "\<lambda>st. set (fst st)" for profile props
  by unfold_locales (auto simp: binding_step_def split: prod.splits if_splits)

lemma binding_step_Inr:
  "binding_step profile props (key, b) (ds, ps) = Inr r \<longleftrightarrow> (\<exists>d. sc_identifier key \<and> map_of props key \<noteq> None \<and>
    binding_destination profile b = Inr d \<and> d \<notin> set ds \<and>
    r = (bs_insert d ds, case b of PbPositional i \<Rightarrow> bs_insert i ps | _ \<Rightarrow> ps))"
  by (auto simp: binding_step_def)

lemma binding_positions:
  "fold_res (binding_step profile props) bs (ds, ps) = Inr (ds', ps') \<Longrightarrow> bs_wf ps \<Longrightarrow>
    bs_wf ps' \<and> set ps' = set ps \<union> {i. PbPositional i \<in> snd ` set bs}"
proof (induction bs arbitrary: ds ps)
  case Nil
  then show ?case by simp
next
  case (Cons kb bs)
  obtain key b where kb: "kb = (key, b)" by (cases kb)
  from Cons.prems(1) obtain d where "fold_res (binding_step profile props) bs
      (bs_insert d ds, case b of PbPositional i \<Rightarrow> bs_insert i ps | _ \<Rightarrow> ps) = Inr (ds', ps')"
    by (auto simp: kb binding_step_Inr)
  from Cons.IH [OF this] Cons.prems(2) show ?case by (cases b) (auto simp: kb)
qed

lemma distinct_destinations: "distinct (map (\<lambda>kb. f (snd kb)) bs) \<Longrightarrow> distinct (map snd bs)"
  by (induction bs) (auto simp: image_iff)

text \<open>An accepted script for an interpreter: its bindings are declared properties, go to different places, and the
  positions among them are the first numbers.\<close>

lemma bindings_accepted:
  assumes "bindings_check lib spec = Inr ()" "ss_profile spec \<noteq> ProfileOsquery"
  obtains params required k where "ss_parameters spec = JObject params" "map_of params ''required'' = Some (JArray required)"
    "\<forall>key \<in> fst ` set (ss_bindings spec). JString key \<in> set required"
    "distinct (map snd (ss_bindings spec))" "{i. PbPositional i \<in> snd ` set (ss_bindings spec)} = {0..<k}"
proof -
  from assms obtain params props required ds ps where p: "as_object (ss_parameters spec) = Some params"
    and r: "Option.bind (map_of params ''required'') as_array = Some required"
    and names: "schema_names_exact required props"
    and run: "fold_res (binding_step (ss_profile spec) props) (ss_bindings spec) ([], []) = Inr (ds, ps)"
    and ps: "ps = [0..<length ps mod 65536]"
    by (auto simp: bindings_check_def split: if_splits)
  from binding.scan_sound [OF run] have keys: "\<forall>kb \<in> set (ss_bindings spec). map_of props (fst kb) \<noteq> None"
    and "distinct (map snd (ss_bindings spec))" by (auto simp: list_all_iff intro: distinct_destinations)
  moreover have "JString key \<in> set required" if "key \<in> fst ` set (ss_bindings spec)" for key
  proof -
    have "key \<in> fst ` set props" using that keys by (auto simp: map_of_eq_None_iff)
    with names have "key \<in> set (List.map_filter as_str required)" by (auto simp: schema_names_exact_def bs_of_list_eq_iff)
    then show ?thesis by (auto simp: List.map_filter_def elim!: as_str.elims)
  qed
  moreover have "ss_parameters spec = JObject params" using p by (rule size_as_object)
  moreover have "map_of params ''required'' = Some (JArray required)"
    using r by (auto simp: bind_eq_Some_conv elim!: as_array.elims)
  moreover have "{i. PbPositional i \<in> snd ` set (ss_bindings spec)} = {0..<length ps mod 65536}"
    using binding_positions [OF run] ps by (metis bs_wf_Nil set_upt set_empty2 sup_bot_left empty_set)
  ultimately show thesis by (intro that) auto
qed

section \<open>Arguments\<close>

definition argument :: "(string, json) btree_map \<Rightarrow> string \<Rightarrow> string option" where
  "argument ps key = Option.bind (bm_get ps key) literal_text"

definition named_arguments :: "(string, json) btree_map \<Rightarrow> string \<times> parameter_binding \<Rightarrow> string list" where
  "named_arguments ps kb = (case snd kb of PbNamed n \<Rightarrow> [CHR ''-'' # n, the (argument ps (fst kb))] | _ \<Rightarrow> [])"

lemma argument_step_Inr:
  "argument_step ps (key, b) (pos, args, env) = Inr r \<longleftrightarrow> (\<exists>x. argument ps key = Some x \<and>
    r = (case b of PbPositional i \<Rightarrow> (bm_insert i x pos, args, env) | PbNamed n \<Rightarrow> (pos, args @ [CHR ''-'' # n, x], env)
      | PbEnvironment n \<Rightarrow> (pos, args, bm_insert n x env)))"
  by (auto simp: argument_step_def argument_def bind_eq_Some_conv)

lemma arguments_run:
  assumes "\<forall>kb \<in> set bs. argument ps (fst kb) \<noteq> None" "distinct (map snd bs)" "bm_wf pos" "bm_wf env"
  shows "\<exists>pos' env'. fold_res (argument_step ps) bs (pos, args, env) = Inr (pos', args @ concat (map (named_arguments ps) bs), env')
    \<and> bm_wf pos' \<and> bm_wf env'
    \<and> (\<forall>kb \<in> set bs. case snd kb of PbPositional i \<Rightarrow> bm_get pos' i = argument ps (fst kb)
        | PbEnvironment n \<Rightarrow> bm_get env' n = argument ps (fst kb) | PbNamed _ \<Rightarrow> True)
    \<and> (\<forall>i. PbPositional i \<notin> snd ` set bs \<longrightarrow> bm_get pos' i = bm_get pos i)
    \<and> (\<forall>n. PbEnvironment n \<notin> snd ` set bs \<longrightarrow> bm_get env' n = bm_get env n)"
  using assms
proof (induction bs arbitrary: pos args env)
  case Nil
  then show ?case by simp
next
  case (Cons kb bs)
  obtain key b where kb: "kb = (key, b)" by (cases kb)
  from Cons.prems(1) obtain x where x: "argument ps key = Some x" by (auto simp: kb)
  have rest: "\<forall>kb \<in> set bs. argument ps (fst kb) \<noteq> None" "distinct (map snd bs)" and new: "b \<notin> snd ` set bs"
    using Cons.prems by (auto simp: kb)
  show ?case
  proof (cases b)
    case (PbNamed n)
    from Cons.IH [OF rest Cons.prems(3,4), of "args @ [CHR ''-'' # n, x]"] PbNamed x show ?thesis
      by (auto simp: kb argument_step_Inr named_arguments_def)
  next
    case (PbPositional i)
    from Cons.IH [OF rest bm_wf_insert [OF Cons.prems(3)] Cons.prems(4), of i x args] PbPositional x new Cons.prems(3) show ?thesis
      by (fastforce simp: kb argument_step_Inr named_arguments_def)
  next
    case (PbEnvironment n)
    from Cons.IH [OF rest Cons.prems(3) bm_wf_insert [OF Cons.prems(4)], of args n x] PbEnvironment x new Cons.prems(4) show ?thesis
      by (fastforce simp: kb argument_step_Inr named_arguments_def)
  qed
qed

text \<open>Positions that are the first numbers give the list of their values.\<close>

lemma bm_values_positions:
  assumes "bm_wf pos" "dom (bm_get pos) = {0..<k :: nat}"
  shows "length (bm_values pos) = k \<and> (\<forall>i<k. bm_get pos i = Some (bm_values pos ! i))"
proof -
  have "bs_wf (map fst pos)" using assms(1) by (simp add: bs_wf_def bm_wf_def)
  moreover have "bs_wf [0..<k]" by (simp add: bs_wf_def sorted_wrt_upt)
  moreover have "set (map fst pos) = set [0..<k]" using assms(2) by (simp add: dom_map_of_conv_image_fst)
  ultimately have keys: "map fst pos = [0..<k]" by (rule bs_wf_eqI)
  then have len: "length pos = k" by (metis length_map length_upt minus_nat.diff_0)
  have "bm_get pos i = Some (bm_values pos ! i)" if "i < k" for i
  proof -
    have "pos ! i = (i, snd (pos ! i))" using keys that len by (metis nth_map nth_upt plus_nat.add_0 prod.collapse)
    moreover have "pos ! i \<in> set pos" using that len by simp
    ultimately have "(i, snd (pos ! i)) \<in> set pos" by metis
    with assms(1) that len show ?thesis by (simp add: bm_get_Some_iff bm_values_def)
  qed
  with len show ?thesis by (simp add: bm_values_def)
qed

lemma literal_ok_text: "literal_ok v \<Longrightarrow> literal_text v \<noteq> None"
  by (cases v rule: as_i64.cases) (auto simp: literal_ok_def literal_text_def)

text \<open>The keyword \<^verbatim>\<open>required\<close> of JSON Schema: an object without a required member is not valid.\<close>

definition schema_required_law :: "script_lib \<Rightarrow> bool" where
  "schema_required_law lib \<longleftrightarrow> (\<forall>schema required validator kvs key. sl_schema lib (JObject schema) = Some validator \<longrightarrow>
     map_of schema ''required'' = Some (JArray required) \<longrightarrow> JString key \<in> set required \<longrightarrow> validator (JObject kvs) \<longrightarrow>
     map_of kvs key \<noteq> None)"

lemma validated_arguments:
  assumes "script_new lib spec = Inr d" "ss_profile spec \<noteq> ProfileOsquery" "schema_required_law lib"
    "validate_parameters lib d (JObject ps) = Inr ()" "key \<in> fst ` set (ss_bindings spec)"
  shows "argument ps key \<noteq> None"
proof -
  have d: "d = ScriptDefinition spec" and b: "bindings_check lib spec = Inr ()"
    using assms(1) by (auto simp: script_new_def split: if_splits)
  from bindings_accepted [OF b assms(2)] obtain params required where p: "ss_parameters spec = JObject params"
    "map_of params ''required'' = Some (JArray required)" "JString key \<in> set required" using assms(5) by metis
  from assms(4) obtain validator where v: "sl_schema lib (JObject params) = Some validator" "validator (JObject ps)"
    by (auto simp: validate_parameters_def schema_validate_def d p(1) split: if_splits)
  with assms(3) p(2,3) obtain x where x: "map_of ps key = Some x" unfolding schema_required_law_def by blast
  from assms(4) have "\<forall>kv \<in> set ps. literal_ok (snd kv)"
    by (auto simp: validate_parameters_def literals_check_def list_ex_iff split: if_splits)
  with map_of_SomeD [OF x] have "literal_ok x" by force
  with x show ?thesis by (simp add: argument_def literal_ok_text)
qed

text \<open>C37: a script receives exactly its declared arguments. For an accepted script of an interpreter, validated parameters
  always prepare: the command line is the named arguments in the order of the bindings, each name followed by the literal
  of its parameter, and then the positional ones, in which the parameter bound to a position stands at that position with
  no gap and no repetition; every environment binding carries the literal of its parameter and there are no other
  variables.\<close>

theorem script_arguments_exact:
  assumes "script_new lib spec = Inr d" "ss_profile spec \<noteq> ProfileOsquery" "schema_required_law lib"
    "validate_parameters lib d (JObject ps) = Inr ()"
  shows "\<exists>positional environment.
    prepare_parameters lib d ps = Inr (concat (map (named_arguments ps) (ss_bindings spec)) @ positional, environment)
    \<and> (\<forall>kb \<in> set (ss_bindings spec). argument ps (fst kb) \<noteq> None \<and> (case snd kb of
          PbPositional i \<Rightarrow> i < length positional \<and> argument ps (fst kb) = Some (positional ! i)
        | PbEnvironment n \<Rightarrow> argument ps (fst kb) = bm_get environment n
        | PbNamed n \<Rightarrow> True))
    \<and> {i. PbPositional i \<in> snd ` set (ss_bindings spec)} = {0..<length positional}
    \<and> dom (bm_get environment) = {n. PbEnvironment n \<in> snd ` set (ss_bindings spec)}"
proof -
  let ?bs = "ss_bindings spec"
  have d: "d = ScriptDefinition spec" and b: "bindings_check lib spec = Inr ()"
    using assms(1) by (auto simp: script_new_def split: if_splits)
  obtain k where dist: "distinct (map snd ?bs)" and pos_set: "{i. PbPositional i \<in> snd ` set ?bs} = {0..<k}"
    using bindings_accepted [OF b assms(2)] by metis
  have args: "\<forall>kb \<in> set ?bs. argument ps (fst kb) \<noteq> None" using validated_arguments [OF assms] by blast
  obtain pos env where run: "fold_res (argument_step ps) ?bs ([], [], []) = Inr (pos, concat (map (named_arguments ps) ?bs), env)"
    and wf: "bm_wf pos"
    and each: "\<forall>kb \<in> set ?bs. case snd kb of PbPositional i \<Rightarrow> bm_get pos i = argument ps (fst kb)
        | PbEnvironment n \<Rightarrow> bm_get env n = argument ps (fst kb) | PbNamed _ \<Rightarrow> True"
    and other: "\<forall>i. PbPositional i \<notin> snd ` set ?bs \<longrightarrow> bm_get pos i = None" "\<forall>n. PbEnvironment n \<notin> snd ` set ?bs \<longrightarrow> bm_get env n = None"
    using arguments_run [OF args dist, of "[]" "[]" "[]"] by auto
  have positions: "bm_get pos i \<noteq> None" if "PbPositional i \<in> snd ` set ?bs" for i using each args that by force
  have "dom (bm_get pos) = {i. PbPositional i \<in> snd ` set ?bs}" unfolding dom_def
    by (rule Collect_cong) (use positions other(1) in metis)
  then have "dom (bm_get pos) = {0..<k}" unfolding pos_set .
  note values_eq = bm_values_positions [OF wf this]
  have "dom (bm_get env) = {n. PbEnvironment n \<in> snd ` set ?bs}"
  proof -
    have "bm_get env n \<noteq> None" if "PbEnvironment n \<in> snd ` set ?bs" for n using each args that by force
    with other(2) show ?thesis unfolding dom_def by (intro Collect_cong) metis
  qed
  moreover have "prepare_parameters lib d ps = Inr (concat (map (named_arguments ps) ?bs) @ bm_values pos, env)"
    using run assms(4) by (simp add: prepare_parameters_def d)
  moreover have "case snd kb of PbPositional i \<Rightarrow> i < length (bm_values pos) \<and> argument ps (fst kb) = Some (bm_values pos ! i)
        | PbEnvironment n \<Rightarrow> argument ps (fst kb) = bm_get env n | PbNamed n \<Rightarrow> True" if kb: "kb \<in> set ?bs" for kb
  proof (cases "snd kb")
    case (PbPositional i)
    then have "i < k" using kb pos_set by force
    then show ?thesis using each kb PbPositional values_eq by force
  qed (use each kb in force)+
  ultimately show ?thesis using args pos_set values_eq by blast
qed

section \<open>A shell script\<close>

definition sample_script_lib :: script_lib where
  "sample_script_lib = \<lparr>sl_json_len = (\<lambda>_. Some 100),
     sl_schema = (\<lambda>schema. Some (\<lambda>v. case (schema, v) of
        (JObject s, JObject kvs) \<Rightarrow> (case map_of s ''required'' of
            Some (JArray rs) \<Rightarrow> list_all (\<lambda>r. case as_str r of Some k \<Rightarrow> map_of kvs k \<noteq> None | None \<Rightarrow> True) rs
          | _ \<Rightarrow> True)
      | _ \<Rightarrow> True)),
     sl_spec_bytes = (\<lambda>_. Some []), sl_sql_parameters = (\<lambda>_. None), sl_sql_platform = (\<lambda>_ _. False)\<rparr>"

lemma sample_required_law: "schema_required_law sample_script_lib"
  by (fastforce simp: schema_required_law_def sample_script_lib_def list_all_iff)

definition sample_script :: script_spec where
  "sample_script = \<lparr>ss_profile = ProfilePosixSh, ss_sql = None, ss_run_as = RunSystem, ss_encoding = EncodingUtf8,
     ss_parameters = JObject [(''additionalProperties'', JBool False),
       (''properties'', JObject [(''path'', JObject []), (''size'', JObject []), (''user'', JObject [])]),
       (''required'', JArray [JString ''path'', JString ''size'', JString ''user'']), (''type'', JString ''object'')],
     ss_bindings = [(''path'', PbPositional 1), (''size'', PbPositional 0), (''user'', PbEnvironment ''RSS_PARAM_USER'')],
     ss_output = JObject [(''type'', JString ''null'')], ss_purpose = PurposeAction,
     ss_timeout_seconds = 60, ss_output_bytes = 1024, ss_max_rows = 1\<rparr>"

definition sample_parameters :: "(string, json) btree_map" where
  "sample_parameters = [(''path'', JString ''/tmp''), (''size'', JNumber (JInt 7)), (''user'', JString ''ada'')]"

lemma sample_schemas: "bounded_schema (ss_parameters sample_script) 0 0 = Inr 4" "bounded_schema (ss_output sample_script) 0 0 = Inr 1"
  by (simp_all add: sample_script_def bounded_schema.simps type_keyword_ok_def type_names_def plain_keywords_def property_key_ok_def)

lemma sample_bindings: "bindings_check sample_script_lib sample_script = Inr ()"
  by (simp add: bindings_check_def sample_script_def schema_names_exact_def List.map_filter_def bs_of_list_def binding_step_def
      binding_destination_def sc_identifier_def is_ascii_alpha_def is_ascii_alphanumeric_def is_ascii_digit_def
      print_nat.simps to_ascii_uppercase_def ascii_upper_char_def prefix_def)

lemma sample_script_accepted: "script_new sample_script_lib sample_script = Inr (ScriptDefinition sample_script)"
proof -
  have "sl_json_len sample_script_lib v = Some 100" "\<exists>f. sl_schema sample_script_lib v = Some f" for v
    by (simp_all add: sample_script_lib_def)
  then have "schema_check sample_script_lib (ss_parameters sample_script) = Inr ()" "schema_check sample_script_lib (ss_output sample_script) = Inr ()"
    by (simp_all add: schema_check_def sample_schemas)
  then show ?thesis by (simp add: script_new_def sample_bindings) (simp add: sample_script_def purpose_check_def)
qed

theorem script_arguments_exact_witness:
  "\<exists>positional environment. prepare_parameters sample_script_lib (ScriptDefinition sample_script) sample_parameters = Inr (positional, environment)
    \<and> length positional = 2"
proof -
  have "validate_parameters sample_script_lib (ScriptDefinition sample_script) (JObject sample_parameters) = Inr ()"
    by (simp add: validate_parameters_def schema_validate_def sample_script_lib_def sample_script_def sample_parameters_def
        literals_check_def literal_ok_def in_i64_def i64_min_def i64_max_def)
  moreover have "ss_profile sample_script \<noteq> ProfileOsquery" by (simp add: sample_script_def)
  moreover have "concat (map (named_arguments sample_parameters) (ss_bindings sample_script)) = []"
    by (simp add: sample_script_def named_arguments_def)
  ultimately obtain positional environment where
    "prepare_parameters sample_script_lib (ScriptDefinition sample_script) sample_parameters = Inr (positional, environment)"
    "{i. PbPositional i \<in> snd ` set (ss_bindings sample_script)} = {0..<length positional}"
    using script_arguments_exact [OF sample_script_accepted _ sample_required_law, of sample_parameters]
    by (metis append_Nil)
  moreover have "{i. PbPositional i \<in> snd ` set (ss_bindings sample_script)} = {0..<2}" by (auto simp: sample_script_def)
  ultimately show ?thesis by (metis atLeastLessThan_iff card_atLeastLessThan diff_zero)
qed

end
