(* ===== verification/Spec2Isabelle.thy ===== *)
theory Spec2Isabelle
  imports
    Mdm_Prelude Three_Valued
    Group_Limits Group_Model Group_Rule Group_Evaluation Group_Semantics Group_Paging Group_Properties
    Scope_Model Scope_Properties
    Release_Encoding Release_Model Release_Transition Release_Lifecycle Release_Properties
    Presentation Compliance Compliance_Properties Compliance_Bridge
    Policy_Schedule Policy_Schedule_Properties Policy_Self_Service Policy_Assignment Policy_Model
    Policy_Properties
    Query_Text Query_Parser Query_Parser_Properties Query_Parameters Query_Parameters_Properties Query_Cursor
    Query_Directory Query_Directory_Properties Query_Sql Query_Sql_Properties Query_Order Query_Paging Query_Properties
    Inventory_Value Inventory_Catalog Inventory_Catalog_Properties Inventory_Facts Inventory_Facts_Properties
    Inventory_Collection Inventory_Collection_Properties
    Resource_Base Resource_Software Resource_Software_Properties
    Wire_Collection Wire_Collection_Properties Wire_Mapping Wire_Mapping_Properties
    Wire_Native_System Wire_Native_Properties
    Resource_Applicability Resource_Script Resource_Script_Properties
begin

text \<open>
  \<^bold>\<open>The decision core of rss-mdm.\<close>

  rss-mdm is a device management server. Its decisions are taken by pure crates under
  \<^verbatim>\<open>src/crates\<close>, which the stores (\<^verbatim>\<open>*-postgres\<close>), services and channels call: which devices are in
  a group (\<^verbatim>\<open>group\<close>), which devices a scope selects (\<^verbatim>\<open>scope\<close>), what a policy is, when it runs and
  which version it has (\<^verbatim>\<open>policy\<close>), whether a device is compliant (\<^verbatim>\<open>compliance\<close>), how a software
  publication is carried out exactly once (\<^verbatim>\<open>software-release\<close>), how a directory is filtered, sorted and
  paged (\<^verbatim>\<open>query\<close>), what is known about a device and from which source (\<^verbatim>\<open>inventory\<close>), what software and
  scripts may be published (\<^verbatim>\<open>resource\<close>) and what an agent may report (\<^verbatim>\<open>agent-wire\<close>). This development
  models these crates, operation by operation, and proves what the callers rely on.

  \<^bold>\<open>How the parts interact.\<close> A rule of \<^verbatim>\<open>group\<close> is built from a typed dictionary and a criteria tree and
  is evaluated page by page over frozen snapshots of devices. The evaluated objects are stored as
  decision records (\<^verbatim>\<open>group-postgres/src/decisions.rs\<close>), which become the memberships that scopes
  combine and the target groups of compliance rules; a compliance rule is itself a criteria tree
  whose evaluation becomes an assessment (\<^verbatim>\<open>inventory-service/src/compliance/evaluation.rs\<close>). A policy
  names a scope and an action with a schedule; software actions refer to published content, which is a
  checked definition of \<^verbatim>\<open>resource\<close>. An agent projects the documents it reads with the mappings of
  \<^verbatim>\<open>agent-wire\<close> and sends reports over field types that \<^verbatim>\<open>inventory\<close> declares a second time; the inventory
  keeps the progress of each collection and resolves the facts of all sources into one value, which the
  groups and compliance rules read.

  \<^bold>\<open>Conventions.\<close> A fallible operation returns \<open>Inr\<close> of its value or \<open>Inl\<close> of a \<open>fault\<close>: \<open>Fail e\<close> for
  an error value of the code, \<open>Panic\<close> for a panic (\<^verbatim>\<open>unreachable!\<close>, \<^verbatim>\<open>expect\<close>, an index out of range,
  an overflow in unchecked arithmetic). The question mark operator is \<open>bind_res\<close>, a loop with early
  return is \<open>fold_res\<close>, a loop over a counter a recursive function. Strings are lists of bytes;
  characters are decoded from UTF-8 where the code looks at characters. A \<^verbatim>\<open>BTreeMap\<close> or \<^verbatim>\<open>BTreeSet\<close>
  is a strictly sorted list. Sizes and 64-bit counters are naturals or integers with the checks of
  the code written out, revisions and attempts of publications are 64-bit words. A \<^verbatim>\<open>&mut\<close> argument
  is an argument and a result.

  \<^bold>\<open>Theories.\<close>

  \<^item> \<open>Mdm_Prelude\<close>: faults and results, 64-bit arithmetic, UTF-8, and sorted maps and sets with the
    interface \<open>keyed_store\<close> and its instance \<open>bm\<close>.
  \<^item> \<open>Three_Valued\<close>: the interface of strong Kleene logic with its scanning loop and its refinement
    order, instantiated by the decisions of groups (\<open>gd\<close>), scopes (\<open>sd\<close>) and compliance (\<open>cd\<close>).
  \<^item> \<open>Group_Limits\<close> (\<^verbatim>\<open>group/src/lib.rs\<close>), \<open>Group_Model\<close> (\<^verbatim>\<open>model.rs\<close>, \<^verbatim>\<open>source.rs\<close>), \<open>Group_Rule\<close>
    (\<^verbatim>\<open>rule.rs\<close>), \<open>Group_Evaluation\<close> (\<^verbatim>\<open>evaluation.rs\<close>): the definitions. \<open>Group_Semantics\<close> and
    \<open>Group_Paging\<close>: the lemmas. \<open>Group_Properties\<close>: a page refines Kleene logic over the leaves,
    never panics, is unaffected by how unknown facts resolve once decided, reports exactly the
    leaves, respects order, tenant and budgets, and can be split anywhere.
  \<^item> \<open>Scope_Model\<close> (\<^verbatim>\<open>scope/src\<close>) and \<open>Scope_Properties\<close>: resolving a device computes the algebra of
    targets, limitations and exclusions over three-valued answers; a device is retained exactly on
    confirmed evidence; the accepted inputs, the explanations and their canonical form.
  \<^item> \<open>Release_Encoding\<close> (\<^verbatim>\<open>Encoding\<close> of \<^verbatim>\<open>identity.rs\<close>, with the interface \<open>self_delimiting\<close>),
    \<open>Release_Model\<close> (\<^verbatim>\<open>identity.rs\<close>, \<^verbatim>\<open>model.rs\<close>), \<open>Release_Transition\<close> (\<^verbatim>\<open>fingerprint.rs\<close>,
    \<^verbatim>\<open>transition.rs\<close>), \<open>Release_Lifecycle\<close> (the abstract guard and effect of each operation, steps and
    runs) and \<open>Release_Properties\<close>: transitions are exactly the guarded effects, and along every run
    the snapshot stays valid, attempts are published once and in order, an application is final, a
    withdrawal closes, replay is idempotent; encodings are injective.
  \<^item> \<open>Presentation\<close> (\<^verbatim>\<open>presentation.rs\<close>), \<open>Compliance\<close> (\<^verbatim>\<open>compliance/src\<close>), \<open>Compliance_Properties\<close>, and
    \<open>Compliance_Bridge\<close> for the step from group evaluation to assessment: statuses are confirmed and
    stable, reasons exact, aggregation reports the worst item, assessments follow evaluations and
    target groups follow stored decisions.
  \<^item> \<open>Policy_Schedule\<close> (\<^verbatim>\<open>schedule.rs\<close>) and \<open>Policy_Schedule_Properties\<close>: due and next occurrences lie
    within their bounds, intervals coalesce, scans never repeat, nothing overflows.
    \<open>Policy_Self_Service\<close> (\<^verbatim>\<open>self_service.rs\<close>), \<open>Policy_Assignment\<close> (\<^verbatim>\<open>assignment.rs\<close>, \<^verbatim>\<open>behavior.rs\<close>),
    \<open>Policy_Model\<close> (\<^verbatim>\<open>model.rs\<close>) and \<open>Policy_Properties\<close>: the history of a policy is a gapless chain
    of compare-and-set changes, its version follows its execution content, rollouts are ordered,
    parameters are exactly the declared ones.

  \<^item> \<open>Query_Text\<close>, \<open>Query_Parser\<close> (\<^verbatim>\<open>query/src/parser.rs\<close>), \<open>Query_Parameters\<close> (\<^verbatim>\<open>parameters.rs\<close>, \<^verbatim>\<open>window.rs\<close>),
    \<open>Query_Cursor\<close> (\<^verbatim>\<open>cursor.rs\<close>), \<open>Query_Directory\<close> (\<^verbatim>\<open>directory.rs\<close>) and \<open>Query_Sql\<close>
    (\<^verbatim>\<open>query-postgres/src/lib.rs\<close>): the definitions. Their \<open>_Properties\<close> theories, \<open>Ordered_Lists\<close>, \<open>Query_Order\<close>,
    \<open>Query_Paging\<close> and \<open>Query_Properties\<close>: filters print and parse back, tokens are bound to their query,
    checked queries are well typed, the SQL text means the filter and the continuation, and following the
    tokens of a directory ends and lists every matching row exactly once.
  \<^item> \<open>Inventory_Value\<close> and \<open>Inventory_Catalog\<close> (\<^verbatim>\<open>catalog.rs\<close>, \<^verbatim>\<open>source.rs\<close>, \<^verbatim>\<open>channels.rs\<close>, \<^verbatim>\<open>time_series.rs\<close>,
    \<^verbatim>\<open>telemetry.rs\<close>, \<^verbatim>\<open>retention.rs\<close>, \<^verbatim>\<open>hardware.rs\<close>, \<^verbatim>\<open>software.rs\<close>), \<open>Inventory_Facts\<close> (\<^verbatim>\<open>assets.rs\<close>, \<^verbatim>\<open>array.rs\<close>,
    \<^verbatim>\<open>collection_scope.rs\<close>) and \<open>Inventory_Collection\<close> (\<^verbatim>\<open>collected.rs\<close>, \<^verbatim>\<open>collection.rs\<close>, \<^verbatim>\<open>progress.rs\<close>, \<^verbatim>\<open>cut.rs\<close>)
    with their \<open>_Properties\<close>: extending a type keeps its values, facts resolve to the consensus of the
    preferred sources whatever their order (the interface \<open>source_resolution\<close>), summaries of lists resolve
    like the lists, progress restores from its record and reports only confirmed values.
  \<^item> \<open>Wire_Collection\<close> (\<^verbatim>\<open>agent-wire/src/collection.rs\<close>, the report of \<^verbatim>\<open>runtime.rs\<close>), \<open>Wire_Mapping\<close>
    (\<^verbatim>\<open>mapping.rs\<close>), \<open>Wire_Native_System\<close> (\<^verbatim>\<open>native_collection/system.rs\<close>) with their \<open>_Properties\<close>: protocol and
    inventory accept the same types, protocol values reach the inventory, projections are typed and
    conversions exact, reports are canonical, rows of system reads carry no secrets.
  \<^item> \<open>Resource_Base\<close> (\<^verbatim>\<open>resource/src/lib.rs\<close>, identities and artifacts), \<open>Resource_Software\<close> (\<^verbatim>\<open>software.rs\<close>,
    \<^verbatim>\<open>software/behavior.rs\<close>, \<^verbatim>\<open>software/validation.rs\<close>), \<open>Resource_Applicability\<close> (\<^verbatim>\<open>applicability.rs\<close>,
    \<^verbatim>\<open>collection_scope.rs\<close>) and \<open>Resource_Script\<close> (\<^verbatim>\<open>script.rs\<close>) with their \<open>_Properties\<close>: accepted software is
    closed, canonical, confined and fits one platform; prerequisites need evidence; scripts receive exactly
    their declared arguments; the schema walk accepts exactly the closed schemas. Loops that reject
    repetitions share the interfaces \<open>fresh_scan\<close> and \<open>unique_scan\<close> of \<open>Mdm_Prelude\<close>.

  \<^bold>\<open>Parameters.\<close> Code outside the repository enters as arguments: SHA-256 (\<open>sha\<close>, any function from
  bytes to digests), lengths and bytes of serialized JSON (\<open>json_len\<close>, \<open>serde\<close>), the calendar and time
  zone database (\<open>calendar\<close>), \<^verbatim>\<open>Uuid::parse_str\<close>, base64 and HMAC of cursors (\<open>cursor_lib\<close>), the identifiers and
  batches of the observation and time-series libraries (\<open>inventory_lib\<close>, \<open>collection_lib\<close>), Unicode case
  (\<open>software_lib\<close>), pointers and floating point numbers (\<open>mapping_lib\<close>, \<open>native_lib\<close>), JSON Schema and the SQL parser
  (\<open>script_lib\<close>). The theorems hold for every such function, or for those with the laws a theorem names; where
  a hash could collide, the statement is about the hashed bytes.

  \<^bold>\<open>Bounds and termination.\<close> Every recursive function follows data or a counter and is total. Nested recursion
  over types, mappings and schemas decreases their size; the mutually recursive filter parser decreases
  the input that is left. The counters are those of the code: 15 days back and forward for weekly
  triggers and 16 start days for windows. The one fuel, of a client that follows the tokens of a
  directory, is the number of rows plus one, which the theorem on pages shows to be enough.

  \<^bold>\<open>Not modelled.\<close> Serialization and JSON schemas of messages, SQL and transactions beyond the text of
  directory queries, HTTP and device channels, asynchronous services, generated protocol tables and seed
  catalogs. Of the pure code: the versions and lifecycle of \<^verbatim>\<open>resource\<close> and its native, agent and telemetry
  templates; the plans, results and tasks of \<^verbatim>\<open>agent-wire\<close>; \<^verbatim>\<open>device-trust\<close>, \<^verbatim>\<open>certificate\<close> and \<^verbatim>\<open>native-protection\<close>,
  which wrap cryptographic libraries; and \<^verbatim>\<open>execution-service\<close>, which is database and transport code around the
  membership resolution that feeds \<open>Scope_Model\<close>.
\<close>

end
